(* ===== verification/Hub_Prelude.thy ===== *)
theory Hub_Prelude
  imports Main "HOL-Library.List_Lexorder" "HOL-Library.Char_ord" "HOL-Library.Sublist"
begin

text \<open>
  Shared vocabulary of the sing-box hub development: the 64-bit integers of Go, the
  functions of Go's \<^verbatim>\<open>strings\<close> and \<^verbatim>\<open>strconv\<close> packages the panel uses (Go strings are
  byte strings, so they are HOL strings), keyed table rows, and the generic lemmas on
  lists that the component theories rely on.
\<close>

named_theorems i64_simps \<open>congruences of 64-bit wrap-around\<close>
named_theorems table_simps \<open>lookup after update of keyed tables\<close>

subsection \<open>64-bit integers\<close>

text \<open>Go's \<^verbatim>\<open>int64\<close> and \<^verbatim>\<open>int\<close> (64 bits on the supported platforms): two's complement.\<close>

definition i64 :: "int \<Rightarrow> int" where
  "i64 x = (x + 9223372036854775808) mod 18446744073709551616 - 9223372036854775808"

definition in_i64 :: "int \<Rightarrow> bool" where
  "in_i64 x \<longleftrightarrow> -9223372036854775808 \<le> x \<and> x < 9223372036854775808"

definition add64 :: "int \<Rightarrow> int \<Rightarrow> int" where
  "add64 a b = i64 (a + b)"

definition sub64 :: "int \<Rightarrow> int \<Rightarrow> int" where
  "sub64 a b = i64 (a - b)"

text \<open>Go's \<^verbatim>\<open>%\<close> on signed integers truncates towards zero.\<close>

definition go_mod :: "int \<Rightarrow> int \<Rightarrow> int" where
  "go_mod a b = (if 0 \<le> a then a mod b else - ((- a) mod b))"

lemma i64_id: "in_i64 x \<Longrightarrow> i64 x = x"
  by (simp add: in_i64_def i64_def)

lemma i64_range: "in_i64 (i64 x)"
proof -
  have "0 \<le> (x + 9223372036854775808) mod (18446744073709551616::int)"
    and "(x + 9223372036854775808) mod (18446744073709551616::int) < 18446744073709551616"
    by simp_all
  then show ?thesis unfolding in_i64_def i64_def by linarith
qed

lemma i64_cong: "i64 x = i64 y \<longleftrightarrow> (x - y) mod 18446744073709551616 = 0"
proof -
  have "i64 x = i64 y \<longleftrightarrow>
    (x + 9223372036854775808) mod 18446744073709551616 = (y + 9223372036854775808) mod (18446744073709551616::int)"
    by (simp add: i64_def)
  also have "\<dots> \<longleftrightarrow> (x - y) mod 18446744073709551616 = 0"
    by (simp add: mod_eq_dvd_iff mod_eq_0_iff_dvd)
  finally show ?thesis .
qed

lemma i64_diff_dvd: "(18446744073709551616::int) dvd i64 x - x"
proof -
  have "i64 x - x = (x + 9223372036854775808) mod 18446744073709551616 - (x + 9223372036854775808)"
    by (simp add: i64_def)
  also have "(18446744073709551616::int) dvd \<dots>"
    by (metis dvd_minus_mod dvd_minus_iff minus_diff_eq)
  finally show ?thesis .
qed

lemma i64_eqI: "(18446744073709551616::int) dvd x - y \<Longrightarrow> i64 x = i64 y"
  by (simp add: i64_cong mod_eq_0_iff_dvd)

lemma i64_i64 [simp]: "i64 (i64 x) = i64 x"
  by (rule i64_id) (rule i64_range)

lemma i64_add_left [simp, i64_simps]: "i64 (i64 x + y) = i64 (x + y)"
  by (rule i64_eqI) (use i64_diff_dvd [of x] in \<open>simp add: algebra_simps\<close>)

lemma i64_add_right [simp, i64_simps]: "i64 (x + i64 y) = i64 (x + y)"
  by (metis add.commute i64_add_left)

lemma i64_diff_left [simp, i64_simps]: "i64 (i64 x - y) = i64 (x - y)"
  by (metis i64_add_left diff_conv_add_uminus)

lemma i64_diff_right [simp, i64_simps]: "i64 (x - i64 y) = i64 (x - y)"
proof (rule i64_eqI)
  have "x - i64 y - (x - y) = - (i64 y - y)" by simp
  then show "(18446744073709551616::int) dvd x - i64 y - (x - y)"
    using i64_diff_dvd [of y] by (metis dvd_minus_iff)
qed

lemma i64_0 [simp]: "i64 0 = 0"
  by (simp add: i64_def)

lemma add64_id: "in_i64 (a + b) \<Longrightarrow> add64 a b = a + b"
  by (simp add: add64_def i64_id)

lemma go_mod_nonneg: "0 \<le> a \<Longrightarrow> go_mod a b = a mod b"
  by (simp add: go_mod_def)

end
