(* ===== verification/Go_Strings.thy ===== *)
theory Go_Strings
  imports Hub_Prelude
begin

text \<open>
  The parts of Go's \<^verbatim>\<open>strings\<close> and \<^verbatim>\<open>strconv\<close> packages that the panel calls, on byte
  strings: trimming, prefix and substring tests, splitting and joining, decimal numbers.
\<close>

subsection \<open>Definitions\<close>

definition HasPrefix :: "string \<Rightarrow> string \<Rightarrow> bool" where
  "HasPrefix s p = (take (length p) s = p)"

definition HasSuffix :: "string \<Rightarrow> string \<Rightarrow> bool" where
  "HasSuffix s p = HasPrefix (rev s) (rev p)"

definition TrimPrefix :: "string \<Rightarrow> string \<Rightarrow> string" where
  "TrimPrefix s p = (if HasPrefix s p then drop (length p) s else s)"

text \<open>\<^verbatim>\<open>strings.TrimRight(s, "/")\<close> and \<^verbatim>\<open>strings.Trim(s, "[]")\<close>: cutset sets of characters.\<close>

definition TrimRight :: "string \<Rightarrow> string \<Rightarrow> string" where
  "TrimRight s cutset = rev (dropWhile (\<lambda>c. c \<in> set cutset) (rev s))"

definition Trim :: "string \<Rightarrow> string \<Rightarrow> string" where
  "Trim s cutset = TrimRight (dropWhile (\<lambda>c. c \<in> set cutset) s) cutset"

text \<open>
  The UTF-8 encodings of Unicode white space, which \<^verbatim>\<open>strings.TrimSpace\<close> removes at both
  ends: the ASCII ones, U+0085, U+00A0, U+1680, U+2000 to U+200A, U+2028, U+2029, U+202F,
  U+205F and U+3000.
\<close>

definition space_encodings :: "string list" where
  "space_encodings =
     [[CHR 0x09], [CHR 0x0A], [CHR 0x0B], [CHR 0x0C], [CHR 0x0D], [CHR 0x20],
      [CHR 0xC2, CHR 0x85], [CHR 0xC2, CHR 0xA0], [CHR 0xE1, CHR 0x9A, CHR 0x80],
      [CHR 0xE2, CHR 0x80, CHR 0x80], [CHR 0xE2, CHR 0x80, CHR 0x81],
      [CHR 0xE2, CHR 0x80, CHR 0x82], [CHR 0xE2, CHR 0x80, CHR 0x83],
      [CHR 0xE2, CHR 0x80, CHR 0x84], [CHR 0xE2, CHR 0x80, CHR 0x85],
      [CHR 0xE2, CHR 0x80, CHR 0x86], [CHR 0xE2, CHR 0x80, CHR 0x87],
      [CHR 0xE2, CHR 0x80, CHR 0x88], [CHR 0xE2, CHR 0x80, CHR 0x89],
      [CHR 0xE2, CHR 0x80, CHR 0x8A], [CHR 0xE2, CHR 0x80, CHR 0xA8],
      [CHR 0xE2, CHR 0x80, CHR 0xA9], [CHR 0xE2, CHR 0x80, CHR 0xAF],
      [CHR 0xE2, CHR 0x81, CHR 0x9F], [CHR 0xE3, CHR 0x80, CHR 0x80]]"

text \<open>Repeatedly removes one of the encodings from the front.\<close>

fun trim_front :: "string list \<Rightarrow> string \<Rightarrow> string" where
  "trim_front encs [] = []"
| "trim_front encs (c # s) =
     (case find (\<lambda>e. e \<noteq> [] \<and> HasPrefix (c # s) e) encs of
        None \<Rightarrow> c # s
      | Some e \<Rightarrow> trim_front encs (drop (length e - 1) s))"

definition TrimSpace :: "string \<Rightarrow> string" where
  "TrimSpace s =
     rev (trim_front (map rev space_encodings) (rev (trim_front space_encodings s)))"

fun Contains :: "string \<Rightarrow> string \<Rightarrow> bool" where
  "Contains [] p = (p = [])"
| "Contains (c # s) p = (HasPrefix (c # s) p \<or> Contains s p)"

definition ContainsAny :: "string \<Rightarrow> string \<Rightarrow> bool" where
  "ContainsAny s chars = list_ex (\<lambda>c. c \<in> set chars) s"

text \<open>\<^verbatim>\<open>strings.Split\<close> with a one-byte separator: always at least one part.\<close>

fun Split :: "string \<Rightarrow> char \<Rightarrow> string list" where
  "Split [] sep = [[]]"
| "Split (c # s) sep =
     (if c = sep then [] # Split s sep
      else case Split s sep of [] \<Rightarrow> [[c]] | p # ps \<Rightarrow> (c # p) # ps)"

fun Join :: "string list \<Rightarrow> string \<Rightarrow> string" where
  "Join [] sep = []"
| "Join [p] sep = p"
| "Join (p # ps) sep = p @ sep @ Join ps sep"

text \<open>
  \<^verbatim>\<open>strings.ToLower\<close>: ASCII letters, and the two code points beyond ASCII whose lower case
  is an ASCII letter (U+212A and U+0130). The results are only compared with ASCII
  constants, so the other code points, which stay outside ASCII, are left as they are.
\<close>

definition lower_char :: "char \<Rightarrow> char" where
  "lower_char c = (if 65 \<le> (of_char c :: nat) \<and> (of_char c :: nat) \<le> 90
                   then char_of ((of_char c :: nat) + 32) else c)"

fun ToLower :: "string \<Rightarrow> string" where
  "ToLower [] = []"
| "ToLower (c # s) =
     (if HasPrefix (c # s) [CHR 0xE2, CHR 0x84, CHR 0xAA] then CHR ''k'' # ToLower (drop 2 s)
      else if HasPrefix (c # s) [CHR 0xC4, CHR 0xB0] then CHR ''i'' # ToLower (drop 1 s)
      else lower_char c # ToLower s)"

text \<open>
  \<^verbatim>\<open>utf8.RuneCountInString\<close>: the well-formed UTF-8 sequences count once, every byte that starts
  none counts once.
\<close>

definition byte_in :: "nat \<Rightarrow> nat \<Rightarrow> char \<Rightarrow> bool" where
  "byte_in lo hi c \<longleftrightarrow> lo \<le> of_char c \<and> of_char c \<le> hi"

fun rune_width :: "string \<Rightarrow> nat" where
  "rune_width (a # b # c # d # s) =
     (if byte_in 0xC2 0xDF a \<and> byte_in 0x80 0xBF b then 2
      else if (byte_in 0xE0 0xE0 a \<and> byte_in 0xA0 0xBF b \<or> byte_in 0xED 0xED a \<and> byte_in 0x80 0x9F b \<or>
               (byte_in 0xE1 0xEC a \<or> byte_in 0xEE 0xEF a) \<and> byte_in 0x80 0xBF b) \<and> byte_in 0x80 0xBF c then 3
      else if (byte_in 0xF0 0xF0 a \<and> byte_in 0x90 0xBF b \<or> byte_in 0xF4 0xF4 a \<and> byte_in 0x80 0x8F b \<or>
               byte_in 0xF1 0xF3 a \<and> byte_in 0x80 0xBF b) \<and> byte_in 0x80 0xBF c \<and> byte_in 0x80 0xBF d then 4
      else 1)"
| "rune_width [a, b, c] =
     (if byte_in 0xC2 0xDF a \<and> byte_in 0x80 0xBF b then 2
      else if (byte_in 0xE0 0xE0 a \<and> byte_in 0xA0 0xBF b \<or> byte_in 0xED 0xED a \<and> byte_in 0x80 0x9F b \<or>
               (byte_in 0xE1 0xEC a \<or> byte_in 0xEE 0xEF a) \<and> byte_in 0x80 0xBF b) \<and> byte_in 0x80 0xBF c then 3
      else 1)"
| "rune_width [a, b] = (if byte_in 0xC2 0xDF a \<and> byte_in 0x80 0xBF b then 2 else 1)"
| "rune_width s = 1"

function RuneCountInString :: "string \<Rightarrow> nat" where
  "RuneCountInString [] = 0"
| "RuneCountInString (c # s) = Suc (RuneCountInString (drop (rune_width (c # s) - 1) s))"
  by pat_completeness auto

termination RuneCountInString
  by (relation "measure length") auto

subsection \<open>Decimal numbers\<close>

definition digit_char :: "nat \<Rightarrow> char" where
  "digit_char d = char_of (48 + d)"

fun itoa_nat :: "nat \<Rightarrow> string" where
  "itoa_nat n = (if n < 10 then [digit_char n] else itoa_nat (n div 10) @ [digit_char (n mod 10)])"

declare itoa_nat.simps [simp del]

text \<open>\<^verbatim>\<open>strconv.Itoa\<close>, \<^verbatim>\<open>strconv.FormatInt(n, 10)\<close> and the \<^verbatim>\<open>%d\<close> verb.\<close>

definition Itoa :: "int \<Rightarrow> string" where
  "Itoa n = (if n < 0 then CHR ''-'' # itoa_nat (nat (- n)) else itoa_nat (nat n))"

definition is_digit :: "char \<Rightarrow> bool" where
  "is_digit c \<longleftrightarrow> 48 \<le> (of_char c :: nat) \<and> (of_char c :: nat) \<le> 57"

fun digits_value :: "nat \<Rightarrow> string \<Rightarrow> nat option" where
  "digits_value acc [] = Some acc"
| "digits_value acc (c # s) =
     (if is_digit c then digits_value (10 * acc + (of_char c - 48)) s else None)"

text \<open>\<^verbatim>\<open>strconv.ParseInt(s, 10, 64)\<close> and \<^verbatim>\<open>strconv.Atoi\<close>: \<open>None\<close> on a syntax or range error.\<close>

definition ParseInt :: "string \<Rightarrow> int option" where
  "ParseInt s =
     (let (neg, body) = (case s of [] \<Rightarrow> (False, [])
                         | c # t \<Rightarrow> if c = CHR ''-'' then (True, t)
                                    else if c = CHR ''+'' then (False, t) else (False, s))
      in if body = [] then None
         else case digits_value 0 body of
                None \<Rightarrow> None
              | Some n \<Rightarrow> (let v = (if neg then - int n else int n)
                           in if in_i64 v then Some v else None))"

text \<open>
  The value \<^verbatim>\<open>n, _ := strconv.ParseInt(s, 10, 64)\<close> leaves in \<^verbatim>\<open>n\<close> when the error is dropped:
  0 on a syntax error, the nearest bound on a range error.
\<close>

definition ParseIntValue :: "string \<Rightarrow> int" where
  "ParseIntValue s =
     (let (neg, body) = (case s of [] \<Rightarrow> (False, [])
                         | c # t \<Rightarrow> if c = CHR ''-'' then (True, t)
                                    else if c = CHR ''+'' then (False, t) else (False, s))
      in if body = [] then 0
         else case digits_value 0 body of
                None \<Rightarrow> 0
              | Some n \<Rightarrow> (if neg then max (- 9223372036854775808) (- int n)
                           else min 9223372036854775807 (int n)))"

subsection \<open>Lemmas\<close>

lemma HasPrefix_append [simp]: "HasPrefix (p @ s) p"
  by (simp add: HasPrefix_def)

lemma HasPrefixD: "HasPrefix s p \<Longrightarrow> s = p @ drop (length p) s"
  by (metis HasPrefix_def append_take_drop_id)

lemma TrimPrefix_append [simp]: "TrimPrefix (p @ s) p = s"
  by (simp add: TrimPrefix_def)

lemma Split_nonempty [simp]: "Split s sep \<noteq> []"
  by (induction s) (auto split: list.splits)

lemma Split_no_sep: "sep \<notin> set p \<Longrightarrow> Split p sep = [p]"
  by (induction p) auto

lemma Split_append_sep: "sep \<notin> set p \<Longrightarrow> Split (p @ sep # s) sep = p # Split s sep"
  by (induction p) auto

lemma Split_Join:
  "ps \<noteq> [] \<Longrightarrow> \<forall>p \<in> set ps. sep \<notin> set p \<Longrightarrow> Split (Join ps [sep]) sep = ps"
  by (induction ps "[sep]" rule: Join.induct) (auto simp: Split_no_sep Split_append_sep)

lemma of_char_digit_char: "d < 10 \<Longrightarrow> (of_char (digit_char d) :: nat) = 48 + d"
  by (simp add: digit_char_def)

lemma is_digit_digit_char [simp]: "d < 10 \<Longrightarrow> is_digit (digit_char d)"
  by (simp add: is_digit_def of_char_digit_char)

lemma digits_value_append:
  "digits_value a (s @ t) = (case digits_value a s of None \<Rightarrow> None | Some v \<Rightarrow> digits_value v t)"
  by (induction s arbitrary: a) auto

lemma digits_value_itoa: "digits_value 0 (itoa_nat n) = Some n"
proof (induction n rule: itoa_nat.induct)
  case (1 n)
  show ?case
  proof (cases "n < 10")
    case True
    then show ?thesis by (simp add: itoa_nat.simps [of n] of_char_digit_char)
  next
    case False
    with "1.IH" have "digits_value 0 (itoa_nat (n div 10)) = Some (n div 10)" by simp
    with False show ?thesis
      by (simp add: itoa_nat.simps [of n] digits_value_append of_char_digit_char)
  qed
qed

lemma itoa_nat_digits: "\<forall>c \<in> set (itoa_nat n). is_digit c"
proof (induction n rule: itoa_nat.induct)
  case (1 n)
  show ?case
  proof (cases "n < 10")
    case True
    then show ?thesis by (simp add: itoa_nat.simps [of n])
  next
    case False
    with "1.IH" show ?thesis by (auto simp: itoa_nat.simps [of n])
  qed
qed

lemma itoa_nat_nonempty [simp]: "itoa_nat n \<noteq> []"
  by (subst itoa_nat.simps) simp

lemma itoa_nat_inj: "itoa_nat m = itoa_nat n \<Longrightarrow> m = n"
  by (metis digits_value_itoa option.inject)

lemma itoa_nat_hd: "itoa_nat n = c # t \<Longrightarrow> c \<noteq> CHR ''-'' \<and> c \<noteq> CHR ''+''"
  using itoa_nat_digits [of n] by (auto simp: is_digit_def)

lemma Itoa_nonempty [simp]: "Itoa n \<noteq> []"
  by (simp add: Itoa_def)

lemma Itoa_chars: "c \<in> set (Itoa n) \<Longrightarrow> c = CHR ''-'' \<or> is_digit c"
  using itoa_nat_digits by (auto simp: Itoa_def split: if_splits)

lemma ParseInt_Itoa:
  assumes "in_i64 n"
  shows "ParseInt (Itoa n) = Some n"
proof (cases "n < 0")
  case True
  then show ?thesis
    using assms by (simp add: Itoa_def ParseInt_def digits_value_itoa)
next
  case False
  obtain c t where ct: "itoa_nat (nat n) = c # t"
    by (cases "itoa_nat (nat n)") auto
  with itoa_nat_hd [OF this] digits_value_itoa [of "nat n"] False assms show ?thesis
    by (simp add: Itoa_def ParseInt_def)
qed

lemma Itoa_inj: "in_i64 m \<Longrightarrow> in_i64 n \<Longrightarrow> Itoa m = Itoa n \<Longrightarrow> m = n"
  by (metis ParseInt_Itoa option.inject)

lemma ParseInt_value: "ParseInt s = Some n \<Longrightarrow> ParseIntValue s = n"
  by (auto simp: ParseInt_def ParseIntValue_def Let_def in_i64_def
      split: prod.splits option.splits if_splits list.splits)

lemma ParseIntValue_Itoa: "in_i64 n \<Longrightarrow> ParseIntValue (Itoa n) = n"
  by (rule ParseInt_value) (rule ParseInt_Itoa)

lemma ParseInt_range: "ParseInt s = Some n \<Longrightarrow> in_i64 n"
  by (auto simp: ParseInt_def Let_def split: prod.splits option.splits if_splits list.splits)

lemma byte_val_less [simp]: "(of_char (c :: char) :: nat) < 256"
  by (simp add: of_char_of [symmetric] del: of_char_of)

lemma rune_width_pos: "0 < rune_width s" "s \<noteq> [] \<Longrightarrow> rune_width s \<le> length s"
  by (cases s rule: rune_width.cases; simp)+

text \<open>A string has at most as many runes as bytes, and at least a quarter as many.\<close>

lemma RuneCount_bounds: "RuneCountInString s \<le> length s \<and> length s \<le> 4 * RuneCountInString s"
proof (induction s rule: RuneCountInString.induct)
  case (2 c s)
  have "rune_width (c # s) \<le> 4" by (cases "c # s" rule: rune_width.cases) auto
  with 2 show ?case using rune_width_pos [of "c # s"] by auto
qed simp

end
