(* ===== verification/Store_Schema.thy ===== *)
theory Store_Schema
  imports Go_Strings
begin

text \<open>
  The database schema of the panel (\<^verbatim>\<open>store/store.go\<close>): one record per table row, one list of
  rows per table, and the statement forms the store uses on them. \<open>INSERT ... ON CONFLICT
  DO UPDATE\<close> is \<open>upsert\<close>. Statements fail on a UNIQUE or FOREIGN KEY constraint and leave
  the tables unchanged; failures of the database engine itself are outside the model.
  SQL integers are \<open>int\<close>, timestamps are unix seconds, the current time is an argument.
\<close>

subsection \<open>Rows\<close>

datatype db_error = ErrNotFound | UniqueViolation | ForeignKeyViolation | ErrSettingsConflict
  | InvalidCursor

type_synonym 'a db_res = "db_error + 'a"

record user =
  u_id :: int
  u_username :: string
  u_password_hash :: string
  u_role :: string
  u_created_at :: int

record refresh_token =
  rt_jti :: string
  rt_user_id :: int
  rt_expires_at :: int
  rt_revoked :: bool
  rt_created_at :: int

text \<open>A row of \<open>nodes\<close>: tags are one comma-separated text, \<open>enabled\<close> is 0 or 1.\<close>

record node_row =
  nr_id :: string
  nr_name :: string
  nr_api_url :: string
  nr_api_secret_enc :: string
  nr_outbound_enc :: string
  nr_source :: string
  nr_config_url :: string
  nr_kce_key_enc :: string
  nr_tags :: string
  nr_enabled :: int
  nr_remark :: string
  nr_mode :: string
  nr_latency_ms :: int
  nr_latency_checked_at :: int
  nr_latency_fail_count :: int
  nr_created_at :: int
  nr_updated_at :: int
  nr_last_online_at :: int

record traffic_sample =
  ts_node_id :: string
  ts_ts :: int
  ts_up_bytes :: int
  ts_down_bytes :: int
  ts_peak_up_bps :: int
  ts_peak_down_bps :: int
  ts_max_connections :: int

record rollup_row =
  rr_node_id :: string
  rr_interval :: string
  rr_bucket_start :: int
  rr_up_bytes :: int
  rr_down_bytes :: int
  rr_peak_up_bps :: int
  rr_peak_down_bps :: int
  rr_max_connections :: int

record ip_stat_row =
  is_node_id :: string
  is_source_ip :: string
  is_upload_bytes :: int
  is_download_bytes :: int
  is_connections_total :: int
  is_active_connections :: int
  is_first_seen_at :: int
  is_last_seen_at :: int

record ip_daily_row =
  id_node_id :: string
  id_source_ip :: string
  id_day :: int
  id_up_bytes :: int
  id_down_bytes :: int

record geo =
  g_ip :: string
  g_country :: string
  g_region :: string
  g_city :: string
  g_as_org :: string
  g_checked_at :: int

record exit_ip =
  e_node_id :: string
  e_ip :: string
  e_country :: string
  e_city :: string
  e_as_org :: string
  e_method :: string
  e_checked_at :: int

record operation =
  o_id :: string
  o_node_id :: string
  o_type :: string
  o_status :: string
  o_result :: string
  o_error :: string
  o_created_at :: int
  o_updated_at :: int

record subscription_row =
  sub_user_id :: int
  sub_token :: string
  sub_updated_at :: int
  sub_last_reset_at :: int

record settings =
  st_sampler_interval_seconds :: int
  st_retention_days :: int
  st_ip_lookup_enabled :: bool
  st_ip_lookup_provider_url :: string
  st_singbox_bin_path :: string
  st_favicon :: string
  st_logo :: string
  st_brand_name :: string
  st_reset_cooldown_minutes :: int
  st_icmp_monitor_enabled :: bool
  st_icmp_monitor_target :: string
  st_icmp_monitor_interval_seconds :: int
  st_icmp_auto_disable_threshold_ms :: int
  st_icmp_auto_disable_consecutive :: int
  st_updated_at :: int
  st_revision :: int

record db =
  users :: "user list"
  refresh_tokens :: "refresh_token list"
  nodes :: "node_row list"
  traffic_samples :: "traffic_sample list"
  traffic_rollup :: "rollup_row list"
  ip_stats :: "ip_stat_row list"
  ip_daily :: "ip_daily_row list"
  ip_geo_cache :: "geo list"
  exit_ip_checks :: "exit_ip list"
  operations :: "operation list"
  user_subscriptions :: "subscription_row list"
  settings_row :: "settings option"

definition empty_db :: db where
  "empty_db = \<lparr>users = [], refresh_tokens = [], nodes = [], traffic_samples = [],
     traffic_rollup = [], ip_stats = [], ip_daily = [], ip_geo_cache = [],
     exit_ip_checks = [], operations = [], user_subscriptions = [], settings_row = None\<rparr>"

subsection \<open>Statement forms\<close>

definition row_with :: "('r \<Rightarrow> 'k) \<Rightarrow> 'k \<Rightarrow> 'r list \<Rightarrow> 'r option" where
  "row_with key k rows = find (\<lambda>r. key r = k) rows"

definition update_where :: "('r \<Rightarrow> bool) \<Rightarrow> ('r \<Rightarrow> 'r) \<Rightarrow> 'r list \<Rightarrow> 'r list" where
  "update_where p f rows = map (\<lambda>r. if p r then f r else r) rows"

definition delete_where :: "('r \<Rightarrow> bool) \<Rightarrow> 'r list \<Rightarrow> 'r list" where
  "delete_where p rows = filter (\<lambda>r. \<not> p r) rows"

definition affected :: "('r \<Rightarrow> bool) \<Rightarrow> 'r list \<Rightarrow> nat" where
  "affected p rows = length (filter p rows)"

definition upsert :: "('r \<Rightarrow> 'k) \<Rightarrow> ('r \<Rightarrow> 'r \<Rightarrow> 'r) \<Rightarrow> 'r \<Rightarrow> 'r list \<Rightarrow> 'r list" where
  "upsert key merge new rows =
     (if list_ex (\<lambda>r. key r = key new) rows
      then update_where (\<lambda>r. key r = key new) (\<lambda>r. merge r new) rows
      else rows @ [new])"

text \<open>\<open>SELECT SUM(val) ... WHERE sel\<close>, on the rows selected by their key.\<close>

definition col_total :: "('r \<Rightarrow> 'k) \<Rightarrow> ('r \<Rightarrow> int) \<Rightarrow> ('k \<Rightarrow> bool) \<Rightarrow> 'r list \<Rightarrow> int" where
  "col_total key val sel rows = sum_list (map val (filter (\<lambda>r. sel (key r)) rows))"

definition node_exists :: "string \<Rightarrow> db \<Rightarrow> bool" where
  "node_exists i d = list_ex (\<lambda>n. nr_id n = i) (nodes d)"

definition user_exists :: "int \<Rightarrow> db \<Rightarrow> bool" where
  "user_exists i d = list_ex (\<lambda>u. u_id u = i) (users d)"

text \<open>\<open>LIMIT n\<close>: a negative limit is no limit.\<close>

definition sql_limit :: "int \<Rightarrow> 'r list \<Rightarrow> 'r list" where
  "sql_limit n rows = (if n < 0 then rows else take (nat n) rows)"

text \<open>A prepared statement executed for each element in one transaction: the first error rolls
  everything back.\<close>

fun exec_each :: "('x \<Rightarrow> db \<Rightarrow> db db_res) \<Rightarrow> 'x list \<Rightarrow> db \<Rightarrow> db db_res" where
  "exec_each f [] d = Inr d"
| "exec_each f (x # xs) d = (case f x d of Inl e \<Rightarrow> Inl e | Inr d' \<Rightarrow> exec_each f xs d')"

text \<open>
  \<open>requireAffected\<close> turns a zero row count into \<open>ErrNotFound\<close>.
\<close>

definition requireAffected :: "nat \<Rightarrow> unit db_res" where
  "requireAffected n = (if n = 0 then Inl ErrNotFound else Inr ())"

subsection \<open>Consistency of the tables\<close>

text \<open>The constraints of the schema: primary keys, unique columns and foreign keys.\<close>

definition keys_ok :: "db \<Rightarrow> bool" where
  "keys_ok d \<longleftrightarrow>
     distinct (map u_id (users d)) \<and> distinct (map u_username (users d)) \<and>
     distinct (map rt_jti (refresh_tokens d)) \<and>
     distinct (map nr_id (nodes d)) \<and> distinct (map nr_name (nodes d)) \<and>
     distinct (map (\<lambda>r. (ts_node_id r, ts_ts r)) (traffic_samples d)) \<and>
     distinct (map (\<lambda>r. (rr_node_id r, rr_interval r, rr_bucket_start r)) (traffic_rollup d)) \<and>
     distinct (map (\<lambda>r. (is_node_id r, is_source_ip r)) (ip_stats d)) \<and>
     distinct (map (\<lambda>r. (id_node_id r, id_source_ip r, id_day r)) (ip_daily d)) \<and>
     distinct (map g_ip (ip_geo_cache d)) \<and> distinct (map e_node_id (exit_ip_checks d)) \<and>
     distinct (map o_id (operations d)) \<and> distinct (map sub_user_id (user_subscriptions d))"

definition refs_ok :: "db \<Rightarrow> bool" where
  "refs_ok d \<longleftrightarrow>
     (\<forall>t \<in> set (refresh_tokens d). user_exists (rt_user_id t) d) \<and>
     (\<forall>s \<in> set (user_subscriptions d). user_exists (sub_user_id s) d) \<and>
     (\<forall>r \<in> set (traffic_samples d). node_exists (ts_node_id r) d) \<and>
     (\<forall>r \<in> set (traffic_rollup d). node_exists (rr_node_id r) d) \<and>
     (\<forall>r \<in> set (ip_stats d). node_exists (is_node_id r) d) \<and>
     (\<forall>r \<in> set (ip_daily d). node_exists (id_node_id r) d) \<and>
     (\<forall>r \<in> set (exit_ip_checks d). node_exists (e_node_id r) d) \<and>
     (\<forall>r \<in> set (operations d). node_exists (o_node_id r) d)"

definition db_ok :: "db \<Rightarrow> bool" where
  "db_ok d \<longleftrightarrow> keys_ok d \<and> refs_ok d"

subsection \<open>Lemmas on the statement forms\<close>

lemma row_with_Some: "row_with key k rows = Some r \<Longrightarrow> r \<in> set rows \<and> key r = k"
  by (auto simp: row_with_def find_Some_iff)

lemma row_with_None: "row_with key k rows = None \<longleftrightarrow> k \<notin> key ` set rows"
  by (auto simp: row_with_def find_None_iff)

lemma find_filter: "find P xs = (case filter P xs of [] \<Rightarrow> None | x # _ \<Rightarrow> Some x)"
  by (induction xs) auto

lemma row_with_distinct:
  "distinct (map key rows) \<Longrightarrow> r \<in> set rows \<Longrightarrow> row_with key (key r) rows = Some r"
  by (induction rows) (auto simp: row_with_def)

lemma row_with_append:
  "row_with key k (xs @ ys) = (case row_with key k xs of None \<Rightarrow> row_with key k ys | Some r \<Rightarrow> Some r)"
  by (induction xs) (auto simp: row_with_def)

lemma row_with_snoc:
  "row_with key k (xs @ [r]) =
   (case row_with key k xs of None \<Rightarrow> if key r = k then Some r else None | Some x \<Rightarrow> Some x)"
  by (induction xs) (auto simp: row_with_def)

lemma row_with_update_where:
  assumes "\<And>r. key (f r) = key r"
  shows "row_with key k (update_where p f rows) =
         map_option (\<lambda>r. if p r then f r else r) (row_with key k rows)"
  using assms by (induction rows) (auto simp: row_with_def update_where_def)

lemma map_key_update_where:
  "(\<And>r. p r \<Longrightarrow> key (f r) = key r) \<Longrightarrow> map key (update_where p f rows) = map key rows"
  by (auto simp: update_where_def)

lemma set_delete_where: "set (delete_where p rows) = {r \<in> set rows. \<not> p r}"
  by (auto simp: delete_where_def)

lemma update_where_Nil [simp]: "update_where p f [] = []"
  by (simp add: update_where_def)

lemma update_where_Cons [simp]:
  "update_where p f (r # rows) = (if p r then f r else r) # update_where p f rows"
  by (simp add: update_where_def)

lemma set_update_where: "set (update_where p f rows) = (\<lambda>r. if p r then f r else r) ` set rows"
  by (simp add: update_where_def)

lemma distinct_delete_where: "distinct (map key rows) \<Longrightarrow> distinct (map key (delete_where p rows))"
  by (simp add: delete_where_def distinct_map_filter)

lemma image_delete_where: "key ` set (delete_where (\<lambda>r. key r = i) rows) = key ` set rows - {i}"
  by (auto simp: set_delete_where)

lemma affected_0: "affected p rows = 0 \<longleftrightarrow> (\<forall>r \<in> set rows. \<not> p r)"
  by (auto simp: affected_def filter_empty_conv)

lemma affected_0_same: "affected p rows = 0 \<Longrightarrow> update_where p f rows = rows"
  by (auto simp: affected_0 update_where_def intro: map_idI)

lemma list_ex_key: "list_ex (\<lambda>r. key r = k) rows \<longleftrightarrow> k \<in> key ` set rows"
  by (force simp: list_ex_iff)

lemma row_with_delete_where:
  "row_with key k rows = Some r \<Longrightarrow> distinct (map key rows) \<Longrightarrow>
   row_with key k (delete_where p rows) = (if p r then None else Some r)"
proof -
  assume r: "row_with key k rows = Some r" and d: "distinct (map key rows)"
  from row_with_Some [OF r] have rk: "r \<in> set rows" "key r = k" by simp_all
  show ?thesis
  proof (cases "p r")
    case True
    have "x = r" if "x \<in> set rows" "key x = k" for x
      using that rk d by (metis distinct_map inj_onD)
    with True show ?thesis by (auto simp: row_with_None set_delete_where)
  next
    case False
    with rk have "r \<in> set (delete_where p rows)" by (simp add: set_delete_where)
    from row_with_distinct [OF distinct_delete_where [OF d] this] rk(2) False
    show ?thesis by simp
  qed
qed

lemma empty_db_ok: "db_ok empty_db"
  by (simp add: db_ok_def keys_ok_def refs_ok_def empty_db_def)

lemma node_exists_iff: "node_exists i d \<longleftrightarrow> i \<in> nr_id ` set (nodes d)"
  by (auto simp: node_exists_def list_ex_iff)

lemma user_exists_iff: "user_exists i d \<longleftrightarrow> i \<in> u_id ` set (users d)"
  by (auto simp: user_exists_def list_ex_iff)

lemmas db_ok_simps = db_ok_def keys_ok_def refs_ok_def user_exists_iff node_exists_iff

lemma distinct_update_unique:
  assumes "distinct (map ident rows)" "distinct (map key rows)"
    and "\<forall>r \<in> set rows. ident r \<noteq> i \<longrightarrow> key r \<noteq> n" and "\<And>r. ident r = i \<Longrightarrow> key (f r) = n"
  shows "distinct (map key (update_where (\<lambda>r. ident r = i) f rows))"
  using assms(1-3)
proof (induction rows)
  case Nil
  then show ?case by (simp add: update_where_def)
next
  case (Cons r rows)
  show ?case
  proof (cases "ident r = i")
    case True
    have "ident r \<notin> ident ` set rows" using Cons.prems(1) by simp
    with True have rest: "\<forall>x \<in> set rows. ident x \<noteq> i" by (metis image_eqI)
    then have "update_where (\<lambda>r. ident r = i) f rows = rows"
      by (auto simp: update_where_def intro: map_idI)
    with True Cons.prems rest assms(4) [OF True] show ?thesis by (auto simp: update_where_def)
  next
    case False
    have "key r \<notin> key ` set (update_where (\<lambda>r. ident r = i) f rows)"
      using Cons.prems(2,3) False assms(4) by (auto simp: set_update_where)
    with False Cons show ?thesis by simp
  qed
qed

lemma exec_each_invariant:
  assumes "exec_each f xs d = Inr d'" and "P d" and "\<And>x d d'. P d \<Longrightarrow> f x d = Inr d' \<Longrightarrow> P d'"
  shows "P d'"
  using assms(1,2)
proof (induction xs arbitrary: d)
  case (Cons x xs)
  then show ?case using assms(3) by (fastforce split: sum.splits)
qed simp

subsection \<open>Keyset pagination\<close>

text \<open>
  Pages of a list sorted by a strict order on its keys: a page is the first \<open>limit\<close> rows after
  the key of the last row of the page before. Walking the pages yields every row once, in
  order, whatever the page size.
\<close>

definition page_after :: "('k \<Rightarrow> 'k \<Rightarrow> bool) \<Rightarrow> ('r \<Rightarrow> 'k) \<Rightarrow> nat \<Rightarrow> 'k option \<Rightarrow> 'r list \<Rightarrow> 'r list" where
  "page_after before key limit cur rows =
     take limit (filter (\<lambda>r. case cur of None \<Rightarrow> True | Some k \<Rightarrow> before k (key r)) rows)"

fun walk_pages :: "('c option \<Rightarrow> 'r list) \<Rightarrow> ('r \<Rightarrow> 'c) \<Rightarrow> nat \<Rightarrow> 'c option \<Rightarrow> 'r list" where
  "walk_pages page cursor 0 cur = []"
| "walk_pages page cursor (Suc fuel) cur =
     (case page cur of [] \<Rightarrow> [] | p \<Rightarrow> p @ walk_pages page cursor fuel (Some (cursor (last p))))"

lemma strictly_sorted:
  assumes "distinct (map f rows)"
  shows "sorted_wrt (\<lambda>a b. f a < f b) (sort_key f rows)"
proof -
  let ?l = "sort_key f rows"
  have dist: "distinct (map f ?l)"
    using assms by (metis distinct_map distinct_sort set_sort)
  have "f (?l ! i) < f (?l ! j)" if ij: "i < j" "j < length ?l" for i j
  proof -
    have "f (?l ! i) \<le> f (?l ! j)"
      using sorted_nth_mono [OF sorted_sort_key [of f rows], of i j] ij by simp
    moreover have "f (?l ! i) \<noteq> f (?l ! j)"
      using nth_eq_iff_index_eq [OF dist, of i j] ij by simp
    ultimately show ?thesis by simp
  qed
  then show ?thesis by (simp add: sorted_wrt_iff_nth_less)
qed

text \<open>Two page functions that agree along the cursors of a walk give the same walk.\<close>

lemma walk_pages_cong:
  assumes "\<And>cur. P cur \<Longrightarrow> page' (map_option enc cur) = page cur"
    and "\<And>cur r. P cur \<Longrightarrow> r \<in> set (page cur) \<Longrightarrow> P (Some (key r)) \<and> cursor r = enc (key r)"
    and "P cur"
  shows "walk_pages page' cursor fuel (map_option enc cur) = walk_pages page key fuel cur"
  using assms(3)
proof (induction fuel arbitrary: cur)
  case (Suc fuel)
  show ?case
  proof (cases "page cur")
    case Nil
    with assms(1) [OF Suc.prems] show ?thesis by simp
  next
    case (Cons r rs)
    then have "last (page cur) \<in> set (page cur)" by simp
    from assms(2) [OF Suc.prems this] have "P (Some (key (last (page cur))))"
      and c: "cursor (last (page cur)) = enc (key (last (page cur)))" by simp_all
    from Suc.IH [OF this(1)] c assms(1) [OF Suc.prems] Cons show ?thesis by simp
  qed
qed simp

locale keyset_order =
  fixes before :: "'k \<Rightarrow> 'k \<Rightarrow> bool"
    and key :: "'r \<Rightarrow> 'k"
  assumes before_trans: "before a b \<Longrightarrow> before b c \<Longrightarrow> before a c"
    and before_irrefl: "\<not> before a a"
begin

lemma rest_after:
  assumes "sorted_wrt (\<lambda>a b. before (key a) (key b)) (xs @ ys)" "xs \<noteq> []"
  shows "filter (\<lambda>r. before (key (last xs)) (key r)) (xs @ ys) = ys"
proof -
  have "\<not> before (key (last xs)) (key x)" if "x \<in> set xs" for x
  proof -
    have "xs = butlast xs @ [last xs]" using assms(2) by simp
    then have "x \<in> set (butlast xs) \<or> x = last xs" using that by (metis Un_iff set_append empty_iff insert_iff list.set)
    moreover have "before (key x) (key (last xs))" if "x \<in> set (butlast xs)"
      using assms(1) that \<open>xs = butlast xs @ [last xs]\<close>
      by (metis list.set_intros(1) sorted_wrt_append)
    ultimately show ?thesis using before_irrefl before_trans by metis
  qed
  moreover have "before (key (last xs)) (key y)" if "y \<in> set ys" for y
    using assms that by (simp add: sorted_wrt_append)
  ultimately show ?thesis by (simp add: filter_empty_conv)
qed

lemma walk_pages_all:
  assumes "sorted_wrt (\<lambda>a b. before (key a) (key b)) rows" and "0 < limit" and "length rows \<le> fuel"
  shows "walk_pages (\<lambda>cur. page_after before key limit cur rows) key fuel None = rows"
proof -
  let ?page = "\<lambda>cur. page_after before key limit cur rows"
  have "walk_pages ?page key fuel (if xs = [] then None else Some (key (last xs))) = ys"
    if "rows = xs @ ys" "length ys \<le> fuel" for xs ys
    using that
  proof (induction fuel arbitrary: xs ys)
    case (Suc fuel)
    have pg: "?page (if xs = [] then None else Some (key (last xs))) = take limit ys"
      using rest_after [of xs ys] assms(1) Suc.prems(1) by (simp add: page_after_def del: filter_append)
    show ?case
    proof (cases "ys = []")
      case True
      with pg show ?thesis by simp
    next
      case False
      then have ne: "take limit ys \<noteq> []" using assms(2) by simp
      have "walk_pages ?page key fuel (Some (key (last (xs @ take limit ys)))) = drop limit ys"
        using Suc.IH [of "xs @ take limit ys" "drop limit ys"] Suc.prems ne assms(2) False by simp
      moreover from ne obtain y zs where "take limit ys = y # zs" by (cases "take limit ys") auto
      ultimately show ?thesis using pg append_take_drop_id [of limit ys] by (simp del: append_take_drop_id)
    qed
  qed simp
  from this [of "[]" rows] assms(3) show ?thesis by simp
qed

end

subsection \<open>Tables maintained by upserts\<close>

text \<open>
  The contract of \<open>INSERT ... ON CONFLICT DO UPDATE\<close>: the merge keeps the key. Its clients
  get the lookup law, that other keys keep their row, and that primary keys stay distinct.
\<close>

locale upsert_table =
  fixes key :: "'r \<Rightarrow> 'k"
    and merge :: "'r \<Rightarrow> 'r \<Rightarrow> 'r"
  assumes key_merge: "key new = key old \<Longrightarrow> key (merge old new) = key old"
begin

lemma map_key_upsert:
  "map key (upsert key merge new rows) =
   (if key new \<in> key ` set rows then map key rows else map key rows @ [key new])"
proof -
  have "map key (update_where (\<lambda>r. key r = key new) (\<lambda>r. merge r new) rows) = map key rows"
    by (rule map_key_update_where) (simp add: key_merge)
  then show ?thesis by (auto simp: upsert_def list_ex_key)
qed

lemma distinct_upsert:
  "distinct (map key rows) \<Longrightarrow> distinct (map key (upsert key merge new rows))"
  by (auto simp: map_key_upsert)

lemma key_set_upsert: "key ` set (upsert key merge new rows) = insert (key new) (key ` set rows)"
  using arg_cong [where f = set, OF map_key_upsert [of new rows]] by auto

lemma lookup_update_other:
  "k \<noteq> key new \<Longrightarrow>
   row_with key k (update_where (\<lambda>r. key r = key new) (\<lambda>r. merge r new) rows) = row_with key k rows"
  by (induction rows) (auto simp: row_with_def update_where_def key_merge)

lemma lookup_update_same:
  "row_with key (key new) (update_where (\<lambda>r. key r = key new) (\<lambda>r. merge r new) rows) =
   map_option (\<lambda>r. merge r new) (row_with key (key new) rows)"
  by (induction rows) (auto simp: row_with_def update_where_def key_merge)

lemma lookup_upsert [table_simps]:
  "row_with key k (upsert key merge new rows) =
   (if k = key new then
      Some (case row_with key k rows of None \<Rightarrow> new | Some old \<Rightarrow> merge old new)
    else row_with key k rows)"
proof (cases "list_ex (\<lambda>r. key r = key new) rows")
  case True
  then have "row_with key (key new) rows \<noteq> None" by (simp add: row_with_None list_ex_key)
  with True show ?thesis
    by (auto simp: upsert_def lookup_update_other lookup_update_same)
next
  case False
  then have "row_with key (key new) rows = None" by (simp add: row_with_None list_ex_key)
  with False show ?thesis
    by (auto simp: upsert_def row_with_append split: option.splits) (auto simp: row_with_def)
qed

lemma all_upsert:
  assumes "\<forall>r \<in> set rows. P r" "P new" "\<And>old. P old \<Longrightarrow> key old = key new \<Longrightarrow> P (merge old new)"
  shows "\<forall>r \<in> set (upsert key merge new rows). P r"
  using assms by (auto simp: upsert_def set_update_where split: if_splits)

end

text \<open>
  A table whose merge adds up a column, for the rows whose key satisfies \<open>sel\<close>: each upsert
  adds exactly the value of the new row to the total, once keys are distinct.
\<close>

locale summing_table = upsert_table key merge
  for key :: "'r \<Rightarrow> 'k" and merge :: "'r \<Rightarrow> 'r \<Rightarrow> 'r" +
  fixes val :: "'r \<Rightarrow> int"
  assumes val_merge: "val (merge old new) = val old + val new"
begin

lemma total_update:
  assumes "distinct (map key rows)" "key new \<in> key ` set rows"
  shows "col_total key val sel (update_where (\<lambda>r. key r = key new) (\<lambda>r. merge r new) rows) =
         col_total key val sel rows + (if sel (key new) then val new else 0)"
  using assms
proof (induction rows)
  case Nil
  then show ?case by simp
next
  case (Cons r rows)
  show ?case
  proof (cases "key r = key new")
    case True
    with Cons.prems have "update_where (\<lambda>r. key r = key new) (\<lambda>r. merge r new) rows = rows"
      by (auto simp: update_where_def image_iff intro!: map_idI)
    with True show ?thesis
      by (simp add: col_total_def update_where_def key_merge val_merge)
  next
    case False
    with Cons show ?thesis by (auto simp: col_total_def update_where_def)
  qed
qed

lemma total_upsert:
  assumes "distinct (map key rows)"
  shows "col_total key val sel (upsert key merge new rows) =
         col_total key val sel rows + (if sel (key new) then val new else 0)"
proof (cases "key new \<in> key ` set rows")
  case True
  then have "list_ex (\<lambda>r. key r = key new) rows" by (simp add: list_ex_key)
  with total_update [OF assms True] show ?thesis by (simp add: upsert_def)
next
  case False
  then have "\<not> list_ex (\<lambda>r. key r = key new) rows" by (simp add: list_ex_key)
  then show ?thesis by (simp add: upsert_def col_total_def)
qed

lemma total_fold:
  assumes "distinct (map key rows)"
  shows "col_total key val sel (fold (upsert key merge) news rows) = col_total key val sel rows + col_total key val sel news \<and>
         distinct (map key (fold (upsert key merge) news rows))"
  using assms
proof (induction news arbitrary: rows)
  case Nil
  then show ?case by (simp add: col_total_def)
next
  case (Cons n news)
  from Cons.IH [OF distinct_upsert [OF Cons.prems]] total_upsert [OF Cons.prems]
  show ?case by (simp add: col_total_def)
qed

end

end
