(* ===== verification/Store_Accounts.thy ===== *)
theory Store_Accounts
  imports Store_Schema
begin

text \<open>
  Accounts and session rows: \<^verbatim>\<open>store/auth.go\<close>. Every operation that changes the tables returns
  the new database; a failed statement or a rolled-back transaction returns the error alone.
  The id of a new account is chosen by the engine: \<open>alloc\<close> is SQLite's rowid rule or
  PostgreSQL's identity column.
\<close>

subsection \<open>Operations\<close>

text \<open>SQLite gives a new \<open>INTEGER PRIMARY KEY\<close> row one more than the largest id in use.\<close>

definition sqlite_next_id :: "user list \<Rightarrow> int" where
  "sqlite_next_id us = 1 + foldr max (map u_id us) 0"

definition CountUsers :: "db \<Rightarrow> nat" where
  "CountUsers d = length (users d)"

definition createUser ::
  "(user list \<Rightarrow> int) \<Rightarrow> string \<Rightarrow> string \<Rightarrow> string \<Rightarrow> int \<Rightarrow> db \<Rightarrow> (int \<times> db) db_res" where
  "createUser alloc username passwordHash role now d =
     (let i = alloc (users d) in
      if user_exists i d \<or> list_ex (\<lambda>u. u_username u = username) (users d)
      then Inl UniqueViolation
      else Inr (i, d\<lparr>users := users d @
             [\<lparr>u_id = i, u_username = username, u_password_hash = passwordHash,
               u_role = role, u_created_at = now\<rparr>]\<rparr>))"

definition CreateUser ::
  "(user list \<Rightarrow> int) \<Rightarrow> string \<Rightarrow> string \<Rightarrow> int \<Rightarrow> db \<Rightarrow> (int \<times> db) db_res" where
  "CreateUser alloc username passwordHash now d =
     createUser alloc username passwordHash ''admin'' now d"

definition CreateUserWithRole ::
  "(user list \<Rightarrow> int) \<Rightarrow> string \<Rightarrow> string \<Rightarrow> string \<Rightarrow> int \<Rightarrow> db \<Rightarrow> (int \<times> db) db_res" where
  "CreateUserWithRole alloc username passwordHash role now d =
     createUser alloc username passwordHash role now d"

definition GetUserByUsername :: "string \<Rightarrow> db \<Rightarrow> user db_res" where
  "GetUserByUsername username d =
     (case row_with u_username username (users d) of
        None \<Rightarrow> Inl ErrNotFound | Some u \<Rightarrow> Inr u)"

definition InsertRefreshToken :: "string \<Rightarrow> int \<Rightarrow> int \<Rightarrow> int \<Rightarrow> db \<Rightarrow> db db_res" where
  "InsertRefreshToken jti userID expiresAt now d =
     (if list_ex (\<lambda>t. rt_jti t = jti) (refresh_tokens d) then Inl UniqueViolation
      else if \<not> user_exists userID d then Inl ForeignKeyViolation
      else Inr (d\<lparr>refresh_tokens := refresh_tokens d @
             [\<lparr>rt_jti = jti, rt_user_id = userID, rt_expires_at = expiresAt,
               rt_revoked = False, rt_created_at = now\<rparr>]\<rparr>))"

definition GetRefreshToken :: "string \<Rightarrow> db \<Rightarrow> (bool \<times> int) db_res" where
  "GetRefreshToken jti d =
     (case row_with rt_jti jti (refresh_tokens d) of
        None \<Rightarrow> Inl ErrNotFound
      | Some t \<Rightarrow> Inr (rt_revoked t, rt_expires_at t))"

definition RevokeRefreshToken :: "string \<Rightarrow> db \<Rightarrow> db" where
  "RevokeRefreshToken jti d =
     d\<lparr>refresh_tokens := update_where (\<lambda>t. rt_jti t = jti) (\<lambda>t. t\<lparr>rt_revoked := True\<rparr>)
         (refresh_tokens d)\<rparr>"

text \<open>
  One transaction: consume the live session, then register its successor. A failing insert
  rolls the update back.
\<close>

definition ReplaceRefreshToken ::
  "string \<Rightarrow> string \<Rightarrow> int \<Rightarrow> int \<Rightarrow> int \<Rightarrow> db \<Rightarrow> (bool \<times> db) db_res" where
  "ReplaceRefreshToken oldJTI newJTI userID expiresAt now d =
     (let live = (\<lambda>t. rt_jti t = oldJTI \<and> rt_user_id t = userID \<and> \<not> rt_revoked t \<and>
                      rt_expires_at t > now);
          d1 = d\<lparr>refresh_tokens := update_where live (\<lambda>t. t\<lparr>rt_revoked := True\<rparr>)
                   (refresh_tokens d)\<rparr>
      in if affected live (refresh_tokens d) = 0 then Inr (False, d)
         else case InsertRefreshToken newJTI userID expiresAt now d1 of
                Inl e \<Rightarrow> Inl e
              | Inr d2 \<Rightarrow> Inr (True, d2))"

definition RevokeAllRefreshTokens :: "int \<Rightarrow> db \<Rightarrow> db" where
  "RevokeAllRefreshTokens userID d =
     d\<lparr>refresh_tokens := update_where (\<lambda>t. rt_user_id t = userID \<and> \<not> rt_revoked t)
         (\<lambda>t. t\<lparr>rt_revoked := True\<rparr>) (refresh_tokens d)\<rparr>"

definition DeleteExpiredTokens :: "int \<Rightarrow> db \<Rightarrow> db" where
  "DeleteExpiredTokens now d =
     d\<lparr>refresh_tokens := delete_where (\<lambda>t. rt_expires_at t < now) (refresh_tokens d)\<rparr>"

definition ListUsers :: "db \<Rightarrow> user list" where
  "ListUsers d = sort_key u_id (users d)"

definition GetUserByID :: "int \<Rightarrow> db \<Rightarrow> user db_res" where
  "GetUserByID i d =
     (case row_with u_id i (users d) of None \<Rightarrow> Inl ErrNotFound | Some u \<Rightarrow> Inr u)"

text \<open>\<open>COALESCE(?, column)\<close>: an absent argument keeps the column.\<close>

definition coalesce :: "'a option \<Rightarrow> 'a \<Rightarrow> 'a" where
  "coalesce x old = (case x of None \<Rightarrow> old | Some v \<Rightarrow> v)"

definition UpdateUser :: "int \<Rightarrow> string option \<Rightarrow> string option \<Rightarrow> db \<Rightarrow> db db_res" where
  "UpdateUser i username passwordHash d =
     (let hit = (\<lambda>u. u_id u = i);
          upd = (\<lambda>u. u\<lparr>u_username := coalesce username (u_username u),
                        u_password_hash := coalesce passwordHash (u_password_hash u)\<rparr>)
      in if affected hit (users d) = 0 then Inl ErrNotFound
         else if list_ex (\<lambda>u. u_id u \<noteq> i \<and> username = Some (u_username u)) (users d)
         then Inl UniqueViolation
         else let d1 = d\<lparr>users := update_where hit upd (users d)\<rparr> in
              if username \<noteq> None \<or> passwordHash \<noteq> None
              then Inr (d1\<lparr>refresh_tokens := update_where (\<lambda>t. rt_user_id t = i)
                             (\<lambda>t. t\<lparr>rt_revoked := True\<rparr>) (refresh_tokens d1)\<rparr>)
              else Inr d1)"

text \<open>Deleting an account cascades to its sessions and its subscription.\<close>

definition DeleteUser :: "int \<Rightarrow> db \<Rightarrow> db db_res" where
  "DeleteUser i d =
     (case requireAffected (affected (\<lambda>u. u_id u = i) (users d)) of
        Inl e \<Rightarrow> Inl e
      | Inr _ \<Rightarrow> Inr (d\<lparr>users := delete_where (\<lambda>u. u_id u = i) (users d),
                       refresh_tokens := delete_where (\<lambda>t. rt_user_id t = i) (refresh_tokens d),
                       user_subscriptions :=
                         delete_where (\<lambda>s. sub_user_id s = i) (user_subscriptions d)\<rparr>))"

subsection \<open>Functional behaviour\<close>

lemmas account_defs = createUser_def CreateUser_def CreateUserWithRole_def GetUserByUsername_def
  InsertRefreshToken_def GetRefreshToken_def RevokeRefreshToken_def ReplaceRefreshToken_def
  RevokeAllRefreshTokens_def DeleteExpiredTokens_def GetUserByID_def UpdateUser_def DeleteUser_def
  requireAffected_def

lemma foldr_max_ge: "x \<in> set xs \<Longrightarrow> x \<le> foldr max xs (0 :: int)"
  by (induction xs) auto

lemma sqlite_next_id_fresh: "sqlite_next_id us \<notin> u_id ` set us"
proof
  assume "sqlite_next_id us \<in> u_id ` set us"
  then have "sqlite_next_id us \<le> foldr max (map u_id us) 0"
    by (intro foldr_max_ge) auto
  then show False by (simp add: sqlite_next_id_def)
qed

lemma sqlite_next_id_pos: "0 < sqlite_next_id us"
proof -
  have "0 \<le> foldr max (map u_id us) (0 :: int)" by (induction us) auto
  then show ?thesis by (simp add: sqlite_next_id_def)
qed

lemma update_where_token_keys:
  "map rt_jti (update_where p (\<lambda>t. t\<lparr>rt_revoked := True\<rparr>) ts) = map rt_jti ts"
  by (rule map_key_update_where) simp

lemma row_with_revoke:
  "row_with rt_jti j (update_where p (\<lambda>t. t\<lparr>rt_revoked := True\<rparr>) ts) =
   map_option (\<lambda>t. if p t then t\<lparr>rt_revoked := True\<rparr> else t) (row_with rt_jti j ts)"
  by (rule row_with_update_where) simp

lemma GetRefreshToken_insert:
  "InsertRefreshToken jti u e now d = Inr d' \<Longrightarrow>
   GetRefreshToken j d' = (if j = jti then Inr (False, e) else GetRefreshToken j d)"
proof -
  assume ins: "InsertRefreshToken jti u e now d = Inr d'"
  then have "row_with rt_jti jti (refresh_tokens d) = None"
    by (auto simp: InsertRefreshToken_def list_ex_key row_with_None split: if_splits)
  with ins show ?thesis
    by (auto simp: InsertRefreshToken_def GetRefreshToken_def row_with_snoc
        split: if_splits option.splits)
qed

lemma GetRefreshToken_None: "GetRefreshToken j d = Inl e \<longleftrightarrow> e = ErrNotFound \<and> j \<notin> rt_jti ` set (refresh_tokens d)"
  by (auto simp: GetRefreshToken_def row_with_None [symmetric] split: option.splits)

lemma GetRefreshToken_revoke:
  "GetRefreshToken j (RevokeRefreshToken jti d) =
   (case GetRefreshToken j d of Inl e \<Rightarrow> Inl e | Inr (r, x) \<Rightarrow> Inr (r \<or> j = jti, x))"
  by (auto simp: GetRefreshToken_def RevokeRefreshToken_def row_with_revoke
      split: option.splits dest: row_with_Some)

lemma ReplaceRefreshToken_True:
  assumes "ReplaceRefreshToken old new u e now d = Inr (True, d')"
    and "distinct (map rt_jti (refresh_tokens d))"
  shows "\<exists>x. GetRefreshToken old d = Inr (False, x) \<and> x > now"
    and "new \<noteq> old" and "GetRefreshToken new d = Inl ErrNotFound"
    and "GetRefreshToken j d' =
      (if j = new then Inr (False, e)
       else case GetRefreshToken j d of Inl er \<Rightarrow> Inl er | Inr (r, x) \<Rightarrow> Inr (r \<or> j = old, x))"
proof -
  let ?live = "\<lambda>t. rt_jti t = old \<and> rt_user_id t = u \<and> \<not> rt_revoked t \<and> rt_expires_at t > now"
  let ?d1 = "d\<lparr>refresh_tokens := update_where ?live (\<lambda>t. t\<lparr>rt_revoked := True\<rparr>) (refresh_tokens d)\<rparr>"
  from assms(1) have aff: "affected ?live (refresh_tokens d) \<noteq> 0"
    and ins: "InsertRefreshToken new u e now ?d1 = Inr d'"
    by (auto simp: ReplaceRefreshToken_def Let_def split: if_splits sum.splits)
  from aff obtain t where t: "t \<in> set (refresh_tokens d)" "?live t" by (auto simp: affected_0)
  have row: "row_with rt_jti old (refresh_tokens d) = Some t"
    using row_with_distinct [OF assms(2) t(1)] t(2) by simp
  then show "\<exists>x. GetRefreshToken old d = Inr (False, x) \<and> x > now"
    using t(2) by (simp add: GetRefreshToken_def)
  have "set (map rt_jti (refresh_tokens ?d1)) = set (map rt_jti (refresh_tokens d))"
    by (simp add: update_where_token_keys del: set_map)
  moreover from ins have "new \<notin> rt_jti ` set (refresh_tokens ?d1)"
    unfolding InsertRefreshToken_def list_ex_key by (metis Inl_Inr_False)
  ultimately have fresh: "new \<notin> rt_jti ` set (refresh_tokens d)" by (simp only: set_map simp_thms)
  then show "GetRefreshToken new d = Inl ErrNotFound" by (simp add: GetRefreshToken_None)
  from fresh t show "new \<noteq> old" by blast
  have get1: "GetRefreshToken j ?d1 =
    (case GetRefreshToken j d of Inl er \<Rightarrow> Inl er | Inr (r, x) \<Rightarrow> Inr (r \<or> j = old, x))"
    using row t(2)
    by (auto simp: GetRefreshToken_def row_with_revoke split: option.splits dest: row_with_Some)
  show "GetRefreshToken j d' =
      (if j = new then Inr (False, e)
       else case GetRefreshToken j d of Inl er \<Rightarrow> Inl er | Inr (r, x) \<Rightarrow> Inr (r \<or> j = old, x))"
    using GetRefreshToken_insert [OF ins, of j] get1 by simp
qed

lemma ReplaceRefreshToken_False:
  "ReplaceRefreshToken old new u e now d = Inr (False, d') \<Longrightarrow> d' = d"
  by (auto simp: ReplaceRefreshToken_def Let_def split: if_splits sum.splits)

lemma ReplaceRefreshToken_dead:
  assumes "GetRefreshToken old d = Inl ErrNotFound \<or> (\<exists>x. GetRefreshToken old d = Inr (True, x))"
    and "distinct (map rt_jti (refresh_tokens d))"
  shows "ReplaceRefreshToken old new u e now d = Inr (False, d)"
proof -
  have "\<not> (rt_jti t = old \<and> \<not> rt_revoked t)" if "t \<in> set (refresh_tokens d)" for t
    using assms row_with_distinct [OF assms(2) that] that
    by (auto simp: GetRefreshToken_None GetRefreshToken_def split: option.splits)
  then have "affected (\<lambda>t. rt_jti t = old \<and> rt_user_id t = u \<and> \<not> rt_revoked t \<and> rt_expires_at t > now)
      (refresh_tokens d) = 0"
    by (auto simp: affected_0)
  then show ?thesis by (simp add: ReplaceRefreshToken_def)
qed

subsection \<open>The constraints of the schema are kept\<close>

lemma createUser_ok: "db_ok d \<Longrightarrow> createUser alloc n h r now d = Inr (i, d') \<Longrightarrow> db_ok d'"
  by (auto simp: createUser_def db_ok_simps Let_def list_ex_key split: if_splits)

lemma InsertRefreshToken_ok: "db_ok d \<Longrightarrow> InsertRefreshToken j u e now d = Inr d' \<Longrightarrow> db_ok d'"
  by (auto simp: InsertRefreshToken_def db_ok_simps list_ex_key split: if_splits)

text \<open>Revoking tokens changes neither their keys nor their owners.\<close>

lemma revoke_where_ok:
  assumes "db_ok d"
  shows "db_ok (d\<lparr>refresh_tokens := update_where p (\<lambda>t. t\<lparr>rt_revoked := True\<rparr>) (refresh_tokens d)\<rparr>)"
proof -
  have "rt_user_id t \<in> u_id ` set (users d)"
    if "t \<in> set (update_where p (\<lambda>t. t\<lparr>rt_revoked := True\<rparr>) (refresh_tokens d))" for t
    using that assms by (auto simp: set_update_where db_ok_simps)
  with assms show ?thesis
    by (simp add: db_ok_simps update_where_token_keys)
qed

lemma ReplaceRefreshToken_ok:
  assumes "db_ok d" "ReplaceRefreshToken old new u e now d = Inr (b, d')"
  shows "db_ok d'"
  using assms InsertRefreshToken_ok [OF revoke_where_ok [OF assms(1)]]
  by (auto simp: ReplaceRefreshToken_def Let_def split: if_splits sum.splits)

lemma DeleteExpiredTokens_ok: "db_ok d \<Longrightarrow> db_ok (DeleteExpiredTokens now d)"
  by (simp add: DeleteExpiredTokens_def db_ok_simps distinct_delete_where set_delete_where)

lemma UpdateUser_names:
  assumes "db_ok d" "UpdateUser i username ph d = Inr d'"
  shows "distinct (map u_username (users d'))" and "map u_id (users d') = map u_id (users d)"
proof -
  let ?upd = "\<lambda>u. u\<lparr>u_username := coalesce username (u_username u),
                   u_password_hash := coalesce ph (u_password_hash u)\<rparr>"
  from assms(2) have us: "users d' = update_where (\<lambda>u. u_id u = i) ?upd (users d)"
    and free: "\<forall>u \<in> set (users d). u_id u \<noteq> i \<longrightarrow> username \<noteq> Some (u_username u)"
    by (auto simp: UpdateUser_def Let_def list_ex_iff split: if_splits)
  show "map u_id (users d') = map u_id (users d)"
    unfolding us by (rule map_key_update_where) simp
  show "distinct (map u_username (users d'))"
  proof (cases username)
    case None
    then have "map u_username (users d') = map u_username (users d)"
      unfolding us by (intro map_key_update_where) (simp add: coalesce_def)
    with assms(1) show ?thesis by (simp add: db_ok_simps)
  next
    case (Some n)
    with free assms(1) show ?thesis
      unfolding us by (intro distinct_update_unique [where n = n]) (auto simp: db_ok_simps coalesce_def)
  qed
qed

lemma UpdateUser_ok:
  assumes "db_ok d" "UpdateUser i username ph d = Inr d'"
  shows "db_ok d'"
proof -
  note names = UpdateUser_names [OF assms]
  have ids: "u_id ` set (users d') = u_id ` set (users d)"
    using names(2) by (metis list.set_map)
  from assms(2) obtain us where
    d': "d' = d\<lparr>users := us\<rparr> \<or> d' = (d\<lparr>users := us\<rparr>)\<lparr>refresh_tokens :=
        update_where (\<lambda>t. rt_user_id t = i) (\<lambda>t. t\<lparr>rt_revoked := True\<rparr>) (refresh_tokens (d\<lparr>users := us\<rparr>))\<rparr>"
    by (auto simp: UpdateUser_def Let_def split: if_splits)
  then have us: "us = users d'" by auto
  have "db_ok (d\<lparr>users := us\<rparr>)"
    using assms(1) names ids unfolding us by (simp add: db_ok_simps)
  with d' show ?thesis using revoke_where_ok by metis
qed

lemma DeleteUser_ok: "db_ok d \<Longrightarrow> DeleteUser i d = Inr d' \<Longrightarrow> db_ok d'"
  by (auto simp: DeleteUser_def requireAffected_def db_ok_simps distinct_delete_where
      image_delete_where split: if_splits) (auto simp: set_delete_where)

end
