(* ===== verification/Base64.thy ===== *)
theory Base64
  imports Go_Strings
begin

text \<open>
  Go's \<^verbatim>\<open>encoding/base64\<close> as the panel uses it: \<^verbatim>\<open>RawURLEncoding\<close> (cursors, tokens, share
  links) and \<^verbatim>\<open>StdEncoding\<close> (sealed secrets, subscription bodies). The decoders skip line
  breaks, as Go's do.
\<close>

subsection \<open>Definitions\<close>

definition std_alphabet :: string where
  "std_alphabet = ''ABCDEFGHIJKLMNOPQRSTUVWXYZabcdefghijklmnopqrstuvwxyz0123456789+/''"

definition url_alphabet :: string where
  "url_alphabet = ''ABCDEFGHIJKLMNOPQRSTUVWXYZabcdefghijklmnopqrstuvwxyz0123456789-_''"

definition sextet_of :: "string \<Rightarrow> char \<Rightarrow> nat option" where
  "sextet_of alpha c = map_of (zip alpha [0..<64]) c"

abbreviation byte_val :: "char \<Rightarrow> nat" where
  "byte_val c \<equiv> of_char c"

text \<open>One quantum of three bytes is four six-bit digits; the last one may be short.\<close>

fun sextets :: "string \<Rightarrow> nat list list" where
  "sextets [] = []"
| "sextets [a] = [[byte_val a div 4, byte_val a mod 4 * 16]]"
| "sextets [a, b] =
     [[byte_val a div 4, byte_val a mod 4 * 16 + byte_val b div 16, byte_val b mod 16 * 4]]"
| "sextets (a # b # c # s) =
     [byte_val a div 4, byte_val a mod 4 * 16 + byte_val b div 16,
      byte_val b mod 16 * 4 + byte_val c div 64, byte_val c mod 64] # sextets s"

definition RawURLEncode :: "string \<Rightarrow> string" where
  "RawURLEncode s = concat (map (map ((!) url_alphabet)) (sextets s))"

definition pad4 :: "string \<Rightarrow> string" where
  "pad4 q = q @ replicate (4 - length q) CHR ''=''"

definition StdEncode :: "string \<Rightarrow> string" where
  "StdEncode s = concat (map (\<lambda>q. pad4 (map ((!) std_alphabet) q)) (sextets s))"

text \<open>The bytes of a full or short quantum; one digit alone is an error.\<close>

fun quantum_bytes :: "nat list \<Rightarrow> string option" where
  "quantum_bytes [w, x] = Some [char_of (w * 4 + x div 16)]"
| "quantum_bytes [w, x, y] = Some [char_of (w * 4 + x div 16), char_of (x mod 16 * 16 + y div 4)]"
| "quantum_bytes [w, x, y, z] =
     Some [char_of (w * 4 + x div 16), char_of (x mod 16 * 16 + y div 4),
           char_of (y mod 4 * 64 + z)]"
| "quantum_bytes _ = None"

fun all_some :: "'a option list \<Rightarrow> 'a list option" where
  "all_some [] = Some []"
| "all_some (x # xs) =
     (case x of None \<Rightarrow> None | Some v \<Rightarrow> map_option ((#) v) (all_some xs))"

definition decode_quantum :: "string \<Rightarrow> string \<Rightarrow> string option" where
  "decode_quantum alpha q =
     (case all_some (map (sextet_of alpha) q) of None \<Rightarrow> None | Some ds \<Rightarrow> quantum_bytes ds)"

definition drop_newlines :: "string \<Rightarrow> string" where
  "drop_newlines s = filter (\<lambda>c. c \<noteq> CHR 0x0A \<and> c \<noteq> CHR 0x0D) s"

fun raw_decode :: "string \<Rightarrow> string \<Rightarrow> string option" where
  "raw_decode alpha [] = Some []"
| "raw_decode alpha (a # b # c # d # e # s) =
     (case decode_quantum alpha [a, b, c, d] of
        None \<Rightarrow> None
      | Some bs \<Rightarrow> map_option ((@) bs) (raw_decode alpha (e # s)))"
| "raw_decode alpha s = decode_quantum alpha s"

definition RawURLDecode :: "string \<Rightarrow> string option" where
  "RawURLDecode s = raw_decode url_alphabet (drop_newlines s)"

text \<open>With padding, the input is full quanta and only the last may end in padding.\<close>

fun padded_decode :: "string \<Rightarrow> string \<Rightarrow> string option" where
  "padded_decode alpha [] = Some []"
| "padded_decode alpha (a # b # c # d # s) =
     (if d = CHR ''='' then
        (if s \<noteq> [] then None
         else if c = CHR ''='' then decode_quantum alpha [a, b]
         else decode_quantum alpha [a, b, c])
      else case decode_quantum alpha [a, b, c, d] of
             None \<Rightarrow> None
           | Some bs \<Rightarrow> map_option ((@) bs) (padded_decode alpha s))"
| "padded_decode alpha _ = None"

definition StdDecode :: "string \<Rightarrow> string option" where
  "StdDecode s = padded_decode std_alphabet (drop_newlines s)"

subsection \<open>Lemmas\<close>

lemma url_alphabet_props: "distinct url_alphabet" "length url_alphabet = 64"
  by (simp_all add: url_alphabet_def)

lemma std_alphabet_props: "distinct std_alphabet" "length std_alphabet = 64"
  by (simp_all add: std_alphabet_def)

lemma alphabet_no_special:
  "c \<in> set url_alphabet \<union> set std_alphabet \<Longrightarrow> c \<noteq> CHR 0x0A \<and> c \<noteq> CHR 0x0D \<and> c \<noteq> CHR ''=''"
  by (auto simp: url_alphabet_def std_alphabet_def)

lemma sextet_of_nth:
  "distinct alpha \<Longrightarrow> length alpha = 64 \<Longrightarrow> i < 64 \<Longrightarrow> sextet_of alpha (alpha ! i) = Some i"
  by (simp add: sextet_of_def map_of_zip_nth)

lemma all_some_map_Some [simp]: "all_some (map Some xs) = Some xs"
  by (induction xs) auto

lemma byte_div_bounds [simp]:
  "byte_val a div 4 < 64" "byte_val a div 16 < 16" "byte_val a div 64 < 4"
  using byte_val_less [of a] by (simp_all only: div_less_iff_less_mult)

lemma sextet_mid_bounds [simp]:
  "byte_val a mod 4 * 16 + byte_val b div 16 < 64" "byte_val a mod 16 * 4 + byte_val b div 64 < 64"
proof -
  have "byte_val a mod 4 < 4" "byte_val a mod 16 < 16" by simp_all
  with byte_div_bounds(2,3) [of b]
  show "byte_val a mod 4 * 16 + byte_val b div 16 < 64" "byte_val a mod 16 * 4 + byte_val b div 64 < 64"
    by linarith+
qed

lemma sextet_low_bounds [simp]:
  "byte_val a mod 4 * 16 < 64" "byte_val a mod 16 * 4 < 64" "byte_val a mod 64 < 64"
  using sextet_mid_bounds [of a] by (auto intro: le_less_trans [rotated])

lemma sextets_bound: "q \<in> set (sextets s) \<Longrightarrow> d \<in> set q \<Longrightarrow> d < 64"
by (induction s rule: sextets.induct) auto

lemma decode_quantum_digits:
  assumes "distinct alpha" "length alpha = 64" "\<forall>d \<in> set ds. d < 64"
  shows "decode_quantum alpha (map ((!) alpha) ds) = quantum_bytes ds"
proof -
  have "map (sextet_of alpha) (map ((!) alpha) ds) = map Some ds"
    using assms by (auto simp: sextet_of_nth)
  then show ?thesis by (simp only: decode_quantum_def all_some_map_Some option.case)
qed

lemma quantum_bytes_sextets:
  "quantum_bytes [byte_val a div 4, byte_val a mod 4 * 16] = Some [a]"
  "quantum_bytes [byte_val a div 4, byte_val a mod 4 * 16 + byte_val b div 16,
     byte_val b mod 16 * 4] = Some [a, b]"
  "quantum_bytes [byte_val a div 4, byte_val a mod 4 * 16 + byte_val b div 16,
     byte_val b mod 16 * 4 + byte_val c div 64, byte_val c mod 64] = Some [a, b, c]"
  using byte_div_bounds [of a] byte_div_bounds [of b] byte_div_bounds [of c]
  by simp_all

text \<open>Each quantum the encoder writes decodes to the bytes it came from.\<close>

lemma decode_sextets:
  assumes "distinct alpha" "length alpha = 64"
  shows "decode_quantum alpha (map ((!) alpha) [byte_val a div 4, byte_val a mod 4 * 16]) = Some [a]"
    and "decode_quantum alpha (map ((!) alpha) [byte_val a div 4, byte_val a mod 4 * 16 + byte_val b div 16,
     byte_val b mod 16 * 4]) = Some [a, b]"
    and "decode_quantum alpha (map ((!) alpha) [byte_val a div 4, byte_val a mod 4 * 16 + byte_val b div 16,
     byte_val b mod 16 * 4 + byte_val c div 64, byte_val c mod 64]) = Some [a, b, c]"
using assms quantum_bytes_sextets
  by (simp_all only: decode_quantum_digits list.set ball_simps byte_div_bounds sextet_mid_bounds
      sextet_low_bounds simp_thms)

lemma raw_decode_step:
  "decode_quantum alpha [w, x, y, z] = Some bs \<Longrightarrow>
   raw_decode alpha (w # x # y # z # s) = map_option ((@) bs) (raw_decode alpha s)"
  by (cases s) auto

lemma raw_decode_encode:
  assumes "distinct alpha" "length alpha = 64"
  shows "raw_decode alpha (concat (map (map ((!) alpha)) (sextets s))) = Some s"
proof (induction s rule: sextets.induct)
  case (4 a b c s)
  then show ?case
    using decode_sextets(3) [OF assms, of a b c] by (simp add: raw_decode_step)
qed (use decode_sextets [OF assms] in simp_all)

lemma replicate_two: "replicate 2 x = [x, x]"
  by (simp add: numeral_2_eq_2)

lemma padded_decode_encode:
  assumes "distinct alpha" "length alpha = 64" "CHR ''='' \<notin> set alpha"
  shows "padded_decode alpha (concat (map (\<lambda>q. pad4 (map ((!) alpha) q)) (sextets s))) = Some s"
proof (induction s rule: sextets.induct)
  case (2 a)
  show ?case using decode_sextets(1) [OF assms(1,2), of a] by (simp add: pad4_def replicate_two)
next
  case (3 a b)
  have "byte_val b mod 16 * 4 < length alpha" using assms(2) by simp
  then have "alpha ! (byte_val b mod 16 * 4) \<noteq> CHR ''=''" using assms(3) nth_mem by metis
  then show ?case using decode_sextets(2) [OF assms(1,2), of a b] by (simp add: pad4_def)
next
  case (4 a b c s)
  have "byte_val c mod 64 < length alpha" using assms(2) by simp
  then have "alpha ! (byte_val c mod 64) \<noteq> CHR ''=''" using assms(3) nth_mem by metis
  with 4 show ?case using decode_sextets(3) [OF assms(1,2), of a b c] by (simp add: pad4_def)
qed simp

lemma RawURLEncode_chars: "c \<in> set (RawURLEncode s) \<Longrightarrow> c \<in> set url_alphabet"
  using sextets_bound url_alphabet_props(2) by (fastforce simp: RawURLEncode_def)

lemma StdEncode_chars: "c \<in> set (StdEncode s) \<Longrightarrow> c \<in> set std_alphabet \<union> {CHR ''=''}"
  using sextets_bound std_alphabet_props(2)
  by (fastforce simp: StdEncode_def pad4_def split: if_splits)

lemma drop_newlines_id: "\<forall>c \<in> set s. c \<noteq> CHR 0x0A \<and> c \<noteq> CHR 0x0D \<Longrightarrow> drop_newlines s = s"
  by (simp add: drop_newlines_def)

lemma RawURL_roundtrip: "RawURLDecode (RawURLEncode s) = Some s"
proof -
  have "drop_newlines (RawURLEncode s) = RawURLEncode s"
    by (rule drop_newlines_id) (use RawURLEncode_chars alphabet_no_special in blast)
  then show ?thesis
    using raw_decode_encode [OF url_alphabet_props] by (simp add: RawURLDecode_def RawURLEncode_def)
qed

lemma Std_roundtrip: "StdDecode (StdEncode s) = Some s"
proof -
  have "drop_newlines (StdEncode s) = StdEncode s"
    by (rule drop_newlines_id) (use StdEncode_chars alphabet_no_special in fastforce)
  moreover have "CHR ''='' \<notin> set std_alphabet" using alphabet_no_special by blast
  ultimately show ?thesis
    using padded_decode_encode [OF std_alphabet_props] by (simp add: StdDecode_def StdEncode_def)
qed

end
