(* ===== verification/Auth_Session.thy ===== *)
theory Auth_Session
  imports Store_Accounts Base64
begin

text \<open>
  The session manager, \<^verbatim>\<open>auth/jwt.go\<close>. A session is a pair of signed tokens that share one
  \<open>jti\<close>, registered in the refresh-token store. Signing and parsing of tokens is the
  \<^verbatim>\<open>golang-jwt\<close> package: \<open>sign\<close> and \<open>parse\<close> are arguments. The refresh store is the Go
  interface \<^verbatim>\<open>RefreshStore\<close>: a record of its four operations over some store state, with the
  laws the manager relies on in the locale \<open>refresh_store\<close>, interpreted on the panel's
  database. Clock values are nanoseconds; \<open>Unix\<close> takes the seconds.
\<close>

subsection \<open>Tokens and the manager\<close>

record claims =
  cl_typ :: string
  cl_username :: string
  cl_role :: string
  cl_subject :: string
  cl_expires_at :: int
  cl_issued_at :: int
  cl_issuer :: string
  cl_id :: string

record pair =
  AccessToken :: string
  RefreshToken :: string
  AccessExpiresAt :: int
  RefreshExpiresAt :: int

record manager =
  m_key :: string
  m_accessTTL :: int
  m_refreshTTL :: int

datatype auth_error = ErrInvalidToken | ErrRevoked | ErrSign | ErrRandom | ErrStore db_error

record 's refresh_store_ops =
  rs_insert :: "string \<Rightarrow> int \<Rightarrow> int \<Rightarrow> int \<Rightarrow> 's \<Rightarrow> 's db_res"
  rs_get :: "string \<Rightarrow> 's \<Rightarrow> (bool \<times> int) db_res"
  rs_revoke :: "string \<Rightarrow> 's \<Rightarrow> 's"
  rs_replace :: "string \<Rightarrow> string \<Rightarrow> int \<Rightarrow> int \<Rightarrow> int \<Rightarrow> 's \<Rightarrow> (bool \<times> 's) db_res"

definition Unix :: "int \<Rightarrow> int" where
  "Unix t = t div 1000000000"

definition ClaimTypeAccess :: string where "ClaimTypeAccess = ''access''"

definition ClaimTypeRefresh :: string where "ClaimTypeRefresh = ''refresh''"

text \<open>The parse error of the subject is dropped: an unreadable subject is user 0.\<close>

definition UserID :: "claims \<Rightarrow> int" where
  "UserID c = ParseIntValue (cl_subject c)"

type_synonym jwt_sign = "string \<Rightarrow> claims \<Rightarrow> string option"
type_synonym jwt_parse = "string \<Rightarrow> int \<Rightarrow> string \<Rightarrow> claims option"

text \<open>\<open>newJTI\<close>: sixteen random bytes (or the failure of the random source), encoded.\<close>

definition newJTI :: "string option \<Rightarrow> auth_error + string" where
  "newJTI rnd = (case rnd of None \<Rightarrow> Inl ErrRandom | Some b \<Rightarrow> Inr (RawURLEncode b))"

definition signKeyed ::
  "jwt_sign \<Rightarrow> manager \<Rightarrow> string \<Rightarrow> int \<Rightarrow> string \<Rightarrow> string \<Rightarrow> int \<Rightarrow> int \<Rightarrow> string \<Rightarrow>
   auth_error + string" where
  "signKeyed sign m typ userID username role exp now jti =
     (case sign (m_key m)
        \<lparr>cl_typ = typ, cl_username = username, cl_role = role, cl_subject = Itoa userID,
         cl_expires_at = Unix exp, cl_issued_at = Unix now, cl_issuer = ''sing-hub'',
         cl_id = jti\<rparr> of
        None \<Rightarrow> Inl ErrSign | Some t \<Rightarrow> Inr t)"

definition newPair ::
  "jwt_sign \<Rightarrow> manager \<Rightarrow> int \<Rightarrow> string \<Rightarrow> string \<Rightarrow> int \<Rightarrow> string option \<Rightarrow>
   auth_error + (pair \<times> string)" where
  "newPair sign m userID username role now rnd =
     (let accessExp = now + m_accessTTL m; refreshExp = now + m_refreshTTL m in
      case newJTI rnd of Inl e \<Rightarrow> Inl e
      | Inr jti \<Rightarrow>
        (case signKeyed sign m ClaimTypeAccess userID username role accessExp now jti of
           Inl e \<Rightarrow> Inl e
         | Inr access \<Rightarrow>
           (case signKeyed sign m ClaimTypeRefresh userID username role refreshExp now jti of
              Inl e \<Rightarrow> Inl e
            | Inr refresh \<Rightarrow>
                Inr (\<lparr>AccessToken = access, RefreshToken = refresh,
                      AccessExpiresAt = accessExp, RefreshExpiresAt = refreshExp\<rparr>, jti))))"

definition verify ::
  "jwt_parse \<Rightarrow> manager \<Rightarrow> string \<Rightarrow> string \<Rightarrow> int \<Rightarrow> auth_error + claims" where
  "verify parse m tokenStr wantType now =
     (case parse (m_key m) now tokenStr of
        None \<Rightarrow> Inl ErrInvalidToken
      | Some c \<Rightarrow> if cl_typ c \<noteq> wantType \<or> cl_id c = '''' \<or> UserID c \<le> 0
                   then Inl ErrInvalidToken else Inr c)"

definition Issue ::
  "jwt_sign \<Rightarrow> 's refresh_store_ops \<Rightarrow> manager \<Rightarrow> int \<Rightarrow> string \<Rightarrow> string \<Rightarrow> int \<Rightarrow> string option \<Rightarrow>
   's \<Rightarrow> auth_error + (pair \<times> 's)" where
  "Issue sign ops m userID username role now rnd s =
     (case newPair sign m userID username role now rnd of
        Inl e \<Rightarrow> Inl e
      | Inr (p, jti) \<Rightarrow>
        (case rs_insert ops jti userID (Unix (RefreshExpiresAt p)) (Unix now) s of
           Inl e \<Rightarrow> Inl (ErrStore e)
         | Inr s' \<Rightarrow> Inr (p, s')))"

definition VerifyAccess ::
  "jwt_parse \<Rightarrow> 's refresh_store_ops \<Rightarrow> manager \<Rightarrow> string \<Rightarrow> int \<Rightarrow> 's \<Rightarrow> auth_error + claims" where
  "VerifyAccess parse ops m tokenStr now s =
     (case verify parse m tokenStr ClaimTypeAccess now of
        Inl e \<Rightarrow> Inl e
      | Inr c \<Rightarrow>
        (case rs_get ops (cl_id c) s of
           Inl _ \<Rightarrow> Inl ErrInvalidToken
         | Inr (revoked, expiresAt) \<Rightarrow>
             if revoked \<or> expiresAt \<le> Unix now then Inl ErrInvalidToken else Inr c))"

definition VerifyRefresh ::
  "jwt_parse \<Rightarrow> manager \<Rightarrow> string \<Rightarrow> int \<Rightarrow> auth_error + claims" where
  "VerifyRefresh parse m tokenStr now = verify parse m tokenStr ClaimTypeRefresh now"

definition Rotate ::
  "jwt_sign \<Rightarrow> jwt_parse \<Rightarrow> 's refresh_store_ops \<Rightarrow> manager \<Rightarrow> string \<Rightarrow> int \<Rightarrow> string option \<Rightarrow> 's \<Rightarrow>
   auth_error + (pair \<times> 's)" where
  "Rotate sign parse ops m tokenStr now rnd s =
     (case verify parse m tokenStr ClaimTypeRefresh now of
        Inl e \<Rightarrow> Inl e
      | Inr c \<Rightarrow>
        (case newPair sign m (UserID c) (cl_username c) (cl_role c) now rnd of
           Inl e \<Rightarrow> Inl e
         | Inr (p, jti) \<Rightarrow>
           (case rs_replace ops (cl_id c) jti (UserID c) (Unix (RefreshExpiresAt p)) (Unix now) s of
              Inl e \<Rightarrow> Inl (ErrStore e)
            | Inr (replaced, s') \<Rightarrow> if replaced then Inr (p, s') else Inl ErrRevoked)))"

definition Revoke :: "'s refresh_store_ops \<Rightarrow> string \<Rightarrow> 's \<Rightarrow> 's" where
  "Revoke ops jti s = rs_revoke ops jti s"

text \<open>The panel's store as a \<^verbatim>\<open>RefreshStore\<close>.\<close>

definition db_refresh_store :: "db refresh_store_ops" where
  "db_refresh_store = \<lparr>rs_insert = InsertRefreshToken, rs_get = GetRefreshToken,
     rs_revoke = RevokeRefreshToken, rs_replace = ReplaceRefreshToken\<rparr>"

text \<open>
  What the token library documents: a token it signed with a key parses under that key to
  the claims it was signed with, as long as the issuer is the expected one and the
  expiration time has not passed.
\<close>

definition jwt_faithful :: "jwt_sign \<Rightarrow> jwt_parse \<Rightarrow> bool" where
  "jwt_faithful sign parse \<longleftrightarrow>
     (\<forall>k c t now. sign k c = Some t \<longrightarrow> cl_issuer c = ''sing-hub'' \<longrightarrow>
        now < cl_expires_at c * 1000000000 \<longrightarrow> parse k now t = Some c)"

subsection \<open>The interface of the refresh store\<close>

locale refresh_store =
  fixes ops :: "'s refresh_store_ops"
    and inv :: "'s \<Rightarrow> bool"
  assumes insert_inv: "inv s \<Longrightarrow> rs_insert ops jti u e now s = Inr s' \<Longrightarrow> inv s'"
    and insert_get: "inv s \<Longrightarrow> rs_insert ops jti u e now s = Inr s' \<Longrightarrow>
      rs_get ops j s' = (if j = jti then Inr (False, e) else rs_get ops j s)"
    and replace_inv: "inv s \<Longrightarrow> rs_replace ops old new u e now s = Inr (b, s') \<Longrightarrow> inv s'"
    and replace_live: "inv s \<Longrightarrow> rs_replace ops old new u e now s = Inr (True, s') \<Longrightarrow>
      \<exists>x. rs_get ops old s = Inr (False, x) \<and> x > now"
    and replace_get: "inv s \<Longrightarrow> rs_replace ops old new u e now s = Inr (True, s') \<Longrightarrow>
      rs_get ops j s' =
        (if j = new then Inr (False, e)
         else case rs_get ops j s of Inl er \<Rightarrow> Inl er | Inr (r, x) \<Rightarrow> Inr (r \<or> j = old, x))"
    and replace_fresh: "inv s \<Longrightarrow> rs_replace ops old new u e now s = Inr (True, s') \<Longrightarrow> new \<noteq> old"
    and replace_unchanged: "rs_replace ops old new u e now s = Inr (False, s') \<Longrightarrow> s' = s"
    and replace_dead: "inv s \<Longrightarrow> rs_get ops old s = Inr (True, x) \<Longrightarrow>
      rs_replace ops old new u e now s = Inr (False, s)"
begin

text \<open>A session is dead once its row is gone or revoked.\<close>

lemma verify_access_dead:
  assumes "verify parse m tok ClaimTypeAccess now = Inr c"
    and "\<forall>x. rs_get ops (cl_id c) s \<noteq> Inr (False, x)"
  shows "VerifyAccess parse ops m tok now s = Inl ErrInvalidToken"
  using assms by (auto simp: VerifyAccess_def split: sum.splits prod.splits)

lemma rotate_consumes:
  assumes "inv s" "verify parse m tok ClaimTypeRefresh now = Inr c"
    and "Rotate sign parse ops m tok now rnd s = Inr (p, s')"
  shows "inv s'" "\<exists>x. rs_get ops (cl_id c) s' = Inr (True, x)"
proof -
  from assms(2,3) obtain jti where
    rep: "rs_replace ops (cl_id c) jti (UserID c) (Unix (RefreshExpiresAt p)) (Unix now) s = Inr (True, s')"
    by (auto simp: Rotate_def split: sum.splits prod.splits if_splits)
  then show "inv s'" using assms(1) replace_inv by blast
  obtain x where x: "rs_get ops (cl_id c) s = Inr (False, x)" using replace_live [OF assms(1) rep] by blast
  have "jti \<noteq> cl_id c" using replace_fresh [OF assms(1) rep] .
  then show "\<exists>x. rs_get ops (cl_id c) s' = Inr (True, x)"
    using replace_get [OF assms(1) rep, of "cl_id c"] x by simp
qed

lemma rotate_error_keeps:
  "Rotate sign parse ops m tok now rnd s = Inl e \<Longrightarrow>
   verify parse m tok ClaimTypeRefresh now = Inr c \<Longrightarrow> inv s \<Longrightarrow>
   rs_get ops (cl_id c) s = Inr (True, x) \<Longrightarrow> e \<noteq> ErrInvalidToken"
  by (auto simp: Rotate_def newPair_def newJTI_def signKeyed_def Let_def
      split: sum.splits prod.splits option.splits if_splits)

lemma rotate_dead:
  assumes "inv s" "verify parse m tok ClaimTypeRefresh now = Inr c"
    and "rs_get ops (cl_id c) s = Inr (True, x)"
  shows "\<nexists>r. Rotate sign parse ops m tok now rnd s = Inr r"
  using assms replace_dead [OF assms(1,3)]
  by (auto simp: Rotate_def split: sum.splits prod.splits)

lemma issue_registers:
  assumes "inv s" "Issue sign ops m uid name role now rnd s = Inr (p, s')"
    and "newPair sign m uid name role now rnd = Inr (p, jti)"
  shows "inv s'" "rs_get ops jti s' = Inr (False, Unix (RefreshExpiresAt p))"
  using assms insert_inv insert_get
  by (auto simp: Issue_def split: sum.splits prod.splits)

end

interpretation db_sessions: refresh_store db_refresh_store db_ok
proof (unfold_locales, goal_cases)
  case (1 s jti u e now s')
  then show ?case by (auto simp: db_refresh_store_def intro: InsertRefreshToken_ok)
next
  case (2 s jti u e now s' j)
  then show ?case by (auto simp: db_refresh_store_def GetRefreshToken_insert)
next
  case (3 s old new u e now b s')
  then show ?case by (auto simp: db_refresh_store_def intro: ReplaceRefreshToken_ok)
next
  case (4 s old new u e now s')
  then show ?case
    using ReplaceRefreshToken_True(1) [of old new u e now s s']
    by (auto simp: db_refresh_store_def db_ok_simps)
next
  case (5 s old new u e now s' j)
  then show ?case
    using ReplaceRefreshToken_True(4) [of old new u e now s s' j]
    by (auto simp: db_refresh_store_def db_ok_simps)
next
  case (6 s old new u e now s')
  then show ?case
    using ReplaceRefreshToken_True(2) [of old new u e now s s']
    by (auto simp: db_refresh_store_def db_ok_simps)
next
  case (7 old new u e now s s')
  then show ?case by (auto simp: db_refresh_store_def dest: ReplaceRefreshToken_False)
next
  case (8 s old x new u e now)
  then show ?case
    using ReplaceRefreshToken_dead [of old s new u e now]
    by (auto simp: db_refresh_store_def db_ok_simps)
qed

subsection \<open>Runs of the session store\<close>

text \<open>
  Every operation of the store that touches accounts or sessions, as a step; the label lists
  the session ids the step registers.
\<close>

inductive session_step :: "db \<Rightarrow> string list \<Rightarrow> db \<Rightarrow> bool" where
  ss_insert: "InsertRefreshToken jti u e now d = Inr d' \<Longrightarrow> session_step d [jti] d'"
| ss_replace: "ReplaceRefreshToken old new u e now d = Inr (True, d') \<Longrightarrow> session_step d [new] d'"
| ss_revoke: "session_step d [] (RevokeRefreshToken jti d)"
| ss_revoke_all: "session_step d [] (RevokeAllRefreshTokens u d)"
| ss_prune: "session_step d [] (DeleteExpiredTokens now d)"
| ss_create_user: "createUser alloc n h r now d = Inr (i, d') \<Longrightarrow> session_step d [] d'"
| ss_update_user: "UpdateUser i n h d = Inr d' \<Longrightarrow> session_step d [] d'"
| ss_delete_user: "DeleteUser i d = Inr d' \<Longrightarrow> session_step d [] d'"

inductive session_run :: "db \<Rightarrow> string list \<Rightarrow> db \<Rightarrow> bool" where
  run_refl: "session_run d [] d"
| run_step: "session_run d js d' \<Longrightarrow> session_step d' ks d'' \<Longrightarrow> session_run d (js @ ks) d''"

inductive_cases session_stepE: "session_step d js d'"

definition session_dead :: "string \<Rightarrow> db \<Rightarrow> bool" where
  "session_dead j d \<longleftrightarrow> (\<forall>t \<in> set (refresh_tokens d). rt_jti t = j \<longrightarrow> rt_revoked t)"

lemma session_dead_get:
  "db_ok d \<Longrightarrow> session_dead j d \<longleftrightarrow> (\<forall>x. GetRefreshToken j d \<noteq> Inr (False, x))"
proof
  assume "session_dead j d"
  then show "\<forall>x. GetRefreshToken j d \<noteq> Inr (False, x)"
    by (auto simp: session_dead_def GetRefreshToken_def split: option.splits dest: row_with_Some)
next
  assume ok: "db_ok d" and no: "\<forall>x. GetRefreshToken j d \<noteq> Inr (False, x)"
  then have "distinct (map rt_jti (refresh_tokens d))" by (simp add: db_ok_simps)
  from row_with_distinct [OF this] no show "session_dead j d"
    by (fastforce simp: session_dead_def GetRefreshToken_def)
qed

lemma session_step_ok: "session_step d js d' \<Longrightarrow> db_ok d \<Longrightarrow> db_ok d'"
  by (induction rule: session_step.induct)
    (auto intro: InsertRefreshToken_ok ReplaceRefreshToken_ok createUser_ok UpdateUser_ok DeleteUser_ok
      DeleteExpiredTokens_ok simp: RevokeRefreshToken_def RevokeAllRefreshTokens_def revoke_where_ok)

lemma session_run_ok: "session_run d js d' \<Longrightarrow> db_ok d \<Longrightarrow> db_ok d'"
  by (induction rule: session_run.induct) (auto intro: session_step_ok)

lemma session_step_dead:
  "session_step d js d' \<Longrightarrow> session_dead j d \<Longrightarrow> j \<notin> set js \<Longrightarrow> session_dead j d'"
proof (induction rule: session_step.induct)
  case (ss_replace old new u e now d d')
  then show ?case
    by (auto simp: session_dead_def ReplaceRefreshToken_def InsertRefreshToken_def Let_def
        set_update_where split: if_splits sum.splits)
qed (auto simp: session_dead_def account_defs Let_def set_update_where set_delete_where
      split: if_splits)

lemma session_run_dead:
  "session_run d js d' \<Longrightarrow> session_dead j d \<Longrightarrow> j \<notin> set js \<Longrightarrow> session_dead j d'"
  by (induction rule: session_run.induct) (auto intro: session_step_dead)

lemma dead_session_refused:
  assumes "db_ok d" "session_dead j d"
  shows "verify parse m tok ClaimTypeAccess now = Inr c \<Longrightarrow> cl_id c = j \<Longrightarrow>
           VerifyAccess parse db_refresh_store m tok now d = Inl ErrInvalidToken"
    and "verify parse m tok ClaimTypeRefresh now = Inr c \<Longrightarrow> cl_id c = j \<Longrightarrow>
           \<nexists>r. Rotate sign parse db_refresh_store m tok now rnd d = Inr r"
proof -
  have no: "\<forall>x. GetRefreshToken j d \<noteq> Inr (False, x)" using assms session_dead_get by blast
  then show "VerifyAccess parse db_refresh_store m tok now d = Inl ErrInvalidToken"
    if "verify parse m tok ClaimTypeAccess now = Inr c" "cl_id c = j"
    using db_sessions.verify_access_dead that by (simp add: db_refresh_store_def)
  have "ReplaceRefreshToken j new u e n d = Inr (False, d)" for new u e n
  proof (rule ReplaceRefreshToken_dead)
    show "GetRefreshToken j d = Inl ErrNotFound \<or> (\<exists>x. GetRefreshToken j d = Inr (True, x))"
      using no by (cases "GetRefreshToken j d") (auto simp: GetRefreshToken_None)
    show "distinct (map rt_jti (refresh_tokens d))" using assms(1) by (simp add: db_ok_simps)
  qed
  then show "\<nexists>r. Rotate sign parse db_refresh_store m tok now rnd d = Inr r"
    if "verify parse m tok ClaimTypeRefresh now = Inr c" "cl_id c = j"
    using that by (auto simp: Rotate_def db_refresh_store_def split: sum.splits prod.splits)
qed

text \<open>Several clients presenting the same refresh token, one after the other.\<close>

fun rotate_many ::
  "jwt_sign \<Rightarrow> jwt_parse \<Rightarrow> manager \<Rightarrow> string \<Rightarrow> (int \<times> string option) list \<Rightarrow> db \<Rightarrow>
   (auth_error + pair) list \<times> db" where
  "rotate_many sign parse m tok [] d = ([], d)"
| "rotate_many sign parse m tok ((now, rnd) # as) d =
     (case Rotate sign parse db_refresh_store m tok now rnd d of
        Inl e \<Rightarrow> (let (rs, d') = rotate_many sign parse m tok as d in (Inl e # rs, d'))
      | Inr (p, d1) \<Rightarrow> (let (rs, d') = rotate_many sign parse m tok as d1 in (Inr p # rs, d')))"

definition successes :: "('a + 'b) list \<Rightarrow> nat" where
  "successes rs = length (filter (\<lambda>r. \<not> isl r) rs)"

definition jwt_stable :: "jwt_parse \<Rightarrow> bool" where
  "jwt_stable parse \<longleftrightarrow> (\<forall>k t n1 n2 c1 c2. parse k n1 t = Some c1 \<longrightarrow> parse k n2 t = Some c2 \<longrightarrow> c1 = c2)"

lemma verify_Some: "verify parse m tok ty now = Inr c \<Longrightarrow> parse (m_key m) now tok = Some c"
  by (auto simp: verify_def split: option.splits if_splits)

lemma Rotate_verifies:
  "Rotate sign parse ops m tok now rnd s = Inr r \<Longrightarrow> \<exists>c. verify parse m tok ClaimTypeRefresh now = Inr c"
  by (auto simp: Rotate_def split: sum.splits)

lemma rotate_many_dead:
  assumes "db_ok d" "session_dead j d" "jwt_stable parse" "parse (m_key m) n0 tok = Some c0" "cl_id c0 = j"
  shows "successes (fst (rotate_many sign parse m tok as d)) = 0"
proof (induction as)
  case (Cons a as)
  obtain now rnd where a: "a = (now, rnd)" by (cases a)
  have "\<nexists>r. Rotate sign parse db_refresh_store m tok now rnd d = Inr r"
  proof
    assume "\<exists>r. Rotate sign parse db_refresh_store m tok now rnd d = Inr r"
    then obtain r where r: "Rotate sign parse db_refresh_store m tok now rnd d = Inr r" by blast
    from Rotate_verifies [OF r] obtain c where c: "verify parse m tok ClaimTypeRefresh now = Inr c" ..
    then have "c = c0" using assms(3,4) verify_Some unfolding jwt_stable_def by metis
    with dead_session_refused(2) [OF assms(1,2) c] assms(5) r show False by blast
  qed
  then obtain e where "Rotate sign parse db_refresh_store m tok now rnd d = Inl e"
    by (cases "Rotate sign parse db_refresh_store m tok now rnd d") auto
  with Cons show ?case by (auto simp: a successes_def split: prod.splits)
qed (simp add: successes_def)

lemma rotate_many_le_1:
  assumes "db_ok d" "jwt_stable parse"
  shows "successes (fst (rotate_many sign parse m tok as d)) \<le> 1"
proof (induction as)
  case (Cons a as)
  obtain now rnd where a: "a = (now, rnd)" by (cases a)
  show ?case
  proof (cases "Rotate sign parse db_refresh_store m tok now rnd d")
    case (Inl e)
    with Cons show ?thesis by (auto simp: a successes_def split: prod.splits)
  next
    case (Inr r)
    obtain p d1 where r: "r = (p, d1)" by (cases r)
    from Rotate_verifies [OF Inr] obtain c where c: "verify parse m tok ClaimTypeRefresh now = Inr c" by blast
    from db_sessions.rotate_consumes [OF assms(1) c Inr [unfolded r]]
    have ok: "db_ok d1" and "\<exists>x. GetRefreshToken (cl_id c) d1 = Inr (True, x)"
      by (simp_all add: db_refresh_store_def)
    then have "session_dead (cl_id c) d1" using session_dead_get by fastforce
    from rotate_many_dead [OF ok this assms(2) verify_Some [OF c] refl]
    have "successes (fst (rotate_many sign parse m tok as d1)) = 0" .
    with Inr r show ?thesis by (auto simp: a successes_def split: prod.splits)
  qed
qed (simp add: successes_def)

lemma rotate_many_dead_state:
  assumes "db_ok d" "session_dead j d" "jwt_stable parse" "parse (m_key m) n0 tok = Some c0" "cl_id c0 = j"
  shows "snd (rotate_many sign parse m tok as d) = d"
proof (induction as)
  case (Cons a as)
  obtain now rnd where a: "a = (now, rnd)" by (cases a)
  have "successes (fst (rotate_many sign parse m tok [a] d)) = 0" by (rule rotate_many_dead [OF assms])
  then obtain e where "Rotate sign parse db_refresh_store m tok now rnd d = Inl e"
    by (cases "Rotate sign parse db_refresh_store m tok now rnd d") (auto simp: a successes_def)
  with Cons show ?case by (auto simp: a split: prod.splits)
qed simp

lemma rotate_many_winner_dead:
  assumes "db_ok d" "jwt_stable parse" "0 < successes (fst (rotate_many sign parse m tok as d))"
    and "parse (m_key m) n0 tok = Some c0"
  shows "db_ok (snd (rotate_many sign parse m tok as d)) \<and>
         session_dead (cl_id c0) (snd (rotate_many sign parse m tok as d))"
  using assms(3)
proof (induction as)
  case (Cons a as)
  obtain now rnd where a: "a = (now, rnd)" by (cases a)
  show ?case
  proof (cases "Rotate sign parse db_refresh_store m tok now rnd d")
    case (Inl e)
    with Cons show ?thesis by (auto simp: a successes_def split: prod.splits)
  next
    case (Inr r)
    obtain p d1 where r: "r = (p, d1)" by (cases r)
    from Rotate_verifies [OF Inr] obtain c where c: "verify parse m tok ClaimTypeRefresh now = Inr c" ..
    have cc: "c = c0" using assms(2,4) verify_Some [OF c] unfolding jwt_stable_def by metis
    from db_sessions.rotate_consumes [OF assms(1) c Inr [unfolded r]]
    have ok: "db_ok d1" and "\<exists>x. GetRefreshToken (cl_id c) d1 = Inr (True, x)"
      by (simp_all add: db_refresh_store_def)
    then have dead: "session_dead (cl_id c) d1" using session_dead_get by fastforce
    from rotate_many_dead_state [OF ok dead assms(2) verify_Some [OF c] refl]
    have "snd (rotate_many sign parse m tok as d1) = d1" .
    with Inr r ok dead cc show ?thesis by (auto simp: a split: prod.splits)
  qed
qed (simp add: successes_def)

lemma RawURLEncode_nonempty: "b \<noteq> [] \<Longrightarrow> RawURLEncode b \<noteq> []"
  by (cases b rule: sextets.cases) (auto simp: RawURLEncode_def)

subsection \<open>A token library for the examples\<close>

text \<open>
  A signer that knows two claim sets: enough to run the manager on concrete inputs.
\<close>

definition demo_manager :: manager where
  "demo_manager = \<lparr>m_key = ''k'', m_accessTTL = 60000000000, m_refreshTTL = 3600000000000\<rparr>"

definition demo_claims :: "string \<Rightarrow> int \<Rightarrow> claims" where
  "demo_claims typ exp = \<lparr>cl_typ = typ, cl_username = ''ann'', cl_role = ''admin'', cl_subject = Itoa 1,
     cl_expires_at = exp, cl_issued_at = 1000, cl_issuer = ''sing-hub'', cl_id = RawURLEncode ''x''\<rparr>"

definition demo_sign :: jwt_sign where
  "demo_sign k c = (if c = demo_claims ClaimTypeAccess 1060 then Some ''A''
     else if c = demo_claims ClaimTypeRefresh 4600 then Some ''R'' else None)"

definition demo_parse :: jwt_parse where
  "demo_parse k now t = (if t = ''A'' \<and> now < 1060000000000 then Some (demo_claims ClaimTypeAccess 1060)
     else if t = ''R'' \<and> now < 4600000000000 then Some (demo_claims ClaimTypeRefresh 4600) else None)"

definition demo_user :: user where
  "demo_user = \<lparr>u_id = 1, u_username = ''ann'', u_password_hash = ''h'', u_role = ''admin'', u_created_at = 0\<rparr>"

definition demo_token :: refresh_token where
  "demo_token = \<lparr>rt_jti = RawURLEncode ''x'', rt_user_id = 1, rt_expires_at = 4600,
     rt_revoked = False, rt_created_at = 1000\<rparr>"

definition demo_db :: db where
  "demo_db = empty_db\<lparr>users := [demo_user], refresh_tokens := [demo_token]\<rparr>"

lemma demo_jwt: "jwt_faithful demo_sign demo_parse" "jwt_stable demo_parse"
  by (auto simp: jwt_faithful_def jwt_stable_def demo_sign_def demo_parse_def demo_claims_def split: if_splits)

lemma demo_db_ok: "db_ok demo_db" "db_ok (demo_db\<lparr>refresh_tokens := []\<rparr>)"
  by (simp_all add: demo_db_def empty_db_def demo_user_def demo_token_def db_ok_simps)

lemma demo_UserID: "UserID (demo_claims ty e) = 1"
  by (simp add: UserID_def demo_claims_def ParseIntValue_Itoa in_i64_def)

lemma demo_id: "cl_id (demo_claims ty e) = RawURLEncode ''x''" "RawURLEncode ''x'' \<noteq> []"
  by (simp_all add: demo_claims_def RawURLEncode_nonempty)

lemma demo_verify:
  "verify demo_parse demo_manager ''A'' ClaimTypeAccess 1000000000000 = Inr (demo_claims ClaimTypeAccess 1060)"
  "verify demo_parse demo_manager ''R'' ClaimTypeRefresh 1000000000000 = Inr (demo_claims ClaimTypeRefresh 4600)"
  using demo_id(2) by (simp_all add: verify_def demo_parse_def demo_UserID demo_id)
    (simp_all add: demo_claims_def)

subsection \<open>Properties\<close>

text \<open>A session that Issue registered for an existing account verifies: until the access
  token or the session row expires, VerifyAccess accepts the access token of the pair and
  yields the user id, name and role the session was issued for.\<close>

theorem issued_session_verifies:
  assumes "jwt_faithful sign parse" and "db_ok d" and "0 < uid" and "in_i64 uid" and "rnd \<noteq> []"
    and "newPair sign m uid name role now (Some rnd) = Inr (p, RawURLEncode rnd)"
    and "user_exists uid d" and "RawURLEncode rnd \<notin> rt_jti ` set (refresh_tokens d)"
    and "now' < Unix (AccessExpiresAt p) * 1000000000" and "Unix now' < Unix (RefreshExpiresAt p)"
  shows "\<exists>d' c. Issue sign db_refresh_store m uid name role now (Some rnd) d = Inr (p, d') \<and>
           VerifyAccess parse db_refresh_store m (AccessToken p) now' d' = Inr c \<and>
           UserID c = uid \<and> cl_username c = name \<and> cl_role c = role"
proof -
  let ?c = "\<lparr>cl_typ = ClaimTypeAccess, cl_username = name, cl_role = role, cl_subject = Itoa uid,
         cl_expires_at = Unix (AccessExpiresAt p), cl_issued_at = Unix now, cl_issuer = ''sing-hub'',
         cl_id = RawURLEncode rnd\<rparr>"
  from assms(6) have sig: "sign (m_key m) ?c = Some (AccessToken p)"
    by (auto simp: newPair_def newJTI_def signKeyed_def Let_def split: option.splits)
  have "parse (m_key m) now' (AccessToken p) = Some ?c"
    using assms(1,9) sig unfolding jwt_faithful_def by fastforce
  then have ver: "verify parse m (AccessToken p) ClaimTypeAccess now' = Inr ?c"
    using assms(3-5) RawURLEncode_nonempty by (simp add: verify_def UserID_def ParseIntValue_Itoa)
  obtain d' where ins:
    "InsertRefreshToken (RawURLEncode rnd) uid (Unix (RefreshExpiresAt p)) (Unix now) d = Inr d'"
    using assms(7,8) by (simp add: InsertRefreshToken_def list_ex_key)
  have iss: "Issue sign db_refresh_store m uid name role now (Some rnd) d = Inr (p, d')"
    using assms(6) ins by (simp add: Issue_def db_refresh_store_def)
  have "VerifyAccess parse db_refresh_store m (AccessToken p) now' d' = Inr ?c"
    using ver GetRefreshToken_insert [OF ins, of "RawURLEncode rnd"] assms(10)
    by (simp add: VerifyAccess_def db_refresh_store_def)
  with iss show ?thesis using assms(4) by (auto simp: UserID_def ParseIntValue_Itoa)
qed

theorem issued_session_verifies_witness:
  "\<exists>d' c. Issue demo_sign db_refresh_store demo_manager 1 ''ann'' ''admin'' 1000000000000 (Some ''x'')
        (demo_db\<lparr>refresh_tokens := []\<rparr>) =
      Inr (\<lparr>AccessToken = ''A'', RefreshToken = ''R'', AccessExpiresAt = 1060000000000,
            RefreshExpiresAt = 4600000000000\<rparr>, d') \<and>
     VerifyAccess demo_parse db_refresh_store demo_manager ''A'' 1010000000000 d' = Inr c \<and> UserID c = 1"
proof -
  have np: "newPair demo_sign demo_manager 1 ''ann'' ''admin'' 1000000000000 (Some ''x'') =
    Inr (\<lparr>AccessToken = ''A'', RefreshToken = ''R'', AccessExpiresAt = 1060000000000,
          RefreshExpiresAt = 4600000000000\<rparr>, RawURLEncode ''x'')"
    by (simp add: newPair_def newJTI_def signKeyed_def demo_sign_def demo_claims_def demo_manager_def
        Unix_def ClaimTypeAccess_def ClaimTypeRefresh_def)
  show ?thesis
    using issued_session_verifies [OF demo_jwt(1) demo_db_ok(2) _ _ _ np, where now' = 1010000000000]
    by (auto simp: in_i64_def Unix_def demo_db_def user_exists_def demo_user_def)
qed

text \<open>C20: a refresh token is single-use: however many clients present the same token, in
  whatever order and at whatever times, at most one of them gets a new pair, and then the
  session of the presented token is dead (its access token no longer verifies).\<close>

theorem refresh_token_single_use:
  assumes "db_ok d" and "jwt_stable parse"
    and "rotate_many sign parse m tok as d = (rs, d')"
  shows "successes rs \<le> 1 \<and>
    (successes rs = 1 \<longrightarrow> parse (m_key m) n0 tok = Some c0 \<longrightarrow>
      verify parse m acc ClaimTypeAccess n1 = Inr c1 \<longrightarrow> cl_id c1 = cl_id c0 \<longrightarrow>
      VerifyAccess parse db_refresh_store m acc n1 d' = Inl ErrInvalidToken)"
proof -
  have "successes rs \<le> 1" using rotate_many_le_1 [OF assms(1,2), of sign m tok as] assms(3) by simp
  moreover have "VerifyAccess parse db_refresh_store m acc n1 d' = Inl ErrInvalidToken"
    if "successes rs = 1" "parse (m_key m) n0 tok = Some c0"
      "verify parse m acc ClaimTypeAccess n1 = Inr c1" "cl_id c1 = cl_id c0"
  proof -
    have "db_ok d' \<and> session_dead (cl_id c0) d'"
      using rotate_many_winner_dead [OF assms(1,2) _ that(2), of sign as] assms(3) that(1) by simp
    then show ?thesis using dead_session_refused(1) [of d' "cl_id c0"] that(3,4) by blast
  qed
  ultimately show ?thesis by blast
qed

theorem refresh_token_single_use_witness:
  "successes (fst (rotate_many demo_sign demo_parse demo_manager ''R''
     [(1000000000000, Some ''y''), (1000000000001, Some ''z'')] demo_db)) \<le> 1"
  using refresh_token_single_use [OF demo_db_ok(1) demo_jwt(2), where sign = demo_sign and m = demo_manager
      and tok = "''R''" and as = "[(1000000000000, Some ''y''), (1000000000001, Some ''z'')]"]
  by (metis prod.collapse)

text \<open>Revocation is permanent: once the row of a session is revoked or gone, no run of
  store operations that does not register the same session id again makes any access token
  of that session verify or any refresh token of it rotate.\<close>

theorem revoked_session_stays_dead:
  assumes "db_ok d" and "session_dead j d" and "session_run d js d'" and "j \<notin> set js"
  shows "(\<forall>tok now c. verify parse m tok ClaimTypeAccess now = Inr c \<longrightarrow> cl_id c = j \<longrightarrow>
           VerifyAccess parse db_refresh_store m tok now d' = Inl ErrInvalidToken) \<and>
         (\<forall>tok now rnd c. verify parse m tok ClaimTypeRefresh now = Inr c \<longrightarrow> cl_id c = j \<longrightarrow>
           (\<nexists>r. Rotate sign parse db_refresh_store m tok now rnd d' = Inr r))"
  using dead_session_refused [OF session_run_ok [OF assms(3,1)] session_run_dead [OF assms(3,2,4)]]
  by blast

theorem revoked_session_stays_dead_witness:
  "VerifyAccess demo_parse db_refresh_store demo_manager ''A'' 1000000000000
     (DeleteExpiredTokens 9 (RevokeRefreshToken (RawURLEncode ''x'') demo_db)) = Inl ErrInvalidToken"
proof -
  let ?d = "RevokeRefreshToken (RawURLEncode ''x'') demo_db"
  have "db_ok ?d" unfolding RevokeRefreshToken_def by (rule revoke_where_ok) (rule demo_db_ok)
  moreover have "session_dead (RawURLEncode ''x'') ?d"
    by (auto simp: session_dead_def RevokeRefreshToken_def set_update_where)
  moreover have "session_run ?d ([] @ []) (DeleteExpiredTokens 9 ?d)"
    by (rule run_step [OF run_refl ss_prune])
  ultimately show ?thesis
    using revoked_session_stays_dead [of ?d "RawURLEncode ''x''" "[]" _ demo_parse demo_manager]
      demo_verify(1) demo_id(1) by simp
qed

text \<open>Changing the name or password of an account, or deleting it, ends every session of
  the account, also when a later account reuses its id: no session of the old account
  verifies or rotates after any further run that does not register the same session id.\<close>

theorem account_change_ends_sessions:
  assumes "db_ok d" and "t \<in> set (refresh_tokens d)" and "rt_user_id t = i"
    and "(UpdateUser i n h d = Inr d1 \<and> (n \<noteq> None \<or> h \<noteq> None)) \<or> DeleteUser i d = Inr d1"
    and "session_run d1 js d2" and "rt_jti t \<notin> set js"
    and "verify parse m acc ClaimTypeAccess now = Inr c" and "cl_id c = rt_jti t"
  shows "VerifyAccess parse db_refresh_store m acc now d2 = Inl ErrInvalidToken"
proof -
  have same: "t' = t" if "t' \<in> set (refresh_tokens d)" "rt_jti t' = rt_jti t" for t'
    using that assms(1,2) by (auto simp: db_ok_simps distinct_map dest: inj_onD)
  have "rt_revoked r" if up: "UpdateUser i n h d = Inr d1" and chg: "n \<noteq> None \<or> h \<noteq> None"
      and r: "r \<in> set (refresh_tokens d1)" and k: "rt_jti r = rt_jti t" for r
  proof -
    have "refresh_tokens d1 = update_where (\<lambda>t. rt_user_id t = i) (rt_revoked_update (\<lambda>_. True)) (refresh_tokens d)"
      using up chg by (auto simp: UpdateUser_def requireAffected_def Let_def split: if_splits)
    then show ?thesis using r k same assms(3) by (auto simp: set_update_where)
  qed
  moreover have "rt_revoked r" if up: "DeleteUser i d = Inr d1"
      and r: "r \<in> set (refresh_tokens d1)" and k: "rt_jti r = rt_jti t" for r
  proof -
    have "refresh_tokens d1 = delete_where (\<lambda>t. rt_user_id t = i) (refresh_tokens d)"
      using up by (auto simp: DeleteUser_def requireAffected_def Let_def split: if_splits)
    then show ?thesis using r k same assms(3) by (auto simp: set_delete_where)
  qed
  ultimately have dead: "session_dead (rt_jti t) d1"
    unfolding session_dead_def using assms(4) by blast
  have "db_ok d1" using assms(1,4) UpdateUser_ok DeleteUser_ok by blast
  from dead_session_refused(1) [OF session_run_ok [OF assms(5) this] session_run_dead [OF assms(5) dead assms(6)]
      assms(7,8)]
  show ?thesis .
qed

theorem account_change_ends_sessions_witness:
  "\<exists>d1 d2. DeleteUser 1 demo_db = Inr d1 \<and> createUser sqlite_next_id ''bob'' ''h2'' ''admin'' 5 d1 = Inr (1, d2) \<and>
     VerifyAccess demo_parse db_refresh_store demo_manager ''A'' 1000000000000 d2 = Inl ErrInvalidToken"
proof -
  let ?d1 = "empty_db"
  let ?d2 = "empty_db\<lparr>users := [\<lparr>u_id = 1, u_username = ''bob'', u_password_hash = ''h2'',
     u_role = ''admin'', u_created_at = 5\<rparr>]\<rparr>"
  have del: "DeleteUser 1 demo_db = Inr ?d1"
    by (simp add: DeleteUser_def requireAffected_def affected_def demo_db_def demo_user_def demo_token_def
        delete_where_def empty_db_def)
  have cr: "createUser sqlite_next_id ''bob'' ''h2'' ''admin'' 5 ?d1 = Inr (1, ?d2)"
    by (simp add: createUser_def sqlite_next_id_def empty_db_def user_exists_def)
  have "session_run ?d1 ([] @ []) ?d2" by (rule run_step [OF run_refl ss_create_user [OF cr]])
  then have "VerifyAccess demo_parse db_refresh_store demo_manager ''A'' 1000000000000 ?d2 = Inl ErrInvalidToken"
    using account_change_ends_sessions [OF demo_db_ok(1), of demo_token 1 None None ?d1 "[]" ?d2 demo_parse
        demo_manager "''A''" 1000000000000 "demo_claims ClaimTypeAccess 1060"] del demo_verify(1)
    by (simp add: demo_db_def demo_token_def demo_claims_def)
  with del cr show ?thesis by blast
qed

end
