(* ===== verification/Auth_Limiter.thy ===== *)
theory Auth_Limiter
  imports Hub_Prelude
begin

text \<open>
  The fixed-window rate limiter of \<^verbatim>\<open>auth/ratelimit.go\<close>. Its map of windows is a HOL map, the
  clock reading is an argument (nanoseconds), and \<^verbatim>\<open>time.Duration\<close> arithmetic saturates as
  \<^verbatim>\<open>Time.Sub\<close> does. The mutex makes every operation atomic, so a concurrent use of the
  limiter is a sequence of events. The lemmas bound what a client gets through in any time
  span and show that the garbage collection is invisible.
\<close>

subsection \<open>The limiter\<close>

record window =
  w_count :: int
  w_start :: int

record limiter =
  entries :: "string \<rightharpoonup> window"
  limit :: int
  per :: int

definition TimeSub :: "int \<Rightarrow> int \<Rightarrow> int" where
  "TimeSub t u = max (- 9223372036854775808) (min 9223372036854775807 (t - u))"

definition NewLimiter :: "int \<Rightarrow> int \<Rightarrow> limiter" where
  "NewLimiter n p = \<lparr>entries = Map.empty, limit = n, per = p\<rparr>"

definition Allow :: "string \<Rightarrow> int \<Rightarrow> limiter \<Rightarrow> bool \<times> limiter" where
  "Allow k now l =
     (let fresh = (True, l\<lparr>entries := (entries l)(k \<mapsto> \<lparr>w_count = 1, w_start = now\<rparr>)\<rparr>) in
      case entries l k of
        None \<Rightarrow> fresh
      | Some w \<Rightarrow>
          if TimeSub now (w_start w) \<ge> per l then fresh
          else let w' = w\<lparr>w_count := add64 (w_count w) 1\<rparr>
               in (w_count w' \<le> limit l, l\<lparr>entries := (entries l)(k \<mapsto> w')\<rparr>))"

definition RetryAfter :: "string \<Rightarrow> int \<Rightarrow> limiter \<Rightarrow> int" where
  "RetryAfter k now l =
     (case entries l k of
        None \<Rightarrow> 0
      | Some w \<Rightarrow> let remaining = sub64 (per l) (TimeSub now (w_start w))
                  in if remaining < 0 then 0 else remaining)"

definition GC :: "int \<Rightarrow> limiter \<Rightarrow> limiter" where
  "GC now l = l\<lparr>entries := (\<lambda>k. case entries l k of
       None \<Rightarrow> None
     | Some w \<Rightarrow> if TimeSub now (w_start w) \<ge> per l then None else Some w)\<rparr>"

text \<open>A run: the events the limiter serves, in the order the mutex admits them, each with its
  clock reading. The result lists the decision for every \<open>Allow\<close>.\<close>

datatype limiter_event = EvAllow string | EvGC

fun limiter_run :: "(int \<times> limiter_event) list \<Rightarrow> limiter \<Rightarrow> (int \<times> string \<times> bool) list" where
  "limiter_run [] l = []"
| "limiter_run ((t, EvGC) # evs) l = limiter_run evs (GC t l)"
| "limiter_run ((t, EvAllow k) # evs) l =
     (case Allow k t l of (ok, l') \<Rightarrow> (t, k, ok) # limiter_run evs l')"

definition granted :: "string \<Rightarrow> int \<Rightarrow> int \<Rightarrow> (int \<times> string \<times> bool) list \<Rightarrow> nat" where
  "granted k a b ds = length (filter (\<lambda>(t, k', ok). k' = k \<and> ok \<and> a \<le> t \<and> t < b) ds)"

subsection \<open>Lemmas\<close>

lemma TimeSub_ge: "0 < p \<Longrightarrow> in_i64 p \<Longrightarrow> p \<le> TimeSub t u \<longleftrightarrow> p \<le> t - u"
  by (auto simp: TimeSub_def in_i64_def)

lemma TimeSub_id: "0 \<le> t - u \<Longrightarrow> t - u < p \<Longrightarrow> in_i64 p \<Longrightarrow> TimeSub t u = t - u"
  by (auto simp: TimeSub_def in_i64_def)

text \<open>The counters of a limiter that may still serve \<open>n\<close> events without wrapping.\<close>

definition counts_ok :: "nat \<Rightarrow> limiter \<Rightarrow> bool" where
  "counts_ok n l \<longleftrightarrow> 0 < per l \<and> in_i64 (per l) \<and>
     (\<forall>k w. entries l k = Some w \<longrightarrow> 1 \<le> w_count w \<and> w_count w + int n < 9223372036854775808)"

lemma counts_ok_new: "0 < p \<Longrightarrow> in_i64 p \<Longrightarrow> counts_ok n (NewLimiter m p)"
  by (simp add: counts_ok_def NewLimiter_def)

lemma counts_ok_GC: "counts_ok (Suc n) l \<Longrightarrow> counts_ok n (GC t l)"
  by (fastforce simp: counts_ok_def GC_def split: option.splits if_splits)

lemma Allow_fresh:
  assumes "counts_ok n l" and "\<And>w. entries l k = Some w \<Longrightarrow> per l \<le> t - w_start w"
  shows "Allow k t l = (True, l\<lparr>entries := (entries l)(k \<mapsto> \<lparr>w_count = 1, w_start = t\<rparr>)\<rparr>)"
  using assms by (auto simp: Allow_def counts_ok_def TimeSub_ge Let_def split: option.splits)

lemma Allow_counted:
  assumes "counts_ok (Suc n) l" and "entries l k = Some w" and "t - w_start w < per l"
  shows "Allow k t l = (w_count w + 1 \<le> limit l,
           l\<lparr>entries := (entries l)(k \<mapsto> w\<lparr>w_count := w_count w + 1\<rparr>)\<rparr>)"
proof -
  have "add64 (w_count w) 1 = w_count w + 1"
    using assms(1,2) by (intro add64_id) (fastforce simp: counts_ok_def in_i64_def)
  then show ?thesis
    using assms by (auto simp: Allow_def counts_ok_def TimeSub_ge Let_def not_le [symmetric])
qed

lemma counts_ok_Allow:
  assumes "counts_ok (Suc n) l" and "int n < 9223372036854775807"
  shows "counts_ok n (snd (Allow k t l))"
proof (cases "\<exists>w. entries l k = Some w \<and> t - w_start w < per l")
  case True
  then obtain w where "entries l k = Some w" "t - w_start w < per l" by blast
  from Allow_counted [OF assms(1) this] this(1) assms(1) show ?thesis
    by (fastforce simp: counts_ok_def in_i64_def)
next
  case False
  then have "Allow k t l = (True, l\<lparr>entries := (entries l)(k \<mapsto> \<lparr>w_count = 1, w_start = t\<rparr>)\<rparr>)"
    by (intro Allow_fresh [OF assms(1)]) (auto simp: not_less)
  with assms show ?thesis by (fastforce simp: counts_ok_def in_i64_def)
qed

lemma Allow_simps [simp]:
  "limit (snd (Allow k t l)) = limit l" "per (snd (Allow k t l)) = per l"
  "limit (GC t l) = limit l" "per (GC t l) = per l"
  by (auto simp: Allow_def GC_def Let_def split: option.splits)

lemma Allow_other: "k' \<noteq> k \<Longrightarrow> entries (snd (Allow k t l)) k' = entries l k'"
  by (auto simp: Allow_def Let_def split: option.splits)

lemma limiter_run_Allow:
  "limiter_run ((t, EvAllow k) # evs) l = (t, k, fst (Allow k t l)) # limiter_run evs (snd (Allow k t l))"
  by (simp add: case_prod_unfold)

lemma granted_Cons:
  "granted k a b ((t, k', ok) # ds) = (if k' = k \<and> ok \<and> a \<le> t \<and> t < b then 1 else 0) + granted k a b ds"
  by (simp add: granted_def)

lemma granted_late: "\<forall>d \<in> set ds. b \<le> fst d \<Longrightarrow> granted k a b ds = 0"
  by (auto simp: granted_def filter_empty_conv)

lemma limiter_run_times: "d \<in> set (limiter_run evs l) \<Longrightarrow> \<exists>e \<in> set evs. fst d = fst e"
  by (induction evs l rule: limiter_run.induct) (auto split: prod.splits)

lemma run_late: "\<forall>e \<in> set evs. b \<le> fst e \<Longrightarrow> granted k a b (limiter_run evs l) = 0"
  by (rule granted_late) (use limiter_run_times in fastforce)

text \<open>A window that began inside the span serves it to the end.\<close>

lemma granted_same_window:
  assumes "counts_ok (length evs) l" and "sorted (map fst evs)"
    and "entries l k = Some w" and "a \<le> w_start w" and "b = a + per l"
    and "int (length evs) < 9223372036854775807"
  shows "int (granted k a b (limiter_run evs l)) \<le> max 0 (limit l - w_count w)"
  using assms
proof (induction evs arbitrary: l w)
  case Nil
  then show ?case by (simp add: granted_def)
next
  case (Cons e evs)
  obtain t ev where e: "e = (t, ev)" by (cases e)
  show ?case
  proof (cases "b \<le> t")
    case True
    with Cons.prems(2) e have "\<forall>e \<in> set (e # evs). b \<le> fst e" by auto
    from run_late [OF this] show ?thesis by simp
  next
    case False
    then have young: "t - w_start w < per l" using Cons.prems(4,5) by simp
    have ok: "counts_ok (Suc (length evs)) l" using Cons.prems(1) by simp
    show ?thesis
    proof (cases ev)
      case EvGC
      have "\<not> per l \<le> TimeSub t (w_start w)" using young ok by (simp add: counts_ok_def TimeSub_ge)
      then have "entries (GC t l) k = Some w" using Cons.prems(3) by (simp add: GC_def)
      from Cons.IH [OF counts_ok_GC [OF ok] _ this] Cons.prems EvGC e show ?thesis by simp
    next
      case (EvAllow k')
      let ?l' = "snd (Allow k' t l)"
      have ok': "counts_ok (length evs) ?l'" using counts_ok_Allow [OF ok] Cons.prems(6) by simp
      show ?thesis
      proof (cases "k' = k")
        case True
        note al = Allow_counted [OF ok Cons.prems(3) young]
        from Cons.IH [OF ok', of "w\<lparr>w_count := w_count w + 1\<rparr>"] al True Cons.prems e EvAllow
        show ?thesis by (auto simp: granted_Cons limiter_run_Allow simp del: limiter_run.simps)
      next
        case False
        from Cons.IH [OF ok', of w] Allow_other [of k k' t l] False Cons.prems e EvAllow
        show ?thesis by (auto simp: granted_Cons limiter_run_Allow simp del: limiter_run.simps)
      qed
    qed
  qed
qed

definition window_left :: "string \<Rightarrow> limiter \<Rightarrow> int" where
  "window_left k l = (case entries l k of None \<Rightarrow> 0 | Some w \<Rightarrow> max 0 (limit l - w_count w))"

lemma window_left_GC: "window_left k (GC t l) \<le> window_left k l"
  by (auto simp: window_left_def GC_def split: option.splits)

text \<open>Inside the span, an old window serves its rest and at most one new window begins.\<close>

lemma granted_span:
  assumes "counts_ok (length evs) l" and "sorted (map fst evs)" and "\<forall>e \<in> set evs. a \<le> fst e"
    and "b = a + per l" and "int (length evs) < 9223372036854775807"
  shows "int (granted k a b (limiter_run evs l)) \<le> window_left k l + max 1 (limit l)"
  using assms
proof (induction evs arbitrary: l)
  case Nil
  then show ?case by (simp add: granted_def window_left_def split: option.splits)
next
  case (Cons e evs)
  obtain t ev where e: "e = (t, ev)" by (cases e)
  have ok: "counts_ok (Suc (length evs)) l" using Cons.prems(1) by simp
  show ?case
  proof (cases ev)
    case EvGC
    have "int (granted k a b (limiter_run evs (GC t l))) \<le> window_left k (GC t l) + max 1 (limit l)"
      using Cons.IH [OF counts_ok_GC [OF ok], of t] Cons.prems by simp
    with window_left_GC [of k t l] EvGC e show ?thesis by simp
  next
    case (EvAllow k')
    let ?l' = "snd (Allow k' t l)"
    have ok': "counts_ok (length evs) ?l'" using counts_ok_Allow [OF ok] Cons.prems(5) by simp
    have IH: "int (granted k a b (limiter_run evs ?l')) \<le> window_left k ?l' + max 1 (limit l)"
      using Cons.IH [OF ok'] Cons.prems by simp
    note run_simps = granted_Cons limiter_run_Allow
    consider (other) "k' \<noteq> k" | (old) w where "k' = k" "entries l k = Some w" "t - w_start w < per l"
      | (new) "k' = k" "\<And>w. entries l k = Some w \<Longrightarrow> per l \<le> t - w_start w"
      by (metis not_less)
    then show ?thesis
    proof cases
      case other
      then have "window_left k ?l' = window_left k l" using Allow_other [of k k'] by (simp add: window_left_def split: option.splits)
      with IH other e EvAllow show ?thesis by (simp add: run_simps del: limiter_run.simps)
    next
      case old
      from Allow_counted [OF ok old(2,3)] old have
        "(if fst (Allow k' t l) then 1 else 0) + window_left k ?l' \<le> window_left k l"
        by (auto simp: window_left_def)
      with IH e EvAllow show ?thesis by (auto simp: run_simps simp del: limiter_run.simps split: if_splits)
    next
      case new
      from Allow_fresh [OF ok new(2)] new(1)
      have "entries ?l' k = Some \<lparr>w_count = 1, w_start = t\<rparr>" "fst (Allow k' t l)" by simp_all
      from granted_same_window [OF ok' _ this(1), of a b] Cons.prems e
      have "int (granted k a b (limiter_run evs ?l')) \<le> max 0 (limit l - 1)" by simp
      moreover have "0 \<le> window_left k l" by (simp add: window_left_def split: option.splits)
      ultimately show ?thesis using e EvAllow by (auto simp: run_simps simp del: limiter_run.simps)
    qed
  qed
qed

lemma granted_from:
  assumes "counts_ok (length evs) l" and "sorted (map fst evs)"
    and "b = a + per l" and "int (length evs) < 9223372036854775807"
  shows "int (granted k a b (limiter_run evs l)) \<le> 2 * max 1 (limit l)"
  using assms
proof (induction evs arbitrary: l)
  case Nil
  then show ?case by (simp add: granted_def)
next
  case (Cons e evs)
  obtain t ev where e: "e = (t, ev)" by (cases e)
  have ok: "counts_ok (Suc (length evs)) l" using Cons.prems(1) by simp
  show ?case
  proof (cases "a \<le> t")
    case True
    with Cons.prems(2) e have "\<forall>e \<in> set (e # evs). a \<le> fst e" by auto
    from granted_span [OF Cons.prems(1,2) this Cons.prems(3,4)]
    have "int (granted k a b (limiter_run (e # evs) l)) \<le> window_left k l + max 1 (limit l)" .
    moreover have "window_left k l \<le> max 1 (limit l)"
      using ok by (fastforce simp: window_left_def counts_ok_def split: option.splits)
    ultimately show ?thesis by simp
  next
    case False
    have ok': "counts_ok (length evs) (snd (Allow k' t l))" for k'
      using counts_ok_Allow [OF ok] Cons.prems(4) by simp
    have "int (granted k a b (limiter_run evs (snd (Allow k' t l)))) \<le> 2 * max 1 (limit l)" for k'
      using Cons.IH [OF ok', of k'] Cons.prems by simp
    moreover have "int (granted k a b (limiter_run evs (GC t l))) \<le> 2 * max 1 (limit l)"
      using Cons.IH [OF counts_ok_GC [OF ok], of t] Cons.prems by simp
    ultimately show ?thesis using e False
      by (cases ev) (simp_all add: granted_Cons limiter_run_Allow del: limiter_run.simps(3))
  qed
qed

text \<open>Two limiters that differ only in windows that are stale at time \<open>t\<close>.\<close>

definition same_until_stale :: "int \<Rightarrow> limiter \<Rightarrow> limiter \<Rightarrow> bool" where
  "same_until_stale t l l' \<longleftrightarrow> limit l = limit l' \<and> per l = per l' \<and> 0 < per l \<and> in_i64 (per l) \<and>
     (\<forall>k. entries l k = entries l' k \<or>
          (entries l' k = None \<and> (\<exists>w. entries l k = Some w \<and> per l \<le> t - w_start w)))"

lemma same_until_stale_mono: "same_until_stale t l l' \<Longrightarrow> t \<le> u \<Longrightarrow> same_until_stale u l l'"
  unfolding same_until_stale_def by (meson diff_right_mono order_trans)

lemma same_until_stale_GC: "same_until_stale t l l' \<Longrightarrow> same_until_stale t l (GC t l')"
proof -
  assume r: "same_until_stale t l l'"
  have "entries l k = entries (GC t l') k \<or> (entries (GC t l') k = None \<and>
      (\<exists>w. entries l k = Some w \<and> per l \<le> t - w_start w))" for k
  proof -
    have "entries l k = entries l' k \<or>
      (entries l' k = None \<and> (\<exists>w. entries l k = Some w \<and> per l \<le> t - w_start w))"
      and p: "0 < per l'" "in_i64 (per l')" "per l = per l'"
      using r by (auto simp: same_until_stale_def)
    then show ?thesis by (cases "entries l' k") (auto simp: GC_def TimeSub_ge)
  qed
  with r show ?thesis by (auto simp: same_until_stale_def)
qed

lemma same_until_stale_Allow:
  assumes "same_until_stale t l l'"
  shows "fst (Allow k t l) = fst (Allow k t l') \<and> same_until_stale t (snd (Allow k t l)) (snd (Allow k t l'))"
proof -
  have eq: "entries l k = entries l' k \<or>
    (entries l' k = None \<and> (\<exists>w. entries l k = Some w \<and> per l' \<le> TimeSub t (w_start w)))"
    using assms by (auto simp: same_until_stale_def TimeSub_ge)
  from assms have lp: "limit l = limit l'" "per l = per l'" by (simp_all add: same_until_stale_def)
  have here: "fst (Allow k t l) = fst (Allow k t l') \<and>
      entries (snd (Allow k t l)) k = entries (snd (Allow k t l')) k"
    using eq lp by (auto simp: Allow_def Let_def split: option.splits)
  have "entries (snd (Allow k t l)) x = entries (snd (Allow k t l')) x \<or>
      (entries (snd (Allow k t l')) x = None \<and>
       (\<exists>w. entries (snd (Allow k t l)) x = Some w \<and> per l \<le> t - w_start w))" for x
  proof (cases "x = k")
    case True
    with here show ?thesis by simp
  next
    case False
    with assms Allow_other [OF False, of t l] Allow_other [OF False, of t l'] show ?thesis
      by (auto simp: same_until_stale_def)
  qed
  with here lp assms show ?thesis by (auto simp: same_until_stale_def)
qed

lemma limiter_run_same:
  assumes "same_until_stale t l l'" and "sorted (map fst evs)" and "\<forall>e \<in> set evs. t \<le> fst e"
  shows "limiter_run (filter (\<lambda>e. snd e \<noteq> EvGC) evs) l = limiter_run evs l'"
  using assms
proof (induction evs arbitrary: t l l')
  case Nil
  then show ?case by simp
next
  case (Cons e evs)
  obtain u ev where e: "e = (u, ev)" by (cases e)
  have r: "same_until_stale u l l'" using same_until_stale_mono [OF Cons.prems(1)] Cons.prems(3) e by simp
  have late: "\<forall>e \<in> set evs. u \<le> fst e" "sorted (map fst evs)" using Cons.prems(2) e by auto
  show ?case
  proof (cases ev)
    case EvGC
    with Cons.IH [OF same_until_stale_GC [OF r] late(2,1)] e show ?thesis by simp
  next
    case (EvAllow k)
    with Cons.IH [OF conjunct2 [OF same_until_stale_Allow [OF r]] late(2,1)] same_until_stale_Allow [OF r, of k] e
    show ?thesis by (simp add: limiter_run_Allow del: limiter_run.simps(3))
  qed
qed

subsection \<open>Properties\<close>

text \<open>C21: the limiter bounds every key: in any span as long as the window, at most two windows
  serve a key, so at most twice the limit of its events get through (the fixed-window bound),
  whatever other keys and collections are interleaved.\<close>

theorem limiter_bounds_rate:
  assumes "0 < p" and "in_i64 p" and "sorted (map fst evs)" and "int (length evs) < 9223372036854775807"
  shows "int (granted k a (a + p) (limiter_run evs (NewLimiter n p))) \<le> 2 * max 1 n"
  using granted_from [OF counts_ok_new [OF assms(1,2)] assms(3) _ assms(4), of "a + p" a n k]
  by (simp add: NewLimiter_def)

theorem limiter_bounds_rate_witness:
  "int (granted ''login:a'' 9 19 (limiter_run
      [(0, EvAllow ''login:a''), (9, EvAllow ''login:a''), (10, EvAllow ''login:a''),
       (11, EvGC), (12, EvAllow ''login:a''), (13, EvAllow ''login:a'')] (NewLimiter 2 10))) \<le> 4"
  using limiter_bounds_rate [of 10 "[(0, EvAllow ''login:a''), (9, EvAllow ''login:a''),
      (10, EvAllow ''login:a''), (11, EvGC), (12, EvAllow ''login:a''), (13, EvAllow ''login:a'')]"
      "''login:a''" 9 2]
  by (simp add: in_i64_def)

text \<open>The garbage collection is invisible: dropping every GC from a run leaves every
  decision of the limiter as it is.\<close>

theorem limiter_gc_invisible:
  assumes "0 < p" and "in_i64 p" and "sorted (map fst evs)" and "\<forall>e \<in> set evs. 0 \<le> fst e"
  shows "limiter_run evs (NewLimiter n p) =
         limiter_run (filter (\<lambda>e. snd e \<noteq> EvGC) evs) (NewLimiter n p)"
proof -
  have "same_until_stale 0 (NewLimiter n p) (NewLimiter n p)"
    using assms by (simp add: same_until_stale_def NewLimiter_def)
  from limiter_run_same [OF this assms(3,4)] show ?thesis by simp
qed

theorem limiter_gc_invisible_witness:
  "limiter_run [(0, EvAllow ''a''), (10, EvGC), (12, EvAllow ''a'')] (NewLimiter 1 10) =
   limiter_run [(0, EvAllow ''a''), (12, EvAllow ''a'')] (NewLimiter 1 10)"
  using limiter_gc_invisible [of 10 "[(0, EvAllow ''a''), (10, EvGC), (12, EvAllow ''a'')]" 1]
  by (simp add: in_i64_def)

text \<open>The Retry-After answer is exact: after a refusal it is positive, the key is refused
  at every time before it has passed, and allowed once it has.\<close>

theorem limiter_retry_after_exact:
  assumes "counts_ok 2 l" and "Allow k now l = (False, l')" and "\<forall>w. entries l k = Some w \<longrightarrow> w_start w \<le> now"
  shows "0 < RetryAfter k now l' \<and>
    (\<forall>t. now \<le> t \<longrightarrow> fst (Allow k t l') = (now + RetryAfter k now l' \<le> t))"
proof -
  have ok: "counts_ok (Suc 1) l" using assms(1) by (simp add: numeral_2_eq_2)
  obtain w where w: "entries l k = Some w" "now - w_start w < per l"
    using Allow_fresh [OF assms(1), of k now] assms(2) by (metis Pair_inject not_less)
  from Allow_counted [OF ok w] assms(2)
  have l': "l' = l\<lparr>entries := (entries l)(k \<mapsto> w\<lparr>w_count := w_count w + 1\<rparr>)\<rparr>"
    and full: "limit l < w_count w + 1" by auto
  have ok': "counts_ok (Suc 0) l'" using counts_ok_Allow [OF ok, of k now] assms(2) by simp
  have "TimeSub now (w_start w) = now - w_start w"
    using TimeSub_id [of now "w_start w" "per l"] w assms(3) ok by (simp add: counts_ok_def)
  moreover have "in_i64 (per l - (now - w_start w))"
    using w assms(3) ok by (auto simp: counts_ok_def in_i64_def)
  ultimately have ra: "RetryAfter k now l' = per l - (now - w_start w)"
    using w(2) by (simp add: RetryAfter_def l' sub64_def i64_id)
  have "fst (Allow k t l') = (now + RetryAfter k now l' \<le> t)" for t
  proof (cases "t - w_start w < per l")
    case True
    with Allow_counted [OF ok', of k "w\<lparr>w_count := w_count w + 1\<rparr>" t] full ra l'
    show ?thesis by simp
  next
    case False
    with Allow_fresh [OF ok', of k t] ra l' show ?thesis by simp
  qed
  with ra w(2) show ?thesis by simp
qed

theorem limiter_retry_after_exact_witness:
  "0 < RetryAfter ''a'' 3 (snd (Allow ''a'' 3 (snd (Allow ''a'' 1 (NewLimiter 1 10)))))"
proof -
  let ?l = "snd (Allow ''a'' 1 (NewLimiter 1 10))"
  have l: "?l = \<lparr>entries = [''a'' \<mapsto> \<lparr>w_count = 1, w_start = 1\<rparr>], limit = 1, per = 10\<rparr>"
    by (simp add: Allow_def Let_def NewLimiter_def)
  have "Allow ''a'' 3 ?l = (False, snd (Allow ''a'' 3 ?l))"
    unfolding l by (simp add: Allow_def Let_def TimeSub_def add64_def i64_def)
  from limiter_retry_after_exact [OF _ this] show ?thesis by (simp add: l counts_ok_def in_i64_def)
qed

end
