(* ===== verification/Store_Nodes.thy ===== *)
theory Store_Nodes
  imports Store_Schema
begin

text \<open>
  The node operations of the store (\<^verbatim>\<open>store/nodes.go\<close>, \<^verbatim>\<open>store/latency.go\<close> and the helpers
  of \<^verbatim>\<open>store/helpers.go\<close>): rows are written with the tags joined by commas and read back by
  \<open>scanNode\<close>; deleting a node cascades to the six tables that refer to it.
\<close>

subsection \<open>Nodes and rows\<close>

record node =
  n_ID :: string
  n_Name :: string
  n_APIURL :: string
  n_APISecretEnc :: string
  n_OutboundEnc :: string
  n_Source :: string
  n_ConfigURL :: string
  n_KCEKeyEnc :: string
  n_Tags :: "string list"
  n_Enabled :: bool
  n_Remark :: string
  n_Mode :: string
  n_LatencyMs :: int
  n_LatencyCheckedAt :: int
  n_LatencyFailCount :: int
  n_CreatedAt :: int
  n_UpdatedAt :: int
  n_LastOnline :: int
  n_HasLastOnl :: bool

record server_node =
  sn_ID :: string
  sn_Name :: string
  sn_Server :: string
  sn_Enabled :: bool
  sn_LatencyMs :: int
  sn_LatencyFailCount :: int

definition boolInt :: "bool \<Rightarrow> int" where
  "boolInt b = (if b then 1 else 0)"

definition splitCSV :: "string \<Rightarrow> string list" where
  "splitCSV s = (if s = [] then []
     else filter (\<lambda>p. p \<noteq> []) (map TrimSpace (Split s CHR '','')))"

definition scanNode :: "node_row \<Rightarrow> node" where
  "scanNode r =
     \<lparr>n_ID = nr_id r, n_Name = nr_name r, n_APIURL = nr_api_url r, n_APISecretEnc = nr_api_secret_enc r,
      n_OutboundEnc = nr_outbound_enc r, n_Source = nr_source r, n_ConfigURL = nr_config_url r,
      n_KCEKeyEnc = nr_kce_key_enc r, n_Tags = splitCSV (nr_tags r), n_Enabled = (nr_enabled r \<noteq> 0),
      n_Remark = nr_remark r, n_Mode = nr_mode r, n_LatencyMs = nr_latency_ms r,
      n_LatencyCheckedAt = nr_latency_checked_at r, n_LatencyFailCount = nr_latency_fail_count r,
      n_CreatedAt = nr_created_at r, n_UpdatedAt = nr_updated_at r,
      n_LastOnline = nr_last_online_at r, n_HasLastOnl = True\<rparr>"

text \<open>The columns an INSERT or UPDATE writes from a node.\<close>

definition node_columns :: "node \<Rightarrow> int \<Rightarrow> int \<Rightarrow> int \<Rightarrow> node_row" where
  "node_columns n created updated online =
     \<lparr>nr_id = n_ID n, nr_name = n_Name n, nr_api_url = n_APIURL n, nr_api_secret_enc = n_APISecretEnc n,
      nr_outbound_enc = n_OutboundEnc n, nr_source = n_Source n, nr_config_url = n_ConfigURL n,
      nr_kce_key_enc = n_KCEKeyEnc n, nr_tags = Join (n_Tags n) '','', nr_enabled = boolInt (n_Enabled n),
      nr_remark = n_Remark n, nr_mode = n_Mode n, nr_latency_ms = n_LatencyMs n,
      nr_latency_checked_at = n_LatencyCheckedAt n, nr_latency_fail_count = n_LatencyFailCount n,
      nr_created_at = created, nr_updated_at = updated, nr_last_online_at = online\<rparr>"

subsection \<open>Operations\<close>

definition CreateNode :: "int \<Rightarrow> node \<Rightarrow> db \<Rightarrow> (node \<times> db) db_res" where
  "CreateNode now n d =
     (let n' = n\<lparr>n_CreatedAt := now, n_UpdatedAt := now\<rparr> in
      if list_ex (\<lambda>r. nr_id r = n_ID n) (nodes d) \<or> list_ex (\<lambda>r. nr_name r = n_Name n) (nodes d)
      then Inl UniqueViolation
      else Inr (n', d\<lparr>nodes := nodes d @ [node_columns n' now now 0]\<rparr>))"

definition GetNode :: "string \<Rightarrow> db \<Rightarrow> node db_res" where
  "GetNode i d = (case row_with nr_id i (nodes d) of None \<Rightarrow> Inl ErrNotFound | Some r \<Rightarrow> Inr (scanNode r))"

definition GetNodeByName :: "string \<Rightarrow> db \<Rightarrow> node db_res" where
  "GetNodeByName name d =
     (case row_with nr_name name (nodes d) of None \<Rightarrow> Inl ErrNotFound | Some r \<Rightarrow> Inr (scanNode r))"

definition ListNodes :: "db \<Rightarrow> node list" where
  "ListNodes d = map scanNode (sort_key nr_name (nodes d))"

definition UpdateNode :: "int \<Rightarrow> node \<Rightarrow> db \<Rightarrow> (node \<times> db) db_res" where
  "UpdateNode now n d =
     (let n' = n\<lparr>n_UpdatedAt := now\<rparr>;
          hit = (\<lambda>r. nr_id r = n_ID n)
      in if affected hit (nodes d) \<noteq> 0 \<and>
            list_ex (\<lambda>r. nr_id r \<noteq> n_ID n \<and> nr_name r = n_Name n) (nodes d)
         then Inl UniqueViolation
         else case requireAffected (affected hit (nodes d)) of
                Inl e \<Rightarrow> Inl e
              | Inr _ \<Rightarrow> Inr (n', d\<lparr>nodes := update_where hit
                  (\<lambda>r. node_columns n' (nr_created_at r) now (nr_last_online_at r)) (nodes d)\<rparr>))"

text \<open>The foreign keys of the six dependent tables are \<open>ON DELETE CASCADE\<close>.\<close>

definition drop_node :: "string \<Rightarrow> db \<Rightarrow> db" where
  "drop_node i d = d\<lparr>nodes := delete_where (\<lambda>r. nr_id r = i) (nodes d),
     traffic_samples := delete_where (\<lambda>r. ts_node_id r = i) (traffic_samples d),
     traffic_rollup := delete_where (\<lambda>r. rr_node_id r = i) (traffic_rollup d),
     ip_stats := delete_where (\<lambda>r. is_node_id r = i) (ip_stats d),
     ip_daily := delete_where (\<lambda>r. id_node_id r = i) (ip_daily d),
     exit_ip_checks := delete_where (\<lambda>r. e_node_id r = i) (exit_ip_checks d),
     operations := delete_where (\<lambda>r. o_node_id r = i) (operations d)\<rparr>"

definition DeleteNode :: "string \<Rightarrow> db \<Rightarrow> db db_res" where
  "DeleteNode i d =
     (case requireAffected (affected (\<lambda>r. nr_id r = i) (nodes d)) of
        Inl e \<Rightarrow> Inl e
      | Inr _ \<Rightarrow> Inr (drop_node i d))"

definition SetLastOnline :: "string \<Rightarrow> int \<Rightarrow> db \<Rightarrow> db" where
  "SetLastOnline i ts d = d\<lparr>nodes := update_where (\<lambda>r. nr_id r = i) (\<lambda>r. r\<lparr>nr_last_online_at := ts\<rparr>) (nodes d)\<rparr>"

definition ListNodesBySource :: "string \<Rightarrow> db \<Rightarrow> node list" where
  "ListNodesBySource src d = map scanNode (sort_key nr_name (filter (\<lambda>r. nr_source r = src) (nodes d)))"

definition UpdateNodeLatency :: "int \<Rightarrow> string \<Rightarrow> int \<Rightarrow> int \<Rightarrow> db \<Rightarrow> db" where
  "UpdateNodeLatency now i latencyMs failCount d =
     d\<lparr>nodes := update_where (\<lambda>r. nr_id r = i)
        (\<lambda>r. r\<lparr>nr_latency_ms := latencyMs, nr_latency_checked_at := now,
               nr_latency_fail_count := failCount, nr_updated_at := now\<rparr>) (nodes d)\<rparr>"

definition ListEnabledSubscriptionNodes :: "db \<Rightarrow> node list" where
  "ListEnabledSubscriptionNodes d =
     map scanNode (sort_key nr_name (filter (\<lambda>r. nr_enabled r = 1 \<and> nr_source r \<noteq> []) (nodes d)))"

text \<open>The sealed outbound goes into the field \<open>Server\<close>; the caller opens it.\<close>

definition ListSubscriptionNodesWithServer :: "db \<Rightarrow> server_node list" where
  "ListSubscriptionNodesWithServer d =
     map (\<lambda>r. \<lparr>sn_ID = nr_id r, sn_Name = nr_name r, sn_Server = nr_outbound_enc r,
               sn_Enabled = (nr_enabled r \<noteq> 0), sn_LatencyMs = nr_latency_ms r,
               sn_LatencyFailCount = nr_latency_fail_count r\<rparr>)
       (sort_key nr_name (filter (\<lambda>r. nr_enabled r = 1 \<and> nr_source r \<noteq> [] \<and> nr_outbound_enc r \<noteq> []) (nodes d)))"

subsection \<open>Lemmas\<close>

lemmas node_op_defs = CreateNode_def GetNode_def GetNodeByName_def UpdateNode_def DeleteNode_def
  SetLastOnline_def UpdateNodeLatency_def requireAffected_def

text \<open>A tag as the panel stores it: trimmed, not empty and without a comma.\<close>

definition plain_tag :: "string \<Rightarrow> bool" where
  "plain_tag t \<longleftrightarrow> t \<noteq> [] \<and> CHR '','' \<notin> set t \<and> TrimSpace t = t"

lemma Join_eq_Nil: "\<forall>p \<in> set ps. p \<noteq> [] \<Longrightarrow> Join ps sep = [] \<longleftrightarrow> ps = []"
  by (cases "(ps, sep)" rule: Join.cases) auto

lemma splitCSV_Join:
  assumes "\<forall>t \<in> set tags. plain_tag t"
  shows "splitCSV (Join tags '','') = tags"
proof (cases "tags = []")
  case True
  then show ?thesis by (simp add: splitCSV_def)
next
  case False
  have "map TrimSpace tags = tags" "filter (\<lambda>p. p \<noteq> []) tags = tags"
    using assms by (auto simp: plain_tag_def intro: map_idI)
  with False assms Join_eq_Nil [of tags "'',''"] Split_Join [OF False, of "CHR '',''"] show ?thesis
    by (auto simp: splitCSV_def plain_tag_def)
qed

lemma scanNode_columns:
  "\<forall>t \<in> set (n_Tags n). plain_tag t \<Longrightarrow>
   scanNode (node_columns n c u l) =
     n\<lparr>n_CreatedAt := c, n_UpdatedAt := u, n_LastOnline := l, n_HasLastOnl := True\<rparr>"
  by (cases n) (simp add: scanNode_def node_columns_def splitCSV_Join boolInt_def)

lemma node_columns_key [simp]: "nr_id (node_columns n c u l) = n_ID n" "nr_name (node_columns n c u l) = n_Name n"
  by (simp_all add: node_columns_def)

lemma GetNode_None: "GetNode i d = Inl e \<longleftrightarrow> e = ErrNotFound \<and> i \<notin> nr_id ` set (nodes d)"
  by (auto simp: GetNode_def row_with_None [symmetric] split: option.splits)

lemma GetNode_node_exists: "(\<exists>n. GetNode i d = Inr n) \<longleftrightarrow> node_exists i d"
proof -
  have "(\<exists>n. GetNode i d = Inr n) \<longleftrightarrow> (\<forall>e. GetNode i d \<noteq> Inl e)"
    by (cases "GetNode i d") auto
  then show ?thesis by (auto simp: GetNode_None node_exists_iff)
qed

text \<open>The statements that only touch columns of the rows keep the keys.\<close>

lemma update_nodes_ok:
  assumes "db_ok d" and "\<And>r. nr_id (f r) = nr_id r" and "\<And>r. nr_name (f r) = nr_name r"
  shows "db_ok (d\<lparr>nodes := update_where p f (nodes d)\<rparr>)"
proof -
  have "map nr_id (update_where p f (nodes d)) = map nr_id (nodes d)"
    and "map nr_name (update_where p f (nodes d)) = map nr_name (nodes d)"
    by (rule map_key_update_where, rule assms)+
  moreover from this(1) have "nr_id ` set (update_where p f (nodes d)) = nr_id ` set (nodes d)"
    by (metis list.set_map)
  ultimately show ?thesis using assms(1) by (simp add: db_ok_simps)
qed

lemma SetLastOnline_ok: "db_ok d \<Longrightarrow> db_ok (SetLastOnline i ts d)"
  unfolding SetLastOnline_def by (rule update_nodes_ok) simp_all

lemma UpdateNodeLatency_ok: "db_ok d \<Longrightarrow> db_ok (UpdateNodeLatency now i l f d)"
  unfolding UpdateNodeLatency_def by (rule update_nodes_ok) simp_all

lemma CreateNode_ok: "db_ok d \<Longrightarrow> CreateNode now n d = Inr (n', d') \<Longrightarrow> db_ok d'"
  by (auto simp: CreateNode_def db_ok_simps Let_def list_ex_key split: if_splits)

lemma UpdateNode_ok:
  assumes "db_ok d" "UpdateNode now n d = Inr (n', d')"
  shows "db_ok d'"
proof -
  let ?f = "\<lambda>r. node_columns (n\<lparr>n_UpdatedAt := now\<rparr>) (nr_created_at r) now (nr_last_online_at r)"
  let ?new = "update_where (\<lambda>r. nr_id r = n_ID n) ?f (nodes d)"
  have d': "d' = d\<lparr>nodes := ?new\<rparr>"
    and free: "\<forall>r \<in> set (nodes d). nr_id r \<noteq> n_ID n \<longrightarrow> nr_name r \<noteq> n_Name n"
    using assms(2) by (auto simp: UpdateNode_def Let_def requireAffected_def list_ex_iff split: if_splits)
  have ids: "map nr_id ?new = map nr_id (nodes d)" by (rule map_key_update_where) simp
  then have "nr_id ` set ?new = nr_id ` set (nodes d)" by (metis list.set_map)
  moreover have "distinct (map nr_name ?new)"
    by (rule distinct_update_unique [where n = "n_Name n"]) (use assms(1) free in \<open>auto simp: db_ok_simps\<close>)
  ultimately show ?thesis using assms(1) ids by (simp add: d' db_ok_simps)
qed

lemma drop_node_tables [simp]:
  "traffic_samples (drop_node i d) = delete_where (\<lambda>r. ts_node_id r = i) (traffic_samples d)"
  "traffic_rollup (drop_node i d) = delete_where (\<lambda>r. rr_node_id r = i) (traffic_rollup d)"
  "ip_stats (drop_node i d) = delete_where (\<lambda>r. is_node_id r = i) (ip_stats d)"
  "ip_daily (drop_node i d) = delete_where (\<lambda>r. id_node_id r = i) (ip_daily d)"
  "exit_ip_checks (drop_node i d) = delete_where (\<lambda>r. e_node_id r = i) (exit_ip_checks d)"
  "operations (drop_node i d) = delete_where (\<lambda>r. o_node_id r = i) (operations d)"
  "users (drop_node i d) = users d" "refresh_tokens (drop_node i d) = refresh_tokens d"
  "user_subscriptions (drop_node i d) = user_subscriptions d" "settings_row (drop_node i d) = settings_row d"
  "ip_geo_cache (drop_node i d) = ip_geo_cache d"
  "nodes (drop_node i d) = delete_where (\<lambda>r. nr_id r = i) (nodes d)"
  by (simp_all add: drop_node_def)

lemma drop_node_exists [simp]:
  "node_exists j (drop_node i d) \<longleftrightarrow> node_exists j d \<and> j \<noteq> i" "user_exists u (drop_node i d) = user_exists u d"
  by (auto simp: node_exists_iff user_exists_def set_delete_where)

lemma drop_node_ok:
  assumes "db_ok d"
  shows "db_ok (drop_node i d)"
proof -
  have "keys_ok (drop_node i d)"
    using assms by (simp add: db_ok_def keys_ok_def distinct_delete_where)
  moreover have "refs_ok (drop_node i d)"
    using assms by (simp add: db_ok_def refs_ok_def set_delete_where)
  ultimately show ?thesis by (simp add: db_ok_def)
qed

lemma DeleteNode_ok: "db_ok d \<Longrightarrow> DeleteNode i d = Inr d' \<Longrightarrow> db_ok d'"
  by (auto simp: DeleteNode_def drop_node_ok split: sum.splits)

lemma GetNode_drop:
  "GetNode j (drop_node i d) = (if j = i then Inl ErrNotFound else GetNode j d)"
proof -
  have "row_with nr_id j (delete_where (\<lambda>r. nr_id r = i) rows) =
    (if j = i then None else row_with nr_id j rows)" for rows :: "node_row list"
    by (induction rows) (auto simp: row_with_def delete_where_def)
  then show ?thesis by (simp add: GetNode_def)
qed

subsection \<open>Properties\<close>

text \<open>A stored node reads back: after CreateNode succeeds, the node is found by id and by
  name with every field as given (tags included, if they are plain), the two timestamps set
  to the insertion time and never online; a second node with its id or name is refused.\<close>

theorem node_create_reads_back:
  assumes "CreateNode now n d = Inr (n', d')" and "\<forall>t \<in> set (n_Tags n). plain_tag t"
  shows "GetNode (n_ID n) d' = Inr (n'\<lparr>n_LastOnline := 0, n_HasLastOnl := True\<rparr>) \<and>
         GetNodeByName (n_Name n) d' = Inr (n'\<lparr>n_LastOnline := 0, n_HasLastOnl := True\<rparr>) \<and>
         n' = n\<lparr>n_CreatedAt := now, n_UpdatedAt := now\<rparr> \<and>
         (\<forall>m t. n_ID m = n_ID n \<or> n_Name m = n_Name n \<longrightarrow> CreateNode t m d' = Inl UniqueViolation)"
proof -
  have n': "n' = n\<lparr>n_CreatedAt := now, n_UpdatedAt := now\<rparr>"
    and d': "nodes d' = nodes d @ [node_columns n' now now 0]"
    and fresh: "n_ID n \<notin> nr_id ` set (nodes d)" "n_Name n \<notin> nr_name ` set (nodes d)"
    using assms(1) by (auto simp: CreateNode_def Let_def list_ex_key split: if_splits)
  have "row_with nr_id (n_ID n) (nodes d') = Some (node_columns n' now now 0)"
    "row_with nr_name (n_Name n) (nodes d') = Some (node_columns n' now now 0)"
    using fresh by (simp_all add: d' n' row_with_snoc row_with_None split: option.splits)
      (simp_all add: row_with_None [symmetric])
  moreover have "scanNode (node_columns n' now now 0) = n'\<lparr>n_LastOnline := 0, n_HasLastOnl := True\<rparr>"
    using assms(2) scanNode_columns [of n' now now 0] by (simp add: n')
  moreover have "CreateNode t m d' = Inl UniqueViolation" if "n_ID m = n_ID n \<or> n_Name m = n_Name n" for m t
    using that by (auto simp: CreateNode_def d' n')
  ultimately show ?thesis using n' by (simp add: GetNode_def GetNodeByName_def)
qed

definition demo_node :: node where
  "demo_node = \<lparr>n_ID = ''n1'', n_Name = ''tokyo'', n_APIURL = ''http://h:9090'', n_APISecretEnc = [],
     n_OutboundEnc = [], n_Source = [], n_ConfigURL = [], n_KCEKeyEnc = [], n_Tags = [''jp'', ''edge''],
     n_Enabled = True, n_Remark = [], n_Mode = [], n_LatencyMs = -1, n_LatencyCheckedAt = 0,
     n_LatencyFailCount = 0, n_CreatedAt = 0, n_UpdatedAt = 0, n_LastOnline = 0, n_HasLastOnl = False\<rparr>"

theorem node_create_reads_back_witness:
  "\<exists>n' d'. CreateNode 7 demo_node empty_db = Inr (n', d') \<and> n_Tags n' = [''jp'', ''edge''] \<and>
     GetNode ''n1'' d' = Inr (n'\<lparr>n_LastOnline := 0, n_HasLastOnl := True\<rparr>)"
proof -
  obtain n' d' where c: "CreateNode 7 demo_node empty_db = Inr (n', d')" "n_Tags n' = [''jp'', ''edge'']"
    by (simp add: CreateNode_def empty_db_def demo_node_def Let_def)
  have "\<forall>t \<in> set (n_Tags demo_node). plain_tag t"
    by (simp add: demo_node_def) code_simp
  from node_create_reads_back [OF c(1) this] c show ?thesis by (auto simp: demo_node_def)
qed

text \<open>Deleting a node removes it and everything recorded about it, and nothing else: it is
  no longer found, no table refers to it, every other node reads as before and keeps its
  samples, rollups, IP statistics, exit address and operations; deleting it again fails.\<close>

theorem node_delete_complete:
  assumes "DeleteNode i d = Inr d'"
  shows "(\<forall>j. GetNode j d' = (if j = i then Inl ErrNotFound else GetNode j d)) \<and>
    DeleteNode i d' = Inl ErrNotFound \<and>
    (\<forall>r. r \<in> set (traffic_samples d') \<longleftrightarrow> r \<in> set (traffic_samples d) \<and> ts_node_id r \<noteq> i) \<and>
    (\<forall>r. r \<in> set (traffic_rollup d') \<longleftrightarrow> r \<in> set (traffic_rollup d) \<and> rr_node_id r \<noteq> i) \<and>
    (\<forall>r. r \<in> set (ip_stats d') \<longleftrightarrow> r \<in> set (ip_stats d) \<and> is_node_id r \<noteq> i) \<and>
    (\<forall>r. r \<in> set (ip_daily d') \<longleftrightarrow> r \<in> set (ip_daily d) \<and> id_node_id r \<noteq> i) \<and>
    (\<forall>r. r \<in> set (exit_ip_checks d') \<longleftrightarrow> r \<in> set (exit_ip_checks d) \<and> e_node_id r \<noteq> i) \<and>
    (\<forall>r. r \<in> set (operations d') \<longleftrightarrow> r \<in> set (operations d) \<and> o_node_id r \<noteq> i) \<and>
    users d' = users d \<and> refresh_tokens d' = refresh_tokens d \<and>
    user_subscriptions d' = user_subscriptions d \<and> settings_row d' = settings_row d \<and>
    ip_geo_cache d' = ip_geo_cache d"
proof -
  have d': "d' = drop_node i d" using assms by (auto simp: DeleteNode_def split: sum.splits)
  have "affected (\<lambda>r. nr_id r = i) (nodes d') = 0"
    by (simp add: d' affected_0 set_delete_where)
  then have "DeleteNode i d' = Inl ErrNotFound" by (simp add: DeleteNode_def requireAffected_def)
  then show ?thesis using GetNode_drop by (simp add: d' set_delete_where)
qed

theorem node_delete_complete_witness:
  "\<exists>d d'. CreateNode 7 demo_node empty_db = Inr d \<and> DeleteNode ''n1'' (snd d) = Inr d' \<and>
     GetNode ''n1'' d' = Inl ErrNotFound"
proof -
  obtain d d' where "CreateNode 7 demo_node empty_db = Inr d" and del: "DeleteNode ''n1'' (snd d) = Inr d'"
    by (simp add: CreateNode_def empty_db_def demo_node_def DeleteNode_def requireAffected_def affected_def
        Let_def)
  moreover have "GetNode ''n1'' d' = Inl ErrNotFound" using node_delete_complete [OF del] by simp
  ultimately show ?thesis by blast
qed

end
