(* ===== verification/Store_Traffic.thy ===== *)
theory Store_Traffic
  imports Store_Nodes
begin

text \<open>
  The traffic tables (\<^verbatim>\<open>store/traffic.go\<close>): raw samples and rollup buckets are written by
  upserts that add bytes and keep peaks, read by range and keyset, and pruned by age. The
  summing tables of the schema theory are interpreted on the two merges here.
\<close>

subsection \<open>Operations\<close>

definition sample_key :: "traffic_sample \<Rightarrow> string \<times> int" where
  "sample_key r = (ts_node_id r, ts_ts r)"

definition sample_merge :: "traffic_sample \<Rightarrow> traffic_sample \<Rightarrow> traffic_sample" where
  "sample_merge old new = old
     \<lparr>ts_up_bytes := ts_up_bytes old + ts_up_bytes new,
      ts_down_bytes := ts_down_bytes old + ts_down_bytes new,
      ts_peak_up_bps := max (ts_peak_up_bps old) (ts_peak_up_bps new),
      ts_peak_down_bps := max (ts_peak_down_bps old) (ts_peak_down_bps new),
      ts_max_connections := max (ts_max_connections old) (ts_max_connections new)\<rparr>"

definition insert_sample :: "traffic_sample \<Rightarrow> db \<Rightarrow> db db_res" where
  "insert_sample m d =
     (if \<not> node_exists (ts_node_id m) d then Inl ForeignKeyViolation
      else Inr (d\<lparr>traffic_samples := upsert sample_key sample_merge m (traffic_samples d)\<rparr>))"

definition InsertTrafficSamples :: "traffic_sample list \<Rightarrow> db \<Rightarrow> db db_res" where
  "InsertTrafficSamples samples d =
     (if samples = [] then Inr d else exec_each insert_sample samples d)"

definition rollup_key :: "rollup_row \<Rightarrow> string \<times> string \<times> int" where
  "rollup_key r = (rr_node_id r, rr_interval r, rr_bucket_start r)"

definition rollup_merge :: "rollup_row \<Rightarrow> rollup_row \<Rightarrow> rollup_row" where
  "rollup_merge old new = old
     \<lparr>rr_up_bytes := rr_up_bytes old + rr_up_bytes new,
      rr_down_bytes := rr_down_bytes old + rr_down_bytes new,
      rr_peak_up_bps := max (rr_peak_up_bps old) (rr_peak_up_bps new),
      rr_peak_down_bps := max (rr_peak_down_bps old) (rr_peak_down_bps new),
      rr_max_connections := max (rr_max_connections old) (rr_max_connections new)\<rparr>"

definition insert_rollup :: "rollup_row \<Rightarrow> db \<Rightarrow> db db_res" where
  "insert_rollup m d =
     (if \<not> node_exists (rr_node_id m) d then Inl ForeignKeyViolation
      else Inr (d\<lparr>traffic_rollup := upsert rollup_key rollup_merge m (traffic_rollup d)\<rparr>))"

definition UpsertRollups :: "rollup_row list \<Rightarrow> db \<Rightarrow> db db_res" where
  "UpsertRollups rows d = (if rows = [] then Inr d else exec_each insert_rollup rows d)"

definition rollup_in :: "string \<Rightarrow> string \<Rightarrow> int \<Rightarrow> int \<Rightarrow> rollup_row \<Rightarrow> bool" where
  "rollup_in nodeID interval from to r \<longleftrightarrow> rr_node_id r = nodeID \<and> rr_interval r = interval \<and>
     rr_bucket_start r \<ge> from \<and> rr_bucket_start r \<le> to"

definition QueryRollup ::
  "string \<Rightarrow> string \<Rightarrow> int \<Rightarrow> int \<Rightarrow> int \<Rightarrow> int \<Rightarrow> db \<Rightarrow> rollup_row list" where
  "QueryRollup nodeID interval from to afterTs limit d =
     (let rows = filter (rollup_in nodeID interval from to) (traffic_rollup d);
          desc = sort_key (\<lambda>r. - rr_bucket_start r)
      in if afterTs > 0
         then sql_limit limit (desc (filter (\<lambda>r. rr_bucket_start r < afterTs) rows))
         else sql_limit limit (desc rows))"

definition QueryRollupAsc :: "string \<Rightarrow> string \<Rightarrow> int \<Rightarrow> int \<Rightarrow> int \<Rightarrow> db \<Rightarrow> rollup_row list" where
  "QueryRollupAsc nodeID interval from to limit d =
     sql_limit limit (sort_key rr_bucket_start (filter (rollup_in nodeID interval from to) (traffic_rollup d)))"

definition SumRange :: "string \<Rightarrow> int \<Rightarrow> int \<Rightarrow> db \<Rightarrow> int \<times> int" where
  "SumRange nodeID from to d =
     (let sel = (\<lambda>(n, iv, b). n = nodeID \<and> iv = ''minute'' \<and> b \<ge> from \<and> b \<le> to)
      in (col_total rollup_key rr_up_bytes sel (traffic_rollup d),
          col_total rollup_key rr_down_bytes sel (traffic_rollup d)))"

definition SumAll :: "string \<Rightarrow> db \<Rightarrow> int \<times> int" where
  "SumAll nodeID d =
     (let sel = (\<lambda>(n, iv, b). n = nodeID \<and> iv = ''minute'')
      in (col_total rollup_key rr_up_bytes sel (traffic_rollup d),
          col_total rollup_key rr_down_bytes sel (traffic_rollup d)))"

text \<open>
  The order of rows with equal sort value is the database's: \<open>order_by\<close> is the sorting of the
  engine, a permutation in descending order of the value. The other columns of the
  aggregated rows keep Go's zero values.
\<close>

definition order_by_ok :: "(('r \<Rightarrow> int) \<Rightarrow> 'r list \<Rightarrow> 'r list) \<Rightarrow> bool" where
  "order_by_ok order_by \<longleftrightarrow> (\<forall>f rows. set (order_by f rows) = set rows \<and>
     length (order_by f rows) = length rows \<and> sorted_wrt (\<lambda>a b. f a \<ge> f b) (order_by f rows))"

definition TopNodesByTraffic ::
  "((rollup_row \<Rightarrow> int) \<Rightarrow> rollup_row list \<Rightarrow> rollup_row list) \<Rightarrow> int \<Rightarrow> int \<Rightarrow> int \<Rightarrow> db \<Rightarrow> rollup_row list" where
  "TopNodesByTraffic order_by from to limit d =
     (let hits = filter (\<lambda>r. rr_interval r = ''minute'' \<and> rr_bucket_start r \<ge> from \<and> rr_bucket_start r \<le> to)
                   (traffic_rollup d);
          group = (\<lambda>n. \<lparr>rr_node_id = n, rr_interval = [], rr_bucket_start = 0,
             rr_up_bytes = sum_list (map rr_up_bytes (filter (\<lambda>r. rr_node_id r = n) hits)),
             rr_down_bytes = sum_list (map rr_down_bytes (filter (\<lambda>r. rr_node_id r = n) hits)),
             rr_peak_up_bps = 0, rr_peak_down_bps = 0, rr_max_connections = 0\<rparr>)
      in sql_limit limit (order_by (\<lambda>r. rr_up_bytes r + rr_down_bytes r)
           (map group (remdups (map rr_node_id hits)))))"

definition PruneTraffic :: "int \<Rightarrow> int \<Rightarrow> db \<Rightarrow> db" where
  "PruneTraffic now retentionDays d =
     (let day = 86400;
          kept = sub64 now (i64 (retentionDays * day));
          year = sub64 now (365 * day);
          d1 = d\<lparr>traffic_samples := delete_where (\<lambda>r. ts_ts r < sub64 now (3 * day)) (traffic_samples d)\<rparr>;
          d2 = d1\<lparr>traffic_rollup := delete_where (\<lambda>r. rr_interval r = ''minute'' \<and> rr_bucket_start r < kept)
                   (traffic_rollup d1)\<rparr>;
          d3 = d2\<lparr>traffic_rollup := delete_where (\<lambda>r. rr_interval r = ''hour'' \<and> rr_bucket_start r < kept)
                   (traffic_rollup d2)\<rparr>;
          d4 = d3\<lparr>traffic_rollup := delete_where (\<lambda>r. rr_interval r = ''day'' \<and> rr_bucket_start r < year)
                   (traffic_rollup d3)\<rparr>;
          d5 = d4\<lparr>ip_daily := delete_where (\<lambda>r. id_day r < year) (ip_daily d4)\<rparr>;
          d6 = d5\<lparr>operations := delete_where (\<lambda>r. o_updated_at r < sub64 now (7 * day)) (operations d5)\<rparr>
      in d6\<lparr>ip_geo_cache := delete_where (\<lambda>r. g_checked_at r < sub64 now (30 * day)) (ip_geo_cache d6)\<rparr>)"

subsection \<open>The tables add up\<close>

interpretation samples_up: summing_table sample_key sample_merge ts_up_bytes
  by unfold_locales (simp_all add: sample_key_def sample_merge_def)

interpretation samples_down: summing_table sample_key sample_merge ts_down_bytes
  by unfold_locales (simp add: sample_merge_def)

interpretation rollup_up: summing_table rollup_key rollup_merge rr_up_bytes
  by unfold_locales (simp_all add: rollup_key_def rollup_merge_def)

interpretation rollup_down: summing_table rollup_key rollup_merge rr_down_bytes
  by unfold_locales (simp add: rollup_merge_def)

lemma sample_keys: "(\<lambda>r. (ts_node_id r, ts_ts r)) = sample_key"
  by (rule ext) (simp add: sample_key_def)

lemma rollup_keys: "(\<lambda>r. (rr_node_id r, rr_interval r, rr_bucket_start r)) = rollup_key"
  by (rule ext) (simp add: rollup_key_def)

lemma exec_insert_rollup:
  "exec_each insert_rollup rows d = Inr d' \<Longrightarrow>
   d' = d\<lparr>traffic_rollup := fold (upsert rollup_key rollup_merge) rows (traffic_rollup d)\<rparr> \<and>
   (\<forall>r \<in> set rows. node_exists (rr_node_id r) d)"
proof (induction rows arbitrary: d)
  case (Cons r rows)
  then obtain d1 where one: "insert_rollup r d = Inr d1" and run: "exec_each insert_rollup rows d1 = Inr d'"
    by (auto split: sum.splits)
  from one have "node_exists (rr_node_id r) d"
    and "d1 = d\<lparr>traffic_rollup := upsert rollup_key rollup_merge r (traffic_rollup d)\<rparr>"
    by (auto simp: insert_rollup_def split: if_splits)
  with Cons.IH [OF run] show ?case by (simp add: node_exists_def)
qed simp

lemma exec_insert_rollup_total:
  "\<forall>r \<in> set rows. node_exists (rr_node_id r) d \<Longrightarrow> \<exists>d'. exec_each insert_rollup rows d = Inr d'"
  by (induction rows arbitrary: d) (auto simp: insert_rollup_def node_exists_def)

lemma insert_sample_ok: "db_ok d \<Longrightarrow> insert_sample m d = Inr d' \<Longrightarrow> db_ok d'"
proof -
  assume ok: "db_ok d" and "insert_sample m d = Inr d'"
  then have d': "d' = d\<lparr>traffic_samples := upsert sample_key sample_merge m (traffic_samples d)\<rparr>"
    and ex: "node_exists (ts_node_id m) d" by (auto simp: insert_sample_def split: if_splits)
  have "distinct (map sample_key (upsert sample_key sample_merge m (traffic_samples d)))"
    by (rule samples_up.distinct_upsert) (use ok in \<open>simp add: db_ok_simps sample_keys\<close>)
  moreover have "\<forall>r \<in> set (upsert sample_key sample_merge m (traffic_samples d)). node_exists (ts_node_id r) d"
    by (rule samples_up.all_upsert) (use ok ex in \<open>auto simp: db_ok_def refs_ok_def sample_merge_def\<close>)
  ultimately show ?thesis using ok by (simp add: d' db_ok_simps sample_keys)
qed

lemma insert_rollup_ok: "db_ok d \<Longrightarrow> insert_rollup m d = Inr d' \<Longrightarrow> db_ok d'"
proof -
  assume ok: "db_ok d" and "insert_rollup m d = Inr d'"
  then have d': "d' = d\<lparr>traffic_rollup := upsert rollup_key rollup_merge m (traffic_rollup d)\<rparr>"
    and ex: "node_exists (rr_node_id m) d" by (auto simp: insert_rollup_def split: if_splits)
  have "distinct (map rollup_key (upsert rollup_key rollup_merge m (traffic_rollup d)))"
    by (rule rollup_up.distinct_upsert) (use ok in \<open>simp add: db_ok_simps rollup_keys\<close>)
  moreover have "\<forall>r \<in> set (upsert rollup_key rollup_merge m (traffic_rollup d)). node_exists (rr_node_id r) d"
    by (rule rollup_up.all_upsert) (use ok ex in \<open>auto simp: db_ok_def refs_ok_def rollup_merge_def\<close>)
  ultimately show ?thesis using ok by (simp add: d' db_ok_simps rollup_keys)
qed

lemma InsertTrafficSamples_ok: "db_ok d \<Longrightarrow> InsertTrafficSamples ms d = Inr d' \<Longrightarrow> db_ok d'"
  using exec_each_invariant [of insert_sample ms d d' db_ok] insert_sample_ok
  by (auto simp: InsertTrafficSamples_def split: if_splits)

lemma UpsertRollups_ok: "db_ok d \<Longrightarrow> UpsertRollups rs d = Inr d' \<Longrightarrow> db_ok d'"
  using exec_each_invariant [of insert_rollup rs d d' db_ok] insert_rollup_ok
  by (auto simp: UpsertRollups_def split: if_splits)

lemma delete_rows_ok:
  assumes "db_ok d"
  shows "db_ok (d\<lparr>traffic_samples := delete_where p1 (traffic_samples d)\<rparr>)"
    and "db_ok (d\<lparr>traffic_rollup := delete_where p2 (traffic_rollup d)\<rparr>)"
    and "db_ok (d\<lparr>ip_daily := delete_where p3 (ip_daily d)\<rparr>)"
    and "db_ok (d\<lparr>operations := delete_where p4 (operations d)\<rparr>)"
    and "db_ok (d\<lparr>ip_geo_cache := delete_where p5 (ip_geo_cache d)\<rparr>)"
  using assms by (simp_all add: db_ok_simps distinct_delete_where set_delete_where)

lemma PruneTraffic_ok: "db_ok d \<Longrightarrow> db_ok (PruneTraffic now days d)"
  unfolding PruneTraffic_def Let_def by (intro delete_rows_ok)

lemma UpsertRollups_totals:
  assumes "db_ok d" and "UpsertRollups rows d = Inr d'"
  shows "col_total rollup_key rr_up_bytes sel (traffic_rollup d') =
           col_total rollup_key rr_up_bytes sel (traffic_rollup d) + col_total rollup_key rr_up_bytes sel rows"
    and "col_total rollup_key rr_down_bytes sel (traffic_rollup d') =
           col_total rollup_key rr_down_bytes sel (traffic_rollup d) + col_total rollup_key rr_down_bytes sel rows"
proof -
  have d': "traffic_rollup d' = fold (upsert rollup_key rollup_merge) rows (traffic_rollup d)"
    using assms(2) exec_insert_rollup [of rows d d'] by (auto simp: UpsertRollups_def split: if_splits)
  have dist: "distinct (map rollup_key (traffic_rollup d))"
    using assms(1) by (simp add: db_ok_simps rollup_keys)
  show "col_total rollup_key rr_up_bytes sel (traffic_rollup d') =
      col_total rollup_key rr_up_bytes sel (traffic_rollup d) + col_total rollup_key rr_up_bytes sel rows"
    and "col_total rollup_key rr_down_bytes sel (traffic_rollup d') =
      col_total rollup_key rr_down_bytes sel (traffic_rollup d) + col_total rollup_key rr_down_bytes sel rows"
    using rollup_up.total_fold [OF dist, of sel rows] rollup_down.total_fold [OF dist, of sel rows] d' by simp_all
qed

text \<open>The keyset of the rollup query: buckets in descending order.\<close>

interpretation rollup_pages: keyset_order "\<lambda>a b :: int. b < a" rr_bucket_start
  by unfold_locales auto

lemma strictly_descending:
  "distinct (map f rows) \<Longrightarrow> sorted_wrt (\<lambda>a b. f b < f a) (sort_key (\<lambda>r. - f r :: int) rows)"
  using strictly_sorted [of "\<lambda>r. - f r" rows] by (simp add: distinct_map inj_on_def)

lemma QueryRollup_page:
  assumes "0 \<le> limit"
  shows "QueryRollup n iv from to (case cur of None \<Rightarrow> 0 | Some c \<Rightarrow> c) limit d =
    page_after (\<lambda>a b. b < a) rr_bucket_start (nat limit) (case cur of None \<Rightarrow> None | Some c \<Rightarrow> if 0 < c then cur else None)
      (sort_key (\<lambda>r. - rr_bucket_start r) (filter (rollup_in n iv from to) (traffic_rollup d)))"
  using assms by (auto simp: QueryRollup_def page_after_def sql_limit_def Let_def filter_sort split: option.splits)

subsection \<open>Properties\<close>


definition demo_rollup :: "string \<Rightarrow> int \<Rightarrow> int \<Rightarrow> int \<Rightarrow> rollup_row" where
  "demo_rollup iv b up down = \<lparr>rr_node_id = ''n1'', rr_interval = iv, rr_bucket_start = b, rr_up_bytes = up,
     rr_down_bytes = down, rr_peak_up_bps = up, rr_peak_down_bps = down, rr_max_connections = 1\<rparr>"

definition demo_nodes_db :: db where
  "demo_nodes_db = empty_db\<lparr>nodes := [node_columns demo_node 1 1 0]\<rparr>"

lemma demo_nodes_db_ok: "db_ok demo_nodes_db" "node_exists ''n1'' demo_nodes_db"
  by (simp_all add: demo_nodes_db_def empty_db_def db_ok_simps demo_node_def)


text \<open>Pruning keeps the retention promise: totals over a range that begins inside the
  retention period are the same after pruning as before, and no minute bucket older than the
  period is left.\<close>

theorem prune_keeps_retention:
  assumes "in_i64 (days * 86400)" and "in_i64 (now - days * 86400)" and "now - days * 86400 \<le> from"
  shows "SumRange n from to (PruneTraffic now days d) = SumRange n from to d \<and>
    (\<forall>r \<in> set (traffic_rollup (PruneTraffic now days d)).
       rr_interval r = ''minute'' \<or> rr_interval r = ''hour'' \<longrightarrow> now - days * 86400 \<le> rr_bucket_start r)"
proof -
  have k: "sub64 now (i64 (days * 86400)) = now - days * 86400"
    using assms(1,2) by (simp add: sub64_def i64_id)
  let ?hold = "\<lambda>r. \<not> (rr_interval r = ''minute'' \<and> rr_bucket_start r < now - days * 86400)"
  have minute: "filter (\<lambda>r. case rollup_key r of (m, iv, b) \<Rightarrow> m = n \<and> iv = ''minute'' \<and> b \<ge> from \<and> b \<le> to)
      (traffic_rollup (PruneTraffic now days d)) =
    filter (\<lambda>r. case rollup_key r of (m, iv, b) \<Rightarrow> m = n \<and> iv = ''minute'' \<and> b \<ge> from \<and> b \<le> to)
      (traffic_rollup d)"
    unfolding PruneTraffic_def Let_def k
    by (auto simp: delete_where_def rollup_key_def intro!: filter_cong) (use assms(3) in auto)
  show ?thesis
    using minute unfolding SumRange_def Let_def col_total_def
    by (auto simp: PruneTraffic_def Let_def k set_delete_where)
qed

theorem prune_keeps_retention_witness:
  "SumRange ''n1'' 5000000 6000000 (PruneTraffic 6000000 30 demo_nodes_db) = SumRange ''n1'' 5000000 6000000 demo_nodes_db"
  using prune_keeps_retention [of 30 6000000 5000000 "''n1''" 6000000 demo_nodes_db] by (simp add: in_i64_def)

text \<open>Paging through a node's buckets is complete: following the cursor from page to page
  returns every bucket of the range exactly once, newest first, as one query without a limit
  would, for any page size.\<close>

theorem rollup_paging_complete:
  assumes "db_ok d" and "0 < limit" and "0 < from" and "length (traffic_rollup d) \<le> fuel"
  shows "walk_pages (\<lambda>cur. QueryRollup n iv from to (case cur of None \<Rightarrow> 0 | Some c \<Rightarrow> c) limit d)
           rr_bucket_start fuel None = QueryRollup n iv from to 0 (-1) d"
proof -
  let ?rows = "filter (rollup_in n iv from to) (traffic_rollup d)"
  let ?desc = "sort_key (\<lambda>r. - rr_bucket_start r) ?rows"
  let ?page = "\<lambda>cur. page_after (\<lambda>a b. b < a) rr_bucket_start (nat limit) cur ?desc"
  have pos: "0 < rr_bucket_start r" if "r \<in> set ?desc" for r
    using that assms(3) by (auto simp: rollup_in_def)
  have same: "walk_pages (\<lambda>cur. QueryRollup n iv from to (case cur of None \<Rightarrow> 0 | Some c \<Rightarrow> c) limit d)
      rr_bucket_start k cur = walk_pages ?page rr_bucket_start k cur"
    if "\<forall>c. cur = Some c \<longrightarrow> 0 < c" for k cur
    using that
  proof (induction k arbitrary: cur)
    case (Suc k)
    have eq: "QueryRollup n iv from to (case cur of None \<Rightarrow> 0 | Some c \<Rightarrow> c) limit d = ?page cur"
      using QueryRollup_page [where limit = limit and cur = cur] assms(2) Suc.prems by (auto split: option.splits)
    have "0 < rr_bucket_start (last (?page cur))" if "?page cur \<noteq> []"
      using last_in_set [OF that] pos by (auto simp: page_after_def dest: in_set_takeD)
    with Suc.IH eq show ?case by (auto split: list.splits)
  qed simp
  have inj: "inj_on rr_bucket_start (set ?rows)"
  proof (rule inj_onI)
    fix x y assume "x \<in> set ?rows" "y \<in> set ?rows" "rr_bucket_start x = rr_bucket_start y"
    then have "x \<in> set (traffic_rollup d)" "y \<in> set (traffic_rollup d)" "rollup_key x = rollup_key y"
      by (auto simp: rollup_in_def rollup_key_def)
    moreover have "inj_on rollup_key (set (traffic_rollup d))"
      using assms(1) by (simp add: db_ok_simps rollup_keys distinct_map)
    ultimately show "x = y" by (simp add: inj_on_def)
  qed
  have "distinct (traffic_rollup d)" using assms(1) by (simp add: db_ok_simps distinct_map)
  with inj have "distinct (map rr_bucket_start ?rows)" by (simp add: distinct_map)
  from rollup_pages.walk_pages_all [OF strictly_descending [OF this], of "nat limit" fuel] assms(2,4)
  have "walk_pages ?page rr_bucket_start fuel None = ?desc"
    using length_filter_le [of "rollup_in n iv from to" "traffic_rollup d"] by simp
  with same [of None fuel] show ?thesis by (simp add: QueryRollup_def sql_limit_def Let_def)
qed

theorem rollup_paging_complete_witness:
  "walk_pages (\<lambda>cur. QueryRollup ''n1'' ''minute'' 60 600 (case cur of None \<Rightarrow> 0 | Some c \<Rightarrow> c) 1
       (demo_nodes_db\<lparr>traffic_rollup := [demo_rollup ''minute'' 60 5 7, demo_rollup ''minute'' 120 1 2]\<rparr>))
     rr_bucket_start 2 None = [demo_rollup ''minute'' 120 1 2, demo_rollup ''minute'' 60 5 7]"
proof -
  let ?d = "demo_nodes_db\<lparr>traffic_rollup := [demo_rollup ''minute'' 60 5 7, demo_rollup ''minute'' 120 1 2]\<rparr>"
  have "db_ok ?d" using demo_nodes_db_ok by (simp add: db_ok_simps demo_rollup_def)
  moreover have "QueryRollup ''n1'' ''minute'' 60 600 0 (-1) ?d =
      [demo_rollup ''minute'' 120 1 2, demo_rollup ''minute'' 60 5 7]"
    by (simp add: QueryRollup_def sql_limit_def rollup_in_def demo_rollup_def)
  ultimately show ?thesis
    using rollup_paging_complete [of ?d 1 60 2 "''n1''" "''minute''" 600] by simp
qed

end
