(* ===== verification/Store_IPs.thy ===== *)
theory Store_IPs
  imports Store_Traffic "HOL-Library.Product_Lexorder"
begin

text \<open>
  Per-source-address statistics and the geolocation cache (\<^verbatim>\<open>store/ips.go\<close>). Statistics are
  summing tables; the listing is paged by a keyset of the sort column and the address, whose
  cursor is a string. \<open>LIKE\<close> is SQLite's: \<open>%\<close> and \<open>_\<close> are wildcards and ASCII letters
  match in either case; text compares by bytes.
\<close>

subsection \<open>Data\<close>

record ip_delta =
  dl_NodeID :: string
  dl_SourceIP :: string
  dl_UpDelta :: int
  dl_DownDelta :: int
  dl_ConnCount :: int
  dl_Active :: int
  dl_SeenAt :: int

record ip_stat =
  ip_NodeID :: string
  ip_SourceIP :: string
  ip_UploadBytes :: int
  ip_DownloadBytes :: int
  ip_TotalBytes :: int
  ip_ConnectionsTotal :: int
  ip_ActiveConnections :: int
  ip_FirstSeenAt :: int
  ip_LastSeenAt :: int
  ip_NodesCount :: int

definition dayStart :: "int \<Rightarrow> int" where
  "dayStart ts = sub64 ts (go_mod ts 86400)"

text \<open>The loop scans from the right, so the cut is at the last bar.\<close>

fun splitCursor :: "string \<Rightarrow> (string \<times> string) option" where
  "splitCursor [] = None"
| "splitCursor (c # s) =
     (case splitCursor s of
        Some (v, ip) \<Rightarrow> Some (c # v, ip)
      | None \<Rightarrow> if c = CHR ''|'' then Some ([], s) else None)"

definition toInt64 :: "string \<Rightarrow> int" where
  "toInt64 s = (case ParseInt s of None \<Rightarrow> 0 | Some n \<Rightarrow> n)"

function (sequential) like :: "string \<Rightarrow> string \<Rightarrow> bool" where
  "like [] s = (s = [])"
| "like (p # ps) [] = (p = CHR ''%'' \<and> like ps [])"
| "like (p # ps) (c # s) =
     (if p = CHR ''%'' then like ps (c # s) \<or> like (p # ps) s
      else (p = CHR ''_'' \<or> lower_char p = lower_char c) \<and> like ps s)"
  by pat_completeness auto
termination by (relation "measure (\<lambda>(p, s). length p + length s)") auto

subsection \<open>Operations\<close>

definition ClearActiveIPs :: "string \<Rightarrow> db \<Rightarrow> db" where
  "ClearActiveIPs nodeID d =
     (if nodeID = []
      then d\<lparr>ip_stats := update_where (\<lambda>r. is_active_connections r \<noteq> 0)
               (\<lambda>r. r\<lparr>is_active_connections := 0\<rparr>) (ip_stats d)\<rparr>
      else d\<lparr>ip_stats := update_where (\<lambda>r. is_node_id r = nodeID)
               (\<lambda>r. r\<lparr>is_active_connections := 0\<rparr>) (ip_stats d)\<rparr>)"

definition stat_key :: "ip_stat_row \<Rightarrow> string \<times> string" where
  "stat_key r = (is_node_id r, is_source_ip r)"

definition stat_merge :: "ip_stat_row \<Rightarrow> ip_stat_row \<Rightarrow> ip_stat_row" where
  "stat_merge old new = old
     \<lparr>is_upload_bytes := is_upload_bytes old + is_upload_bytes new,
      is_download_bytes := is_download_bytes old + is_download_bytes new,
      is_connections_total := is_connections_total old + is_connections_total new,
      is_active_connections := is_active_connections new,
      is_last_seen_at := is_last_seen_at new\<rparr>"

definition daily_key :: "ip_daily_row \<Rightarrow> string \<times> string \<times> int" where
  "daily_key r = (id_node_id r, id_source_ip r, id_day r)"

definition daily_merge :: "ip_daily_row \<Rightarrow> ip_daily_row \<Rightarrow> ip_daily_row" where
  "daily_merge old new = old
     \<lparr>id_up_bytes := id_up_bytes old + id_up_bytes new,
      id_down_bytes := id_down_bytes old + id_down_bytes new\<rparr>"

definition delta_stat :: "ip_delta \<Rightarrow> ip_stat_row" where
  "delta_stat x = \<lparr>is_node_id = dl_NodeID x, is_source_ip = dl_SourceIP x,
     is_upload_bytes = dl_UpDelta x, is_download_bytes = dl_DownDelta x,
     is_connections_total = dl_ConnCount x, is_active_connections = dl_Active x,
     is_first_seen_at = dl_SeenAt x, is_last_seen_at = dl_SeenAt x\<rparr>"

definition delta_daily :: "ip_delta \<Rightarrow> ip_daily_row" where
  "delta_daily x = \<lparr>id_node_id = dl_NodeID x, id_source_ip = dl_SourceIP x,
     id_day = dayStart (dl_SeenAt x), id_up_bytes = dl_UpDelta x, id_down_bytes = dl_DownDelta x\<rparr>"

definition insert_delta :: "ip_delta \<Rightarrow> db \<Rightarrow> db db_res" where
  "insert_delta x d =
     (if \<not> node_exists (dl_NodeID x) d then Inl ForeignKeyViolation
      else Inr (d\<lparr>ip_stats := upsert stat_key stat_merge (delta_stat x) (ip_stats d),
                  ip_daily := upsert daily_key daily_merge (delta_daily x) (ip_daily d)\<rparr>))"

definition UpsertIPStats :: "ip_delta list \<Rightarrow> db \<Rightarrow> db db_res" where
  "UpsertIPStats deltas d = (if deltas = [] then Inr d else exec_each insert_delta deltas d)"

definition scan_stat :: "string \<Rightarrow> ip_stat_row \<Rightarrow> ip_stat" where
  "scan_stat nodeID r = \<lparr>ip_NodeID = nodeID, ip_SourceIP = is_source_ip r,
     ip_UploadBytes = is_upload_bytes r, ip_DownloadBytes = is_download_bytes r,
     ip_TotalBytes = is_upload_bytes r + is_download_bytes r,
     ip_ConnectionsTotal = is_connections_total r, ip_ActiveConnections = is_active_connections r,
     ip_FirstSeenAt = is_first_seen_at r, ip_LastSeenAt = is_last_seen_at r, ip_NodesCount = 0\<rparr>"

definition sort_desc :: "string \<Rightarrow> bool" where
  "sort_desc srt \<longleftrightarrow> srt = ''-total_bytes'' \<or> srt = ''-last_seen_at''"

definition sort_col :: "string \<Rightarrow> ip_stat_row \<Rightarrow> int" where
  "sort_col srt r =
     (if srt = ''last_seen_at'' \<or> srt = ''-last_seen_at'' then is_last_seen_at r
      else is_upload_bytes r + is_download_bytes r)"

definition stat_sort_key :: "string \<Rightarrow> ip_stat_row \<Rightarrow> int \<times> string" where
  "stat_sort_key srt r = (sort_col srt r, is_source_ip r)"

definition ListIPStats :: "string \<Rightarrow> string \<Rightarrow> string \<Rightarrow> string \<Rightarrow> int \<Rightarrow> db \<Rightarrow> ip_stat list db_res" where
  "ListIPStats nodeID srt q cursor limit d =
     (let rows = filter (\<lambda>r. is_node_id r = nodeID \<and> (q \<noteq> [] \<longrightarrow> like (q @ ''%'') (is_source_ip r))) (ip_stats d);
          order = (\<lambda>rs. if sort_desc srt then rev (sort_key (stat_sort_key srt) rs)
                        else sort_key (stat_sort_key srt) rs);
          answer = (\<lambda>rs. Inr (map (scan_stat nodeID) (sql_limit limit (order rs))))
      in if cursor = [] then answer rows
         else case splitCursor cursor of
                None \<Rightarrow> Inl InvalidCursor
              | Some (val, ip) \<Rightarrow>
                  let v = toInt64 val;
                      before = (\<lambda>r. if sort_desc srt
                        then sort_col srt r < v \<or> sort_col srt r = v \<and> is_source_ip r < ip
                        else sort_col srt r > v \<or> sort_col srt r = v \<and> is_source_ip r > ip)
                  in answer (filter before rows))"

definition CountDistinctIPs :: "db \<Rightarrow> nat" where
  "CountDistinctIPs d = length (remdups (map is_source_ip (ip_stats d)))"

definition CountOnlineIPs :: "db \<Rightarrow> nat" where
  "CountOnlineIPs d = length (remdups (map is_source_ip (filter (\<lambda>r. is_active_connections r > 0) (ip_stats d))))"

text \<open>As for the nodes, \<open>order_by\<close> is the engine's descending sort.\<close>

definition TopIPsByTraffic ::
  "((ip_stat \<Rightarrow> int) \<Rightarrow> ip_stat list \<Rightarrow> ip_stat list) \<Rightarrow> int \<Rightarrow> int \<Rightarrow> int \<Rightarrow> db \<Rightarrow> ip_stat list" where
  "TopIPsByTraffic order_by fromDay toDay limit d =
     (let hits = filter (\<lambda>r. id_day r \<ge> fromDay \<and> id_day r \<le> toDay) (ip_daily d);
          group = (\<lambda>ip. let mine = filter (\<lambda>r. id_source_ip r = ip) hits;
                            up = sum_list (map id_up_bytes mine); down = sum_list (map id_down_bytes mine)
             in \<lparr>ip_NodeID = [], ip_SourceIP = ip, ip_UploadBytes = up, ip_DownloadBytes = down,
                 ip_TotalBytes = add64 up down, ip_ConnectionsTotal = 0, ip_ActiveConnections = 0,
                 ip_FirstSeenAt = 0, ip_LastSeenAt = 0,
                 ip_NodesCount = int (length (remdups (map id_node_id mine)))\<rparr>)
      in sql_limit limit (order_by (\<lambda>s. ip_UploadBytes s + ip_DownloadBytes s)
           (map group (remdups (map id_source_ip hits)))))"

definition GetGeo :: "string \<Rightarrow> db \<Rightarrow> geo db_res" where
  "GetGeo ip d = (case row_with g_ip ip (ip_geo_cache d) of None \<Rightarrow> Inl ErrNotFound | Some g \<Rightarrow> Inr g)"

definition geo_merge :: "geo \<Rightarrow> geo \<Rightarrow> geo" where
  "geo_merge old new = old\<lparr>g_country := g_country new, g_region := g_region new, g_city := g_city new,
     g_as_org := g_as_org new, g_checked_at := g_checked_at new\<rparr>"

definition PutGeo :: "geo \<Rightarrow> db \<Rightarrow> db" where
  "PutGeo g d = d\<lparr>ip_geo_cache := upsert g_ip geo_merge g (ip_geo_cache d)\<rparr>"

subsection \<open>Lemmas\<close>

interpretation stat_up: summing_table stat_key stat_merge is_upload_bytes
  by unfold_locales (simp_all add: stat_key_def stat_merge_def)

interpretation stat_down: summing_table stat_key stat_merge is_download_bytes
  by unfold_locales (simp add: stat_merge_def)

interpretation daily_up: summing_table daily_key daily_merge id_up_bytes
  by unfold_locales (simp_all add: daily_key_def daily_merge_def)

interpretation daily_down: summing_table daily_key daily_merge id_down_bytes
  by unfold_locales (simp add: daily_merge_def)

interpretation geo_cache: upsert_table g_ip geo_merge
  by unfold_locales (simp add: geo_merge_def)

lemma stat_keys: "(\<lambda>r. (is_node_id r, is_source_ip r)) = stat_key"
  by (rule ext) (simp add: stat_key_def)

lemma daily_keys: "(\<lambda>r. (id_node_id r, id_source_ip r, id_day r)) = daily_key"
  by (rule ext) (simp add: daily_key_def)

lemma GetGeo_PutGeo: "GetGeo ip (PutGeo g d) = (if ip = g_ip g then Inr g else GetGeo ip d)"
proof -
  have "geo_merge old g = g" if "g_ip old = g_ip g" for old
    using that by (simp add: geo_merge_def)
  then show ?thesis
    by (auto simp: GetGeo_def PutGeo_def geo_cache.lookup_upsert split: option.splits dest: row_with_Some)
qed

lemma insert_delta_ok: "db_ok d \<Longrightarrow> insert_delta x d = Inr d' \<Longrightarrow> db_ok d'"
proof -
  assume ok: "db_ok d" and "insert_delta x d = Inr d'"
  then have d': "d' = d\<lparr>ip_stats := upsert stat_key stat_merge (delta_stat x) (ip_stats d),
                  ip_daily := upsert daily_key daily_merge (delta_daily x) (ip_daily d)\<rparr>"
    and ex: "node_exists (dl_NodeID x) d" by (auto simp: insert_delta_def split: if_splits)
  have "distinct (map stat_key (upsert stat_key stat_merge (delta_stat x) (ip_stats d)))"
    by (rule stat_up.distinct_upsert) (use ok in \<open>simp add: db_ok_simps stat_keys\<close>)
  moreover have "distinct (map daily_key (upsert daily_key daily_merge (delta_daily x) (ip_daily d)))"
    by (rule daily_up.distinct_upsert) (use ok in \<open>simp add: db_ok_simps daily_keys\<close>)
  moreover have "\<forall>r \<in> set (upsert stat_key stat_merge (delta_stat x) (ip_stats d)). node_exists (is_node_id r) d"
    by (rule stat_up.all_upsert) (use ok ex in \<open>auto simp: db_ok_def refs_ok_def stat_merge_def delta_stat_def\<close>)
  moreover have "\<forall>r \<in> set (upsert daily_key daily_merge (delta_daily x) (ip_daily d)). node_exists (id_node_id r) d"
    by (rule daily_up.all_upsert) (use ok ex in \<open>auto simp: db_ok_def refs_ok_def daily_merge_def delta_daily_def\<close>)
  ultimately show ?thesis using ok by (simp add: d' db_ok_simps stat_keys daily_keys)
qed

lemma UpsertIPStats_ok: "db_ok d \<Longrightarrow> UpsertIPStats xs d = Inr d' \<Longrightarrow> db_ok d'"
  using exec_each_invariant [of insert_delta xs d d' db_ok] insert_delta_ok
  by (auto simp: UpsertIPStats_def split: if_splits)

lemma update_stats_ok:
  assumes "db_ok d"
  shows "db_ok (d\<lparr>ip_stats := update_where p (\<lambda>r. r\<lparr>is_active_connections := 0\<rparr>) (ip_stats d)\<rparr>)"
proof -
  have "map (\<lambda>r. (is_node_id r, is_source_ip r)) (update_where p (\<lambda>r. r\<lparr>is_active_connections := 0\<rparr>) (ip_stats d)) =
      map (\<lambda>r. (is_node_id r, is_source_ip r)) (ip_stats d)" by (rule map_key_update_where) simp
  with assms show ?thesis by (auto simp: db_ok_simps set_update_where)
qed

lemma ClearActiveIPs_ok: "db_ok d \<Longrightarrow> db_ok (ClearActiveIPs n d)"
  by (simp add: ClearActiveIPs_def update_stats_ok)

lemma PutGeo_ok: "db_ok d \<Longrightarrow> db_ok (PutGeo g d)"
  by (simp add: PutGeo_def db_ok_simps geo_cache.distinct_upsert)

text \<open>The cursor of a row, as the listing handler writes it, is read back exactly.\<close>

definition stat_cursor :: "string \<Rightarrow> ip_stat \<Rightarrow> string" where
  "stat_cursor srt s =
     Itoa (if srt = ''last_seen_at'' \<or> srt = ''-last_seen_at'' then ip_LastSeenAt s else ip_TotalBytes s)
     @ ''|'' @ ip_SourceIP s"

lemma splitCursor_none: "CHR ''|'' \<notin> set s \<Longrightarrow> splitCursor s = None"
  by (induction s) auto

lemma splitCursor_append: "CHR ''|'' \<notin> set ip \<Longrightarrow> splitCursor (v @ CHR ''|'' # ip) = Some (v, ip)"
  by (induction v) (auto simp: splitCursor_none)

lemma toInt64_Itoa: "in_i64 n \<Longrightarrow> toInt64 (Itoa n) = n"
  by (simp add: toInt64_def ParseInt_Itoa)

lemma exec_insert_delta:
  "exec_each insert_delta xs d = Inr d' \<Longrightarrow>
   d' = d\<lparr>ip_stats := fold (upsert stat_key stat_merge) (map delta_stat xs) (ip_stats d),
          ip_daily := fold (upsert daily_key daily_merge) (map delta_daily xs) (ip_daily d)\<rparr>"
proof (induction xs arbitrary: d)
  case (Cons x xs)
  then obtain d1 where "insert_delta x d = Inr d1" and run: "exec_each insert_delta xs d1 = Inr d'"
    by (auto split: sum.splits)
  then have "d1 = d\<lparr>ip_stats := upsert stat_key stat_merge (delta_stat x) (ip_stats d),
      ip_daily := upsert daily_key daily_merge (delta_daily x) (ip_daily d)\<rparr>"
    by (auto simp: insert_delta_def split: if_splits)
  with Cons.IH [OF run] show ?case by simp
qed simp

subsection \<open>Paging by string cursors\<close>

definition stat_before :: "string \<Rightarrow> int \<times> string \<Rightarrow> int \<times> string \<Rightarrow> bool" where
  "stat_before srt a b = (if sort_desc srt then b < a else a < b)"

definition scanned_key :: "string \<Rightarrow> ip_stat \<Rightarrow> int \<times> string" where
  "scanned_key srt s =
     (if srt = ''last_seen_at'' \<or> srt = ''-last_seen_at'' then ip_LastSeenAt s else ip_TotalBytes s, ip_SourceIP s)"

interpretation stat_pages: keyset_order "stat_before srt" "scanned_key srt" for srt
  by unfold_locales (auto simp: stat_before_def split: if_splits)

definition cursor_text :: "int \<times> string \<Rightarrow> string" where
  "cursor_text k = Itoa (fst k) @ ''|'' @ snd k"

definition ip_page :: "string \<Rightarrow> string \<Rightarrow> string \<Rightarrow> int \<Rightarrow> db \<Rightarrow> string option \<Rightarrow> ip_stat list" where
  "ip_page n srt q limit d cur =
     (case ListIPStats n srt q (case cur of None \<Rightarrow> [] | Some c \<Rightarrow> c) limit d of Inl _ \<Rightarrow> [] | Inr l \<Rightarrow> l)"

definition ip_rows :: "string \<Rightarrow> string \<Rightarrow> db \<Rightarrow> ip_stat_row list" where
  "ip_rows n q d = filter (\<lambda>r. is_node_id r = n \<and> (q \<noteq> [] \<longrightarrow> like (q @ ''%'') (is_source_ip r))) (ip_stats d)"

definition ip_order :: "string \<Rightarrow> ip_stat_row list \<Rightarrow> ip_stat_row list" where
  "ip_order srt rs = (if sort_desc srt then rev (sort_key (stat_sort_key srt) rs) else sort_key (stat_sort_key srt) rs)"

lemma scanned_key_scan: "scanned_key srt (scan_stat n r) = stat_sort_key srt r"
  by (simp add: scanned_key_def scan_stat_def stat_sort_key_def sort_col_def)

lemma ip_order_filter: "filter P (ip_order srt rs) = ip_order srt (filter P rs)"
  by (simp add: ip_order_def filter_sort flip: rev_filter)

lemma ip_order_length: "length (ip_order srt (ip_rows n q d)) \<le> length (ip_stats d)"
  by (simp add: ip_order_def ip_rows_def)

lemma ListIPStats_first:
  "ListIPStats n srt q [] limit d = Inr (map (scan_stat n) (sql_limit limit (ip_order srt (ip_rows n q d))))"
  by (simp add: ListIPStats_def ip_rows_def ip_order_def Let_def)

lemma ListIPStats_next:
  assumes "in_i64 (fst k)" and "CHR ''|'' \<notin> set (snd k)"
  shows "ListIPStats n srt q (cursor_text k) limit d =
    Inr (map (scan_stat n) (sql_limit limit (ip_order srt
      (filter (\<lambda>r. stat_before srt k (stat_sort_key srt r)) (ip_rows n q d)))))"
proof -
  obtain v ip where k: "k = (v, ip)" by (cases k)
  with assms have sp: "splitCursor (cursor_text k) = Some (Itoa v, ip)" and "toInt64 (Itoa v) = v"
    and ne: "cursor_text k \<noteq> []"
    by (simp_all add: cursor_text_def splitCursor_append toInt64_Itoa)
  moreover have "stat_before srt k (stat_sort_key srt r) \<longleftrightarrow>
     (if sort_desc srt then sort_col srt r < v \<or> sort_col srt r = v \<and> is_source_ip r < ip
      else sort_col srt r > v \<or> sort_col srt r = v \<and> is_source_ip r > ip)" for r
    by (auto simp: stat_before_def k stat_sort_key_def)
  ultimately show ?thesis
    unfolding ListIPStats_def ip_rows_def ip_order_def Let_def by simp
qed

lemma ip_page_eq:
  assumes "0 \<le> limit" and "\<forall>k. cur = Some k \<longrightarrow> in_i64 (fst k) \<and> CHR ''|'' \<notin> set (snd k)"
  shows "ip_page n srt q limit d (map_option cursor_text cur) =
    page_after (stat_before srt) (scanned_key srt) (nat limit) cur (map (scan_stat n) (ip_order srt (ip_rows n q d)))"
proof (cases cur)
  case None
  with assms(1) show ?thesis
    by (simp add: ip_page_def ListIPStats_first page_after_def sql_limit_def take_map)
next
  case (Some k)
  with assms show ?thesis
    by (simp add: ip_page_def ListIPStats_next page_after_def sql_limit_def take_map filter_map comp_def
        scanned_key_scan ip_order_filter)
qed

lemma ip_order_sorted:
  assumes "db_ok d"
  shows "sorted_wrt (\<lambda>a b. stat_before srt (scanned_key srt a) (scanned_key srt b))
    (map (scan_stat n) (ip_order srt (ip_rows n q d)))"
proof -
  have d: "distinct (map stat_key (ip_stats d))" using assms by (simp add: db_ok_simps stat_keys)
  have "inj_on (stat_sort_key srt) (set (ip_rows n q d))"
  proof (rule inj_onI)
    fix x y assume "x \<in> set (ip_rows n q d)" "y \<in> set (ip_rows n q d)" "stat_sort_key srt x = stat_sort_key srt y"
    then have "x \<in> set (ip_stats d)" "y \<in> set (ip_stats d)" "stat_key x = stat_key y"
      by (auto simp: ip_rows_def stat_sort_key_def stat_key_def)
    with d show "x = y" by (simp add: distinct_map inj_on_def)
  qed
  moreover have "distinct (ip_rows n q d)" using d by (simp add: ip_rows_def distinct_map)
  ultimately have "sorted_wrt (\<lambda>a b. stat_sort_key srt a < stat_sort_key srt b) (sort_key (stat_sort_key srt) (ip_rows n q d))"
    by (intro strictly_sorted) (simp add: distinct_map)
  then show ?thesis
    by (simp add: ip_order_def stat_before_def sorted_wrt_map scanned_key_scan sorted_wrt_rev)
qed

subsection \<open>Properties\<close>

text \<open>The address listing pages completely: for every sort order, filter and page size,
  following the cursor of the last row from page to page returns each matching address
  exactly once and in order, as the listing without a limit does.\<close>

theorem ip_listing_complete:
  assumes "db_ok d" and "0 < limit" and "length (ip_stats d) \<le> fuel"
    and "\<forall>r \<in> set (ip_stats d). in_i64 (is_upload_bytes r + is_download_bytes r) \<and>
           in_i64 (is_last_seen_at r) \<and> CHR ''|'' \<notin> set (is_source_ip r)"
  shows "ListIPStats n srt q [] (-1) d = Inr (walk_pages (ip_page n srt q limit d) (stat_cursor srt) fuel None)"
proof -
  let ?all = "map (scan_stat n) (ip_order srt (ip_rows n q d))"
  let ?page = "\<lambda>cur. page_after (stat_before srt) (scanned_key srt) (nat limit) cur ?all"
  define P where "P = (\<lambda>cur :: (int \<times> string) option. \<forall>k. cur = Some k \<longrightarrow> in_i64 (fst k) \<and> CHR ''|'' \<notin> set (snd k))"
  have row: "P (Some (scanned_key srt s)) \<and> stat_cursor srt s = cursor_text (scanned_key srt s)" if "s \<in> set ?all" for s
  proof -
    from that obtain r where "r \<in> set (ip_stats d)" "s = scan_stat n r"
      by (auto simp: ip_order_def ip_rows_def split: if_splits)
    with assms(4) show ?thesis
      by (auto simp: P_def scanned_key_def scan_stat_def stat_cursor_def cursor_text_def)
  qed
  have "walk_pages (ip_page n srt q limit d) (stat_cursor srt) fuel (map_option cursor_text None) =
      walk_pages ?page (scanned_key srt) fuel None"
  proof (rule walk_pages_cong [where P = P])
    show "ip_page n srt q limit d (map_option cursor_text cur) = ?page cur" if "P cur" for cur
      using ip_page_eq [of limit cur] assms(2) that by (simp add: P_def)
    show "P (Some (scanned_key srt r)) \<and> stat_cursor srt r = cursor_text (scanned_key srt r)"
      if "r \<in> set (?page cur)" for cur r
      using row that by (auto simp: page_after_def dest!: in_set_takeD)
  qed (simp add: P_def)
  also have "\<dots> = ?all"
    using stat_pages.walk_pages_all [OF ip_order_sorted [OF assms(1), of srt n q], of "nat limit" fuel] assms(2,3)
      ip_order_length [of srt n q d] by simp
  finally show ?thesis by (simp add: ListIPStats_first sql_limit_def)
qed

definition demo_delta :: "string \<Rightarrow> int \<Rightarrow> int \<Rightarrow> ip_delta" where
  "demo_delta ip up seen = \<lparr>dl_NodeID = ''n1'', dl_SourceIP = ip, dl_UpDelta = up, dl_DownDelta = 1,
     dl_ConnCount = 1, dl_Active = 1, dl_SeenAt = seen\<rparr>"

definition demo_ip_db :: db where
  "demo_ip_db = demo_nodes_db\<lparr>ip_stats :=
     [delta_stat (demo_delta ''10.0.0.1'' 5 9), delta_stat (demo_delta ''10.0.0.2'' 5 8)]\<rparr>"

lemma demo_ip_db_ok: "db_ok demo_ip_db"
  using demo_nodes_db_ok by (simp add: demo_ip_db_def db_ok_simps delta_stat_def demo_delta_def)

theorem ip_listing_complete_witness:
  "ListIPStats ''n1'' ''-total_bytes'' [] [] (-1) demo_ip_db =
   Inr (walk_pages (ip_page ''n1'' ''-total_bytes'' [] 1 demo_ip_db) (stat_cursor ''-total_bytes'') 2 None)"
  using ip_listing_complete [OF demo_ip_db_ok, of 1 2 "''n1''" "''-total_bytes''" "[]"]
  by (simp add: demo_ip_db_def delta_stat_def demo_delta_def in_i64_def)

text \<open>Address accounting is consistent: storing a batch of deltas either stores nothing
  or grows the lifetime bytes of every address on every node, and its daily bytes summed over
  all days, by exactly the deltas of that address in the batch; so daily and lifetime
  figures never drift apart.\<close>

theorem ip_accounting_consistent:
  assumes "db_ok d" and "UpsertIPStats xs d = Inr d'"
  shows "let mine = filter (\<lambda>x. dl_NodeID x = n \<and> dl_SourceIP x = ip) xs;
             life = (\<lambda>val d. sum_list (map val (filter (\<lambda>r. is_node_id r = n \<and> is_source_ip r = ip) (ip_stats d))));
             days = (\<lambda>val d. sum_list (map val (filter (\<lambda>r. id_node_id r = n \<and> id_source_ip r = ip) (ip_daily d))))
         in life is_upload_bytes d' = life is_upload_bytes d + sum_list (map dl_UpDelta mine) \<and>
            life is_download_bytes d' = life is_download_bytes d + sum_list (map dl_DownDelta mine) \<and>
            days id_up_bytes d' = days id_up_bytes d + sum_list (map dl_UpDelta mine) \<and>
            days id_down_bytes d' = days id_down_bytes d + sum_list (map dl_DownDelta mine)"
proof -
  have d': "ip_stats d' = fold (upsert stat_key stat_merge) (map delta_stat xs) (ip_stats d)"
    "ip_daily d' = fold (upsert daily_key daily_merge) (map delta_daily xs) (ip_daily d)"
    using assms(2) exec_insert_delta [of xs d d'] by (auto simp: UpsertIPStats_def split: if_splits)
  have k: "distinct (map stat_key (ip_stats d))" "distinct (map daily_key (ip_daily d))"
    using assms(1) by (simp_all add: db_ok_simps stat_keys daily_keys)
  let ?s = "\<lambda>(m, i). m = n \<and> i = ip" and ?t = "\<lambda>(m, i, day :: int). m = n \<and> i = ip"
  show ?thesis
    using stat_up.total_fold [OF k(1), of ?s "map delta_stat xs"] stat_down.total_fold [OF k(1), of ?s "map delta_stat xs"]
      daily_up.total_fold [OF k(2), of ?t "map delta_daily xs"] daily_down.total_fold [OF k(2), of ?t "map delta_daily xs"]
    by (simp add: d' [symmetric] col_total_def stat_key_def daily_key_def filter_map comp_def delta_stat_def delta_daily_def Let_def)
qed

theorem ip_accounting_consistent_witness:
  "\<exists>d'. UpsertIPStats [demo_delta ''10.0.0.1'' 5 9, demo_delta ''10.0.0.1'' 2 90000] demo_nodes_db = Inr d' \<and>
     sum_list (map is_upload_bytes (filter (\<lambda>r. is_node_id r = ''n1'' \<and> is_source_ip r = ''10.0.0.1'') (ip_stats d'))) = 7 \<and>
     sum_list (map id_up_bytes (filter (\<lambda>r. id_node_id r = ''n1'' \<and> id_source_ip r = ''10.0.0.1'') (ip_daily d'))) = 7"
proof -
  let ?xs = "[demo_delta ''10.0.0.1'' 5 9, demo_delta ''10.0.0.1'' 2 90000]"
  obtain d' where u: "UpsertIPStats ?xs demo_nodes_db = Inr d'"
    using demo_nodes_db_ok(2) by (simp add: UpsertIPStats_def insert_delta_def demo_delta_def node_exists_def)
  moreover have "ip_stats demo_nodes_db = []" "ip_daily demo_nodes_db = []"
    by (simp_all add: demo_nodes_db_def empty_db_def)
  ultimately show ?thesis
    using ip_accounting_consistent [OF demo_nodes_db_ok(1) u, of "''n1''" "''10.0.0.1''"]
    by (auto simp: Let_def demo_delta_def)
qed

end
