(* ===== verification/Store_Misc.thy ===== *)
theory Store_Misc
  imports Store_Accounts Store_IPs
begin

text \<open>
  The remaining tables (\<^verbatim>\<open>store/misc.go\<close>): asynchronous operations, exit addresses,
  subscription tokens and their reset cooldown, and the settings singleton with its
  revision. The lemmas close the store: every operation keeps the constraints of the schema,
  so the whole store, run in any order, does.
\<close>

subsection \<open>Operations and exit addresses\<close>

definition CreateOperation :: "int \<Rightarrow> operation \<Rightarrow> db \<Rightarrow> (operation \<times> db) db_res" where
  "CreateOperation now op d =
     (let op' = op\<lparr>o_created_at := now, o_updated_at := now\<rparr> in
      if list_ex (\<lambda>r. o_id r = o_id op) (operations d) then Inl UniqueViolation
      else if \<not> node_exists (o_node_id op) d then Inl ForeignKeyViolation
      else Inr (op', d\<lparr>operations := operations d @ [op']\<rparr>))"

definition GetOperation :: "string \<Rightarrow> db \<Rightarrow> operation db_res" where
  "GetOperation i d = (case row_with o_id i (operations d) of None \<Rightarrow> Inl ErrNotFound | Some op \<Rightarrow> Inr op)"

definition UpdateOperation :: "int \<Rightarrow> string \<Rightarrow> string \<Rightarrow> string \<Rightarrow> string \<Rightarrow> db \<Rightarrow> db" where
  "UpdateOperation now i status result opErr d =
     d\<lparr>operations := update_where (\<lambda>r. o_id r = i)
        (\<lambda>r. r\<lparr>o_status := status, o_result := result, o_error := opErr, o_updated_at := now\<rparr>) (operations d)\<rparr>"

definition exit_merge :: "exit_ip \<Rightarrow> exit_ip \<Rightarrow> exit_ip" where
  "exit_merge old new = old\<lparr>e_ip := e_ip new, e_country := e_country new, e_city := e_city new,
     e_as_org := e_as_org new, e_method := e_method new, e_checked_at := e_checked_at new\<rparr>"

definition UpsertExitIP :: "exit_ip \<Rightarrow> db \<Rightarrow> db db_res" where
  "UpsertExitIP e d =
     (if \<not> node_exists (e_node_id e) d then Inl ForeignKeyViolation
      else Inr (d\<lparr>exit_ip_checks := upsert e_node_id exit_merge e (exit_ip_checks d)\<rparr>))"

definition GetExitIP :: "string \<Rightarrow> db \<Rightarrow> exit_ip db_res" where
  "GetExitIP nodeID d =
     (case row_with e_node_id nodeID (exit_ip_checks d) of None \<Rightarrow> Inl ErrNotFound | Some e \<Rightarrow> Inr e)"

subsection \<open>Subscription tokens\<close>

record subscription =
  sb_Token :: string
  sb_UpdatedAt :: int

definition new_subscription :: "int \<Rightarrow> string \<Rightarrow> int \<Rightarrow> subscription_row" where
  "new_subscription u tok now = \<lparr>sub_user_id = u, sub_token = tok, sub_updated_at = now, sub_last_reset_at = 0\<rparr>"

definition GetSubscription :: "int \<Rightarrow> int \<Rightarrow> db \<Rightarrow> (subscription \<times> db) db_res" where
  "GetSubscription now u d =
     (if \<not> user_exists u d then Inl ForeignKeyViolation
      else let d' = d\<lparr>user_subscriptions := upsert sub_user_id (\<lambda>old new. old) (new_subscription u [] now)
                        (user_subscriptions d)\<rparr>
           in case row_with sub_user_id u (user_subscriptions d') of
                None \<Rightarrow> Inl ErrNotFound
              | Some r \<Rightarrow> Inr (\<lparr>sb_Token = sub_token r, sb_UpdatedAt = sub_updated_at r\<rparr>, d'))"

definition token_merge :: "subscription_row \<Rightarrow> subscription_row \<Rightarrow> subscription_row" where
  "token_merge old new = old\<lparr>sub_token := sub_token new, sub_updated_at := sub_updated_at new\<rparr>"

definition SetSubscriptionToken :: "int \<Rightarrow> int \<Rightarrow> string \<Rightarrow> db \<Rightarrow> db db_res" where
  "SetSubscriptionToken now u tok d =
     (if \<not> user_exists u d then Inl ForeignKeyViolation
      else Inr (d\<lparr>user_subscriptions := upsert sub_user_id token_merge (new_subscription u tok now)
                    (user_subscriptions d)\<rparr>))"

text \<open>No row means user 0, which is no account; with several owners the first row wins.\<close>

definition FindSubscriptionUser :: "string \<Rightarrow> db \<Rightarrow> int" where
  "FindSubscriptionUser tok d =
     (case find (\<lambda>r. sub_token r = tok \<and> sub_token r \<noteq> []) (user_subscriptions d) of
        None \<Rightarrow> 0 | Some r \<Rightarrow> sub_user_id r)"

definition GetResetCooldownInfo :: "int \<Rightarrow> db \<Rightarrow> int \<times> int" where
  "GetResetCooldownInfo u d =
     (case (row_with sub_user_id u (user_subscriptions d), settings_row d) of
        (Some r, Some st) \<Rightarrow> (sub_last_reset_at r, st_reset_cooldown_minutes st)
      | _ \<Rightarrow> (0, 10))"

definition SetResetNow :: "int \<Rightarrow> int \<Rightarrow> db \<Rightarrow> db" where
  "SetResetNow now u d = d\<lparr>user_subscriptions := update_where (\<lambda>r. sub_user_id r = u)
     (\<lambda>r. r\<lparr>sub_last_reset_at := now\<rparr>) (user_subscriptions d)\<rparr>"

subsection \<open>The settings singleton\<close>

record sampler_defaults =
  sd_SamplerIntervalSeconds :: int
  sd_RetentionDays :: int
  sd_IPLookupProviderURL :: string

text \<open>The row a first use inserts: the given defaults and the defaults of the columns.\<close>

definition initial_settings :: "int \<Rightarrow> sampler_defaults \<Rightarrow> settings" where
  "initial_settings now def =
     \<lparr>st_sampler_interval_seconds = sd_SamplerIntervalSeconds def, st_retention_days = sd_RetentionDays def,
      st_ip_lookup_enabled = True, st_ip_lookup_provider_url = sd_IPLookupProviderURL def,
      st_singbox_bin_path = [], st_favicon = [], st_logo = [], st_brand_name = ''sing-box hub'',
      st_reset_cooldown_minutes = 10, st_icmp_monitor_enabled = False, st_icmp_monitor_target = ''8.8.8.8'',
      st_icmp_monitor_interval_seconds = 60, st_icmp_auto_disable_threshold_ms = 2000,
      st_icmp_auto_disable_consecutive = 3, st_updated_at = now, st_revision = 1\<rparr>"

definition GetSettings :: "int \<Rightarrow> sampler_defaults \<Rightarrow> db \<Rightarrow> settings \<times> db" where
  "GetSettings now def d =
     (case settings_row d of
        Some st \<Rightarrow> (st, d)
      | None \<Rightarrow> let st = initial_settings now def in (st, d\<lparr>settings_row := Some st\<rparr>))"

text \<open>The favicon and the logo are not among the updated columns.\<close>

definition UpdateSettings :: "int \<Rightarrow> settings \<Rightarrow> db \<Rightarrow> (settings \<times> db) db_res" where
  "UpdateSettings now st d =
     (case settings_row d of
        None \<Rightarrow> Inl ErrSettingsConflict
      | Some cur \<Rightarrow>
          if st_revision cur \<noteq> st_revision st then Inl ErrSettingsConflict
          else Inr (st\<lparr>st_updated_at := now, st_revision := add64 (st_revision st) 1\<rparr>,
                    d\<lparr>settings_row := Some (st\<lparr>st_favicon := st_favicon cur, st_logo := st_logo cur,
                        st_updated_at := now, st_revision := st_revision cur + 1\<rparr>)\<rparr>))"

definition UpdateSettingsLogo :: "int \<Rightarrow> string \<Rightarrow> db \<Rightarrow> db" where
  "UpdateSettingsLogo now data d =
     d\<lparr>settings_row := map_option (\<lambda>st. st\<lparr>st_logo := data, st_updated_at := now,
        st_revision := st_revision st + 1\<rparr>) (settings_row d)\<rparr>"

definition UpdateSettingsFavicon :: "int \<Rightarrow> string \<Rightarrow> db \<Rightarrow> db" where
  "UpdateSettingsFavicon now data d =
     d\<lparr>settings_row := map_option (\<lambda>st. st\<lparr>st_favicon := data, st_updated_at := now,
        st_revision := st_revision st + 1\<rparr>) (settings_row d)\<rparr>"

subsection \<open>Lemmas\<close>

interpretation exit_table: upsert_table e_node_id exit_merge
  by unfold_locales (simp add: exit_merge_def)

interpretation token_table: upsert_table sub_user_id token_merge
  by unfold_locales (simp add: token_merge_def)

interpretation subscription_table: upsert_table sub_user_id "\<lambda>old new :: subscription_row. old"
  by unfold_locales simp

lemma GetExitIP_Upsert:
  "UpsertExitIP e d = Inr d' \<Longrightarrow> GetExitIP n d' = (if n = e_node_id e then Inr e else GetExitIP n d)"
proof -
  have "exit_merge old e = e" if "e_node_id old = e_node_id e" for old
    using that by (simp add: exit_merge_def)
  then show "UpsertExitIP e d = Inr d' \<Longrightarrow> ?thesis"
    by (auto simp: GetExitIP_def UpsertExitIP_def exit_table.lookup_upsert
        split: option.splits if_splits) (metis row_with_Some)
qed

lemma CreateOperation_ok: "db_ok d \<Longrightarrow> CreateOperation now op d = Inr (op', d') \<Longrightarrow> db_ok d'"
  by (auto simp: CreateOperation_def db_ok_simps Let_def list_ex_key split: if_splits)

lemma UpdateOperation_ok:
  assumes "db_ok d"
  shows "db_ok (UpdateOperation now i s r e d)"
proof -
  let ?f = "\<lambda>x. x\<lparr>o_status := s, o_result := r, o_error := e, o_updated_at := now\<rparr>"
  have "map o_id (update_where (\<lambda>r. o_id r = i) ?f (operations d)) = map o_id (operations d)"
    by (rule map_key_update_where) simp
  moreover have "o_node_id x \<in> nr_id ` set (nodes d)"
    if "x \<in> set (update_where (\<lambda>r. o_id r = i) ?f (operations d))" for x
    using that assms by (auto simp: set_update_where db_ok_simps)
  ultimately show ?thesis using assms by (simp add: UpdateOperation_def db_ok_simps)
qed

lemma UpsertExitIP_ok:
  assumes "db_ok d" "UpsertExitIP e d = Inr d'"
  shows "db_ok d'"
proof -
  from assms(2) have d': "d' = d\<lparr>exit_ip_checks := upsert e_node_id exit_merge e (exit_ip_checks d)\<rparr>"
    and ex: "node_exists (e_node_id e) d" by (auto simp: UpsertExitIP_def split: if_splits)
  have "\<forall>r \<in> set (upsert e_node_id exit_merge e (exit_ip_checks d)). node_exists (e_node_id r) d"
    by (rule exit_table.all_upsert) (use assms(1) ex in \<open>auto simp: db_ok_def refs_ok_def exit_merge_def\<close>)
  then show ?thesis
    using assms(1) by (simp add: d' db_ok_simps exit_table.distinct_upsert)
qed

lemma subscriptions_ok:
  assumes "db_ok d" and "distinct (map sub_user_id rows)" and "\<forall>r \<in> set rows. user_exists (sub_user_id r) d"
  shows "db_ok (d\<lparr>user_subscriptions := rows\<rparr>)"
  using assms by (simp add: db_ok_simps)

lemma subscriptions_of_ok:
  assumes "db_ok d"
  shows "distinct (map sub_user_id (user_subscriptions d))"
    and "\<forall>r \<in> set (user_subscriptions d). user_exists (sub_user_id r) d"
  using assms by (simp_all add: db_ok_def keys_ok_def refs_ok_def)

lemma GetSubscription_ok: "db_ok d \<Longrightarrow> GetSubscription now u d = Inr (s, d') \<Longrightarrow> db_ok d'"
proof -
  assume ok: "db_ok d" and g: "GetSubscription now u d = Inr (s, d')"
  have "db_ok (d\<lparr>user_subscriptions := upsert sub_user_id (\<lambda>old new. old) (new_subscription u [] now) (user_subscriptions d)\<rparr>)"
    if "user_exists u d"
  proof (rule subscriptions_ok [OF ok subscription_table.distinct_upsert [OF subscriptions_of_ok(1) [OF ok]]])
    show "\<forall>r \<in> set (upsert sub_user_id (\<lambda>old new. old) (new_subscription u [] now) (user_subscriptions d)).
        user_exists (sub_user_id r) d"
      by (rule subscription_table.all_upsert) (use that subscriptions_of_ok(2) [OF ok] in \<open>simp_all add: new_subscription_def\<close>)
  qed
  with g show ?thesis by (auto simp: GetSubscription_def Let_def split: if_splits option.splits)
qed

lemma SetSubscriptionToken_ok: "db_ok d \<Longrightarrow> SetSubscriptionToken now u t d = Inr d' \<Longrightarrow> db_ok d'"
proof -
  assume ok: "db_ok d" and g: "SetSubscriptionToken now u t d = Inr d'"
  have "db_ok (d\<lparr>user_subscriptions := upsert sub_user_id token_merge (new_subscription u t now) (user_subscriptions d)\<rparr>)"
    if "user_exists u d"
  proof (rule subscriptions_ok [OF ok token_table.distinct_upsert [OF subscriptions_of_ok(1) [OF ok]]])
    show "\<forall>r \<in> set (upsert sub_user_id token_merge (new_subscription u t now) (user_subscriptions d)).
        user_exists (sub_user_id r) d"
      by (rule token_table.all_upsert)
        (use that subscriptions_of_ok(2) [OF ok] in \<open>simp_all add: new_subscription_def token_merge_def\<close>)
  qed
  with g show ?thesis by (auto simp: SetSubscriptionToken_def split: if_splits)
qed

lemma SetResetNow_ok: "db_ok d \<Longrightarrow> db_ok (SetResetNow now u d)"
proof -
  assume ok: "db_ok d"
  let ?rows = "update_where (\<lambda>r. sub_user_id r = u) (\<lambda>r. r\<lparr>sub_last_reset_at := now\<rparr>) (user_subscriptions d)"
  have "map sub_user_id ?rows = map sub_user_id (user_subscriptions d)" by (rule map_key_update_where) simp
  moreover have "\<forall>r \<in> set ?rows. user_exists (sub_user_id r) d"
    using subscriptions_of_ok(2) [OF ok] by (auto simp: set_update_where)
  ultimately show ?thesis
    unfolding SetResetNow_def using subscriptions_ok [OF ok] subscriptions_of_ok(1) [OF ok] by simp
qed

lemma settings_ok: "db_ok d \<Longrightarrow> db_ok (d\<lparr>settings_row := x\<rparr>)"
  by (simp add: db_ok_simps)

lemma GetSettings_ok: "db_ok d \<Longrightarrow> GetSettings now def d = (st, d') \<Longrightarrow> db_ok d'"
  by (auto simp: GetSettings_def Let_def settings_ok split: option.splits)

lemma UpdateSettings_ok: "db_ok d \<Longrightarrow> UpdateSettings now st d = Inr (st', d') \<Longrightarrow> db_ok d'"
  by (auto simp: UpdateSettings_def settings_ok split: option.splits if_splits)

lemma UpdateSettings_images_ok:
  "db_ok d \<Longrightarrow> db_ok (UpdateSettingsLogo now x d)" "db_ok d \<Longrightarrow> db_ok (UpdateSettingsFavicon now x d)"
  by (simp_all add: UpdateSettingsLogo_def UpdateSettingsFavicon_def settings_ok)

subsection \<open>Histories of the settings row\<close>

text \<open>Everything that writes the settings row after it exists, with the number of writes.\<close>

inductive settings_run :: "db \<Rightarrow> nat \<Rightarrow> db \<Rightarrow> bool" where
  sr_none: "settings_run d 0 d"
| sr_read: "settings_run d n d1 \<Longrightarrow> GetSettings now def d1 = (st, d2) \<Longrightarrow> settings_run d n d2"
| sr_update: "settings_run d n d1 \<Longrightarrow> UpdateSettings now st d1 = Inr (st', d2) \<Longrightarrow> settings_run d (Suc n) d2"
| sr_logo: "settings_run d n d1 \<Longrightarrow> settings_run d (Suc n) (UpdateSettingsLogo now x d1)"
| sr_favicon: "settings_run d n d1 \<Longrightarrow> settings_run d (Suc n) (UpdateSettingsFavicon now x d1)"
| sr_refused: "settings_run d n d1 \<Longrightarrow> UpdateSettings now st d1 = Inl e \<Longrightarrow> settings_run d n d1"

lemma settings_run_revision:
  assumes "settings_run d n d'" and "settings_row d = Some st"
  shows "\<exists>st'. settings_row d' = Some st' \<and> st_revision st' = st_revision st + int n \<and> (n = 0 \<longrightarrow> st' = st)"
  using assms
  by (induction rule: settings_run.induct)
    (auto simp: GetSettings_def UpdateSettings_def UpdateSettingsLogo_def UpdateSettingsFavicon_def
      split: if_splits option.splits)

subsection \<open>Properties\<close>

text \<open>No settings update is lost: an update made from a snapshot is refused with
  ErrSettingsConflict if any other write (settings, logo or favicon) happened since the
  snapshot was read; if none did, it is stored exactly as given, the images kept and the
  revision advanced by one.\<close>

theorem settings_update_optimistic:
  assumes "GetSettings t0 def d = (snap, d0)" and "settings_run d0 n d1" and "st_revision st = st_revision snap"
  shows "(n > 0 \<longrightarrow> UpdateSettings now st d1 = Inl ErrSettingsConflict) \<and>
    (n = 0 \<longrightarrow> (\<exists>st' d2. UpdateSettings now st d1 = Inr (st', d2) \<and>
       (\<forall>t. GetSettings t def d2 = (st\<lparr>st_favicon := st_favicon snap, st_logo := st_logo snap,
           st_updated_at := now, st_revision := st_revision snap + 1\<rparr>, d2))))"
proof -
  have "settings_row d0 = Some snap"
    using assms(1) by (auto simp: GetSettings_def Let_def split: option.splits)
  from settings_run_revision [OF assms(2) this] obtain cur where
    "settings_row d1 = Some cur" "st_revision cur = st_revision snap + int n" "n = 0 \<longrightarrow> cur = snap" by blast
  with assms(3) show ?thesis by (auto simp: UpdateSettings_def GetSettings_def)
qed

definition demo_defaults :: sampler_defaults where
  "demo_defaults = \<lparr>sd_SamplerIntervalSeconds = 2, sd_RetentionDays = 30, sd_IPLookupProviderURL = []\<rparr>"

theorem settings_update_optimistic_witness:
  "\<exists>snap d0 d1. GetSettings 1 demo_defaults empty_db = (snap, d0) \<and>
     UpdateSettings 2 (snap\<lparr>st_retention_days := 7\<rparr>) d0 = Inr d1 \<and>
     UpdateSettings 3 (snap\<lparr>st_brand_name := ''x''\<rparr>) (snd d1) = Inl ErrSettingsConflict"
proof -
  obtain snap d0 where g: "GetSettings 1 demo_defaults empty_db = (snap, d0)" by fastforce
  obtain st' d1 where u: "UpdateSettings 2 (snap\<lparr>st_retention_days := 7\<rparr>) d0 = Inr (st', d1)"
    using settings_update_optimistic [OF g sr_none, of "snap\<lparr>st_retention_days := 7\<rparr>" 2] by auto
  have "settings_run d0 (Suc 0) d1" by (rule sr_update [OF sr_none u])
  from settings_update_optimistic [OF g this, of "snap\<lparr>st_brand_name := ''x''\<rparr>" 3] g u
  show ?thesis by auto
qed

end
