(* ===== verification/Store_Reach.thy ===== *)
theory Store_Reach
  imports Store_Misc
begin

text \<open>
  The store as a state machine: its steps are the operations of \<^verbatim>\<open>store/*.go\<close> that change the
  database, in any order and with any arguments. The invariant is the consistency of the
  tables: primary keys and unique columns without duplicates, no dangling reference.
\<close>

inductive store_step :: "db \<Rightarrow> db \<Rightarrow> bool" where
  st_create_user: "createUser alloc n h r now d = Inr (i, d') \<Longrightarrow> store_step d d'"
| st_update_user: "UpdateUser i n h d = Inr d' \<Longrightarrow> store_step d d'"
| st_delete_user: "DeleteUser i d = Inr d' \<Longrightarrow> store_step d d'"
| st_insert_token: "InsertRefreshToken j u e now d = Inr d' \<Longrightarrow> store_step d d'"
| st_replace_token: "ReplaceRefreshToken old new u e now d = Inr (b, d') \<Longrightarrow> store_step d d'"
| st_revoke: "store_step d (RevokeRefreshToken j d)"
| st_revoke_all: "store_step d (RevokeAllRefreshTokens u d)"
| st_prune_tokens: "store_step d (DeleteExpiredTokens now d)"
| st_create_node: "CreateNode now n d = Inr (n', d') \<Longrightarrow> store_step d d'"
| st_update_node: "UpdateNode now n d = Inr (n', d') \<Longrightarrow> store_step d d'"
| st_delete_node: "DeleteNode x d = Inr d' \<Longrightarrow> store_step d d'"
| st_last_online: "store_step d (SetLastOnline x ts d)"
| st_latency: "store_step d (UpdateNodeLatency now x l f d)"
| st_samples: "InsertTrafficSamples ms d = Inr d' \<Longrightarrow> store_step d d'"
| st_rollups: "UpsertRollups rs d = Inr d' \<Longrightarrow> store_step d d'"
| st_prune: "store_step d (PruneTraffic now days d)"
| st_ips: "UpsertIPStats xs d = Inr d' \<Longrightarrow> store_step d d'"
| st_clear_active: "store_step d (ClearActiveIPs x d)"
| st_geo: "store_step d (PutGeo g d)"
| st_create_op: "CreateOperation now op d = Inr (op', d') \<Longrightarrow> store_step d d'"
| st_update_op: "store_step d (UpdateOperation now x s r e d)"
| st_exit_ip: "UpsertExitIP ex d = Inr d' \<Longrightarrow> store_step d d'"
| st_get_sub: "GetSubscription now u d = Inr (s, d') \<Longrightarrow> store_step d d'"
| st_set_sub: "SetSubscriptionToken now u t d = Inr d' \<Longrightarrow> store_step d d'"
| st_reset_now: "store_step d (SetResetNow now u d)"
| st_get_settings: "GetSettings now def d = (st, d') \<Longrightarrow> store_step d d'"
| st_settings: "UpdateSettings now st d = Inr (st', d') \<Longrightarrow> store_step d d'"
| st_logo: "store_step d (UpdateSettingsLogo now data d)"
| st_favicon: "store_step d (UpdateSettingsFavicon now data d)"

inductive store_reachable :: "db \<Rightarrow> bool" where
  reach_empty: "store_reachable empty_db"
| reach_step: "store_reachable d \<Longrightarrow> store_step d d' \<Longrightarrow> store_reachable d'"

lemma RevokeRefreshToken_ok: "db_ok d \<Longrightarrow> db_ok (RevokeRefreshToken j d)"
  unfolding RevokeRefreshToken_def by (rule revoke_where_ok)

lemma RevokeAllRefreshTokens_ok: "db_ok d \<Longrightarrow> db_ok (RevokeAllRefreshTokens u d)"
  unfolding RevokeAllRefreshTokens_def by (rule revoke_where_ok)

lemmas store_ops_ok = createUser_ok UpdateUser_ok DeleteUser_ok InsertRefreshToken_ok ReplaceRefreshToken_ok
  RevokeRefreshToken_ok RevokeAllRefreshTokens_ok DeleteExpiredTokens_ok CreateNode_ok UpdateNode_ok
  DeleteNode_ok SetLastOnline_ok UpdateNodeLatency_ok InsertTrafficSamples_ok UpsertRollups_ok
  PruneTraffic_ok UpsertIPStats_ok ClearActiveIPs_ok PutGeo_ok CreateOperation_ok UpdateOperation_ok
  UpsertExitIP_ok GetSubscription_ok SetSubscriptionToken_ok SetResetNow_ok GetSettings_ok
  UpdateSettings_ok UpdateSettings_images_ok

lemma store_step_ok: "store_step d d' \<Longrightarrow> db_ok d \<Longrightarrow> db_ok d'"
  by (induction rule: store_step.induct) (fast intro: store_ops_ok)+

text \<open>The store never corrupts its tables: in every database reachable from the empty one
  by store operations, the keys and unique columns have no duplicates, and every token,
  subscription, sample, bucket, statistic, exit address and operation belongs to an existing
  account or node.\<close>

theorem store_always_consistent:
  assumes "store_reachable d"
  shows "db_ok d"
  using assms by induction (auto intro: empty_db_ok store_step_ok)

theorem store_always_consistent_witness:
  "\<exists>n d1 d2. CreateNode 7 demo_node empty_db = Inr (n, d1) \<and> DeleteNode ''n1'' d1 = Inr d2 \<and> db_ok d1 \<and> db_ok d2"
proof -
  obtain n d1 d2 where c: "CreateNode 7 demo_node empty_db = Inr (n, d1)" and del: "DeleteNode ''n1'' d1 = Inr d2"
    by (simp add: CreateNode_def empty_db_def demo_node_def DeleteNode_def requireAffected_def affected_def Let_def)
  have r1: "store_reachable d1" by (rule reach_step [OF reach_empty st_create_node [OF c]])
  have r2: "store_reachable d2" by (rule reach_step [OF r1 st_delete_node [OF del]])
  from c del store_always_consistent [OF r1] store_always_consistent [OF r2] show ?thesis by blast
qed

end
