(* ===== verification/Sampler_Worker.thy ===== *)
theory Sampler_Worker
  imports Store_IPs "HOL-Library.AList"
begin

text \<open>
  The sampling worker of one node (\<^verbatim>\<open>sampler/worker.go\<close>) with the frames it reads
  (\<^verbatim>\<open>clash/stream.go\<close>, \<^verbatim>\<open>clash/monitor.go\<close>). Its mutex makes every operation atomic, so the
  two readers, the flusher and the supervisor act in some sequence. Go maps are association
  lists with distinct keys; Go leaves the order of iteration open, the list order stands for
  any of them. Counters are \<^verbatim>\<open>int64\<close> and wrap.
\<close>

subsection \<open>Frames\<close>

record traffic_message =
  tm_Up :: int
  tm_Down :: int

text \<open>
  \<^verbatim>\<open>encoding/json\<close> assigns an object field to the struct field whose tag matches it, ignoring
  case; later fields win and unknown fields are skipped.
\<close>

definition decode_traffic :: "(string \<times> int) list \<Rightarrow> traffic_message" where
  "decode_traffic obj = fold (\<lambda>(k, v) m.
       if ToLower k = ''up_bytes_per_second'' then m\<lparr>tm_Up := v\<rparr>
       else if ToLower k = ''down_bytes_per_second'' then m\<lparr>tm_Down := v\<rparr> else m)
     obj \<lparr>tm_Up = 0, tm_Down = 0\<rparr>"

record metadata =
  md_Network :: string
  md_Type :: string
  md_SourceIP :: string
  md_SourcePort :: string
  md_DestinationIP :: string
  md_DestinationPort :: string
  md_Host :: string
  md_InboundType :: string

record connection =
  c_ID :: string
  c_Upload :: int
  c_Download :: int
  c_Start :: string
  c_Chains :: "string list"
  c_Rule :: string
  c_RulePay :: string
  c_Metadata :: metadata

record memory_message =
  mm_Inuse :: int
  mm_OSLimit :: int
  mm_HeapObjects :: int

subsection \<open>The worker\<close>

record live_status =
  ls_Online :: bool
  ls_Version :: string
  ls_Mode :: string
  ls_UpBPS :: int
  ls_DownBPS :: int
  ls_MemoryBytes :: int
  ls_HasMemory :: bool
  ls_ActiveConnections :: int
  ls_LastError :: string
  ls_LastOnlineAt :: int

definition zero_status :: live_status where
  "zero_status = \<lparr>ls_Online = False, ls_Version = [], ls_Mode = [], ls_UpBPS = 0, ls_DownBPS = 0,
     ls_MemoryBytes = 0, ls_HasMemory = False, ls_ActiveConnections = 0, ls_LastError = [], ls_LastOnlineAt = 0\<rparr>"

record conn_mark =
  cm_up :: int
  cm_down :: int
  cm_ip :: string

record ip_accum =
  ia_up :: int
  ia_down :: int
  ia_connCount :: int

definition zero_accum :: ip_accum where
  "zero_accum = \<lparr>ia_up = 0, ia_down = 0, ia_connCount = 0\<rparr>"

text \<open>\<open>w_client\<close> says whether the client could be built; \<open>w_started\<close> whether the loop runs.\<close>

record worker =
  w_nodeID :: string
  w_name :: string
  w_apiURL :: string
  w_apiSecretEnc :: string
  w_client :: bool
  w_connInterval :: int
  w_started :: bool
  w_state :: live_status
  w_perIPActive :: "(string \<times> int) list"
  w_lastSeen :: "(string \<times> conn_mark) list"
  w_ipAcc :: "(string \<times> ip_accum) list"
  w_sumUp :: int
  w_sumDown :: int
  w_peakUp :: int
  w_peakDown :: int
  w_maxConn :: int

definition newWorker :: "(string \<Rightarrow> bool) \<Rightarrow> string \<Rightarrow> string \<Rightarrow> string \<Rightarrow> string \<Rightarrow> worker" where
  "newWorker url_valid i name apiURL apiSecretEnc =
     \<lparr>w_nodeID = i, w_name = name, w_apiURL = apiURL, w_apiSecretEnc = apiSecretEnc,
      w_client = url_valid (TrimRight apiURL ''/''), w_connInterval = 2000000000, w_started = False,
      w_state = zero_status, w_perIPActive = [], w_lastSeen = [], w_ipAcc = [],
      w_sumUp = 0, w_sumDown = 0, w_peakUp = 0, w_peakDown = 0, w_maxConn = 0\<rparr>"

text \<open>\<open>accFor\<close> returns a pointer into the map: here the update through it is applied in place.\<close>

definition accFor :: "string \<Rightarrow> (ip_accum \<Rightarrow> ip_accum) \<Rightarrow> (string \<times> ip_accum) list \<Rightarrow> (string \<times> ip_accum) list" where
  "accFor ip f accs =
     AList.update ip (f (case map_of accs ip of None \<Rightarrow> zero_accum | Some a \<Rightarrow> a)) accs"

definition activeConnections :: "worker \<Rightarrow> int" where
  "activeConnections w = fold (\<lambda>(_, n) total. add64 total n) (w_perIPActive w) 0"

definition Snapshot :: "worker \<Rightarrow> live_status" where
  "Snapshot w = (w_state w)\<lparr>ls_ActiveConnections := activeConnections w\<rparr>"

definition SetMode :: "string \<Rightarrow> worker \<Rightarrow> worker" where
  "SetMode mode w = w\<lparr>w_state := (w_state w)\<lparr>ls_Mode := mode\<rparr>\<rparr>"

definition accumulateTraffic :: "traffic_message \<Rightarrow> worker \<Rightarrow> worker" where
  "accumulateTraffic msg w =
     w\<lparr>w_state := (w_state w)\<lparr>ls_UpBPS := tm_Up msg, ls_DownBPS := tm_Down msg\<rparr>,
       w_sumUp := add64 (w_sumUp w) (tm_Up msg), w_sumDown := add64 (w_sumDown w) (tm_Down msg),
       w_peakUp := (if tm_Up msg > w_peakUp w then tm_Up msg else w_peakUp w),
       w_peakDown := (if tm_Down msg > w_peakDown w then tm_Down msg else w_peakDown w)\<rparr>"

text \<open>One iteration of the loop of \<open>applySnapshot\<close> over the connections of a frame.\<close>

definition snapshot_conn ::
  "(string \<times> conn_mark) list \<Rightarrow> connection \<Rightarrow>
   (string \<times> conn_mark) list \<times> (string \<times> int) list \<times> (string \<times> ip_accum) list \<Rightarrow>
   (string \<times> conn_mark) list \<times> (string \<times> int) list \<times> (string \<times> ip_accum) list" where
  "snapshot_conn lastSeen c = (\<lambda>(cur, perIP, accs).
     let ip = md_SourceIP (c_Metadata c) in
     if ip = [] then (cur, perIP, accs)
     else let cur = AList.update (c_ID c) \<lparr>cm_up = c_Upload c, cm_down = c_Download c, cm_ip = ip\<rparr> cur;
              perIP = AList.update ip (add64 (case map_of perIP ip of None \<Rightarrow> 0 | Some n \<Rightarrow> n) 1) perIP
          in case map_of lastSeen (c_ID c) of
               None \<Rightarrow> (cur, perIP, accFor ip (\<lambda>a. a\<lparr>ia_connCount := add64 (ia_connCount a) 1,
                         ia_up := add64 (ia_up a) (c_Upload c), ia_down := add64 (ia_down a) (c_Download c)\<rparr>) accs)
             | Some mark \<Rightarrow>
                 let dUp = sub64 (c_Upload c) (cm_up mark); dDown = sub64 (c_Download c) (cm_down mark);
                     dUp = (if dUp < 0 then c_Upload c else dUp);
                     dDown = (if dDown < 0 then c_Download c else dDown)
                 in if dUp > 0 \<or> dDown > 0
                    then (cur, perIP, accFor ip (\<lambda>a. a\<lparr>ia_up := add64 (ia_up a) dUp, ia_down := add64 (ia_down a) dDown\<rparr>) accs)
                    else (cur, perIP, accs))"

definition applySnapshot :: "connection list \<Rightarrow> worker \<Rightarrow> worker" where
  "applySnapshot conns w =
     (case fold (snapshot_conn (w_lastSeen w)) conns ([], [], w_ipAcc w) of (cur, perIP, accs) \<Rightarrow>
        let accs = fold (\<lambda>(ip, count) a.
              if (case map_of perIP ip of None \<Rightarrow> 0 | Some n \<Rightarrow> n) \<noteq> count then accFor ip (\<lambda>x. x) a else a)
              (w_perIPActive w) accs
        in w\<lparr>w_ipAcc := accs, w_lastSeen := cur, w_perIPActive := perIP,
             w_maxConn := (if int (length conns) > w_maxConn w then int (length conns) else w_maxConn w)\<rparr>)"

definition markOnline :: "int \<Rightarrow> string \<Rightarrow> string \<Rightarrow> memory_message option \<Rightarrow> worker \<Rightarrow> worker" where
  "markOnline now version mode mem w =
     (let st = (w_state w)\<lparr>ls_Online := True, ls_Version := version, ls_Mode := mode, ls_LastError := [],
                 ls_LastOnlineAt := now\<rparr>
      in w\<lparr>w_state := (case mem of None \<Rightarrow> st
                       | Some m \<Rightarrow> st\<lparr>ls_MemoryBytes := mm_Inuse m, ls_HasMemory := True\<rparr>)\<rparr>)"

definition markOffline :: "string option \<Rightarrow> worker \<Rightarrow> worker" where
  "markOffline err w =
     (let st = (w_state w)\<lparr>ls_Online := False, ls_UpBPS := 0, ls_DownBPS := 0\<rparr>;
          st = (case err of None \<Rightarrow> st | Some e \<Rightarrow> st\<lparr>ls_LastError := e\<rparr>)
      in w\<lparr>w_state := st, w_ipAcc := fold (\<lambda>(ip, _). accFor ip (\<lambda>a. a)) (w_perIPActive w) (w_ipAcc w),
           w_perIPActive := []\<rparr>)"

definition rollup :: "string \<Rightarrow> int \<Rightarrow> worker \<Rightarrow> rollup_row" where
  "rollup interval bucketStart w =
     \<lparr>rr_node_id = w_nodeID w, rr_interval = interval, rr_bucket_start = bucketStart,
      rr_up_bytes = w_sumUp w, rr_down_bytes = w_sumDown w, rr_peak_up_bps = w_peakUp w,
      rr_peak_down_bps = w_peakDown w, rr_max_connections = w_maxConn w\<rparr>"

definition mergeActiveIPs :: "worker \<Rightarrow> (string \<times> ip_accum option) list" where
  "mergeActiveIPs w =
     fold (\<lambda>(ip, _) out. if map_of out ip = None then AList.update ip None out else out) (w_perIPActive w)
       (map (\<lambda>(ip, acc). (ip, Some acc)) (w_ipAcc w))"

definition bucket :: "int \<Rightarrow> int \<Rightarrow> int" where
  "bucket now sz = sub64 now (go_mod now sz)"

definition Drain :: "int \<Rightarrow> worker \<Rightarrow> (traffic_sample list \<times> rollup_row list \<times> ip_delta list) \<times> worker" where
  "Drain now w =
     (if w_sumUp w = 0 \<and> w_sumDown w = 0 \<and> w_ipAcc w = [] \<and> w_perIPActive w = [] then (([], [], []), w)
      else let sample = \<lparr>ts_node_id = w_nodeID w, ts_ts = now, ts_up_bytes = w_sumUp w, ts_down_bytes = w_sumDown w,
                 ts_peak_up_bps = w_peakUp w, ts_peak_down_bps = w_peakDown w, ts_max_connections = w_maxConn w\<rparr>;
               rollups = [rollup ''minute'' (bucket now 60) w, rollup ''hour'' (bucket now 3600) w,
                          rollup ''day'' (bucket now 86400) w];
               deltas = map (\<lambda>(ip, acc).
                 let active = (case map_of (w_perIPActive w) ip of None \<Rightarrow> 0 | Some n \<Rightarrow> n);
                     a = (case acc of None \<Rightarrow> zero_accum | Some x \<Rightarrow> x)
                 in \<lparr>dl_NodeID = w_nodeID w, dl_SourceIP = ip, dl_UpDelta = ia_up a, dl_DownDelta = ia_down a,
                     dl_ConnCount = ia_connCount a, dl_Active = active, dl_SeenAt = now\<rparr>) (mergeActiveIPs w)
           in (([sample], rollups, deltas),
               w\<lparr>w_sumUp := 0, w_sumDown := 0, w_peakUp := 0, w_peakDown := 0,
                 w_maxConn := activeConnections w, w_ipAcc := []\<rparr>))"

subsection \<open>Sessions and the supervision loop\<close>

text \<open>
  One session as its remote side decides it: the answers of the API, the frames the two
  readers get in the order they are applied, and the error that ends it (a reader's error or
  the cancelled context).
\<close>

datatype frame = TrafficFrame traffic_message | ConnectionsFrame "connection list"

record session_env =
  se_now :: int
  se_version :: "string + string"
  se_configs :: "string + string"
  se_memory :: "memory_message option"
  se_traffic :: "string option"
  se_conns :: "string option"
  se_frames :: "frame list"
  se_end :: string

fun apply_frame :: "frame \<Rightarrow> worker \<Rightarrow> worker" where
  "apply_frame (TrafficFrame msg) w = accumulateTraffic msg w"
| "apply_frame (ConnectionsFrame conns) w = applySnapshot conns w"

text \<open>The result is the returned error; \<open>None\<close> would be a nil error.\<close>

definition session :: "session_env \<Rightarrow> worker \<Rightarrow> string option \<times> worker" where
  "session env w =
     (if \<not> w_client w then (Some ''context canceled'', w)
      else case se_version env of
        Inl e \<Rightarrow> (Some e, w)
      | Inr version \<Rightarrow>
          (case se_configs env of
             Inl e \<Rightarrow> (Some e, w)
           | Inr mode \<Rightarrow>
               let w1 = markOnline (se_now env) version mode (se_memory env) w in
               case se_traffic env of
                 Some e \<Rightarrow> (Some e, w1)
               | None \<Rightarrow>
                   (case se_conns env of
                      Some e \<Rightarrow> (Some e, w1)
                    | None \<Rightarrow> (Some (se_end env), fold apply_frame (se_frames env) w1))))"

definition maxBackoff :: int where "maxBackoff = 30 * 1000000000"
definition initialBackoff :: int where "initialBackoff = 1000000000"

text \<open>The loop of \<open>Start\<close> over the sessions that happen before the context ends: the delays it
  waits and the worker it leaves. The deferred \<open>markOffline(nil)\<close> runs at the end.\<close>

fun supervise :: "session_env list \<Rightarrow> int \<Rightarrow> worker \<Rightarrow> int list \<times> worker" where
  "supervise [] backoff w = ([], markOffline None w)"
| "supervise (env # envs) backoff w =
     (case session env w of
        (Some e, w1) \<Rightarrow>
          (let w2 = markOffline (Some e) w1;
               backoff' = (if backoff < maxBackoff then i64 (backoff * 2) else backoff)
           in case supervise envs backoff' w2 of (ds, w3) \<Rightarrow> (backoff # ds, w3))
      | (None, w1) \<Rightarrow> supervise envs initialBackoff w1)"

definition Start :: "worker \<Rightarrow> worker" where
  "Start w = w\<lparr>w_started := True\<rparr>"

text \<open>\<open>Stop\<close> cancels the loop and waits for it, so the deferred \<open>markOffline(nil)\<close> has run.\<close>

definition Stop :: "worker \<Rightarrow> worker" where
  "Stop w = (if w_started w then (markOffline None w)\<lparr>w_started := False\<rparr> else w)"

subsection \<open>Lemmas: the accumulators\<close>

definition acc_of :: "string \<Rightarrow> (string \<times> ip_accum) list \<Rightarrow> ip_accum" where
  "acc_of ip accs = (case map_of accs ip of None \<Rightarrow> zero_accum | Some a \<Rightarrow> a)"

lemma acc_of_accFor: "acc_of j (accFor ip f accs) = (if j = ip then f (acc_of ip accs) else acc_of j accs)"
  by (simp add: acc_of_def accFor_def AList.update_conv')

lemma accFor_distinct: "distinct (map fst accs) \<Longrightarrow> distinct (map fst (accFor ip f accs))"
  by (simp add: accFor_def AList.distinct_update)

lemma acc_of_touch: "acc_of j (fold (\<lambda>p a. if P p then accFor (fst p) (\<lambda>x. x) a else a) xs accs) = acc_of j accs"
  by (induction xs arbitrary: accs) (auto simp: acc_of_accFor)

lemma acc_of_touch_all: "acc_of j (fold (\<lambda>(ip, n). accFor ip (\<lambda>x. x)) xs accs) = acc_of j accs"
  using acc_of_touch [where P = "\<lambda>_. True"] by (simp add: case_prod_unfold)

text \<open>Both directions of a counter are treated alike; \<open>up\<close> selects one.\<close>

definition conn_val :: "bool \<Rightarrow> connection \<Rightarrow> int" where
  "conn_val up c = (if up then c_Upload c else c_Download c)"

definition mark_val :: "bool \<Rightarrow> conn_mark \<Rightarrow> int" where
  "mark_val up m = (if up then cm_up m else cm_down m)"

definition acc_val :: "bool \<Rightarrow> ip_accum \<Rightarrow> int" where
  "acc_val up a = (if up then ia_up a else ia_down a)"

abbreviation src :: "connection \<Rightarrow> string" where
  "src c \<equiv> md_SourceIP (c_Metadata c)"

text \<open>What one connection of a frame adds to its address.\<close>

definition counted :: "(string \<times> conn_mark) list \<Rightarrow> connection \<Rightarrow> bool \<Rightarrow> int" where
  "counted seen c up =
     (case map_of seen (c_ID c) of
        None \<Rightarrow> conn_val up c
      | Some m \<Rightarrow> let d = sub64 (conn_val up c) (mark_val up m) in if d < 0 then conn_val up c else d)"

definition credit :: "(string \<times> conn_mark) list \<Rightarrow> connection \<Rightarrow> bool \<Rightarrow> int" where
  "credit seen c up =
     (if map_of seen (c_ID c) \<noteq> None \<and> counted seen c True \<le> 0 \<and> counted seen c False \<le> 0 then 0
      else counted seen c up)"

lemma snapshot_conn_acc:
  "i64 (acc_val up (acc_of j (snd (snd (snapshot_conn seen c (cur, perIP, accs)))))) =
   i64 (acc_val up (acc_of j accs) + (if src c = j \<and> src c \<noteq> [] then credit seen c up else 0))"
  by (auto simp: snapshot_conn_def acc_of_accFor acc_val_def credit_def counted_def conn_val_def mark_val_def
      add64_def Let_def split: option.splits)

lemma fold_snapshot_acc:
  "i64 (acc_val up (acc_of j (snd (snd (fold (snapshot_conn seen) conns s))))) =
   i64 (acc_val up (acc_of j (snd (snd s))) +
        sum_list (map (\<lambda>c. credit seen c up) (filter (\<lambda>c. src c = j \<and> src c \<noteq> []) conns)))"
proof (induction conns arbitrary: s)
  case (Cons c conns)
  obtain cur perIP accs where s: "s = (cur, perIP, accs)" by (cases s)
  have "i64 (acc_val up (acc_of j (snd (snd (fold (snapshot_conn seen) (c # conns) s))))) =
    i64 (i64 (acc_val up (acc_of j (snd (snd (snapshot_conn seen c s))))) +
      sum_list (map (\<lambda>c. credit seen c up) (filter (\<lambda>c. src c = j \<and> src c \<noteq> []) conns)))"
    using Cons.IH [of "snapshot_conn seen c s"] by simp
  also have "\<dots> = i64 (acc_val up (acc_of j (snd (snd s))) +
      sum_list (map (\<lambda>c. credit seen c up) (filter (\<lambda>c. src c = j \<and> src c \<noteq> []) (c # conns))))"
    unfolding s snapshot_conn_acc by (auto simp: algebra_simps)
  finally show ?case .
qed simp

lemma applySnapshot_acc:
  "i64 (acc_val up (acc_of j (w_ipAcc (applySnapshot conns w)))) =
   i64 (acc_val up (acc_of j (w_ipAcc w)) +
        sum_list (map (\<lambda>c. credit (w_lastSeen w) c up) (filter (\<lambda>c. src c = j \<and> src c \<noteq> []) conns)))"
  using fold_snapshot_acc [of up j "w_lastSeen w" conns "([], [], w_ipAcc w)"]
  by (simp add: applySnapshot_def Let_def case_prod_unfold acc_of_touch)

lemma fold_snapshot_cur:
  "\<forall>c \<in> set conns. src c \<noteq> [] \<Longrightarrow> distinct (map c_ID conns) \<Longrightarrow>
   map_of (fst (fold (snapshot_conn seen) conns s)) i =
     (case find (\<lambda>c. c_ID c = i) conns of
        None \<Rightarrow> map_of (fst s) i
      | Some c \<Rightarrow> Some \<lparr>cm_up = c_Upload c, cm_down = c_Download c, cm_ip = src c\<rparr>)"
proof (induction conns arbitrary: s)
  case (Cons c conns)
  have step: "map_of (fst (snapshot_conn seen c s)) i =
      (if c_ID c = i then Some \<lparr>cm_up = c_Upload c, cm_down = c_Download c, cm_ip = src c\<rparr> else map_of (fst s) i)"
    using Cons.prems(1)
    by (cases s) (auto simp: snapshot_conn_def AList.update_conv' Let_def split: option.splits)
  have "find (\<lambda>x. c_ID x = i) conns = None" if "c_ID c = i"
    using Cons.prems(2) that by (auto simp: find_None_iff image_iff)
  with step Cons.IH [of "snapshot_conn seen c s"] Cons.prems show ?case by (auto split: option.splits)
qed simp

lemma applySnapshot_lastSeen:
  "\<forall>c \<in> set conns. src c \<noteq> [] \<Longrightarrow> distinct (map c_ID conns) \<Longrightarrow>
   map_of (w_lastSeen (applySnapshot conns w)) i =
     map_option (\<lambda>c. \<lparr>cm_up = c_Upload c, cm_down = c_Download c, cm_ip = src c\<rparr>) (find (\<lambda>c. c_ID c = i) conns)"
  using fold_snapshot_cur [of conns "w_lastSeen w" "([], [], w_ipAcc w)" i]
  by (auto simp: applySnapshot_def Let_def case_prod_unfold split: option.splits)

lemma applySnapshot_keeps [simp]:
  "w_nodeID (applySnapshot conns w) = w_nodeID w" "w_sumUp (applySnapshot conns w) = w_sumUp w"
  "w_sumDown (applySnapshot conns w) = w_sumDown w" "w_state (applySnapshot conns w) = w_state w"
  by (simp_all add: applySnapshot_def Let_def case_prod_unfold)

subsection \<open>Lemmas: histories of frames\<close>

text \<open>
  A history of frames, newest first, of connections that behave: within a frame ids are
  distinct and counters are not negative, a connection keeps its address, its counters never
  shrink, and once gone it does not come back.
\<close>

fun tidy :: "connection list list \<Rightarrow> bool" where
  "tidy [] = True"
| "tidy (f # older) =
     (tidy older \<and> distinct (map c_ID f) \<and>
      (\<forall>c \<in> set f. src c \<noteq> [] \<and> 0 \<le> c_Upload c \<and> 0 \<le> c_Download c \<and> in_i64 (c_Upload c) \<and> in_i64 (c_Download c)) \<and>
      (\<forall>c \<in> set f. \<forall>g \<in> set older. \<forall>c' \<in> set g. c_ID c' = c_ID c \<longrightarrow>
         src c' = src c \<and> c_ID c \<in> c_ID ` set (hd older)) \<and>
      (\<forall>c \<in> set f. older \<noteq> [] \<longrightarrow> (\<forall>c' \<in> set (hd older). c_ID c' = c_ID c \<longrightarrow>
         c_Upload c' \<le> c_Upload c \<and> c_Download c' \<le> c_Download c)))"

fun last_val :: "bool \<Rightarrow> string \<Rightarrow> connection list list \<Rightarrow> int" where
  "last_val up i [] = 0"
| "last_val up i (f # older) =
     (case find (\<lambda>c. c_ID c = i) f of Some c \<Rightarrow> conn_val up c | None \<Rightarrow> last_val up i older)"

definition conns_of :: "string \<Rightarrow> connection list list \<Rightarrow> string set" where
  "conns_of ip fs = c_ID ` {c. \<exists>f \<in> set fs. c \<in> set f \<and> src c = ip}"

lemma conns_of_finite [simp]: "finite (conns_of ip fs)"
  unfolding conns_of_def by (rule finite_imageI, rule finite_subset [of _ "\<Union>f \<in> set fs. set f"]) auto

lemma conns_of_code: "conns_of ip fs = set (map c_ID (filter (\<lambda>c. src c = ip) (concat fs)))"
  by (auto simp: conns_of_def)

lemma conns_of_Cons: "conns_of ip (f # fs) = c_ID ` {c \<in> set f. src c = ip} \<union> conns_of ip fs"
  unfolding conns_of_def image_Un [symmetric] by (rule arg_cong [where f = "image c_ID"]) auto

lemma find_distinct: "distinct (map c_ID f) \<Longrightarrow> c \<in> set f \<Longrightarrow> find (\<lambda>x. c_ID x = c_ID c) f = Some c"
  by (induction f) auto

lemma credit_tidy:
  assumes "tidy (f # older)" and "c \<in> set f"
    and "\<And>i. map_of seen i = (case older of [] \<Rightarrow> None | g # _ \<Rightarrow>
        map_option (\<lambda>c. \<lparr>cm_up = c_Upload c, cm_down = c_Download c, cm_ip = src c\<rparr>) (find (\<lambda>c. c_ID c = i) g))"
  shows "credit seen c up = conn_val up c - (if c_ID c \<in> conns_of (src c) older then last_val up (c_ID c) older else 0)"
proof (cases "\<exists>g \<in> set older. c_ID c \<in> c_ID ` set g")
  case False
  then have no: "\<forall>g \<in> set older. \<forall>x \<in> set g. c_ID x \<noteq> c_ID c"
    by (metis image_eqI)
  then have "c_ID c \<notin> conns_of (src c) older" by (force simp: conns_of_def)
  moreover from no have "map_of seen (c_ID c) = None"
    unfolding assms(3) by (cases older) (simp_all add: find_None_iff)
  ultimately show ?thesis by (simp add: credit_def counted_def)
next
  case True
  then obtain g rest where older: "older = g # rest" by (cases older) auto
  from True obtain h x where x: "h \<in> set older" "x \<in> set h" "c_ID x = c_ID c" by force
  have "c_ID c \<in> c_ID ` set g" using assms(1,2) x by (auto simp: older)
  then obtain c' where c'g: "c' \<in> set g" "c_ID c' = c_ID c" by force
  moreover have "src c' = src c" using assms(1,2) c'g by (auto simp: older)
  ultimately have c': "c' \<in> set g" "c_ID c' = c_ID c" "src c' = src c" by simp_all
  have fd: "find (\<lambda>x. c_ID x = c_ID c) g = Some c'"
    using find_distinct [of g c'] c' assms(1) by (simp add: older)
  have le: "c_Upload c' \<le> c_Upload c" "c_Download c' \<le> c_Download c"
    and pos: "0 \<le> c_Upload c'" "0 \<le> c_Download c'" "in_i64 (c_Upload c)" "in_i64 (c_Download c)"
    using assms(1,2) c' by (auto simp: older)
  have sub: "sub64 (c_Upload c) (c_Upload c') = c_Upload c - c_Upload c'"
    "sub64 (c_Download c) (c_Download c') = c_Download c - c_Download c'"
    using le pos by (auto simp: sub64_def in_i64_def intro!: i64_id)
  have "c_ID c \<in> conns_of (src c) older"
    unfolding conns_of_code using c' by (auto simp: older image_iff)
  moreover have "last_val up (c_ID c) older = conn_val up c'" by (simp add: older fd)
  ultimately show ?thesis
    using assms(3) [of "c_ID c"] fd le sub
    by (auto simp: older credit_def counted_def conn_val_def mark_val_def Let_def)
qed

lemma sum_frame:
  assumes "tidy (f # older)"
  shows "(\<Sum>i \<in> conns_of ip (f # older). last_val up i (f # older)) =
    (\<Sum>i \<in> conns_of ip older. last_val up i older) +
    (\<Sum>c \<in> {c \<in> set f. src c = ip}. conn_val up c - (if c_ID c \<in> conns_of ip older then last_val up (c_ID c) older else 0))"
proof -
  let ?A = "{c \<in> set f. src c = ip}" and ?S = "conns_of ip older"
  have dist: "distinct (map c_ID f)" using assms by simp
  then have inj: "inj_on c_ID ?A" by (auto simp: distinct_map inj_on_def)
  have new: "last_val up (c_ID c) (f # older) = conn_val up c" if "c \<in> set f" for c
    using find_distinct [OF dist that] by simp
  have old: "last_val up i (f # older) = last_val up i older" if "i \<in> ?S - c_ID ` ?A" for i
  proof -
    have "i \<notin> c_ID ` set f"
    proof
      assume "i \<in> c_ID ` set f"
      then obtain c where c: "c \<in> set f" "c_ID c = i" by blast
      from that obtain g c' where "g \<in> set older" "c' \<in> set g" "c_ID c' = i" "src c' = ip" by (auto simp: conns_of_def)
      with assms c have "src c = ip" by fastforce
      with c that show False by blast
    qed
    then have "find (\<lambda>c. c_ID c = i) f = None" by (auto simp: find_None_iff image_iff)
    then show ?thesis by simp
  qed
  have "(\<Sum>i \<in> conns_of ip (f # older). last_val up i (f # older)) =
      (\<Sum>i \<in> c_ID ` ?A. last_val up i (f # older)) + (\<Sum>i \<in> ?S - c_ID ` ?A. last_val up i (f # older))"
    unfolding conns_of_Cons by (subst Un_Diff_cancel [symmetric], rule sum.union_disjoint) auto
  also have "(\<Sum>i \<in> c_ID ` ?A. last_val up i (f # older)) = (\<Sum>c \<in> ?A. conn_val up c)"
    using new by (subst sum.reindex [OF inj]) (simp add: comp_def)
  also have "(\<Sum>i \<in> ?S - c_ID ` ?A. last_val up i (f # older)) = (\<Sum>i \<in> ?S - c_ID ` ?A. last_val up i older)"
    using old by (intro sum.cong) auto
  also have "(\<Sum>i \<in> ?S - c_ID ` ?A. last_val up i older) = (\<Sum>i \<in> ?S. last_val up i older) - (\<Sum>i \<in> ?S \<inter> c_ID ` ?A. last_val up i older)"
    using sum.Int_Diff [of ?S "\<lambda>i. last_val up i older" "c_ID ` ?A"] by simp
  also have "(\<Sum>i \<in> ?S \<inter> c_ID ` ?A. last_val up i older) = (\<Sum>c \<in> ?A. if c_ID c \<in> ?S then last_val up (c_ID c) older else 0)"
  proof -
    have "(\<Sum>c \<in> ?A. if c_ID c \<in> ?S then last_val up (c_ID c) older else 0) =
        (\<Sum>i \<in> c_ID ` ?A. if i \<in> ?S then last_val up i older else 0)"
      by (subst sum.reindex [OF inj]) (simp add: comp_def)
    then show ?thesis
      using sum.inter_restrict [of "c_ID ` ?A" "\<lambda>i. last_val up i older" ?S] by (simp add: Int_commute)
  qed
  finally show ?thesis by (simp add: sum_subtractf)
qed

lemma frames_accounted:
  assumes "tidy fs" and "w_ipAcc w = []" and "w_lastSeen w = []" and "ip \<noteq> []"
  shows "i64 (acc_val up (acc_of ip (w_ipAcc (fold applySnapshot (rev fs) w)))) =
           i64 (\<Sum>i \<in> conns_of ip fs. last_val up i fs) \<and>
         (\<forall>i. map_of (w_lastSeen (fold applySnapshot (rev fs) w)) i = (case fs of [] \<Rightarrow> None | g # _ \<Rightarrow>
            map_option (\<lambda>c. \<lparr>cm_up = c_Upload c, cm_down = c_Download c, cm_ip = src c\<rparr>) (find (\<lambda>c. c_ID c = i) g)))"
  using assms(1)
proof (induction fs)
  case Nil
  with assms(2,3) show ?case by (simp add: conns_of_def acc_of_def acc_val_def zero_accum_def)
next
  case (Cons f older)
  let ?w = "fold applySnapshot (rev older) w"
  let ?A = "{c \<in> set f. src c = ip}"
  from Cons have IH: "i64 (acc_val up (acc_of ip (w_ipAcc ?w))) = i64 (\<Sum>i \<in> conns_of ip older. last_val up i older)"
    and seen: "\<And>i. map_of (w_lastSeen ?w) i = (case older of [] \<Rightarrow> None | g # _ \<Rightarrow>
       map_option (\<lambda>c. \<lparr>cm_up = c_Upload c, cm_down = c_Download c, cm_ip = src c\<rparr>) (find (\<lambda>c. c_ID c = i) g))"
    by auto
  have fl: "filter (\<lambda>c. src c = ip \<and> src c \<noteq> []) f = filter (\<lambda>c. src c = ip) f"
    using assms(4) by (intro filter_cong) auto
  have df: "distinct (filter (\<lambda>c. src c = ip) f)" using Cons.prems by (auto simp: distinct_map)
  have "sum_list (map (\<lambda>c. credit (w_lastSeen ?w) c up) (filter (\<lambda>c. src c = ip) f)) =
      (\<Sum>c \<in> ?A. credit (w_lastSeen ?w) c up)"
    using sum_list_distinct_conv_sum_set [OF df] by simp
  also have "\<dots> = (\<Sum>c \<in> ?A. conn_val up c - (if c_ID c \<in> conns_of ip older then last_val up (c_ID c) older else 0))"
    using credit_tidy [OF Cons.prems _ seen] by (intro sum.cong) auto
  finally have cr: "sum_list (map (\<lambda>c. credit (w_lastSeen ?w) c up) (filter (\<lambda>c. src c = ip \<and> src c \<noteq> []) f)) = \<dots>"
    unfolding fl .
  have "i64 (acc_val up (acc_of ip (w_ipAcc (applySnapshot f ?w)))) =
      i64 (i64 (acc_val up (acc_of ip (w_ipAcc ?w))) +
        (\<Sum>c \<in> ?A. conn_val up c - (if c_ID c \<in> conns_of ip older then last_val up (c_ID c) older else 0)))"
    unfolding applySnapshot_acc cr by simp
  also have "\<dots> = i64 (\<Sum>i \<in> conns_of ip (f # older). last_val up i (f # older))"
    unfolding IH sum_frame [OF Cons.prems] by simp
  finally show ?case using applySnapshot_lastSeen [of f ?w] Cons.prems by simp
qed

lemma acc_in_range:
  assumes "\<forall>ip. in_i64 (acc_val up (acc_of ip accs))" and "\<forall>c \<in> set conns. in_i64 (c_Upload c) \<and> in_i64 (c_Download c)"
  shows "in_i64 (acc_val up (acc_of j (snd (snd (fold (snapshot_conn seen) conns (cur, perIP, accs))))))"
  using assms
proof (induction conns arbitrary: cur perIP accs)
  case (Cons c conns)
  obtain cur' perIP' accs' where s: "snapshot_conn seen c (cur, perIP, accs) = (cur', perIP', accs')"
    by (cases "snapshot_conn seen c (cur, perIP, accs)") auto
  have "in_i64 (acc_val up (acc_of ip accs'))" for ip
    using s Cons.prems(1) i64_range
    by (auto simp: snapshot_conn_def acc_of_accFor acc_val_def add64_def Let_def split: if_splits option.splits)
  with Cons s show ?case by simp
qed simp

lemma applySnapshot_in_range:
  assumes "\<forall>ip. in_i64 (acc_val up (acc_of ip (w_ipAcc w)))" and "\<forall>c \<in> set conns. in_i64 (c_Upload c) \<and> in_i64 (c_Download c)"
  shows "in_i64 (acc_val up (acc_of j (w_ipAcc (applySnapshot conns w))))"
  using acc_in_range [OF assms, of j "w_lastSeen w" "[]" "[]"]
  by (simp add: applySnapshot_def Let_def case_prod_unfold acc_of_touch)

lemma frames_in_range:
  assumes "tidy fs" and "\<forall>ip. in_i64 (acc_val up (acc_of ip (w_ipAcc w)))"
  shows "in_i64 (acc_val up (acc_of j (w_ipAcc (fold applySnapshot (rev fs) w))))"
  using assms by (induction fs arbitrary: j) (auto intro!: applySnapshot_in_range)

subsection \<open>Lemmas: draining\<close>

lemma map_of_map_Some: "map_of (map (\<lambda>(k, v). (k, Some v)) xs) k = map_option Some (map_of xs k)"
  by (induction xs) auto

lemma mergeActiveIPs_lookup:
  "map_of (mergeActiveIPs w) ip =
     (case map_of (w_ipAcc w) ip of
        Some a \<Rightarrow> Some (Some a)
      | None \<Rightarrow> if ip \<in> fst ` set (w_perIPActive w) then Some None else None)"
proof -
  have "map_of (fold (\<lambda>(ip, _) out. if map_of out ip = None then AList.update ip None out else out) xs out) ip =
      (case map_of out ip of Some x \<Rightarrow> Some x | None \<Rightarrow> if ip \<in> fst ` set xs then Some None else None)"
    for xs :: "(string \<times> int) list" and out :: "(string \<times> ip_accum option) list"
    by (induction xs arbitrary: out) (auto simp: AList.update_conv' split: option.splits if_splits)
  from this [of "w_perIPActive w" "map (\<lambda>(ip, acc). (ip, Some acc)) (w_ipAcc w)"] show ?thesis
    by (auto simp: mergeActiveIPs_def map_of_map_Some split: option.splits)
qed

lemma mergeActiveIPs_distinct:
  assumes "distinct (map fst (w_ipAcc w))"
  shows "distinct (map fst (mergeActiveIPs w))"
proof -
  have "distinct (map fst out) \<Longrightarrow>
      distinct (map fst (fold (\<lambda>(ip, _) out. if map_of out ip = None then AList.update ip None out else out) xs out))"
    for xs :: "(string \<times> int) list" and out :: "(string \<times> ip_accum option) list"
    by (induction xs arbitrary: out) (auto simp: AList.distinct_update)
  with assms show ?thesis by (simp add: mergeActiveIPs_def case_prod_unfold comp_def)
qed

lemma sum_filter_key:
  assumes "distinct (map fst xs)"
  shows "sum_list (map (\<lambda>(k, v). g k v) (filter (\<lambda>(k, _). k = i) xs)) =
    (case map_of xs i of None \<Rightarrow> 0 | Some v \<Rightarrow> (g i v :: int))"
  using assms
proof (induction xs)
  case (Cons x xs)
  obtain k v where x: "x = (k, v)" by (cases x)
  have "filter (\<lambda>(k, _). k = i) xs = []" if "k = i"
    using Cons.prems that by (force simp: x filter_empty_conv)
  with Cons show ?case by (auto simp: x map_of_eq_None_iff split: option.splits)
qed simp

text \<open>The keys of the accumulator map stay distinct, as in every Go map.\<close>

definition worker_ok :: "worker \<Rightarrow> bool" where
  "worker_ok w \<longleftrightarrow> distinct (map fst (w_ipAcc w))"

lemma fold_accFor_distinct:
  "distinct (map fst accs) \<Longrightarrow> distinct (map fst (fold (\<lambda>p a. if P p then accFor (fst p) f a else a) xs accs))"
  by (induction xs arbitrary: accs) (auto simp: accFor_distinct)

lemma snapshot_conn_distinct:
  "distinct (map fst (snd (snd s))) \<Longrightarrow> distinct (map fst (snd (snd (snapshot_conn seen c s))))"
  by (cases s) (auto simp: snapshot_conn_def accFor_distinct Let_def split: option.splits)

lemma fold_snapshot_distinct:
  "distinct (map fst (snd (snd s))) \<Longrightarrow> distinct (map fst (snd (snd (fold (snapshot_conn seen) conns s))))"
  by (induction conns arbitrary: s) (auto simp: snapshot_conn_distinct)

lemma worker_ok_new: "worker_ok (newWorker v i n u s)"
  by (simp add: worker_ok_def newWorker_def)

lemma worker_ok_ops:
  assumes "worker_ok w"
  shows "worker_ok (accumulateTraffic msg w)" and "worker_ok (applySnapshot conns w)"
    and "worker_ok (markOnline t v m mem w)" and "worker_ok (markOffline e w)"
    and "worker_ok (SetMode m w)" and "worker_ok (snd (Drain t w))"
    and "worker_ok (Start w)" and "worker_ok (Stop w)"
proof -
  show "worker_ok (accumulateTraffic msg w)" "worker_ok (markOnline t v m mem w)" "worker_ok (SetMode m w)"
    "worker_ok (snd (Drain t w))" "worker_ok (Start w)"
    using assms by (simp_all add: worker_ok_def accumulateTraffic_def markOnline_def SetMode_def Drain_def Start_def Let_def)
  show "worker_ok (applySnapshot conns w)"
    using assms fold_snapshot_distinct [of "([], [], w_ipAcc w)" "w_lastSeen w" conns]
    by (simp add: worker_ok_def applySnapshot_def Let_def case_prod_unfold fold_accFor_distinct)
  show off: "worker_ok (markOffline e w)" for e
    using assms fold_accFor_distinct [of "w_ipAcc w" "\<lambda>_. True" "\<lambda>x. x" "w_perIPActive w"]
    by (simp add: worker_ok_def markOffline_def Let_def case_prod_unfold)
  then show "worker_ok (Stop w)"
    using assms by (simp add: Stop_def worker_ok_def)
qed

lemma bucket_aligned:
  assumes "0 \<le> now" and "0 < sz" and "in_i64 now"
  shows "bucket now sz \<le> now \<and> now < bucket now sz + sz \<and> bucket now sz mod sz = 0"
proof -
  have "0 \<le> now mod sz" "now mod sz \<le> now"
    using assms(1,2) by (simp_all add: zmod_le_nonneg_dividend)
  then have "in_i64 (now - now mod sz)" using assms(3) unfolding in_i64_def by linarith
  then have "bucket now sz = now - now mod sz"
    by (simp add: bucket_def go_mod_nonneg [OF assms(1)] sub64_def i64_id)
  moreover have "now mod sz < sz" "(now - now mod sz) mod sz = 0"
    using assms(2) by (simp_all add: minus_mod_eq_mult_div)
  ultimately show ?thesis using \<open>0 \<le> now mod sz\<close> by simp
qed

subsection \<open>Properties\<close>

text \<open>C27: address accounting telescopes: after any history of well-behaved frames, the bytes
  credited to an address are exactly the final counters of all connections ever seen from it
  (in the wrap-around arithmetic of int64), so nothing is counted twice when frames repeat a
  connection, and nothing seen is lost when it disappears.\<close>

theorem snapshots_telescope:
  assumes "tidy fs" and "ip \<noteq> []"
  shows "let w = fold applySnapshot (rev fs) (newWorker v i n u s) in
    ia_up (acc_of ip (w_ipAcc w)) = i64 (\<Sum>c \<in> conns_of ip fs. last_val True c fs) \<and>
    ia_down (acc_of ip (w_ipAcc w)) = i64 (\<Sum>c \<in> conns_of ip fs. last_val False c fs)"
proof -
  let ?w0 = "newWorker v i n u s"
  have "w_ipAcc ?w0 = []" "w_lastSeen ?w0 = []" by (simp_all add: newWorker_def)
  moreover have "\<forall>ip. in_i64 (acc_val up (acc_of ip (w_ipAcc ?w0)))" for up
    by (simp add: newWorker_def acc_of_def acc_val_def zero_accum_def in_i64_def)
  ultimately have "acc_val up (acc_of ip (w_ipAcc (fold applySnapshot (rev fs) ?w0))) =
      i64 (\<Sum>c \<in> conns_of ip fs. last_val up c fs)" for up
    using frames_accounted [OF assms(1) _ _ assms(2), of ?w0 up] i64_id [OF frames_in_range [OF assms(1), of up ?w0 ip]]
    by simp
  from this [of True] this [of False] show ?thesis by (simp add: Let_def acc_val_def)
qed

definition demo_conn :: "string \<Rightarrow> string \<Rightarrow> int \<Rightarrow> int \<Rightarrow> connection" where
  "demo_conn i ip up down = \<lparr>c_ID = i, c_Upload = up, c_Download = down, c_Start = [], c_Chains = [], c_Rule = [],
     c_RulePay = [], c_Metadata = \<lparr>md_Network = [], md_Type = [], md_SourceIP = ip, md_SourcePort = [],
     md_DestinationIP = [], md_DestinationPort = [], md_Host = [], md_InboundType = []\<rparr>\<rparr>"

definition demo_frames :: "connection list list" where
  "demo_frames = [[demo_conn ''b'' ''10.0.0.1'' 3 1],
     [demo_conn ''a'' ''10.0.0.1'' 9 4, demo_conn ''b'' ''10.0.0.1'' 2 1],
     [demo_conn ''a'' ''10.0.0.1'' 5 4]]"

theorem snapshots_telescope_witness:
  "ia_up (acc_of ''10.0.0.1'' (w_ipAcc (fold applySnapshot (rev demo_frames)
     (newWorker (\<lambda>_. True) ''n1'' ''tokyo'' ''http://h'' [])))) = 12"
proof -
  have t: "tidy demo_frames"
    by (simp add: demo_frames_def demo_conn_def in_i64_def)
  have "conns_of ''10.0.0.1'' demo_frames = {''a'', ''b''}"
    by (auto simp: conns_of_code demo_frames_def demo_conn_def)
  then show ?thesis
    using snapshots_telescope [OF t, of "''10.0.0.1''" "\<lambda>_. True" "''n1''" "''tokyo''" "''http://h''" "[]"]
    by (simp add: Let_def demo_frames_def demo_conn_def conn_val_def i64_def)
qed

text \<open>Draining conserves: the sample and each of the three rollup rows carry exactly the
  bytes accumulated since the last drain, the deltas of every address carry its accumulated
  bytes, afterwards all accumulators are zero, and the rollup buckets are the minute, hour
  and day that contain the present moment.\<close>

theorem drain_conserves:
  assumes "worker_ok w" and "0 \<le> now" and "in_i64 now"
  shows "case Drain now w of ((samples, rollups, deltas), w') \<Rightarrow>
    sum_list (map ts_up_bytes samples) = w_sumUp w \<and> sum_list (map ts_down_bytes samples) = w_sumDown w \<and>
    (\<forall>iv sz. (iv, sz) \<in> {(''minute'', 60), (''hour'', 3600), (''day'', 86400)} \<longrightarrow>
       sum_list (map rr_up_bytes (filter (\<lambda>r. rr_interval r = iv) rollups)) = w_sumUp w \<and>
       sum_list (map rr_down_bytes (filter (\<lambda>r. rr_interval r = iv) rollups)) = w_sumDown w \<and>
       (\<forall>r \<in> set rollups. rr_interval r = iv \<longrightarrow> rr_bucket_start r \<le> now \<and> now < rr_bucket_start r + sz \<and>
          rr_bucket_start r mod sz = 0)) \<and>
    (\<forall>ip. sum_list (map dl_UpDelta (filter (\<lambda>x. dl_SourceIP x = ip) deltas)) = ia_up (acc_of ip (w_ipAcc w)) \<and>
          sum_list (map dl_DownDelta (filter (\<lambda>x. dl_SourceIP x = ip) deltas)) = ia_down (acc_of ip (w_ipAcc w))) \<and>
    w_sumUp w' = 0 \<and> w_sumDown w' = 0 \<and> w_ipAcc w' = []"
proof (cases "w_sumUp w = 0 \<and> w_sumDown w = 0 \<and> w_ipAcc w = [] \<and> w_perIPActive w = []")
  case True
  then show ?thesis by (auto simp: Drain_def acc_of_def zero_accum_def)
next
  case False
  let ?mk = "\<lambda>ip acc. let active = (case map_of (w_perIPActive w) ip of None \<Rightarrow> 0 | Some n \<Rightarrow> n);
                 a = (case acc of None \<Rightarrow> zero_accum | Some x \<Rightarrow> x)
             in \<lparr>dl_NodeID = w_nodeID w, dl_SourceIP = ip, dl_UpDelta = ia_up a, dl_DownDelta = ia_down a,
                 dl_ConnCount = ia_connCount a, dl_Active = active, dl_SeenAt = now\<rparr>"
  have dist: "distinct (map fst (mergeActiveIPs w))"
    using assms(1) mergeActiveIPs_distinct by (simp add: worker_ok_def)
  have flt: "filter (\<lambda>x. dl_SourceIP x = ip) (map (\<lambda>(ip, acc). ?mk ip acc) m) =
      map (\<lambda>(ip, acc). ?mk ip acc) (filter (\<lambda>(k, _). k = ip) m)" for ip m
    by (induction m) (auto simp: Let_def)
  have acc: "(case map_of (mergeActiveIPs w) ip of None \<Rightarrow> 0 | Some v \<Rightarrow> h (case v of None \<Rightarrow> zero_accum | Some x \<Rightarrow> x)) =
      h (acc_of ip (w_ipAcc w))" if "h zero_accum = (0 :: int)" for ip h
    using that by (auto simp: mergeActiveIPs_lookup acc_of_def split: option.splits)
  have "sum_list (map dl_UpDelta (filter (\<lambda>x. dl_SourceIP x = ip) (map (\<lambda>(ip, acc). ?mk ip acc) (mergeActiveIPs w)))) =
      ia_up (acc_of ip (w_ipAcc w))" for ip
    using sum_filter_key [OF dist, of "\<lambda>k v. ia_up (case v of None \<Rightarrow> zero_accum | Some x \<Rightarrow> x)" ip] acc [of ia_up ip]
    unfolding flt by (simp add: comp_def case_prod_unfold Let_def zero_accum_def)
  moreover have "sum_list (map dl_DownDelta (filter (\<lambda>x. dl_SourceIP x = ip) (map (\<lambda>(ip, acc). ?mk ip acc) (mergeActiveIPs w)))) =
      ia_down (acc_of ip (w_ipAcc w))" for ip
    using sum_filter_key [OF dist, of "\<lambda>k v. ia_down (case v of None \<Rightarrow> zero_accum | Some x \<Rightarrow> x)" ip] acc [of ia_down ip]
    unfolding flt by (simp add: comp_def case_prod_unfold Let_def zero_accum_def)
  ultimately show ?thesis
    using False bucket_aligned [OF assms(2) _ assms(3)]
    by (auto simp: Drain_def Let_def rollup_def)
qed

theorem drain_conserves_witness:
  "case Drain 90061 (fold applySnapshot (rev demo_frames) (newWorker (\<lambda>_. True) ''n1'' ''tokyo'' ''http://h'' [])) of
     ((samples, rollups, deltas), w') \<Rightarrow> w_ipAcc w' = [] \<and> w_sumUp w' = 0"
proof -
  have "worker_ok (fold applySnapshot fs w)" if "worker_ok w" for fs w
    using that by (induction fs arbitrary: w) (auto intro: worker_ok_ops)
  then have "worker_ok (fold applySnapshot (rev demo_frames) (newWorker (\<lambda>_. True) ''n1'' ''tokyo'' ''http://h'' []))"
    using worker_ok_new by blast
  from drain_conserves [OF this, of 90061] show ?thesis
    by (simp add: in_i64_def split: prod.splits)
qed

lemma session_fails: "\<exists>e. fst (session env w) = Some e"
  by (auto simp: session_def Let_def split: sum.splits option.splits)

lemma supervise_step:
  "fst (supervise (env # envs) b w) =
     b # fst (supervise envs (if b < maxBackoff then i64 (b * 2) else b)
                (markOffline (Some (the (fst (session env w)))) (snd (session env w))))"
  using session_fails [of env w] by (auto simp: Let_def split: prod.splits option.splits)

lemma supervise_delays:
  "b = 1000000000 * 2 ^ min k 5 \<Longrightarrow> j < length envs \<Longrightarrow>
   length (fst (supervise envs b w)) = length envs \<and>
   fst (supervise envs b w) ! j = 1000000000 * 2 ^ min (k + j) 5"
proof (induction envs arbitrary: b k j w)
  case (Cons env envs)
  have lt: "min k 5 \<in> {0, 1, 2, 3, 4, 5}" by auto
  have "(if b < maxBackoff then i64 (b * 2) else b) = 1000000000 * 2 ^ min (Suc k) 5"
    using lt Cons.prems(1) by (cases "k < 5") (auto simp: maxBackoff_def i64_def min_def numeral_eq_Suc le_Suc_eq)
  note IH = Cons.IH [OF this]
  show ?case
  proof (cases envs)
    case Nil
    with Cons.prems show ?thesis unfolding supervise_step by simp
  next
    case (Cons e es)
    then have len: "length (fst (supervise envs (if b < maxBackoff then i64 (b * 2) else b) w')) = length envs" for w'
      using IH [of 0 w'] by simp
    show ?thesis
    proof (cases j)
      case 0
      with Cons.prems len show ?thesis unfolding supervise_step by simp
    next
      case (Suc i)
      with Cons.prems(2) IH [of i] len show ?thesis unfolding supervise_step by simp
    qed
  qed
qed simp

text \<open>The reconnect delays: a worker that runs from the start waits 1, 2, 4, 8, 16 and then
  always 32 seconds between sessions, however long the sessions lasted and however well they
  went, because a session only ever returns an error; the last delay exceeds the declared
  maximum of 30 seconds.\<close>

theorem backoff_delays:
  "length (fst (supervise envs initialBackoff w)) = length envs \<and>
   (\<forall>j < length envs. fst (supervise envs initialBackoff w) ! j = 1000000000 * 2 ^ min j 5)"
proof (cases "envs = []")
  case False
  have d: "length (fst (supervise envs initialBackoff w)) = length envs \<and>
      fst (supervise envs initialBackoff w) ! j = 1000000000 * 2 ^ min j 5" if "j < length envs" for j
    using supervise_delays [of initialBackoff 0 j envs w] that by (simp add: initialBackoff_def)
  from False have "0 < length envs" by simp
  with d show ?thesis by blast
qed simp

theorem backoff_delays_witness:
  "fst (supervise (replicate 7 \<lparr>se_now = 0, se_version = Inr ''1.12'', se_configs = Inr ''rule'', se_memory = None,
      se_traffic = None, se_conns = None, se_frames = [], se_end = ''EOF''\<rparr>) initialBackoff
      (newWorker (\<lambda>_. True) ''n1'' ''tokyo'' ''http://h'' [])) ! 6 = 32000000000"
  using backoff_delays [of "replicate 7 \<lparr>se_now = 0, se_version = Inr ''1.12'', se_configs = Inr ''rule'', se_memory = None,
      se_traffic = None, se_conns = None, se_frames = [], se_end = ''EOF''\<rparr>"
      "newWorker (\<lambda>_. True) ''n1'' ''tokyo'' ''http://h'' []"] by simp

text \<open>What a traffic frame contributes: a frame of the form the Clash API and the mock server
  send, with the fields up and down, decodes to zero bytes in both directions, so it leaves
  the totals of the worker unchanged; only frames with the fields up_bytes_per_second and
  down_bytes_per_second are counted.\<close>

theorem traffic_frame_decoding:
  "(in_i64 (w_sumUp w) \<and> in_i64 (w_sumDown w) \<longrightarrow>
      w_sumUp (accumulateTraffic (decode_traffic [(''up'', u), (''down'', d)]) w) = w_sumUp w \<and>
      w_sumDown (accumulateTraffic (decode_traffic [(''up'', u), (''down'', d)]) w) = w_sumDown w) \<and>
   w_sumUp (accumulateTraffic (decode_traffic [(''up_bytes_per_second'', u), (''down_bytes_per_second'', d)]) w) =
     i64 (w_sumUp w + u) \<and>
   w_sumDown (accumulateTraffic (decode_traffic [(''up_bytes_per_second'', u), (''down_bytes_per_second'', d)]) w) =
     i64 (w_sumDown w + d)"
proof -
  have "ToLower ''up'' = ''up''" "ToLower ''down'' = ''down''"
    "ToLower ''up_bytes_per_second'' = ''up_bytes_per_second''"
    "ToLower ''down_bytes_per_second'' = ''down_bytes_per_second''" by code_simp+
  then show ?thesis by (simp add: decode_traffic_def accumulateTraffic_def add64_def i64_id)
qed

theorem traffic_frame_decoding_witness:
  "w_sumUp (accumulateTraffic (decode_traffic [(''up'', 7), (''down'', 9)])
     (newWorker (\<lambda>_. True) ''n1'' ''tokyo'' ''http://h'' [])) = 0"
  using traffic_frame_decoding [of "newWorker (\<lambda>_. True) ''n1'' ''tokyo'' ''http://h'' []" 7 9]
  by (simp add: newWorker_def in_i64_def)

end
