(* ===== verification/Cryptox.thy ===== *)
theory Cryptox
  imports Base64
begin

text \<open>
  Secrets at rest (\<^verbatim>\<open>cryptox/crypto.go\<close>): sealing and opening of column values with an AEAD
  and standard base64, and the key file in the data directory. The AEAD of a key
  (\<^verbatim>\<open>newGCM\<close>) is a parameter; \<open>aead_ok\<close> states that it opens what it sealed. Random bytes
  are arguments, \<open>None\<close> when the source fails; the file system is a map from paths to
  contents, with the outcome of each system call as an argument.
\<close>

subsection \<open>Sealing\<close>

record aead =
  NonceSize :: nat
  Seal :: "string \<Rightarrow> string \<Rightarrow> string"
  Open :: "string \<Rightarrow> string \<Rightarrow> string option"

datatype crypto_error = BadKey | RandError | BadBase64 | CiphertextTooShort | OpenFailed
  | KeyFileLength nat | KeyFileUnreadable | KeyFileWrite

type_synonym gcm_of = "string \<Rightarrow> aead option"

definition Encrypt :: "gcm_of \<Rightarrow> string option \<Rightarrow> string \<Rightarrow> string \<Rightarrow> crypto_error + string" where
  "Encrypt newGCM rnd key plaintext =
     (if plaintext = [] then Inr []
      else case newGCM key of
        None \<Rightarrow> Inl BadKey
      | Some gcm \<Rightarrow>
          (case rnd of
             None \<Rightarrow> Inl RandError
           | Some nonce \<Rightarrow> let sealed = nonce @ Seal gcm nonce plaintext in Inr (StdEncode sealed)))"

definition Decrypt :: "gcm_of \<Rightarrow> string \<Rightarrow> string \<Rightarrow> crypto_error + string" where
  "Decrypt newGCM key sealed =
     (if sealed = [] then Inr []
      else case newGCM key of
        None \<Rightarrow> Inl BadKey
      | Some gcm \<Rightarrow>
          (case StdDecode sealed of
             None \<Rightarrow> Inl BadBase64
           | Some raw \<Rightarrow>
               if length raw < NonceSize gcm then Inl CiphertextTooShort
               else case Open gcm (take (NonceSize gcm) raw) (drop (NonceSize gcm) raw) of
                      None \<Rightarrow> Inl OpenFailed
                    | Some pt \<Rightarrow> Inr pt))"

text \<open>What AEAD implementations document: a nonce of the right size, and \<open>Open\<close> returns what
  was sealed under the same nonce. An AEAD with a real tag never seals to the empty string.\<close>

definition aead_ok :: "aead \<Rightarrow> bool" where
  "aead_ok g \<longleftrightarrow> 0 < NonceSize g \<and>
     (\<forall>n pt. length n = NonceSize g \<longrightarrow> Open g n (Seal g n pt) = Some pt)"

subsection \<open>The key file\<close>

datatype write_outcome = Written | WriteFailed "string option"

definition KeyLen :: nat where "KeyLen = 32"

text \<open>\<open>read_fault\<close> is a read error other than a missing file; a failed write leaves what
  \<open>WriteFailed\<close> says (nothing, or a part of the key).\<close>

definition LoadOrCreateKey ::
  "string \<Rightarrow> bool \<Rightarrow> string option \<Rightarrow> write_outcome \<Rightarrow> (string \<rightharpoonup> string) \<Rightarrow>
   (crypto_error + string) \<times> (string \<rightharpoonup> string)" where
  "LoadOrCreateKey path read_fault rnd wr fs =
     (if read_fault then (Inl KeyFileUnreadable, fs)
      else case fs path of
        Some raw \<Rightarrow> if length raw \<noteq> KeyLen then (Inl (KeyFileLength (length raw)), fs) else (Inr raw, fs)
      | None \<Rightarrow>
          (case rnd of
             None \<Rightarrow> (Inl RandError, fs)
           | Some key \<Rightarrow>
               (case wr of
                  Written \<Rightarrow> (Inr key, fs(path \<mapsto> key))
                | WriteFailed part \<Rightarrow> (Inl KeyFileWrite, fs(path := part)))))"

subsection \<open>Lemmas\<close>

lemma StdEncode_Nil_iff: "StdEncode s = [] \<longleftrightarrow> s = []"
  by (cases s rule: sextets.cases) (auto simp: StdEncode_def pad4_def)

lemma Decrypt_sealed:
  assumes "newGCM key = Some g" "aead_ok g" "length n = NonceSize g"
  shows "Decrypt newGCM key (StdEncode (n @ Seal g n pt)) = Inr pt"
proof -
  have "n \<noteq> []" using assms(2,3) by (auto simp: aead_ok_def)
  with assms show ?thesis by (simp add: Decrypt_def StdEncode_Nil_iff Std_roundtrip aead_ok_def)
qed

text \<open>A concrete AEAD for the witnesses: a nonce of one byte and a check byte.\<close>

definition demo_gcm :: aead where
  "demo_gcm = \<lparr>NonceSize = 1, Seal = (\<lambda>n pt. ''*'' @ pt), Open = (\<lambda>n ct. if HasPrefix ct ''*'' then Some (tl ct) else None)\<rparr>"

lemma demo_gcm_ok: "aead_ok demo_gcm"
  by (simp add: aead_ok_def demo_gcm_def HasPrefix_def)

subsection \<open>Properties\<close>

text \<open>A secret survives storage: whenever the key is usable and the random source works,
  Encrypt succeeds and Decrypt of its result gives the secret back, the empty secret included.\<close>

theorem secret_roundtrip:
  assumes "newGCM key = Some g" and "aead_ok g" and "length n = NonceSize g"
  shows "\<exists>s. Encrypt newGCM (Some n) key pt = Inr s \<and> Decrypt newGCM key s = Inr pt \<and> (s = [] \<longleftrightarrow> pt = [])"
proof (cases "pt = []")
  case True
  then show ?thesis by (simp add: Encrypt_def Decrypt_def)
next
  case False
  have "n \<noteq> []" using assms(2,3) by (auto simp: aead_ok_def)
  with False assms show ?thesis
    by (simp add: Encrypt_def Decrypt_sealed StdEncode_Nil_iff)
qed

theorem secret_roundtrip_witness:
  "\<exists>s. Encrypt (\<lambda>_. Some demo_gcm) (Some ''n'') ''k'' ''secret'' = Inr s \<and>
     Decrypt (\<lambda>_. Some demo_gcm) ''k'' s = Inr ''secret''"
  using secret_roundtrip [of "\<lambda>_. Some demo_gcm" "''k''" demo_gcm "''n''" "''secret''"] demo_gcm_ok
  by (auto simp: demo_gcm_def)

text \<open>The key file is stable: once LoadOrCreateKey has returned a key, it has 32 bytes, and
  every later call on the same files returns the same key and leaves the files alone; so
  secrets sealed before a restart still open after it. A failed call never returns a key,
  and an existing key file is never overwritten.\<close>

theorem key_file_stable:
  assumes "\<forall>k. rnd = Some k \<longrightarrow> length k = KeyLen"
  shows "case LoadOrCreateKey path flt rnd wr fs of (r, fs') \<Rightarrow>
    (\<forall>k. r = Inr k \<longrightarrow> length k = KeyLen \<and> fs' path = Some k \<and>
       (\<forall>rnd' wr'. LoadOrCreateKey path False rnd' wr' fs' = (Inr k, fs'))) \<and>
    (\<forall>old. fs path = Some old \<longrightarrow> fs' = fs)"
  using assms by (auto simp: LoadOrCreateKey_def split: option.splits write_outcome.splits)

theorem key_file_stable_witness:
  "\<exists>fs'. LoadOrCreateKey ''data/key'' False (Some (replicate 32 CHR ''k'')) Written Map.empty =
     (Inr (replicate 32 CHR ''k''), fs') \<and>
     LoadOrCreateKey ''data/key'' False None (WriteFailed None) fs' = (Inr (replicate 32 CHR ''k''), fs')"
proof -
  have "LoadOrCreateKey ''data/key'' False (Some (replicate 32 CHR ''k'')) Written Map.empty =
      (Inr (replicate 32 CHR ''k''), [''data/key'' \<mapsto> replicate 32 CHR ''k''])"
    by (simp add: LoadOrCreateKey_def)
  with key_file_stable [where rnd = "Some (replicate 32 CHR ''k'')" and path = "''data/key''" and flt = False
      and wr = Written and fs = Map.empty]
  show ?thesis by (simp add: KeyLen_def)
qed

end
