(* ===== verification/Sampler_Hub.thy ===== *)
theory Sampler_Hub
  imports Sampler_Worker Store_Misc Cryptox
begin

text \<open>
  The sampling hub (\<^verbatim>\<open>sampler/hub.go\<close>): the set of running workers, flushing them into the
  store, reconciling them with the enabled nodes, maintenance and shutdown. The store errors
  a flush logs are ignored as the code ignores them. Clock readings are arguments, per worker
  where the code reads the clock per worker.
\<close>

subsection \<open>Operations\<close>

record hub =
  h_running :: bool
  h_workers :: "(string \<times> worker) list"

definition or_keep :: "db \<Rightarrow> db db_res \<Rightarrow> db" where
  "or_keep d r = (case r of Inl _ \<Rightarrow> d | Inr d' \<Rightarrow> d')"

definition flushWorker :: "int \<Rightarrow> worker \<Rightarrow> db \<Rightarrow> worker \<times> db" where
  "flushWorker now w d =
     (case Drain now w of ((samples, rollups, ipDeltas), w') \<Rightarrow>
        let d = (if ls_Online (Snapshot w') then SetLastOnline (w_nodeID w') now d else d)
        in if samples = [] \<and> ipDeltas = [] then (w', d)
           else let d = or_keep d (InsertTrafficSamples samples d);
                    d = or_keep d (UpsertRollups rollups d);
                    d = or_keep d (UpsertIPStats ipDeltas d)
                in (w', d))"

fun flush_all :: "int \<Rightarrow> (string \<times> worker) list \<Rightarrow> db \<Rightarrow> (string \<times> worker) list \<times> db" where
  "flush_all now [] d = ([], d)"
| "flush_all now ((i, w) # ws) d =
     (case flushWorker now w d of (w', d') \<Rightarrow>
        case flush_all now ws d' of (ws', d'') \<Rightarrow> ((i, w') # ws', d''))"

definition flushOnce :: "int \<Rightarrow> hub \<Rightarrow> db \<Rightarrow> hub \<times> db" where
  "flushOnce now h d = (case flush_all now (h_workers h) d of (ws, d') \<Rightarrow> (h\<lparr>h_workers := ws\<rparr>, d'))"

definition hub_settings :: "int \<Rightarrow> db \<Rightarrow> settings \<times> db" where
  "hub_settings now d =
     GetSettings now \<lparr>sd_SamplerIntervalSeconds = 2, sd_RetentionDays = 30, sd_IPLookupProviderURL = []\<rparr> d"

definition maintain :: "int \<Rightarrow> db \<Rightarrow> db" where
  "maintain now d =
     (case hub_settings now d of (st, d1) \<Rightarrow>
        DeleteExpiredTokens now (PruneTraffic now (st_retention_days st) d1))"

definition hub_Status :: "string \<Rightarrow> hub \<Rightarrow> live_status \<times> bool" where
  "hub_Status nodeID h =
     (case map_of (h_workers h) nodeID of None \<Rightarrow> (zero_status, False) | Some w \<Rightarrow> (Snapshot w, True))"

definition SetNodeMode :: "string \<Rightarrow> string \<Rightarrow> hub \<Rightarrow> hub" where
  "SetNodeMode nodeID mode h =
     h\<lparr>h_workers := map (\<lambda>(i, w). (i, if i = nodeID then SetMode mode w else w)) (h_workers h)\<rparr>"

definition Aggregate :: "hub \<Rightarrow> int \<times> int \<times> int \<times> int" where
  "Aggregate h = fold (\<lambda>(_, w) (up, down, online, total).
       let st = Snapshot w in
       if ls_Online st then (add64 up (ls_UpBPS st), add64 down (ls_DownBPS st), online + 1, total + 1)
       else (up, down, online, total + 1)) (h_workers h) (0, 0, 0, 0)"

text \<open>The worker set the enabled nodes call for: nodes without a Clash API have no worker.\<close>

definition desired_nodes :: "db \<Rightarrow> (string \<times> node) list" where
  "desired_nodes d = map (\<lambda>n. (n_ID n, n)) (filter (\<lambda>n. n_Enabled n \<and> n_APIURL n \<noteq> []) (ListNodes d))"

fun reload_running ::
  "(string \<Rightarrow> int) \<Rightarrow> (string \<times> node) list \<Rightarrow> int \<Rightarrow> (string \<times> worker) list \<Rightarrow> db \<Rightarrow> (string \<times> worker) list \<times> db" where
  "reload_running clock desired connInterval [] d = ([], d)"
| "reload_running clock desired connInterval ((i, w) # ws) d =
     (let changed = (case map_of desired i of
            None \<Rightarrow> True
          | Some want \<Rightarrow> n_APIURL want \<noteq> w_apiURL w \<or> n_APISecretEnc want \<noteq> w_apiSecretEnc w)
      in if changed then
           let w1 = Stop w;
               d1 = (case GetNode i d of Inr _ \<Rightarrow> snd (flushWorker (clock i) w1 d) | Inl _ \<Rightarrow> d);
               d2 = ClearActiveIPs i d1
           in reload_running clock desired connInterval ws d2
         else if w_connInterval w \<noteq> connInterval then
           (case flushWorker (clock i) (Stop w) d of (w1, d1) \<Rightarrow>
              case reload_running clock desired connInterval ws d1 of (ws', d2) \<Rightarrow>
                ((i, Start (w1\<lparr>w_connInterval := connInterval\<rparr>)) # ws', d2))
         else (case reload_running clock desired connInterval ws d of (ws', d2) \<Rightarrow> ((i, w) # ws', d2)))"

definition start_worker ::
  "gcm_of \<Rightarrow> string \<Rightarrow> (string \<Rightarrow> bool) \<Rightarrow> int \<Rightarrow> string \<times> node \<Rightarrow> (string \<times> worker) list \<Rightarrow> (string \<times> worker) list" where
  "start_worker newGCM key url_valid connInterval = (\<lambda>(i, n) ws.
     if map_of ws i \<noteq> None then ws
     else case Decrypt newGCM key (n_APISecretEnc n) of
            Inl _ \<Rightarrow> ws
          | Inr secret \<Rightarrow>
              ws @ [(i, Start ((newWorker url_valid (n_ID n) (n_Name n) (n_APIURL n) (n_APISecretEnc n))
                          \<lparr>w_connInterval := connInterval\<rparr>))])"

definition Reload ::
  "gcm_of \<Rightarrow> string \<Rightarrow> (string \<Rightarrow> bool) \<Rightarrow> (string \<Rightarrow> int) \<Rightarrow> int \<Rightarrow> hub \<Rightarrow> db \<Rightarrow> hub \<times> db" where
  "Reload newGCM key url_valid clock now h d =
     (if \<not> h_running h then (h, d)
      else case hub_settings now d of (st, d1) \<Rightarrow>
        let connInterval = i64 (st_sampler_interval_seconds st * 1000000000);
            desired = desired_nodes d1
        in case reload_running clock desired connInterval (h_workers h) d1 of (ws, d2) \<Rightarrow>
             (h\<lparr>h_workers := fold (start_worker newGCM key url_valid connInterval) desired ws\<rparr>, d2))"

definition hub_Start ::
  "gcm_of \<Rightarrow> string \<Rightarrow> (string \<Rightarrow> bool) \<Rightarrow> (string \<Rightarrow> int) \<Rightarrow> int \<Rightarrow> hub \<Rightarrow> db \<Rightarrow> hub \<times> db" where
  "hub_Start newGCM key url_valid clock now h d =
     Reload newGCM key url_valid clock now (h\<lparr>h_running := True\<rparr>) (maintain now (ClearActiveIPs [] d))"

fun stop_all :: "(string \<Rightarrow> int) \<Rightarrow> (string \<times> worker) list \<Rightarrow> db \<Rightarrow> db" where
  "stop_all clock [] d = d"
| "stop_all clock ((i, w) # ws) d = stop_all clock ws (snd (flushWorker (clock i) (Stop w) d))"

definition hub_Stop :: "(string \<Rightarrow> int) \<Rightarrow> hub \<Rightarrow> db \<Rightarrow> hub \<times> db" where
  "hub_Stop clock h d =
     (h\<lparr>h_running := False, h_workers := []\<rparr>, ClearActiveIPs [] (stop_all clock (h_workers h) d))"

subsection \<open>Lemmas: one flush\<close>

lemma or_keep_ok: "db_ok d \<Longrightarrow> (\<And>d'. r = Inr d' \<Longrightarrow> db_ok d') \<Longrightarrow> db_ok (or_keep d r)"
  by (auto simp: or_keep_def split: sum.splits)

lemma Drain_nodeID [simp]: "w_nodeID (snd (Drain now w)) = w_nodeID w" "w_state (snd (Drain now w)) = w_state w"
  by (simp_all add: Drain_def Let_def)

lemma flushWorker_db_ok: "db_ok d \<Longrightarrow> db_ok (snd (flushWorker now w d))"
proof -
  assume ok: "db_ok d"
  obtain s r x w' where dr: "Drain now w = ((s, r, x), w')" by (metis prod.exhaust)
  define d0 where "d0 = (if ls_Online (Snapshot w') then SetLastOnline (w_nodeID w') now d else d)"
  define d1 where "d1 = or_keep d0 (InsertTrafficSamples s d0)"
  define d2 where "d2 = or_keep d1 (UpsertRollups r d1)"
  have "db_ok d0" using ok by (simp add: d0_def SetLastOnline_ok)
  moreover from this have "db_ok d1" unfolding d1_def by (intro or_keep_ok) (auto intro: InsertTrafficSamples_ok)
  moreover from this have "db_ok d2" unfolding d2_def by (intro or_keep_ok) (auto intro: UpsertRollups_ok)
  moreover from this have "db_ok (or_keep d2 (UpsertIPStats x d2))" by (intro or_keep_ok) (auto intro: UpsertIPStats_ok)
  moreover have "snd (flushWorker now w d) = (if s = [] \<and> x = [] then d0 else or_keep d2 (UpsertIPStats x d2))"
    by (simp add: flushWorker_def dr d0_def [symmetric] Let_def d1_def [symmetric] d2_def [symmetric])
  ultimately show ?thesis by simp
qed

lemma InsertTrafficSamples_frame:
  assumes "InsertTrafficSamples s d = Inr d'"
  shows "traffic_rollup d' = traffic_rollup d \<and> nodes d' = nodes d \<and> ip_stats d' = ip_stats d"
proof -
  have "traffic_rollup e' = traffic_rollup d \<and> nodes e' = nodes d \<and> ip_stats e' = ip_stats d"
    if "exec_each insert_sample s d = Inr e'" for e'
    by (rule exec_each_invariant [OF that]) (auto simp: insert_sample_def split: if_splits)
  with assms show ?thesis by (auto simp: InsertTrafficSamples_def split: if_splits)
qed

lemma UpsertIPStats_frame:
  assumes "UpsertIPStats x d = Inr d'"
  shows "traffic_rollup d' = traffic_rollup d \<and> nodes d' = nodes d"
proof -
  have "traffic_rollup e' = traffic_rollup d \<and> nodes e' = nodes d" if "exec_each insert_delta x d = Inr e'" for e'
    by (rule exec_each_invariant [OF that]) (auto simp: insert_delta_def split: if_splits)
  with assms show ?thesis by (auto simp: UpsertIPStats_def split: if_splits)
qed

lemma SumAll_cong: "traffic_rollup d = traffic_rollup d' \<Longrightarrow> SumAll n d = SumAll n d'"
  by (simp add: SumAll_def)

lemma flushWorker_totals:
  assumes "db_ok d" and "node_exists (w_nodeID w) d"
  shows "SumAll n (snd (flushWorker now w d)) =
    (if n = w_nodeID w then (fst (SumAll n d) + w_sumUp w, snd (SumAll n d) + w_sumDown w) else SumAll n d)"
proof -
  obtain s r x w' where dr: "Drain now w = ((s, r, x), w')" by (metis prod.exhaust)
  define d0 where "d0 = (if ls_Online (Snapshot w') then SetLastOnline (w_nodeID w') now d else d)"
  define d1 where "d1 = or_keep d0 (InsertTrafficSamples s d0)"
  define d2 where "d2 = or_keep d1 (UpsertRollups r d1)"
  define d3 where "d3 = or_keep d2 (UpsertIPStats x d2)"
  have fl: "snd (flushWorker now w d) = (if s = [] \<and> x = [] then d0 else d3)"
    by (simp add: flushWorker_def dr d0_def [symmetric] Let_def d1_def [symmetric] d2_def [symmetric] d3_def [symmetric])
  have ok0: "db_ok d0" using assms(1) by (simp add: d0_def SetLastOnline_ok)
  then have ok1: "db_ok d1" unfolding d1_def by (intro or_keep_ok) (auto intro: InsertTrafficSamples_ok)
  have r0: "traffic_rollup d0 = traffic_rollup d" and "map nr_id (nodes d0) = map nr_id (nodes d)"
    by (auto simp: d0_def SetLastOnline_def intro: map_key_update_where)
  then have ex0: "node_exists (w_nodeID w) d0"
    using assms(2) unfolding node_exists_iff by (metis list.set_map)
  have r1: "traffic_rollup d1 = traffic_rollup d" and ex1: "node_exists (w_nodeID w) d1"
    using InsertTrafficSamples_frame [of s d0] r0 ex0
    by (auto simp: d1_def or_keep_def node_exists_def split: sum.splits)
  have r3: "traffic_rollup d3 = traffic_rollup d2"
    using UpsertIPStats_frame [of x d2] by (auto simp: d3_def or_keep_def split: sum.splits)
  show ?thesis
  proof (cases "w_sumUp w = 0 \<and> w_sumDown w = 0 \<and> w_ipAcc w = [] \<and> w_perIPActive w = []")
    case True
    with dr have "s = []" "x = []" by (simp_all add: Drain_def)
    with fl r0 True show ?thesis by (simp add: SumAll_cong [of d0 d])
  next
    case False
    with dr have s: "s \<noteq> []" and r: "r = [rollup ''minute'' (bucket now 60) w, rollup ''hour'' (bucket now 3600) w,
        rollup ''day'' (bucket now 86400) w]" by (auto simp: Drain_def Let_def)
    have "\<forall>y \<in> set r. node_exists (rr_node_id y) d1" using ex1 by (simp add: r rollup_def)
    then obtain d2' where u: "UpsertRollups r d1 = Inr d2'"
      using exec_insert_rollup_total [of r d1] by (auto simp: UpsertRollups_def r)
    then have "d2 = d2'" by (simp add: d2_def or_keep_def)
    with UpsertRollups_totals [OF ok1 u, of "\<lambda>(m, iv, b). m = n \<and> iv = ''minute''"] r1 r3 fl s
    show ?thesis
      unfolding SumAll_def Let_def by (auto simp: col_total_def rollup_key_def r rollup_def)
  qed
qed

lemma flushWorker_worker: "fst (flushWorker now w d) = snd (Drain now w)"
  by (simp add: flushWorker_def Let_def case_prod_unfold)

lemma Drain_sums: "w_sumUp (snd (Drain now w)) = 0" "w_sumDown (snd (Drain now w)) = 0"
  by (auto simp: Drain_def Let_def)

lemma flushWorker_nodes:
  "map nr_id (nodes (snd (flushWorker now w d))) = map nr_id (nodes d)"
proof -
  obtain s r x w' where dr: "Drain now w = ((s, r, x), w')" by (metis prod.exhaust)
  have keep: "nodes (or_keep e (InsertTrafficSamples s e)) = nodes e" "nodes (or_keep e (UpsertIPStats x e)) = nodes e"
    "nodes (or_keep e (UpsertRollups r e)) = nodes e" for e
    using InsertTrafficSamples_frame [of s e] UpsertIPStats_frame [of x e] exec_insert_rollup [of r e]
    by (auto simp: or_keep_def UpsertRollups_def split: sum.splits if_splits)
  have "map nr_id (nodes (SetLastOnline i now d)) = map nr_id (nodes d)" for i
    unfolding SetLastOnline_def by simp (rule map_key_update_where, simp)
  then show ?thesis by (simp add: flushWorker_def dr Let_def keep)
qed

subsection \<open>Lemmas: reconciliation\<close>

definition hub_ok :: "hub \<Rightarrow> bool" where
  "hub_ok h \<longleftrightarrow> distinct (map fst (h_workers h)) \<and> (\<forall>(i, w) \<in> set (h_workers h). w_nodeID w = i)"

definition matches :: "(string \<times> node) list \<Rightarrow> string \<times> worker \<Rightarrow> bool" where
  "matches desired = (\<lambda>(i, w). \<exists>n. map_of desired i = Some n \<and> n_APIURL n = w_apiURL w \<and> n_APISecretEnc n = w_apiSecretEnc w)"

lemma Drain_identity [simp]:
  "w_apiURL (snd (Drain now w)) = w_apiURL w" "w_apiSecretEnc (snd (Drain now w)) = w_apiSecretEnc w"
  by (simp_all add: Drain_def Let_def)

lemma Stop_identity [simp]:
  "w_apiURL (Stop w) = w_apiURL w" "w_apiSecretEnc (Stop w) = w_apiSecretEnc w" "w_nodeID (Stop w) = w_nodeID w"
  by (simp_all add: Stop_def markOffline_def Let_def)

lemma reload_running_spec:
  "case reload_running clock desired ci ws d of (ws', d') \<Rightarrow>
     map fst ws' = map fst (filter (matches desired) ws) \<and>
     (\<forall>i w'. (i, w') \<in> set ws' \<longrightarrow> (\<exists>w. (i, w) \<in> set ws \<and> matches desired (i, w') \<and> w_nodeID w' = w_nodeID w \<and>
        w_connInterval w' = ci \<and> (w_connInterval w = ci \<longrightarrow> w' = w)))"
proof (induction ws arbitrary: d)
  case (Cons x ws)
  obtain i w where x: "x = (i, w)" by (cases x)
  show ?case
  proof (cases "matches desired (i, w)")
    case False
    then have ch: "(case map_of desired i of None \<Rightarrow> True
      | Some want \<Rightarrow> n_APIURL want \<noteq> w_apiURL w \<or> n_APISecretEnc want \<noteq> w_apiSecretEnc w)"
      by (auto simp: matches_def split: option.splits)
    define d2 where "d2 = ClearActiveIPs i (case GetNode i d of Inr _ \<Rightarrow> snd (flushWorker (clock i) (Stop w) d) | Inl _ \<Rightarrow> d)"
    have "reload_running clock desired ci (x # ws) d = reload_running clock desired ci ws d2"
      using ch by (simp add: x d2_def)
    with Cons.IH [of d2] False show ?thesis by (auto simp: x split: prod.splits)
  next
    case True
    then have ch: "\<not> (case map_of desired i of None \<Rightarrow> True
      | Some want \<Rightarrow> n_APIURL want \<noteq> w_apiURL w \<or> n_APISecretEnc want \<noteq> w_apiSecretEnc w)"
      by (auto simp: matches_def)
    show ?thesis
    proof (cases "w_connInterval w = ci")
      case same: True
      obtain ws' d' where r: "reload_running clock desired ci ws d = (ws', d')" by fastforce
      have "reload_running clock desired ci (x # ws) d = ((i, w) # ws', d')"
        using ch same r by (simp add: x)
      with Cons.IH [of d] r True same show ?thesis by (fastforce simp: x)
    next
      case diff: False
      obtain w1 d1 where f: "flushWorker (clock i) (Stop w) d = (w1, d1)" by fastforce
      then have w1: "w1 = snd (Drain (clock i) (Stop w))" using flushWorker_worker [of "clock i" "Stop w" d] by simp
      obtain ws' d' where r: "reload_running clock desired ci ws d1 = (ws', d')" by fastforce
      have "reload_running clock desired ci (x # ws) d = ((i, Start (w1\<lparr>w_connInterval := ci\<rparr>)) # ws', d')"
        using ch diff f r by (simp add: x)
      moreover have "matches desired (i, Start (w1\<lparr>w_connInterval := ci\<rparr>))" "w_nodeID w1 = w_nodeID w"
        using True by (simp_all add: matches_def w1 Start_def)
      ultimately show ?thesis using Cons.IH [of d1] r True diff by (fastforce simp: x Start_def)
    qed
  qed
qed simp

lemma start_workers_spec:
  assumes "distinct (map fst desired)" and "distinct (map fst ws)"
    and "\<forall>(i, n) \<in> set desired. \<exists>s. Decrypt newGCM key (n_APISecretEnc n) = Inr s"
  shows "distinct (map fst (fold (start_worker newGCM key valid ci) desired ws)) \<and>
    (\<forall>i w. (i, w) \<in> set (fold (start_worker newGCM key valid ci) desired ws) \<longleftrightarrow>
       (i, w) \<in> set ws \<or> (i \<notin> fst ` set ws \<and> (\<exists>n. (i, n) \<in> set desired \<and>
          w = Start ((newWorker valid (n_ID n) (n_Name n) (n_APIURL n) (n_APISecretEnc n))\<lparr>w_connInterval := ci\<rparr>))))"
  using assms
proof (induction desired arbitrary: ws)
  case (Cons x desired)
  obtain j m where x: "x = (j, m)" by (cases x)
  let ?new = "Start ((newWorker valid (n_ID m) (n_Name m) (n_APIURL m) (n_APISecretEnc m))\<lparr>w_connInterval := ci\<rparr>)"
  obtain s where s: "Decrypt newGCM key (n_APISecretEnc m) = Inr s" using Cons.prems(3) by (auto simp: x)
  have step: "start_worker newGCM key valid ci x ws = (if j \<in> fst ` set ws then ws else ws @ [(j, ?new)])"
    using s by (auto simp: x start_worker_def map_of_eq_None_iff)
  have j: "j \<notin> fst ` set desired" using Cons.prems(1) by (simp add: x)
  show ?case
  proof (cases "j \<in> fst ` set ws")
    case True
    with Cons.IH [of ws] Cons.prems step show ?thesis by (auto simp: x image_iff)
  next
    case False
    have "distinct (map fst (ws @ [(j, ?new)]))" using False Cons.prems(2) by simp
    from Cons.IH [OF _ this] Cons.prems step False j show ?thesis
      by (auto simp: x image_iff)
  qed
qed simp

lemma hub_settings_nodes: "nodes (snd (hub_settings now d)) = nodes d"
  by (simp add: hub_settings_def GetSettings_def Let_def split: option.splits)

lemma desired_nodes_cong: "nodes d = nodes d' \<Longrightarrow> desired_nodes d = desired_nodes d'"
  by (simp add: desired_nodes_def ListNodes_def)

lemma desired_nodes_distinct:
  assumes "db_ok d"
  shows "distinct (map fst (desired_nodes d))"
proof -
  have "distinct (map nr_id (sort_key nr_name (nodes d)))"
    using assms by (simp add: db_ok_simps distinct_map)
  then show ?thesis
    by (simp add: desired_nodes_def ListNodes_def filter_map comp_def scanNode_def distinct_map_filter)
qed

lemma desired_nodes_ids: "(i, n) \<in> set (desired_nodes d) \<Longrightarrow> n_ID n = i"
  by (auto simp: desired_nodes_def)

subsection \<open>Properties\<close>

text \<open>The events of a sampled node: frames, going online and offline, and flushes.\<close>

datatype sampler_event = EvFrame frame | EvOnline int string string "memory_message option"
  | EvOffline "string option" | EvFlush int

fun sampler_event_step :: "sampler_event \<Rightarrow> worker \<times> db \<Rightarrow> worker \<times> db" where
  "sampler_event_step (EvFrame f) (w, d) = (apply_frame f w, d)"
| "sampler_event_step (EvOnline t v m mem) (w, d) = (markOnline t v m mem w, d)"
| "sampler_event_step (EvOffline e) (w, d) = (markOffline e w, d)"
| "sampler_event_step (EvFlush now) (w, d) = flushWorker now w d"

fun frame_bytes :: "bool \<Rightarrow> sampler_event \<Rightarrow> int" where
  "frame_bytes up (EvFrame (TrafficFrame m)) = (if up then tm_Up m else tm_Down m)"
| "frame_bytes up _ = 0"

definition stored_and_pending :: "bool \<Rightarrow> worker \<times> db \<Rightarrow> int" where
  "stored_and_pending up s = (let t = SumAll (w_nodeID (fst s)) (snd s)
     in if up then fst t + w_sumUp (fst s) else snd t + w_sumDown (fst s))"

lemma sampler_step_bytes:
  assumes "db_ok (snd s)" and "node_exists (w_nodeID (fst s)) (snd s)"
  shows "i64 (stored_and_pending up (sampler_event_step ev s)) = i64 (stored_and_pending up s + frame_bytes up ev) \<and>
    db_ok (snd (sampler_event_step ev s)) \<and> w_nodeID (fst (sampler_event_step ev s)) = w_nodeID (fst s) \<and>
    node_exists (w_nodeID (fst s)) (snd (sampler_event_step ev s))"
proof -
  obtain w d where s: "s = (w, d)" by (cases s)
  show ?thesis
  proof (cases ev)
    case (EvFrame f)
    then show ?thesis using assms
      by (cases f) (auto simp: s stored_and_pending_def accumulateTraffic_def add64_def Let_def algebra_simps)
  next
    case (EvOnline t v m mem)
    then show ?thesis using assms by (simp add: s stored_and_pending_def markOnline_def Let_def)
  next
    case (EvOffline e)
    then show ?thesis using assms by (simp add: s stored_and_pending_def markOffline_def Let_def)
  next
    case (EvFlush now)
    have "nr_id ` set (nodes (snd (flushWorker now w d))) = nr_id ` set (nodes d)"
      using flushWorker_nodes [of now w d] by (metis list.set_map)
    then show ?thesis
      using assms EvFlush flushWorker_totals [of d w "w_nodeID w" now] flushWorker_db_ok [of d now w]
      by (simp add: s stored_and_pending_def flushWorker_worker Drain_sums Let_def node_exists_iff)
  qed
qed

text \<open>C26: every sampled byte is stored exactly once: over any interleaving of traffic frames,
  connection frames, reconnects and flushes of a registered node, the all-time total of
  the node in the store plus what the worker still holds equals what was there
  before plus the bytes of all traffic frames received, in int64 arithmetic.\<close>

theorem traffic_stored_once:
  assumes "db_ok d" and "node_exists (w_nodeID w) d"
  shows "i64 (stored_and_pending up (fold sampler_event_step evs (w, d))) =
         i64 (stored_and_pending up (w, d) + sum_list (map (frame_bytes up) evs))"
proof -
  have "i64 (stored_and_pending up (fold sampler_event_step evs s)) =
      i64 (stored_and_pending up s + sum_list (map (frame_bytes up) evs))"
    if "db_ok (snd s)" "node_exists (w_nodeID (fst s)) (snd s)" for s
    using that
  proof (induction evs arbitrary: s)
    case (Cons ev evs)
    note st = sampler_step_bytes [OF Cons.prems, of up ev]
    have next_ok: "db_ok (snd (sampler_event_step ev s))"
      "node_exists (w_nodeID (fst (sampler_event_step ev s))) (snd (sampler_event_step ev s))"
      using st by simp_all
    have "i64 (stored_and_pending up (fold sampler_event_step (ev # evs) s)) =
        i64 (i64 (stored_and_pending up (sampler_event_step ev s)) + sum_list (map (frame_bytes up) evs))"
      using Cons.IH [OF next_ok] by simp
    also have "\<dots> = i64 (stored_and_pending up s + sum_list (map (frame_bytes up) (ev # evs)))"
      unfolding st [THEN conjunct1] by (simp add: algebra_simps)
    finally show ?case .
  qed simp
  from this [of "(w, d)"] assms show ?thesis by simp
qed

theorem traffic_stored_once_witness:
  "i64 (stored_and_pending True (fold sampler_event_step
      [EvFrame (TrafficFrame \<lparr>tm_Up = 5, tm_Down = 1\<rparr>), EvFlush 60, EvFrame (TrafficFrame \<lparr>tm_Up = 7, tm_Down = 1\<rparr>)]
      (newWorker (\<lambda>_. True) ''n1'' ''tokyo'' ''http://h'' [], demo_nodes_db))) = 12"
proof -
  let ?w = "newWorker (\<lambda>_. True) ''n1'' ''tokyo'' ''http://h'' []"
  let ?evs = "[EvFrame (TrafficFrame \<lparr>tm_Up = 5, tm_Down = 1\<rparr>), EvFlush 60, EvFrame (TrafficFrame \<lparr>tm_Up = 7, tm_Down = 1\<rparr>)]"
  have zero: "stored_and_pending True (?w, demo_nodes_db) = 0"
    by (simp add: stored_and_pending_def newWorker_def SumAll_def col_total_def demo_nodes_db_def empty_db_def Let_def)
  have "node_exists (w_nodeID ?w) demo_nodes_db"
    using demo_nodes_db_ok(2) by (simp add: newWorker_def)
  from traffic_stored_once [OF demo_nodes_db_ok(1) this, of True ?evs]
  have "i64 (stored_and_pending True (fold sampler_event_step ?evs (?w, demo_nodes_db))) =
      i64 (sum_list (map (frame_bytes True) ?evs))" unfolding zero by (simp only: add_0)
  also have "\<dots> = 12" by (simp add: i64_def)
  finally show ?thesis .
qed

text \<open>Reconciliation is exact: after Reload on a running hub, there is one worker for each
  enabled node that has an API address and for nothing else, each with the address and
  secret of its node and the configured interval, and a worker whose node and interval did
  not change is left as it was, counters included.\<close>

theorem reload_reconciles:
  assumes "h_running h" and "hub_ok h" and "db_ok d"
    and "\<forall>(i, n) \<in> set (desired_nodes d). \<exists>s. Decrypt newGCM key (n_APISecretEnc n) = Inr s"
  shows "let h' = fst (Reload newGCM key valid clock now h d);
             ci = i64 (st_sampler_interval_seconds (fst (hub_settings now d)) * 1000000000)
         in hub_ok h' \<and> fst ` set (h_workers h') = fst ` set (desired_nodes d) \<and>
            (\<forall>(i, w) \<in> set (h_workers h'). matches (desired_nodes d) (i, w) \<and> w_connInterval w = ci) \<and>
            (\<forall>(i, w) \<in> set (h_workers h). matches (desired_nodes d) (i, w) \<and> w_connInterval w = ci \<longrightarrow>
               (i, w) \<in> set (h_workers h'))"
proof -
  obtain st d1 where hs: "hub_settings now d = (st, d1)" by fastforce
  define ci where "ci = i64 (st_sampler_interval_seconds st * 1000000000)"
  let ?D = "desired_nodes d"
  have D: "desired_nodes d1 = ?D"
    using hub_settings_nodes [of now d] hs by (intro desired_nodes_cong) simp
  obtain ws d2 where rr: "reload_running clock ?D ci (h_workers h) d1 = (ws, d2)" by fastforce
  define out where "out = fold (start_worker newGCM key valid ci) ?D ws"
  have h': "h_workers (fst (Reload newGCM key valid clock now h d)) = out"
    using assms(1) by (simp add: Reload_def hs D ci_def [symmetric] rr out_def Let_def)
  note spec = reload_running_spec [where clock = clock and desired = ?D and ci = ci and ws = "h_workers h" and d = d1, unfolded rr, simplified]
  have dw: "distinct (map fst (h_workers h))" and idw: "\<And>i w. (i, w) \<in> set (h_workers h) \<Longrightarrow> w_nodeID w = i"
    using assms(2) by (auto simp: hub_ok_def)
  have dws: "distinct (map fst ws)" using spec dw by (simp add: distinct_map_filter)
  note out = start_workers_spec [OF desired_nodes_distinct [OF assms(3)] dws assms(4), of valid ci, folded out_def]
  have old: "matches ?D (i, w) \<and> w_nodeID w = i \<and> w_connInterval w = ci" if "(i, w) \<in> set ws" for i w
    using spec that idw by blast
  have new: "matches ?D (i, w) \<and> w_nodeID w = i \<and> w_connInterval w = ci"
    if "(i, n) \<in> set ?D" "w = Start ((newWorker valid (n_ID n) (n_Name n) (n_APIURL n) (n_APISecretEnc n))\<lparr>w_connInterval := ci\<rparr>)"
    for i n w
    using that desired_nodes_ids [OF that(1)] map_of_is_SomeI [OF desired_nodes_distinct [OF assms(3)] that(1)]
    by (simp add: matches_def newWorker_def Start_def)
  have each: "matches ?D (i, w) \<and> w_nodeID w = i \<and> w_connInterval w = ci" if "(i, w) \<in> set out" for i w
    using that out old new by blast
  have sub: "fst ` set out \<subseteq> fst ` set ?D"
  proof
    fix i assume "i \<in> fst ` set out"
    then obtain w where "(i, w) \<in> set out" by force
    from each [OF this] obtain n where "map_of ?D i = Some n" by (auto simp: matches_def)
    then show "i \<in> fst ` set ?D" by (metis map_of_SomeD fst_conv image_eqI)
  qed
  have "i \<in> fst ` set out" if "(i, n) \<in> set ?D" for i n
  proof (cases "i \<in> fst ` set ws")
    case True
    then obtain w where "(i, w) \<in> set ws" by force
    with out show ?thesis by force
  next
    case False
    with out that show ?thesis by force
  qed
  with sub have ids: "fst ` set out = fst ` set ?D" by force
  have stay: "(i, w) \<in> set out" if w: "(i, w) \<in> set (h_workers h)" "matches ?D (i, w)" "w_connInterval w = ci" for i w
  proof -
    have "i \<in> set (map fst ws)" using spec w by force
    then obtain w' where "(i, w') \<in> set ws" by force
    with spec obtain v where "(i, v) \<in> set (h_workers h)" "w_connInterval v = ci \<longrightarrow> w' = v" by blast
    with w dw have "w' = w" by (metis eq_key_imp_eq_value)
    with \<open>(i, w') \<in> set ws\<close> out show ?thesis by blast
  qed
  have "distinct (map fst out)" using out by blast
  moreover have "\<forall>(i, w) \<in> set out. w_nodeID w = i" using each by blast
  moreover have "\<forall>(i, w) \<in> set out. matches ?D (i, w) \<and> w_connInterval w = ci" using each by blast
  moreover have "\<forall>(i, w) \<in> set (h_workers h). matches ?D (i, w) \<and> w_connInterval w = ci \<longrightarrow> (i, w) \<in> set out"
    using stay by blast
  ultimately show ?thesis
    unfolding Let_def h' hs fst_conv ci_def [symmetric] hub_ok_def using ids by blast
qed

definition demo_hub :: hub where
  "demo_hub = \<lparr>h_running = True, h_workers = []\<rparr>"

theorem reload_reconciles_witness:
  "fst ` set (h_workers (fst (Reload (\<lambda>_. Some demo_gcm) ''k'' (\<lambda>_. True) (\<lambda>_. 5) 5 demo_hub demo_nodes_db))) = {''n1''}"
proof -
  have D: "desired_nodes demo_nodes_db = [(''n1'', scanNode (node_columns demo_node 1 1 0))]"
    by (simp add: desired_nodes_def ListNodes_def demo_nodes_db_def empty_db_def scanNode_def node_columns_def
        demo_node_def boolInt_def)
  have "\<forall>(i, n) \<in> set (desired_nodes demo_nodes_db). \<exists>s. Decrypt (\<lambda>_. Some demo_gcm) ''k'' (n_APISecretEnc n) = Inr s"
    by (simp add: D scanNode_def node_columns_def demo_node_def Decrypt_def)
  from reload_reconciles [OF _ _ demo_nodes_db_ok(1) this, of demo_hub "\<lambda>_. True" "\<lambda>_. 5" 5] show ?thesis
    by (simp add: Let_def D demo_hub_def hub_ok_def)
qed

lemma Stop_sums [simp]: "w_sumUp (Stop w) = w_sumUp w" "w_sumDown (Stop w) = w_sumDown w"
  by (simp_all add: Stop_def markOffline_def Let_def)

lemma stop_all_totals:
  assumes "distinct (map fst ws)" and "\<forall>(i, w) \<in> set ws. w_nodeID w = i \<and> node_exists i d" and "db_ok d"
  shows "SumAll n (stop_all clock ws d) =
    (case map_of ws n of None \<Rightarrow> SumAll n d | Some w \<Rightarrow> (fst (SumAll n d) + w_sumUp w, snd (SumAll n d) + w_sumDown w))"
  using assms
proof (induction ws arbitrary: d)
  case (Cons x ws)
  obtain i w where x: "x = (i, w)" by (cases x)
  let ?d = "snd (flushWorker (clock i) (Stop w) d)"
  have "nr_id ` set (nodes ?d) = nr_id ` set (nodes d)"
    using flushWorker_nodes [of "clock i" "Stop w" d] by (metis list.set_map)
  then have "node_exists j ?d = node_exists j d" for j by (simp add: node_exists_iff)
  then have IH: "SumAll n (stop_all clock ws ?d) =
      (case map_of ws n of None \<Rightarrow> SumAll n ?d | Some w \<Rightarrow> (fst (SumAll n ?d) + w_sumUp w, snd (SumAll n ?d) + w_sumDown w))"
    using Cons.prems flushWorker_db_ok [of d "clock i" "Stop w"] by (intro Cons.IH) (auto simp: x)
  have one: "SumAll n ?d = (if n = i then (fst (SumAll n d) + w_sumUp w, snd (SumAll n d) + w_sumDown w) else SumAll n d)"
    using flushWorker_totals [of d "Stop w" n "clock i"] Cons.prems by (simp add: x)
  have "map_of ws i = None" using Cons.prems(1) by (simp add: x map_of_eq_None_iff)
  with IH one show ?case by (auto simp: x split: option.splits)
qed simp

text \<open>Shutdown loses nothing: stopping the hub stores what every worker of a registered node
  still holds into the totals of that node and leaves the other nodes' totals alone, leaves no
  worker running and no address marked active.\<close>

theorem shutdown_loses_nothing:
  assumes "hub_ok h" and "\<forall>(i, w) \<in> set (h_workers h). node_exists i d" and "db_ok d"
  shows "case hub_Stop clock h d of (h', d') \<Rightarrow>
    (\<forall>n. SumAll n d' = (case map_of (h_workers h) n of
        None \<Rightarrow> SumAll n d
      | Some w \<Rightarrow> (fst (SumAll n d) + w_sumUp w, snd (SumAll n d) + w_sumDown w))) \<and>
    h_workers h' = [] \<and> \<not> h_running h' \<and> (\<forall>r \<in> set (ip_stats d'). is_active_connections r = 0)"
proof -
  have "SumAll n (ClearActiveIPs [] d') = SumAll n d'" for n d' by (simp add: SumAll_def ClearActiveIPs_def)
  moreover have "SumAll n (stop_all clock (h_workers h) d) = (case map_of (h_workers h) n of
        None \<Rightarrow> SumAll n d | Some w \<Rightarrow> (fst (SumAll n d) + w_sumUp w, snd (SumAll n d) + w_sumDown w))" for n
    using assms by (intro stop_all_totals) (auto simp: hub_ok_def)
  moreover have "\<forall>r \<in> set (ip_stats (ClearActiveIPs [] d')). is_active_connections r = 0" for d'
    by (auto simp: ClearActiveIPs_def set_update_where)
  ultimately show ?thesis by (simp add: hub_Stop_def)
qed

theorem shutdown_loses_nothing_witness:
  "SumAll ''n1'' (snd (hub_Stop (\<lambda>_. 60)
     \<lparr>h_running = True, h_workers = [(''n1'', accumulateTraffic \<lparr>tm_Up = 5, tm_Down = 8\<rparr>
        (newWorker (\<lambda>_. True) ''n1'' ''tokyo'' ''http://h'' []))]\<rparr> demo_nodes_db)) = (5, 8)"
proof -
  let ?h = "\<lparr>h_running = True, h_workers = [(''n1'', accumulateTraffic \<lparr>tm_Up = 5, tm_Down = 8\<rparr>
        (newWorker (\<lambda>_. True) ''n1'' ''tokyo'' ''http://h'' []))]\<rparr>"
  have "hub_ok ?h" by (simp add: hub_ok_def accumulateTraffic_def newWorker_def)
  from shutdown_loses_nothing [OF this _ demo_nodes_db_ok(1), of "\<lambda>_. 60"] demo_nodes_db_ok(2)
  have "SumAll ''n1'' (snd (hub_Stop (\<lambda>_. 60) ?h demo_nodes_db)) =
      (fst (SumAll ''n1'' demo_nodes_db) + 5, snd (SumAll ''n1'' demo_nodes_db) + 8)"
    by (simp add: accumulateTraffic_def newWorker_def add64_def i64_def case_prod_unfold)
  then show ?thesis by (simp add: SumAll_def col_total_def demo_nodes_db_def empty_db_def)
qed

end
