(* ===== verification/Subscribe_Outbound.thy ===== *)
theory Subscribe_Outbound
  imports Base64 "HOL-Library.AList"
begin

text \<open>
  Export of stored outbounds (\<^verbatim>\<open>subscribe/parse.go\<close>, \<^verbatim>\<open>uri.go\<close>, \<^verbatim>\<open>clash.go\<close>, \<^verbatim>\<open>generate.go\<close>,
  \<^verbatim>\<open>outbound_server.go\<close>). Decoded JSON and YAML documents are values of one type; the text
  formats (\<^verbatim>\<open>encoding/json\<close>, \<^verbatim>\<open>yaml.v3\<close>) are parameters. A float carries its conversion to
  \<^verbatim>\<open>int\<close> and its shortest decimal text, a raw message its text. Go maps are association lists.
\<close>

subsection \<open>Documents\<close>

datatype json = JNull | JBool bool | JInt int | JFloat int string | JStr string
  | JArr "json list" | JObj "(string \<times> json) list" | JRaw string

type_synonym json_map = "(string \<times> json) list"
type_synonym json_unmarshal = "string \<Rightarrow> json option"
type_synonym json_marshal = "json \<Rightarrow> string option"

definition getStr :: "json_map \<Rightarrow> string \<Rightarrow> string" where
  "getStr m key = (case map_of m key of Some (JStr s) \<Rightarrow> s | _ \<Rightarrow> [])"

definition getInt :: "json_map \<Rightarrow> string \<Rightarrow> int" where
  "getInt m key = (case map_of m key of Some (JFloat n _) \<Rightarrow> n | Some (JInt n) \<Rightarrow> n | _ \<Rightarrow> 0)"

definition getBool :: "json_map \<Rightarrow> string \<Rightarrow> bool" where
  "getBool m key = (case map_of m key of Some (JBool b) \<Rightarrow> b | _ \<Rightarrow> False)"

definition getMap :: "json_map \<Rightarrow> string \<Rightarrow> json_map option" where
  "getMap m key = (case map_of m key of Some (JObj x) \<Rightarrow> Some x | _ \<Rightarrow> None)"

definition getStrSlice :: "json_map \<Rightarrow> string \<Rightarrow> string list" where
  "getStrSlice m key = (case map_of m key of
     Some (JArr raw) \<Rightarrow> List.map_filter (\<lambda>v. case v of JStr s \<Rightarrow> Some s | _ \<Rightarrow> None) raw
   | _ \<Rightarrow> [])"

subsection \<open>Outbounds\<close>

datatype sub_error = BadJSON | NoTypeField | MissingFields string | UnsupportedError string | MarshalFailed
  | NoExportableNodes | NoValidOutbounds | NotClashConfig | NoProxies | PluginUnsupported string

record export_node =
  x_Name :: string
  x_Outbound :: string

record outbound =
  ob_Type :: string
  ob_Tag :: string
  ob_Server :: string
  ob_ServerPort :: int
  ob_UUID :: string
  ob_Password :: string
  ob_Method :: string
  ob_Security :: string
  ob_AlterID :: int
  ob_Flow :: string
  ob_TLSEnabled :: bool
  ob_ServerName :: string
  ob_Insecure :: bool
  ob_ALPN :: "string list"
  ob_Transport :: string
  ob_Path :: string
  ob_Host :: string
  ob_ServiceName :: string
  ob_Congestion :: string
  ob_Obfs :: string

definition outbound_of :: "json_map \<Rightarrow> outbound" where
  "outbound_of m =
     (let o1 = \<lparr>ob_Type = getStr m ''type'', ob_Tag = getStr m ''tag'', ob_Server = getStr m ''server'',
        ob_ServerPort = getInt m ''server_port'', ob_UUID = getStr m ''uuid'', ob_Password = getStr m ''password'',
        ob_Method = getStr m ''method'', ob_Security = getStr m ''security'', ob_AlterID = getInt m ''alter_id'',
        ob_Flow = getStr m ''flow'', ob_TLSEnabled = False, ob_ServerName = [], ob_Insecure = False, ob_ALPN = [],
        ob_Transport = [], ob_Path = [], ob_Host = [], ob_ServiceName = [],
        ob_Congestion = getStr m ''congestion_control'', ob_Obfs = []\<rparr>;
        o2 = (case getMap m ''tls'' of None \<Rightarrow> o1
              | Some tls \<Rightarrow> o1\<lparr>ob_TLSEnabled := getBool tls ''enabled'', ob_ServerName := getStr tls ''server_name'',
                  ob_Insecure := getBool tls ''insecure'', ob_ALPN := getStrSlice tls ''alpn''\<rparr>);
        o3 = (case getMap m ''transport'' of None \<Rightarrow> o2
              | Some tr \<Rightarrow> o2\<lparr>ob_Transport := getStr tr ''type'', ob_Path := getStr tr ''path'',
                  ob_ServiceName := getStr tr ''service_name'',
                  ob_Host := (case getMap tr ''headers'' of None \<Rightarrow> [] | Some hs \<Rightarrow> getStr hs ''Host'')\<rparr>)
      in case getMap m ''obfs'' of None \<Rightarrow> o3 | Some ob \<Rightarrow> o3\<lparr>ob_Obfs := getStr ob ''type''\<rparr>)"

text \<open>\<^verbatim>\<open>null\<close> decodes to the nil map without error; anything else but an object is an error.\<close>

definition parseOutbound :: "json_unmarshal \<Rightarrow> string \<Rightarrow> sub_error + outbound" where
  "parseOutbound unmarshal raw =
     (case unmarshal raw of
        Some (JObj m) \<Rightarrow> if getStr m ''type'' = [] then Inl NoTypeField else Inr (outbound_of m)
      | Some JNull \<Rightarrow> Inl NoTypeField
      | _ \<Rightarrow> Inl BadJSON)"

definition ParseOutboundServer :: "json_unmarshal \<Rightarrow> string \<Rightarrow> sub_error + string \<times> int" where
  "ParseOutboundServer unmarshal raw =
     (case parseOutbound unmarshal raw of
        Inl e \<Rightarrow> Inl e
      | Inr ob \<Rightarrow> if ob_Server ob = [] \<or> ob_ServerPort ob \<le> 0 then Inl (MissingFields ''server/port'')
                 else Inr (ob_Server ob, ob_ServerPort ob))"

subsection \<open>Query strings\<close>

definition unreserved :: "char \<Rightarrow> bool" where
  "unreserved c \<longleftrightarrow> is_digit c \<or> (65 \<le> (of_char c :: nat) \<and> (of_char c :: nat) \<le> 90) \<or>
     (97 \<le> (of_char c :: nat) \<and> (of_char c :: nat) \<le> 122) \<or> c \<in> set ''-_.~''"

definition hex_digit :: "nat \<Rightarrow> char" where
  "hex_digit n = ''0123456789ABCDEF'' ! n"

definition escape_char :: "char \<Rightarrow> string" where
  "escape_char c = (if unreserved c then [c] else if c = CHR '' '' then ''+''
     else [CHR ''%'', hex_digit (of_char c div 16), hex_digit (of_char c mod 16)])"

definition QueryEscape :: "string \<Rightarrow> string" where
  "QueryEscape s = concat (map escape_char s)"

text \<open>\<^verbatim>\<open>url.Values\<close> with one value per key: \<open>Set\<close> replaces, \<open>Encode\<close> sorts by key.\<close>

type_synonym url_values = "(string \<times> string) list"

definition Set :: "string \<Rightarrow> string \<Rightarrow> url_values \<Rightarrow> url_values" where
  "Set k v q = AList.update k v q"

definition Set_if :: "bool \<Rightarrow> string \<Rightarrow> string \<Rightarrow> url_values \<Rightarrow> url_values" where
  "Set_if b k v q = (if b then Set k v q else q)"

definition Encode :: "url_values \<Rightarrow> string" where
  "Encode q = Join (map (\<lambda>(k, v). QueryEscape k @ ''='' @ QueryEscape v) (sort_key fst q)) ''&''"

subsection \<open>Share links\<close>

definition transportName :: "string \<Rightarrow> string" where
  "transportName t = (if t = [] then ''tcp'' else t)"

definition boolToFlag :: "bool \<Rightarrow> string" where
  "boolToFlag b = (if b then ''tls'' else [])"

definition addTLSParams :: "outbound \<Rightarrow> url_values \<Rightarrow> url_values" where
  "addTLSParams ob q =
     Set_if (ob_ALPN ob \<noteq> []) ''alpn'' (Join (ob_ALPN ob) '','')
       (Set_if (ob_Insecure ob) ''allowInsecure'' ''1''
         (Set_if (ob_ServerName ob \<noteq> []) ''sni'' (ob_ServerName ob)
           (Set ''security'' (if ob_TLSEnabled ob then ''tls'' else ''none'') q)))"

definition addTransportParams :: "outbound \<Rightarrow> url_values \<Rightarrow> url_values" where
  "addTransportParams ob q =
     (if ob_Transport ob = [] then q
      else Set_if (ob_ServiceName ob \<noteq> []) ''serviceName'' (ob_ServiceName ob)
        (Set_if (ob_Path ob \<noteq> []) ''path'' (ob_Path ob)
          (Set_if (ob_Host ob \<noteq> []) ''host'' (ob_Host ob)
            (Set ''type'' (transportName (ob_Transport ob)) q))))"

text \<open>The common shape \<^verbatim>\<open>scheme://auth@server:port[?query]#name\<close>.\<close>

definition share_link :: "string \<Rightarrow> string \<Rightarrow> outbound \<Rightarrow> string \<Rightarrow> string \<Rightarrow> string" where
  "share_link scheme auth ob query name =
     scheme @ ''://'' @ auth @ ''@'' @ ob_Server ob @ '':'' @ Itoa (ob_ServerPort ob) @ query @ ''#'' @ QueryEscape name"

definition ssURI :: "outbound \<Rightarrow> string \<Rightarrow> sub_error + string" where
  "ssURI ob name =
     (if ob_Server ob = [] \<or> ob_Method ob = [] then Inl (MissingFields ''shadowsocks server/method'')
      else Inr (share_link ''ss'' (RawURLEncode (ob_Method ob @ '':'' @ ob_Password ob)) ob [] name))"

definition vmessURI :: "json_marshal \<Rightarrow> outbound \<Rightarrow> string \<Rightarrow> sub_error + string" where
  "vmessURI marshal ob name =
     (if ob_Server ob = [] \<or> ob_UUID ob = [] then Inl (MissingFields ''vmess server/uuid'')
      else let security = (if ob_Security ob = [] then ''auto'' else ob_Security ob);
               payload = JObj [(''v'', JStr ''2''), (''ps'', JStr name), (''add'', JStr (ob_Server ob)),
                 (''port'', JInt (ob_ServerPort ob)), (''id'', JStr (ob_UUID ob)), (''aid'', JInt (ob_AlterID ob)),
                 (''scy'', JStr security), (''net'', JStr (transportName (ob_Transport ob))), (''host'', JStr (ob_Host ob)),
                 (''path'', JStr (ob_Path ob)), (''tls'', JStr (boolToFlag (ob_TLSEnabled ob))),
                 (''sni'', JStr (ob_ServerName ob)), (''alpn'', JStr (Join (ob_ALPN ob) '',''))]
           in case marshal payload of
                None \<Rightarrow> Inl MarshalFailed
              | Some raw \<Rightarrow> Inr (''vmess://'' @ StdEncode raw))"

definition vlessURI :: "outbound \<Rightarrow> string \<Rightarrow> sub_error + string" where
  "vlessURI ob name =
     (if ob_Server ob = [] \<or> ob_UUID ob = [] then Inl (MissingFields ''vless server/uuid'')
      else let q = Set ''encryption'' ''none'' [];
               q = Set_if (ob_Flow ob \<noteq> []) ''flow'' (ob_Flow ob) q;
               q = addTransportParams ob (addTLSParams ob q)
           in Inr (share_link ''vless'' (ob_UUID ob) ob (''?'' @ Encode q) name))"

definition trojanURI :: "outbound \<Rightarrow> string \<Rightarrow> sub_error + string" where
  "trojanURI ob name =
     (if ob_Server ob = [] \<or> ob_Password ob = [] then Inl (MissingFields ''trojan server/password'')
      else let q = addTransportParams ob (addTLSParams ob [])
           in Inr (share_link ''trojan'' (QueryEscape (ob_Password ob)) ob (''?'' @ Encode q) name))"

definition hysteria2URI :: "outbound \<Rightarrow> string \<Rightarrow> sub_error + string" where
  "hysteria2URI ob name =
     (if ob_Server ob = [] then Inl (MissingFields ''hysteria2 server'')
      else let q = Set_if (ob_ServerName ob \<noteq> []) ''sni'' (ob_ServerName ob) [];
               q = Set_if (ob_Insecure ob) ''insecure'' ''1'' q;
               q = Set_if (ob_Obfs ob \<noteq> []) ''obfs'' (ob_Obfs ob) q;
               q = Set_if (ob_ALPN ob \<noteq> []) ''alpn'' (Join (ob_ALPN ob) '','') q
           in Inr (share_link ''hysteria2'' (QueryEscape (ob_Password ob)) ob (''?'' @ Encode q) name))"

definition tuicURI :: "outbound \<Rightarrow> string \<Rightarrow> sub_error + string" where
  "tuicURI ob name =
     (if ob_Server ob = [] \<or> ob_UUID ob = [] then Inl (MissingFields ''tuic server/uuid'')
      else let q = Set_if (ob_Congestion ob \<noteq> []) ''congestion_control'' (ob_Congestion ob) [];
               q = Set_if (ob_ALPN ob \<noteq> []) ''alpn'' (Join (ob_ALPN ob) '','') q;
               q = Set_if (ob_ServerName ob \<noteq> []) ''sni'' (ob_ServerName ob) q;
               q = Set_if (ob_Insecure ob) ''allow_insecure'' ''1'' q;
               auth = (if ob_Password ob \<noteq> [] then ob_UUID ob @ '':'' @ ob_Password ob else ob_UUID ob)
           in Inr (share_link ''tuic'' auth ob (''?'' @ Encode q) name))"

definition ShareURI :: "json_unmarshal \<Rightarrow> json_marshal \<Rightarrow> export_node \<Rightarrow> sub_error + string" where
  "ShareURI unmarshal marshal n =
     (case parseOutbound unmarshal (x_Outbound n) of
        Inl e \<Rightarrow> Inl e
      | Inr ob \<Rightarrow>
          if ob_Type ob = ''shadowsocks'' \<or> ob_Type ob = ''ss'' then ssURI ob (x_Name n)
          else if ob_Type ob = ''vmess'' then vmessURI marshal ob (x_Name n)
          else if ob_Type ob = ''vless'' then vlessURI ob (x_Name n)
          else if ob_Type ob = ''trojan'' then trojanURI ob (x_Name n)
          else if ob_Type ob = ''hysteria2'' then hysteria2URI ob (x_Name n)
          else if ob_Type ob = ''tuic'' then tuicURI ob (x_Name n)
          else Inl (UnsupportedError (ob_Type ob)))"

subsection \<open>Clash proxies\<close>

definition orDefault :: "string \<Rightarrow> string \<Rightarrow> string" where
  "orDefault v def = (if v = [] then def else v)"

definition put :: "string \<Rightarrow> json \<Rightarrow> json_map \<Rightarrow> json_map" where
  "put k v m = AList.update k v m"

definition put_if :: "bool \<Rightarrow> string \<Rightarrow> json \<Rightarrow> json_map \<Rightarrow> json_map" where
  "put_if b k v m = (if b then put k v m else m)"

definition clash_type_fields :: "outbound \<Rightarrow> json_map \<Rightarrow> sub_error + json_map" where
  "clash_type_fields ob base =
     (if ob_Type ob = ''shadowsocks'' \<or> ob_Type ob = ''ss'' then
        Inr (put ''password'' (JStr (ob_Password ob)) (put ''cipher'' (JStr (ob_Method ob)) (put ''type'' (JStr ''ss'') base)))
      else if ob_Type ob = ''vmess'' then
        Inr (put ''cipher'' (JStr (orDefault (ob_Security ob) ''auto'')) (put ''alterId'' (JInt (ob_AlterID ob))
          (put ''uuid'' (JStr (ob_UUID ob)) (put ''type'' (JStr ''vmess'') base))))
      else if ob_Type ob = ''vless'' then
        Inr (put_if (ob_Flow ob \<noteq> []) ''flow'' (JStr (ob_Flow ob)) (put ''uuid'' (JStr (ob_UUID ob)) (put ''type'' (JStr ''vless'') base)))
      else if ob_Type ob = ''trojan'' then
        Inr (put ''password'' (JStr (ob_Password ob)) (put ''type'' (JStr ''trojan'') base))
      else if ob_Type ob = ''hysteria2'' then
        Inr (put ''password'' (JStr (ob_Password ob)) (put ''type'' (JStr ''hysteria2'') base))
      else if ob_Type ob = ''tuic'' then
        Inr (put_if (ob_Congestion ob \<noteq> []) ''congestion-controller'' (JStr (ob_Congestion ob))
          (put_if (ob_Password ob \<noteq> []) ''password'' (JStr (ob_Password ob))
            (put ''uuid'' (JStr (ob_UUID ob)) (put ''type'' (JStr ''tuic'') base))))
      else Inl (UnsupportedError (ob_Type ob)))"

definition clash_transport_fields :: "outbound \<Rightarrow> json_map \<Rightarrow> json_map" where
  "clash_transport_fields ob base =
     (let host = put_if (ob_Host ob \<noteq> []) ''headers'' (JObj [(''Host'', JStr (ob_Host ob))]) in
      if ob_Transport ob = ''ws'' then
        put ''ws-opts'' (JObj (host (put_if (ob_Path ob \<noteq> []) ''path'' (JStr (ob_Path ob)) []))) (put ''network'' (JStr ''ws'') base)
      else if ob_Transport ob = ''grpc'' then
        put_if (ob_ServiceName ob \<noteq> []) ''grpc-opts'' (JObj [(''grpc-service-name'', JStr (ob_ServiceName ob))])
          (put ''network'' (JStr ''grpc'') base)
      else if ob_Transport ob = ''http'' then
        put_if (ob_Path ob \<noteq> [] \<or> ob_Host ob \<noteq> []) ''http-opts''
          (JObj (host (put_if (ob_Path ob \<noteq> []) ''path'' (JArr [JStr (ob_Path ob)]) []))) (put ''network'' (JStr ''http'') base)
      else base)"

definition clashProxy :: "json_unmarshal \<Rightarrow> export_node \<Rightarrow> sub_error + json_map" where
  "clashProxy unmarshal n =
     (case parseOutbound unmarshal (x_Outbound n) of
        Inl e \<Rightarrow> Inl e
      | Inr ob \<Rightarrow>
          if ob_Server ob = [] \<or> ob_ServerPort ob \<le> 0 then Inl (MissingFields ''server/port'')
          else case clash_type_fields ob
                 [(''name'', JStr (x_Name n)), (''server'', JStr (ob_Server ob)), (''port'', JInt (ob_ServerPort ob))] of
            Inl e \<Rightarrow> Inl e
          | Inr base \<Rightarrow>
              Inr (clash_transport_fields ob
                (put_if (ob_ALPN ob \<noteq> []) ''alpn'' (JArr (map JStr (ob_ALPN ob)))
                (put_if (ob_Insecure ob) ''skip-cert-verify'' (JBool True)
                (put_if (ob_ServerName ob \<noteq> []) ''servername'' (JStr (ob_ServerName ob))
                (put_if (ob_TLSEnabled ob) ''tls'' (JBool True) base))))))"

subsection \<open>Documents for clients\<close>

definition SelectorTag :: string where "SelectorTag = ''PROXY''"

definition mustJSON :: "json_marshal \<Rightarrow> json \<Rightarrow> json" where
  "mustJSON marshal v = JRaw (case marshal v of None \<Rightarrow> ''null'' | Some raw \<Rightarrow> raw)"

text \<open>The two documents before they are written out; \<open>json_Valid\<close> is \<^verbatim>\<open>json.Valid\<close>.\<close>

definition singbox_config :: "(string \<Rightarrow> bool) \<Rightarrow> json_marshal \<Rightarrow> export_node list \<Rightarrow> sub_error + json" where
  "singbox_config json_Valid marshal nodes =
     (if nodes = [] then Inl NoExportableNodes
      else let valid = filter (\<lambda>n. json_Valid (x_Outbound n)) nodes in
           if valid = [] then Inl NoValidOutbounds
           else let selector = JObj [(''type'', JStr ''selector''), (''tag'', JStr SelectorTag),
                      (''outbounds'', JArr (map (JStr \<circ> x_Name) valid)), (''interrupt_exist_connections'', JBool False)]
                in Inr (JObj [(''log'', JObj [(''level'', JStr ''warn'')]),
                     (''outbounds'', JArr (mustJSON marshal selector # map (JRaw \<circ> x_Outbound) valid)),
                     (''route'', JObj [(''final'', JStr SelectorTag)])]))"

definition GenerateSingbox :: "(string \<Rightarrow> bool) \<Rightarrow> json_marshal \<Rightarrow> json_marshal \<Rightarrow> export_node list \<Rightarrow> sub_error + string" where
  "GenerateSingbox json_Valid marshal marshalIndent nodes =
     (case singbox_config json_Valid marshal nodes of
        Inl e \<Rightarrow> Inl e
      | Inr cfg \<Rightarrow> (case marshalIndent cfg of None \<Rightarrow> Inl MarshalFailed | Some s \<Rightarrow> Inr s))"

definition clash_profile :: "json_unmarshal \<Rightarrow> export_node list \<Rightarrow> sub_error + json" where
  "clash_profile unmarshal nodes =
     (let ok = List.map_filter (\<lambda>n. case clashProxy unmarshal n of Inl _ \<Rightarrow> None | Inr p \<Rightarrow> Some (x_Name n, p)) nodes in
      if ok = [] then Inl NoExportableNodes
      else Inr (JObj [(''proxies'', JArr (map (JObj \<circ> snd) ok)),
             (''proxy-groups'', JArr [JObj [(''name'', JStr SelectorTag), (''type'', JStr ''select''),
                (''proxies'', JArr (map (JStr \<circ> fst) ok))]]),
             (''rules'', JArr [JStr (''MATCH,'' @ SelectorTag)])]))"

definition GenerateClash :: "json_unmarshal \<Rightarrow> json_marshal \<Rightarrow> export_node list \<Rightarrow> sub_error + string" where
  "GenerateClash unmarshal yaml_Marshal nodes =
     (case clash_profile unmarshal nodes of
        Inl e \<Rightarrow> Inl e
      | Inr doc \<Rightarrow> (case yaml_Marshal doc of None \<Rightarrow> Inl MarshalFailed | Some s \<Rightarrow> Inr s))"

definition share_uris :: "json_unmarshal \<Rightarrow> json_marshal \<Rightarrow> export_node list \<Rightarrow> string list" where
  "share_uris unmarshal marshal nodes =
     List.map_filter (\<lambda>n. case ShareURI unmarshal marshal n of Inl _ \<Rightarrow> None | Inr u \<Rightarrow> if u \<noteq> [] then Some u else None) nodes"

definition GenerateBase64 :: "json_unmarshal \<Rightarrow> json_marshal \<Rightarrow> export_node list \<Rightarrow> sub_error + string" where
  "GenerateBase64 unmarshal marshal nodes =
     (let uris = share_uris unmarshal marshal nodes in
      if uris = [] then Inl NoExportableNodes
      else Inr (StdEncode (Join uris [CHR 0x0A])))"

subsection \<open>Reading a link\<close>

text \<open>
  What a client does with a link, after RFC 3986 and Go's \<^verbatim>\<open>net/url\<close>: cut the fragment at the
  first \<^verbatim>\<open>#\<close>, the query at the first \<^verbatim>\<open>?\<close>, the credentials at the first \<^verbatim>\<open>@\<close>, and undo the
  escaping. This is the reference the generators are compared with.
\<close>

definition Cut :: "char \<Rightarrow> string \<Rightarrow> string \<times> string" where
  "Cut c s = (takeWhile (\<lambda>x. x \<noteq> c) s, drop 1 (dropWhile (\<lambda>x. x \<noteq> c) s))"

definition hex_value :: "char \<Rightarrow> nat option" where
  "hex_value c = map_of (zip ''0123456789ABCDEFabcdef'' ([0..<16] @ [10..<16])) c"

fun QueryUnescape :: "string \<Rightarrow> string option" where
  "QueryUnescape [] = Some []"
| "QueryUnescape (c # s) =
     (if c = CHR ''%'' then
        (case s of
           a # b # t \<Rightarrow> (case (hex_value a, hex_value b) of
              (Some x, Some y) \<Rightarrow> map_option ((#) (char_of (16 * x + y))) (QueryUnescape t)
            | _ \<Rightarrow> None)
         | _ \<Rightarrow> None)
      else map_option ((#) (if c = CHR ''+'' then CHR '' '' else c)) (QueryUnescape s))"

definition read_pair :: "string \<Rightarrow> (string \<times> string) option" where
  "read_pair p = (case Cut (CHR ''='') p of (k, v) \<Rightarrow>
     (case (QueryUnescape k, QueryUnescape v) of (Some a, Some b) \<Rightarrow> Some (a, b) | _ \<Rightarrow> None))"

definition read_query :: "string \<Rightarrow> url_values option" where
  "read_query s = (if s = [] then Some [] else all_some (map read_pair (Split s (CHR ''&''))))"

record link_view =
  lv_scheme :: string
  lv_auth :: string
  lv_host :: string
  lv_port :: string
  lv_query :: "url_values option"
  lv_name :: "string option"

definition read_link :: "string \<Rightarrow> link_view" where
  "read_link link =
     (let (scheme, rest) = Cut (CHR '':'') link;
          (body, fragment) = Cut (CHR ''#'') (drop 2 rest);
          (authority, query) = Cut (CHR ''?'') body;
          (auth, address) = Cut (CHR ''@'') authority;
          (host, port) = Cut (CHR '':'') address
      in \<lparr>lv_scheme = scheme, lv_auth = auth, lv_host = host, lv_port = port,
           lv_query = read_query query, lv_name = QueryUnescape fragment\<rparr>)"

subsection \<open>Escaping\<close>

lemma Cut_append: "c \<notin> set a \<Longrightarrow> Cut c (a @ c # b) = (a, b)"
  by (induction a) (auto simp: Cut_def)

lemma Cut_none: "c \<notin> set a \<Longrightarrow> Cut c a = (a, [])"
  by (induction a) (auto simp: Cut_def)

lemma hex_value_digit: "n < 16 \<Longrightarrow> hex_value (hex_digit n) = Some n"
proof -
  have "list_all (\<lambda>n. hex_value (hex_digit n) = Some n) [0..<16]" by code_simp
  then show "n < 16 \<Longrightarrow> hex_value (hex_digit n) = Some n" by (simp add: list_all_iff)
qed

lemma unreserved_facts: "unreserved c \<Longrightarrow> c \<noteq> CHR ''%'' \<and> c \<noteq> CHR ''+'' \<and> c \<noteq> CHR ''&'' \<and> c \<noteq> CHR ''=''
   \<and> c \<noteq> CHR ''#'' \<and> c \<noteq> CHR ''@'' \<and> c \<noteq> CHR ''?'' \<and> c \<noteq> CHR '':'' \<and> c \<noteq> CHR ''/'' \<and> c \<noteq> CHR 0x0A"
  by (auto simp: unreserved_def is_digit_def)

lemma hex_digit_unreserved: "n < 16 \<Longrightarrow> unreserved (hex_digit n)"
proof -
  have "\<forall>c \<in> set ''0123456789ABCDEF''. unreserved c" by (simp add: unreserved_def is_digit_def)
  moreover assume "n < 16"
  then have "hex_digit n \<in> set ''0123456789ABCDEF''" unfolding hex_digit_def by (intro nth_mem) simp
  ultimately show ?thesis by blast
qed

lemma byte_hex_bounds [simp]: "(of_char (c :: char) :: nat) div 16 < 16" "(of_char c :: nat) mod 16 < 16"
  using byte_val_less [of c] by (simp_all only: div_less_iff_less_mult mod_less_divisor)

lemma QueryUnescape_char: "QueryUnescape (escape_char c @ s) = map_option ((#) c) (QueryUnescape s)"
proof (cases "unreserved c \<or> c = CHR '' ''")
  case True
  then show ?thesis using unreserved_facts [of c] by (auto simp: escape_char_def)
next
  case False
  then have "16 * (of_char c div 16) + of_char c mod 16 = (of_char c :: nat)" by simp
  with False show ?thesis
    by (simp add: escape_char_def hex_value_digit del: mult_div_mod_eq)
qed

lemma Query_roundtrip: "QueryUnescape (QueryEscape s) = Some s"
  by (induction s) (simp_all add: QueryEscape_def QueryUnescape_char)

definition plain :: "char \<Rightarrow> bool" where
  "plain c \<longleftrightarrow> unreserved c \<or> c = CHR ''%'' \<or> c = CHR ''+''"

lemma QueryEscape_plain: "c \<in> set (QueryEscape s) \<Longrightarrow> plain c"
  by (auto simp: QueryEscape_def escape_char_def plain_def hex_digit_unreserved split: if_splits)

lemma plain_facts: "plain c \<Longrightarrow> c \<noteq> CHR ''&'' \<and> c \<noteq> CHR ''='' \<and> c \<noteq> CHR ''#'' \<and> c \<noteq> CHR ''@'' \<and> c \<noteq> CHR ''?''
   \<and> c \<noteq> CHR '':'' \<and> c \<noteq> CHR ''/'' \<and> c \<noteq> CHR 0x0A"
proof (cases "unreserved c")
  case True
  then show ?thesis using unreserved_facts [OF True] by simp
next
  case False
  assume "plain c"
  with False have "c = CHR ''%'' \<or> c = CHR ''+''" by (simp add: plain_def)
  then show ?thesis by (elim disjE) simp_all
qed

lemma QueryEscape_free:
  "c \<in> {CHR ''&'', CHR ''='', CHR ''#'', CHR ''@'', CHR ''?'', CHR '':'', CHR ''/'', CHR 0x0A} \<Longrightarrow> c \<notin> set (QueryEscape s)"
  using QueryEscape_plain plain_facts by blast

lemma read_pair_escaped: "read_pair (QueryEscape k @ CHR ''='' # QueryEscape v) = Some (k, v)"
  by (simp add: read_pair_def Cut_append QueryEscape_free Query_roundtrip)

lemma all_some_map_id: "\<forall>x \<in> set xs. f (g x) = Some x \<Longrightarrow> all_some (map f (map g xs)) = Some xs"
  by (induction xs) auto

lemma Join_part_empty: "Join ps sep = [] \<Longrightarrow> p \<in> set ps \<Longrightarrow> p = []"
  by (induction ps sep rule: Join.induct) auto

text \<open>The query text reads back as the parameters, sorted by key.\<close>

lemma Encode_reads_back: "read_query (Encode q) = Some (sort_key fst q)"
proof (cases "q = []")
  case True
  then show ?thesis by (simp add: Encode_def read_query_def)
next
  case False
  define f where "f = (\<lambda>(k, v). QueryEscape k @ CHR ''='' # QueryEscape v)"
  define ps where "ps = map f (sort_key fst q)"
  have enc: "Encode q = Join ps [CHR ''&'']" by (simp add: Encode_def ps_def f_def)
  have "sort_key fst q \<noteq> []" using False by (metis set_empty set_sort)
  then have ne: "ps \<noteq> []" and nonempty: "\<forall>p \<in> set ps. p \<noteq> []" and free: "\<forall>p \<in> set ps. CHR ''&'' \<notin> set p"
    by (auto simp: ps_def f_def QueryEscape_free)
  have "Encode q \<noteq> []" using enc ne nonempty Join_part_empty hd_in_set by metis
  then have "read_query (Encode q) = all_some (map read_pair ps)"
    by (simp add: read_query_def enc Split_Join [OF ne free])
  also have "\<dots> = Some (sort_key fst q)"
    unfolding ps_def by (rule all_some_map_id) (auto simp: f_def read_pair_escaped)
  finally show ?thesis .
qed

lemma Join_free: "\<forall>p \<in> set ps. c \<notin> set p \<Longrightarrow> c \<notin> set sep \<Longrightarrow> c \<notin> set (Join ps sep)"
  by (induction ps sep rule: Join.induct) auto

lemma Encode_free: "c \<in> {CHR ''#'', CHR ''@'', CHR ''?'', CHR '':'', CHR ''/'', CHR 0x0A} \<Longrightarrow> c \<notin> set (Encode q)"
  unfolding Encode_def by (rule Join_free) (auto simp: QueryEscape_free)

lemma read_query_empty: "read_query [] = Some []"
  by (simp add: read_query_def)

subsection \<open>Links read back\<close>

text \<open>A part of a link that needs no escaping.\<close>

definition link_safe :: "string \<Rightarrow> bool" where
  "link_safe s \<longleftrightarrow> list_all (\<lambda>c. c \<notin> set ''#?@:'') s"

lemma link_safe_free: "link_safe s \<Longrightarrow> c \<in> {CHR ''#'', CHR ''@'', CHR ''?'', CHR '':''} \<Longrightarrow> c \<notin> set s"
  by (auto simp: link_safe_def list_all_iff)

lemma link_safe_escaped: "link_safe (QueryEscape s)"
  using QueryEscape_plain plain_facts by (fastforce simp: link_safe_def list_all_iff)

lemma link_safe_base64: "link_safe (RawURLEncode s)"
proof -
  have "\<forall>c \<in> set url_alphabet. c \<notin> set ''#?@:''" by (simp add: url_alphabet_def)
  then show ?thesis using RawURLEncode_chars [of _ s] by (auto simp: link_safe_def list_all_iff)
qed

lemma link_safe_Itoa: "link_safe (Itoa n)"
  using Itoa_chars [of _ n] by (fastforce simp: link_safe_def list_all_iff is_digit_def)

lemma read_share_link:
  assumes "link_safe scheme" "link_safe auth" "link_safe (ob_Server ob)"
    and "query = [] \<and> q = [] \<or> query = CHR ''?'' # Encode q"
  shows "read_link (share_link scheme auth ob query name) =
    \<lparr>lv_scheme = scheme, lv_auth = auth, lv_host = ob_Server ob, lv_port = Itoa (ob_ServerPort ob),
     lv_query = Some (sort_key fst q), lv_name = Some name\<rparr>"
proof -
  define addr where "addr = ob_Server ob @ CHR '':'' # Itoa (ob_ServerPort ob)"
  define authority where "authority = auth @ CHR ''@'' # addr"
  have parts: "CHR ''#'' \<notin> set t \<and> CHR ''?'' \<notin> set t \<and> CHR ''@'' \<notin> set t \<and> CHR '':'' \<notin> set t" if "link_safe t" for t
    using that link_safe_free by blast
  note free = parts [OF assms(1)] parts [OF assms(2)] parts [OF assms(3)] parts [OF link_safe_Itoa]
  have 1: "Cut (CHR '':'') (share_link scheme auth ob query name) =
    (scheme, ''//'' @ authority @ query @ CHR ''#'' # QueryEscape name)"
    using free by (simp add: share_link_def authority_def addr_def Cut_append)
  have "CHR ''#'' \<notin> set (Encode q)" by (rule Encode_free) simp
  then have "CHR ''#'' \<notin> set query" using assms(4) by fastforce
  then have "CHR ''#'' \<notin> set (authority @ query)"
    using free by (simp add: authority_def addr_def)
  then have 2: "Cut (CHR ''#'') (authority @ query @ CHR ''#'' # QueryEscape name) = (authority @ query, QueryEscape name)"
    using Cut_append [of "CHR ''#''" "authority @ query"] by simp
  have "CHR ''?'' \<notin> set authority"
    using free by (simp add: authority_def addr_def)
  then have 3: "Cut (CHR ''?'') (authority @ query) = (authority, drop 1 query)"
    using assms(4) by (auto simp: Cut_append Cut_none)
  have 4: "Cut (CHR ''@'') authority = (auth, addr)" "Cut (CHR '':'') addr = (ob_Server ob, Itoa (ob_ServerPort ob))"
    using free by (simp_all add: authority_def addr_def Cut_append)
  have 5: "read_query (drop 1 query) = Some (sort_key fst q)"
    using assms(4) Encode_reads_back read_query_empty by auto
  show ?thesis
    using 2 3 4 5 by (simp add: read_link_def 1 Query_roundtrip)
qed

text \<open>Query parameters as a map: absent fields leave no parameter.\<close>

definition opt :: "string \<Rightarrow> string option" where
  "opt s = (if s = [] then None else Some s)"

definition stream_params :: "outbound \<Rightarrow> string \<Rightarrow> string option" where
  "stream_params ob k =
     (if k = ''security'' then Some (if ob_TLSEnabled ob then ''tls'' else ''none'')
      else if k = ''sni'' then opt (ob_ServerName ob)
      else if k = ''allowInsecure'' then (if ob_Insecure ob then Some ''1'' else None)
      else if k = ''alpn'' then (if ob_ALPN ob = [] then None else Some (Join (ob_ALPN ob) '',''))
      else if k = ''type'' then opt (ob_Transport ob)
      else if ob_Transport ob = [] then None
      else if k = ''host'' then opt (ob_Host ob)
      else if k = ''path'' then opt (ob_Path ob)
      else if k = ''serviceName'' then opt (ob_ServiceName ob)
      else None)"

lemma map_of_sort_key: "distinct (map fst q) \<Longrightarrow> map_of (sort_key fst q) = map_of q"
  by (subst map_of_inject_set) (auto simp: distinct_map)

lemma Set_facts [simp]:
  "map_of (Set k v q) x = (if x = k then Some v else map_of q x)"
  "map_of (Set_if b k v q) x = (if b \<and> x = k then Some v else map_of q x)"
  "distinct (map fst q) \<Longrightarrow> distinct (map fst (Set k v q))"
  "distinct (map fst q) \<Longrightarrow> distinct (map fst (Set_if b k v q))"
  by (simp_all add: Set_if_def Set_def update_conv' distinct_update)

lemma addTLSParams_distinct [simp]: "distinct (map fst q) \<Longrightarrow> distinct (map fst (addTLSParams ob q))"
  by (simp add: addTLSParams_def)

lemma addTransportParams_distinct [simp]: "distinct (map fst q) \<Longrightarrow> distinct (map fst (addTransportParams ob q))"
  by (simp add: addTransportParams_def)

lemma stream_params_lookup:
  "map_of (addTransportParams ob (addTLSParams ob q)) k =
   (case stream_params ob k of None \<Rightarrow> map_of q k | Some v \<Rightarrow> Some v)"
proof -
  consider "k = ''security''" | "k = ''sni''" | "k = ''allowInsecure''" | "k = ''alpn''" | "k = ''type''" | "k = ''host''"
    | "k = ''path''" | "k = ''serviceName''"
    | "k \<noteq> ''security''" "k \<noteq> ''sni''" "k \<noteq> ''allowInsecure''" "k \<noteq> ''alpn''" "k \<noteq> ''type''" "k \<noteq> ''host''"
      "k \<noteq> ''path''" "k \<noteq> ''serviceName''"
    by blast
  then show ?thesis
    by cases (simp_all add: addTransportParams_def addTLSParams_def stream_params_def opt_def transportName_def)
qed

text \<open>What a client that reads the link sees of the node it was made from.\<close>

definition addressed_to :: "string \<Rightarrow> string \<Rightarrow> outbound \<Rightarrow> string \<Rightarrow> bool" where
  "addressed_to link scheme ob name \<longleftrightarrow>
     lv_scheme (read_link link) = scheme \<and> lv_host (read_link link) = ob_Server ob \<and>
     ParseInt (lv_port (read_link link)) = Some (ob_ServerPort ob) \<and> lv_name (read_link link) = Some name"

definition link_params :: "string \<Rightarrow> string \<Rightarrow> string option" where
  "link_params link k = (case lv_query (read_link link) of None \<Rightarrow> None | Some q \<Rightarrow> map_of q k)"

lemma share_link_seen:
  assumes "link_safe scheme" "link_safe auth" "link_safe (ob_Server ob)" "in_i64 (ob_ServerPort ob)" "distinct (map fst q)"
    and "query = [] \<and> q = [] \<or> query = ''?'' @ Encode q"
  shows "addressed_to (share_link scheme auth ob query name) scheme ob name"
    and "lv_auth (read_link (share_link scheme auth ob query name)) = auth"
    and "link_params (share_link scheme auth ob query name) = map_of q"
  using assms(6) assms(4,5)
  by (simp_all add: read_share_link [OF assms(1-3), of _ q] addressed_to_def ParseInt_Itoa link_params_def map_of_sort_key fun_eq_iff)

lemma ShareURI_ss:
  assumes "parseOutbound unmarshal (x_Outbound n) = Inr ob" "ob_Type ob \<in> {''shadowsocks'', ''ss''}"
    and "ob_Server ob \<noteq> []" "ob_Method ob \<noteq> []" "link_safe (ob_Server ob)" "in_i64 (ob_ServerPort ob)"
  shows "\<exists>link. ShareURI unmarshal marshal n = Inr link \<and> addressed_to link ''ss'' ob (x_Name n) \<and>
    RawURLDecode (lv_auth (read_link link)) = Some (ob_Method ob @ '':'' @ ob_Password ob)"
proof -
  define auth where "auth = RawURLEncode (ob_Method ob @ '':'' @ ob_Password ob)"
  have "link_safe ''ss''" by (simp add: link_safe_def)
  note seen = share_link_seen [OF this link_safe_base64 assms(5,6), of "[]" "[]", simplified]
  have "ShareURI unmarshal marshal n = Inr (share_link ''ss'' auth ob [] (x_Name n))"
    using assms(1-4) by (auto simp: ShareURI_def ssURI_def auth_def)
  then show ?thesis using seen RawURL_roundtrip by (simp add: auth_def)
qed

lemma ShareURI_trojan:
  assumes "parseOutbound unmarshal (x_Outbound n) = Inr ob" "ob_Type ob = ''trojan''"
    and "ob_Server ob \<noteq> []" "ob_Password ob \<noteq> []" "link_safe (ob_Server ob)" "in_i64 (ob_ServerPort ob)"
  shows "\<exists>link. ShareURI unmarshal marshal n = Inr link \<and> addressed_to link ''trojan'' ob (x_Name n) \<and>
    QueryUnescape (lv_auth (read_link link)) = Some (ob_Password ob) \<and> link_params link = stream_params ob"
proof -
  define q where "q = addTransportParams ob (addTLSParams ob [])"
  define link where "link = share_link ''trojan'' (QueryEscape (ob_Password ob)) ob (''?'' @ Encode q) (x_Name n)"
  have "link_safe ''trojan''" by (simp add: link_safe_def)
  moreover have "distinct (map fst q)" by (simp add: q_def)
  ultimately have seen: "addressed_to link ''trojan'' ob (x_Name n)" "lv_auth (read_link link) = QueryEscape (ob_Password ob)"
    "link_params link = map_of q"
    unfolding link_def using share_link_seen [OF _ link_safe_escaped assms(5,6), of "''trojan''" q "''?'' @ Encode q"] by simp_all
  have "map_of q = stream_params ob"
    by (rule ext) (simp add: q_def stream_params_lookup split: option.splits)
  moreover have "ShareURI unmarshal marshal n = Inr link"
    using assms(1-4) by (simp add: ShareURI_def trojanURI_def link_def q_def)
  ultimately show ?thesis using seen Query_roundtrip by auto
qed

lemma ShareURI_vless:
  assumes "parseOutbound unmarshal (x_Outbound n) = Inr ob" "ob_Type ob = ''vless''"
    and "ob_Server ob \<noteq> []" "ob_UUID ob \<noteq> []" "link_safe (ob_Server ob)" "in_i64 (ob_ServerPort ob)" "link_safe (ob_UUID ob)"
  shows "\<exists>link. ShareURI unmarshal marshal n = Inr link \<and> addressed_to link ''vless'' ob (x_Name n) \<and>
    lv_auth (read_link link) = ob_UUID ob \<and>
    link_params link = (stream_params ob)(''encryption'' \<mapsto> ''none'', ''flow'' := opt (ob_Flow ob))"
proof -
  define q where "q = addTransportParams ob (addTLSParams ob (Set_if (ob_Flow ob \<noteq> []) ''flow'' (ob_Flow ob) (Set ''encryption'' ''none'' [])))"
  define link where "link = share_link ''vless'' (ob_UUID ob) ob (''?'' @ Encode q) (x_Name n)"
  have "link_safe ''vless''" by (simp add: link_safe_def)
  moreover have "distinct (map fst q)" by (simp add: q_def)
  ultimately have seen: "addressed_to link ''vless'' ob (x_Name n)" "lv_auth (read_link link) = ob_UUID ob"
    "link_params link = map_of q"
    unfolding link_def using share_link_seen [OF _ assms(7,5,6), of "''vless''" q "''?'' @ Encode q"] by simp_all
  have "map_of q = (stream_params ob)(''encryption'' \<mapsto> ''none'', ''flow'' := opt (ob_Flow ob))"
  proof (rule ext)
    fix k
    have "stream_params ob ''encryption'' = None" "stream_params ob ''flow'' = None" by (simp_all add: stream_params_def)
    then show "map_of q k = ((stream_params ob)(''encryption'' \<mapsto> ''none'', ''flow'' := opt (ob_Flow ob))) k"
      by (simp add: q_def stream_params_lookup opt_def split: option.split)
  qed
  moreover have "ShareURI unmarshal marshal n = Inr link"
    using assms(1-4) by (simp add: ShareURI_def vlessURI_def link_def q_def Let_def)
  ultimately show ?thesis using seen by auto
qed

lemma ShareURI_hysteria2:
  assumes "parseOutbound unmarshal (x_Outbound n) = Inr ob" "ob_Type ob = ''hysteria2''"
    and "ob_Server ob \<noteq> []" "link_safe (ob_Server ob)" "in_i64 (ob_ServerPort ob)"
  shows "\<exists>link. ShareURI unmarshal marshal n = Inr link \<and> addressed_to link ''hysteria2'' ob (x_Name n) \<and>
    QueryUnescape (lv_auth (read_link link)) = Some (ob_Password ob) \<and>
    link_params link ''sni'' = opt (ob_ServerName ob) \<and> link_params link ''obfs'' = opt (ob_Obfs ob) \<and>
    link_params link ''obfs-password'' = None"
proof -
  define q where "q = Set_if (ob_ALPN ob \<noteq> []) ''alpn'' (Join (ob_ALPN ob) '','') (Set_if (ob_Obfs ob \<noteq> []) ''obfs'' (ob_Obfs ob)
    (Set_if (ob_Insecure ob) ''insecure'' ''1'' (Set_if (ob_ServerName ob \<noteq> []) ''sni'' (ob_ServerName ob) [])))"
  define link where "link = share_link ''hysteria2'' (QueryEscape (ob_Password ob)) ob (''?'' @ Encode q) (x_Name n)"
  have "link_safe ''hysteria2''" by (simp add: link_safe_def)
  moreover have "distinct (map fst q)" by (simp add: q_def)
  ultimately have seen: "addressed_to link ''hysteria2'' ob (x_Name n)" "lv_auth (read_link link) = QueryEscape (ob_Password ob)"
    "link_params link = map_of q"
    unfolding link_def using share_link_seen [OF _ link_safe_escaped assms(4,5), of "''hysteria2''" q "''?'' @ Encode q"] by simp_all
  moreover have "ShareURI unmarshal marshal n = Inr link"
    using assms(1-3) by (simp add: ShareURI_def hysteria2URI_def link_def q_def Let_def)
  ultimately show ?thesis using Query_roundtrip by (auto simp: q_def opt_def)
qed


definition demo_outbound :: json_map where
  "demo_outbound = [(''type'', JStr ''trojan''), (''server'', JStr ''a.example''), (''server_port'', JFloat 443 ''443''),
     (''password'', JStr ''p@ss #1''), (''tls'', JObj [(''enabled'', JBool True), (''server_name'', JStr ''b.example'')])]"


subsection \<open>Base64 subscriptions\<close>

text \<open>The fields that links carry unescaped.\<close>

definition one_line :: "string \<Rightarrow> bool" where
  "one_line s \<longleftrightarrow> CHR 0x0A \<notin> set s"

definition one_line_outbound :: "outbound \<Rightarrow> bool" where
  "one_line_outbound ob \<longleftrightarrow> one_line (ob_Server ob) \<and> one_line (ob_UUID ob) \<and>
     (ob_Type ob = ''tuic'' \<longrightarrow> one_line (ob_Password ob))"

lemma one_line_base64: "one_line (RawURLEncode s)" "one_line (StdEncode s)"
proof -
  have "CHR 0x0A \<notin> set url_alphabet" "CHR 0x0A \<notin> set std_alphabet \<union> {CHR ''=''}"
    using alphabet_no_special by blast+
  then show "one_line (RawURLEncode s)" "one_line (StdEncode s)"
    using RawURLEncode_chars StdEncode_chars unfolding one_line_def by blast+
qed

lemma one_line_Itoa: "one_line (Itoa n)"
  using Itoa_chars [of "CHR 0x0A" n] by (auto simp: one_line_def is_digit_def)

lemma one_line_simps [simp]: "one_line (a @ b) \<longleftrightarrow> one_line a \<and> one_line b" "one_line []"
  "one_line (c # b) \<longleftrightarrow> c \<noteq> CHR 0x0A \<and> one_line b" "one_line (QueryEscape s)" "one_line (Encode q)"
  by (auto simp: one_line_def QueryEscape_free Encode_free)

lemma ShareURI_one_line:
  assumes "ShareURI unmarshal marshal n = Inr link"
    and "\<And>ob. parseOutbound unmarshal (x_Outbound n) = Inr ob \<Longrightarrow> one_line_outbound ob"
  shows "one_line link"
proof -
  obtain ob where ob: "parseOutbound unmarshal (x_Outbound n) = Inr ob"
    using assms(1) by (auto simp: ShareURI_def split: sum.splits)
  with assms(2) have safe: "one_line_outbound ob" by blast
  show ?thesis
    using assms(1) safe
    by (auto simp: ShareURI_def ob ssURI_def vmessURI_def vlessURI_def trojanURI_def hysteria2URI_def tuicURI_def Let_def
        share_link_def one_line_outbound_def one_line_Itoa one_line_base64 split: if_splits option.splits)
qed

text \<open>A base64 subscription is lossless. Generation fails exactly when no node has a share
  link; otherwise the body decodes, and its lines are exactly the links of the convertible
  nodes, in node order. Line breaks inside display names and passwords do not tear a link
  apart, because those are escaped; only addresses, UUIDs and TUIC passwords must be single
  lines.
\<close>

theorem base64_subscription_lossless:
  assumes "\<forall>n \<in> set nodes. \<forall>ob. parseOutbound unmarshal (x_Outbound n) = Inr ob \<longrightarrow> one_line_outbound ob"
  shows "case GenerateBase64 unmarshal marshal nodes of
      Inl e \<Rightarrow> e = NoExportableNodes \<and> (\<forall>n \<in> set nodes. \<forall>link. ShareURI unmarshal marshal n \<noteq> Inr link \<or> link = [])
    | Inr body \<Rightarrow> (\<exists>text. StdDecode body = Some text \<and>
        Split text (CHR 0x0A) = [link. Inr link \<leftarrow> map (ShareURI unmarshal marshal) nodes, link \<noteq> []])"
proof -
  have uris: "share_uris unmarshal marshal nodes = [link. Inr link \<leftarrow> map (ShareURI unmarshal marshal) nodes, link \<noteq> []]"
    unfolding share_uris_def by (induction nodes) (auto simp: List.map_filter_simps split: sum.splits)
  have lines: "\<forall>u \<in> set (share_uris unmarshal marshal nodes). CHR 0x0A \<notin> set u"
    using ShareURI_one_line assms by (fastforce simp: uris one_line_def split: sum.splits)
  show ?thesis
  proof (cases "share_uris unmarshal marshal nodes = []")
    case True
    moreover from this have "\<forall>n \<in> set nodes. \<forall>link. ShareURI unmarshal marshal n \<noteq> Inr link \<or> link = []"
      by (fastforce simp: uris split: sum.splits if_splits)
    ultimately show ?thesis by (simp add: GenerateBase64_def)
  next
    case False
    then have "GenerateBase64 unmarshal marshal nodes = Inr (StdEncode (Join (share_uris unmarshal marshal nodes) [CHR 0x0A]))"
      by (simp add: GenerateBase64_def)
    then show ?thesis
      by (simp only: sum.case Std_roundtrip option.inject ex_simps simp_thms Split_Join [OF False lines]) (simp only: uris)
  qed
qed

theorem base64_subscription_lossless_witness:
  "\<exists>body. GenerateBase64 (\<lambda>_. Some (JObj demo_outbound)) (\<lambda>_. None) [\<lparr>x_Name = ''one'', x_Outbound = []\<rparr>] = Inr body \<and>
     (\<exists>text link. StdDecode body = Some text \<and> Split text (CHR 0x0A) = [link] \<and>
        ShareURI (\<lambda>_. Some (JObj demo_outbound)) (\<lambda>_. None) \<lparr>x_Name = ''one'', x_Outbound = []\<rparr> = Inr link)"
proof -
  let ?n = "\<lparr>x_Name = ''one'', x_Outbound = []\<rparr>" and ?u = "\<lambda>_ :: string. Some (JObj demo_outbound)"
  define ob where "ob = outbound_of demo_outbound"
  have f: "ob_Type ob = ''trojan''" "ob_Server ob = ''a.example''" "ob_Password ob = ''p@ss #1''" "ob_UUID ob = []"
    by (simp_all add: ob_def outbound_of_def demo_outbound_def getStr_def getInt_def getMap_def)
  have "getStr demo_outbound ''type'' = ''trojan''" by (simp add: getStr_def demo_outbound_def)
  then have p: "parseOutbound ?u [] = Inr ob" by (simp add: parseOutbound_def ob_def)
  then obtain link where "ShareURI ?u (\<lambda>_. None) ?n = Inr link" "link \<noteq> []"
    using f by (auto simp: ShareURI_def trojanURI_def share_link_def Let_def)
  moreover have "one_line_outbound ob" using f by (simp add: one_line_outbound_def)
  moreover have "\<forall>n \<in> set [?n]. \<forall>ob. parseOutbound ?u (x_Outbound n) = Inr ob \<longrightarrow> one_line_outbound ob"
    using p \<open>one_line_outbound ob\<close> by simp
  note base64_subscription_lossless [OF this, of "\<lambda>_. None"]
  ultimately show ?thesis
    by (auto split: sum.splits)
qed

end
