(* ===== verification/Httpx_Ssrf.thy ===== *)
theory Httpx_Ssrf
  imports Go_Strings
begin

text \<open>
  Outbound request protection (\<^verbatim>\<open>httpx/ssrf.go\<close>). A \<^verbatim>\<open>net.IP\<close> is its list of bytes. Parsing of
  URLs and addresses and name resolution are parameters; a resolver is passed separately to
  every lookup, because the answer of the network may change between two lookups.
\<close>

subsection \<open>Addresses\<close>

type_synonym net_ip = "nat list"

definition To4 :: "net_ip \<Rightarrow> net_ip option" where
  "To4 ip = (if length ip = 4 then Some ip
     else if length ip = 16 \<and> take 10 ip = replicate 10 0 \<and> ip ! 10 = 255 \<and> ip ! 11 = 255
     then Some (drop 12 ip) else None)"

definition mapped :: "nat \<Rightarrow> nat \<Rightarrow> nat \<Rightarrow> nat \<Rightarrow> net_ip" where
  "mapped a b c d = replicate 10 0 @ [255, 255, a, b, c, d]"

definition ip_Equal :: "net_ip \<Rightarrow> net_ip \<Rightarrow> bool" where
  "ip_Equal x y =
     (if length x = length y then x = y
      else if length x = 4 \<and> length y = 16 then take 12 y = replicate 10 0 @ [255, 255] \<and> drop 12 y = x
      else if length x = 16 \<and> length y = 4 then take 12 x = replicate 10 0 @ [255, 255] \<and> drop 12 x = y
      else False)"

definition IPv6loopback :: net_ip where
  "IPv6loopback = replicate 15 0 @ [1]"

definition IsLoopback :: "net_ip \<Rightarrow> bool" where
  "IsLoopback ip = (case To4 ip of Some v \<Rightarrow> v ! 0 = 127 | None \<Rightarrow> ip_Equal ip IPv6loopback)"

definition IsLinkLocalUnicast :: "net_ip \<Rightarrow> bool" where
  "IsLinkLocalUnicast ip = (case To4 ip of
     Some v \<Rightarrow> v ! 0 = 169 \<and> v ! 1 = 254
   | None \<Rightarrow> length ip = 16 \<and> ip ! 0 = 254 \<and> ip ! 1 div 64 = 2)"

definition IsLinkLocalMulticast :: "net_ip \<Rightarrow> bool" where
  "IsLinkLocalMulticast ip = (case To4 ip of
     Some v \<Rightarrow> v ! 0 = 224 \<and> v ! 1 = 0 \<and> v ! 2 = 0
   | None \<Rightarrow> length ip = 16 \<and> ip ! 0 = 255 \<and> ip ! 1 mod 16 = 2)"

definition IsPrivate :: "net_ip \<Rightarrow> bool" where
  "IsPrivate ip = (case To4 ip of
     Some v \<Rightarrow> v ! 0 = 10 \<or> v ! 0 = 172 \<and> v ! 1 div 16 = 1 \<or> v ! 0 = 192 \<and> v ! 1 = 168
   | None \<Rightarrow> length ip = 16 \<and> ip ! 0 div 2 = 126)"

definition IsPrivateIP :: "net_ip \<Rightarrow> bool" where
  "IsPrivateIP ip =
     (if IsLoopback ip then True
      else if IsLinkLocalUnicast ip \<or> IsLinkLocalMulticast ip then True
      else if IsPrivate ip then True
      else if (case To4 ip of Some v \<Rightarrow> v ! 0 = 169 \<and> v ! 1 = 254 | None \<Rightarrow> False) then True
      else if ip_Equal ip (mapped 192 0 2 0) \<or> ip_Equal ip (mapped 198 51 100 0) \<or>
              ip_Equal ip (mapped 203 0 113 0) then True
      else False)"

subsection \<open>URLs\<close>

datatype ssrf_error = ParseError | SSRFError string | DialError string

record url =
  u_Scheme :: string
  u_HasUser :: bool
  u_Host :: string
  u_RawQuery :: string

text \<open>\<^verbatim>\<open>URL.Hostname\<close>: the host without a valid port and without brackets.\<close>

definition last_colon :: "string \<Rightarrow> (string \<times> string) option" where
  "last_colon s = (if CHR '':'' \<notin> set s then None
     else let r = rev s; tail = takeWhile (\<lambda>c. c \<noteq> CHR '':'') r
          in Some (rev (drop (length tail + 1) r), rev tail))"

definition Hostname :: "url \<Rightarrow> string" where
  "Hostname u =
     (let h = (case last_colon (u_Host u) of
                 Some (host, port) \<Rightarrow> if list_all is_digit port then host else u_Host u
               | None \<Rightarrow> u_Host u)
      in if HasPrefix h ''['' \<and> HasSuffix h '']'' then butlast (tl h) else h)"

definition isPrivateHostname :: "string \<Rightarrow> bool" where
  "isPrivateHostname name =
     (let h = ToLower name in
      h = ''localhost'' \<or> h = ''127.0.0.1'' \<or> h = ''::1'' \<or>
      h = ''169.254.169.254'' \<or> h = ''metadata.google.internal'' \<or>
      HasSuffix h ''.internal'' \<or> HasSuffix h ''.local'')"

type_synonym ip_parser = "string \<Rightarrow> net_ip option"
type_synonym resolver = "string \<Rightarrow> net_ip list option"
type_synonym url_parser = "string \<Rightarrow> url option"

definition validateResolvedIPs :: "ip_parser \<Rightarrow> resolver \<Rightarrow> string \<Rightarrow> ssrf_error + unit" where
  "validateResolvedIPs ParseIP LookupIP hostname =
     (case ParseIP hostname of
        Some ip \<Rightarrow> if IsPrivateIP ip then Inl (SSRFError ''private/internal IP is not allowed'') else Inr ()
      | None \<Rightarrow>
          (case LookupIP hostname of
             None \<Rightarrow> Inl (SSRFError ''failed to resolve hostname'')
           | Some ips \<Rightarrow>
               if ips = [] then Inl (SSRFError ''failed to resolve hostname'')
               else if list_ex IsPrivateIP ips
               then Inl (SSRFError ''hostname resolves to a private/internal IP'') else Inr ()))"

definition ValidateOutboundURL :: "url_parser \<Rightarrow> ip_parser \<Rightarrow> resolver \<Rightarrow> string \<Rightarrow> ssrf_error + unit" where
  "ValidateOutboundURL url_Parse ParseIP LookupIP rawURL =
     (case url_Parse rawURL of
        None \<Rightarrow> Inl ParseError
      | Some u \<Rightarrow>
          if u_HasUser u \<or> u_Host u \<noteq> Hostname u \<and> Contains (u_Host u) ''@''
          then Inl (SSRFError ''userinfo is not allowed'')
          else if u_RawQuery u \<noteq> [] \<and> ContainsAny (u_RawQuery u) [CHR 0x0D, CHR 0x0A]
          then Inl (SSRFError ''invalid URL query'')
          else if u_Scheme u \<noteq> ''http'' \<and> u_Scheme u \<noteq> ''https''
          then Inl (SSRFError ''only http(s) schemes are allowed'')
          else if Hostname u = [] then Inl (SSRFError ''hostname is required'')
          else if isPrivateHostname (Hostname u)
          then Inl (SSRFError ''private/internal hostnames are not allowed'')
          else validateResolvedIPs ParseIP LookupIP (Hostname u))"

subsection \<open>Dialing\<close>

text \<open>
  \<open>dial ip\<close> is the outcome of connecting to an address: a connection or an error. The result
  carries the addresses that were dialed, in order. \<open>SplitHostPort\<close> is the library's.
\<close>

fun dial_public :: "(net_ip \<Rightarrow> string + 'conn) \<Rightarrow> net_ip list \<Rightarrow> string option \<Rightarrow>
    (ssrf_error + net_ip \<times> 'conn) \<times> net_ip list" where
  "dial_public dial [] lastErr =
     (Inl (DialError (case lastErr of None \<Rightarrow> ''no public address available'' | Some e \<Rightarrow> e)), [])"
| "dial_public dial (ip # ips) lastErr =
     (if IsPrivateIP ip then dial_public dial ips lastErr
      else case dial ip of
             Inr conn \<Rightarrow> (Inr (ip, conn), [ip])
           | Inl e \<Rightarrow> (case dial_public dial ips (Some e) of (r, dialed) \<Rightarrow> (r, ip # dialed)))"

definition safeDialContext ::
  "(string \<Rightarrow> (string \<times> string) option) \<Rightarrow> ip_parser \<Rightarrow> resolver \<Rightarrow> resolver \<Rightarrow> (net_ip \<Rightarrow> string \<Rightarrow> string + 'conn) \<Rightarrow>
   string \<Rightarrow> (ssrf_error + net_ip \<times> 'conn) \<times> net_ip list" where
  "safeDialContext SplitHostPort ParseIP lookup1 lookup2 dial address =
     (case SplitHostPort address of
        None \<Rightarrow> (Inl (SSRFError ''invalid outbound address''), [])
      | Some (host, port) \<Rightarrow>
          (case validateResolvedIPs ParseIP lookup1 host of
             Inl e \<Rightarrow> (Inl e, [])
           | Inr _ \<Rightarrow>
               (case lookup2 host of
                  None \<Rightarrow> (Inl (SSRFError ''failed to resolve hostname''), [])
                | Some ips \<Rightarrow> dial_public (\<lambda>ip. dial ip port) ips None)))"

text \<open>The parts of an \<^verbatim>\<open>http.Client\<close> that \<^verbatim>\<open>SafeDo\<close> inspects and replaces.\<close>

datatype dialer = SafeDialer | OtherDialer
datatype transport = HttpTransport dialer | CustomTransport
datatype redirect_check = CheckValidated | CheckCustom

record http_client =
  hc_Transport :: "transport option"
  hc_CheckRedirect :: "redirect_check option"

definition SafeHTTPClient :: http_client where
  "SafeHTTPClient = \<lparr>hc_Transport = Some (HttpTransport SafeDialer), hc_CheckRedirect = Some CheckValidated\<rparr>"

definition CheckRedirect :: "url_parser \<Rightarrow> ip_parser \<Rightarrow> resolver \<Rightarrow> nat \<Rightarrow> string \<Rightarrow> ssrf_error + unit" where
  "CheckRedirect url_Parse ParseIP LookupIP via rawURL =
     (if via \<ge> 5 then Inl (SSRFError ''too many redirects'')
      else ValidateOutboundURL url_Parse ParseIP LookupIP rawURL)"

text \<open>The result is the client the request is sent with.\<close>

definition SafeDo ::
  "url_parser \<Rightarrow> ip_parser \<Rightarrow> resolver \<Rightarrow> http_client option \<Rightarrow> string \<Rightarrow> ssrf_error + http_client" where
  "SafeDo url_Parse ParseIP LookupIP client rawURL =
     (case ValidateOutboundURL url_Parse ParseIP LookupIP rawURL of
        Inl e \<Rightarrow> Inl e
      | Inr _ \<Rightarrow>
          (let c = (case client of None \<Rightarrow> SafeHTTPClient | Some c \<Rightarrow> c) in
           case hc_Transport c of
             Some CustomTransport \<Rightarrow> Inl (SSRFError ''unsafe custom HTTP transport'')
           | _ \<Rightarrow> Inr (c\<lparr>hc_Transport := Some (HttpTransport SafeDialer),
                      hc_CheckRedirect := (case hc_CheckRedirect c of None \<Rightarrow> Some CheckValidated | Some x \<Rightarrow> Some x)\<rparr>)))"

text \<open>Following redirects: the first request is sent, then each target the servers answer with
  is checked before it is requested. The result lists the URLs that are requested.\<close>

fun follow :: "(nat \<Rightarrow> string \<Rightarrow> ssrf_error + unit) \<Rightarrow> nat \<Rightarrow> string list \<Rightarrow> string list" where
  "follow check via [] = []"
| "follow check via (u # us) = (case check via u of Inl _ \<Rightarrow> [] | Inr _ \<Rightarrow> u # follow check (Suc via) us)"

definition ValidateTCPAddress :: "ip_parser \<Rightarrow> resolver \<Rightarrow> string \<Rightarrow> int \<Rightarrow> ssrf_error + unit" where
  "ValidateTCPAddress ParseIP LookupIP host port =
     (if port < 1 \<or> port > 65535 then Inl (SSRFError ''invalid port'')
      else validateResolvedIPs ParseIP LookupIP (Trim host ''[]''))"

subsection \<open>Lemmas\<close>

lemma To4_four: "To4 [a, b, c, d] = Some [a, b, c, d]"
  by (simp add: To4_def)

lemma To4_mapped: "To4 (mapped a b c d) = Some [a, b, c, d]"
  by (simp add: To4_def mapped_def numeral_eq_Suc)

lemma mapped_length: "length (mapped a b c d) = 16"
  by (simp add: mapped_def)

lemma ip_Equal_mapped:
  "ip_Equal [a, b, c, d] (mapped a' b' c' d') \<longleftrightarrow> a = a' \<and> b = b' \<and> c = c' \<and> d = d'"
  "ip_Equal (mapped a b c d) (mapped a' b' c' d') \<longleftrightarrow> a = a' \<and> b = b' \<and> c = c' \<and> d = d'"
  by (auto simp: ip_Equal_def mapped_def numeral_eq_Suc)

lemma dial_public_sound:
  "dial_public dial ips lastErr = (r, dialed) \<Longrightarrow>
     (\<forall>ip \<in> set dialed. ip \<in> set ips \<and> \<not> IsPrivateIP ip) \<and>
     (\<forall>ip conn. r = Inr (ip, conn) \<longrightarrow> ip \<in> set dialed \<and> dial ip = Inr conn)"
proof (induction ips arbitrary: lastErr r dialed)
  case (Cons ip ips)
  consider "IsPrivateIP ip" | conn where "\<not> IsPrivateIP ip" "dial ip = Inr conn"
    | e where "\<not> IsPrivateIP ip" "dial ip = Inl e" by (cases "dial ip") auto
  then show ?case
  proof cases
    case 1
    with Cons show ?thesis by fastforce
  next
    case 2
    with Cons.prems show ?thesis by auto
  next
    case (3 e)
    obtain r' more where rest: "dial_public dial ips (Some e) = (r', more)" by fastforce
    with 3 Cons.prems have "r = r'" "dialed = ip # more" by simp_all
    with Cons.IH [OF rest] 3 show ?thesis by simp
  qed
qed simp

lemma follow_length: "length (follow (CheckRedirect up pip res) via targets) \<le> 5 - via"
proof (induction targets arbitrary: via)
  case (Cons t targets)
  then show ?case using Cons [of "Suc via"] by (auto simp: CheckRedirect_def split: sum.splits)
qed simp

lemma follow_validated:
  "t \<in> set (follow (CheckRedirect up pip res) via targets) \<Longrightarrow> ValidateOutboundURL up pip res t = Inr ()"
proof (induction targets arbitrary: via)
  case (Cons a targets)
  have "ValidateOutboundURL up pip res a = Inr ()" if "CheckRedirect up pip res via a = Inr ()"
    using that by (simp add: CheckRedirect_def split: if_splits)
  with Cons show ?case by (auto split: sum.splits)
qed simp

subsection \<open>Properties\<close>

text \<open>C28: no request reaches a private address: whatever the name server answers at the check
  and at the connect, every address safeDialContext dials, and the one it connects to, is
  public by IsPrivateIP; so changing the DNS answer between validation and dialing gains nothing.\<close>

theorem safe_dial_public:
  "case safeDialContext SplitHostPort ParseIP lookup1 lookup2 dial address of (r, dialed) \<Rightarrow>
     (\<forall>ip \<in> set dialed. \<not> IsPrivateIP ip) \<and> (\<forall>ip conn. r = Inr (ip, conn) \<longrightarrow> \<not> IsPrivateIP ip)"
proof -
  have "case dial_public (\<lambda>ip. dial ip port) ips None of (r, dialed) \<Rightarrow>
      (\<forall>ip \<in> set dialed. \<not> IsPrivateIP ip) \<and> (\<forall>ip conn. r = Inr (ip, conn) \<longrightarrow> \<not> IsPrivateIP ip)" for port ips
    using dial_public_sound [where dial = "\<lambda>ip. dial ip port" and ips = ips and lastErr = None] by (fastforce split: prod.splits)
  then show ?thesis
    by (simp add: safeDialContext_def split: option.splits sum.splits prod.splits)
qed

theorem safe_dial_public_witness:
  "fst (safeDialContext (\<lambda>a. Some (a, ''443'')) (\<lambda>_. None) (\<lambda>_. Some [[9, 9, 9, 9]]) (\<lambda>_. Some [[10, 0, 0, 2], [8, 8, 8, 8]])
      (\<lambda>ip port. if ip = [8, 8, 8, 8] then Inr port else Inl ''refused'') ''example.org'') = Inr ([8, 8, 8, 8], ''443'') \<and>
   \<not> IsPrivateIP [8, 8, 8, 8]"
proof -
  have p: "IsPrivateIP [10, 0, 0, 2]" "\<not> IsPrivateIP [9, 9, 9, 9]" "\<not> IsPrivateIP [8, 8, 8, 8]" by code_simp+
  have r: "safeDialContext (\<lambda>a. Some (a, ''443'')) (\<lambda>_. None) (\<lambda>_. Some [[9, 9, 9, 9]]) (\<lambda>_. Some [[10, 0, 0, 2], [8, 8, 8, 8]])
      (\<lambda>ip port. if ip = [8, 8, 8, 8] then Inr port else Inl ''refused'') ''example.org'' =
      (Inr ([8, 8, 8, 8], ''443''), [[8, 8, 8, 8]])"
    by (simp add: safeDialContext_def validateResolvedIPs_def p)
  from safe_dial_public [of "\<lambda>a. Some (a, ''443'')" "\<lambda>_. None" "\<lambda>_. Some [[9, 9, 9, 9]]"
      "\<lambda>_. Some [[10, 0, 0, 2], [8, 8, 8, 8]]" "\<lambda>ip port. if ip = [8, 8, 8, 8] then Inr port else Inl ''refused''" "''example.org''"]
  show ?thesis by (simp add: r)
qed

text \<open>The address policy, exactly: an IPv4 address is refused if and only if it lies in
  127/8, 10/8, 172.16/12, 192.168/16, 169.254/16 or 224.0.0/24 or is one of three single
  addresses, and its IPv4-mapped IPv6 form is treated alike; so the unspecified address 0.0.0.0 and
  the rest of the documentation networks are accepted.\<close>

theorem private_ip_policy:
  "(IsPrivateIP [a, b, c, d] \<longleftrightarrow>
      a = 127 \<or> a = 10 \<or> a = 172 \<and> b div 16 = 1 \<or> a = 192 \<and> b = 168 \<or> a = 169 \<and> b = 254 \<or>
      a = 224 \<and> b = 0 \<and> c = 0 \<or> [a, b, c, d] \<in> {[192, 0, 2, 0], [198, 51, 100, 0], [203, 0, 113, 0]}) \<and>
   IsPrivateIP (mapped a b c d) = IsPrivateIP [a, b, c, d] \<and> \<not> IsPrivateIP [0, 0, 0, 0]"
  by (auto simp: IsPrivateIP_def IsLoopback_def IsLinkLocalUnicast_def IsLinkLocalMulticast_def IsPrivate_def
      To4_four To4_mapped ip_Equal_mapped)

text \<open>What a protected request may do: if SafeDo goes ahead, the URL has an http or https
  scheme, no user part and a host that is not an internal name and whose addresses are
  public; the client it uses dials with the safe dialer, and following redirects with the
  default check requests at most four further URLs, each of which passed the same validation.\<close>

theorem safe_do_guards:
  assumes "SafeDo url_Parse ParseIP LookupIP client rawURL = Inr c"
  shows "(\<exists>u. url_Parse rawURL = Some u \<and> u_Scheme u \<in> {''http'', ''https''} \<and> \<not> u_HasUser u \<and>
      \<not> isPrivateHostname (Hostname u) \<and>
      (case ParseIP (Hostname u) of
         Some ip \<Rightarrow> \<not> IsPrivateIP ip
       | None \<Rightarrow> (\<exists>ips. LookupIP (Hostname u) = Some ips \<and> ips \<noteq> [] \<and> (\<forall>ip \<in> set ips. \<not> IsPrivateIP ip)))) \<and>
    hc_Transport c = Some (HttpTransport SafeDialer) \<and> hc_CheckRedirect c \<noteq> None \<and>
    (\<forall>targets. length (follow (CheckRedirect url_Parse ParseIP LookupIP) 1 targets) \<le> 4 \<and>
       (\<forall>t \<in> set (follow (CheckRedirect url_Parse ParseIP LookupIP) 1 targets).
          ValidateOutboundURL url_Parse ParseIP LookupIP t = Inr ()))"
proof -
  have len: "length (follow (CheckRedirect url_Parse ParseIP LookupIP) 1 targets) \<le> 4" for targets
    using follow_length [of url_Parse ParseIP LookupIP 1 targets] by simp
  note each = follow_validated [of _ url_Parse ParseIP LookupIP 1]
  from assms have v: "ValidateOutboundURL url_Parse ParseIP LookupIP rawURL = Inr ()"
    by (auto simp: SafeDo_def split: sum.splits)
  then have "\<exists>u. url_Parse rawURL = Some u \<and> u_Scheme u \<in> {''http'', ''https''} \<and> \<not> u_HasUser u \<and>
      \<not> isPrivateHostname (Hostname u) \<and> validateResolvedIPs ParseIP LookupIP (Hostname u) = Inr ()"
    by (auto simp: ValidateOutboundURL_def split: option.splits if_splits)
  then have "\<exists>u. url_Parse rawURL = Some u \<and> u_Scheme u \<in> {''http'', ''https''} \<and> \<not> u_HasUser u \<and>
      \<not> isPrivateHostname (Hostname u) \<and>
      (case ParseIP (Hostname u) of
         Some ip \<Rightarrow> \<not> IsPrivateIP ip
       | None \<Rightarrow> (\<exists>ips. LookupIP (Hostname u) = Some ips \<and> ips \<noteq> [] \<and> (\<forall>ip \<in> set ips. \<not> IsPrivateIP ip)))"
    by (fastforce simp: validateResolvedIPs_def list_ex_iff split: option.splits if_splits)
  moreover have "hc_Transport c = Some (HttpTransport SafeDialer)" "hc_CheckRedirect c \<noteq> None"
    using assms by (auto simp: SafeDo_def Let_def split: sum.splits option.splits transport.splits)
  ultimately show ?thesis using len each by blast
qed

definition demo_url :: url where
  "demo_url = \<lparr>u_Scheme = ''https'', u_HasUser = False, u_Host = ''example.org:443'', u_RawQuery = []\<rparr>"

theorem safe_do_guards_witness:
  "\<exists>c. SafeDo (\<lambda>_. Some demo_url) (\<lambda>_. None) (\<lambda>_. Some [[8, 8, 8, 8]]) None ''https://example.org:443'' = Inr c \<and>
     hc_Transport c = Some (HttpTransport SafeDialer)"
proof -
  have "Hostname demo_url = ''example.org''" "\<not> isPrivateHostname ''example.org''" "\<not> IsPrivateIP [8, 8, 8, 8]"
    "\<not> Contains ''example.org:443'' ''@''" by code_simp+
  then obtain c where c: "SafeDo (\<lambda>_. Some demo_url) (\<lambda>_. None) (\<lambda>_. Some [[8, 8, 8, 8]]) None ''https://example.org:443'' = Inr c"
    by (simp add: SafeDo_def ValidateOutboundURL_def validateResolvedIPs_def SafeHTTPClient_def demo_url_def)
  from safe_do_guards [OF c] c show ?thesis by blast
qed

end
