(* ===== verification/Kce_Envelope.thy ===== *)
theory Kce_Envelope
  imports Go_Strings
begin

text \<open>
  The KCE1 envelope of \<^verbatim>\<open>kce/kce.go\<close>: framing, key derivation, block-wise keystream and
  encrypt-then-MAC tag over byte strings. SHAKE-256 is a parameter: \<open>shake m n\<close> are the first
  \<open>n\<close> bytes squeezed after absorbing \<open>m\<close>, and \<open>xof_ok\<close> states what an extendable-output
  function promises. The random salt and iv are arguments. The lemmas show that opening
  inverts sealing, and that the accepted blobs are exactly the well-formed, tagged ones.
\<close>

subsection \<open>Definitions\<close>

type_synonym xof = "string \<Rightarrow> nat \<Rightarrow> string"

datatype kce_error = ErrInvalid | EmptyKeyMaterial | PlaintextTooLong

definition xof_ok :: "xof \<Rightarrow> bool" where
  "xof_ok shake \<longleftrightarrow> (\<forall>m n. length (shake m n) = n) \<and>
     (\<forall>m n k. take n (shake m (n + k)) = shake m n)"

definition magic :: string where "magic = ''KCE1''"
definition versionFlg :: char where "versionFlg = CHR 0x00"
definition saltBytes :: nat where "saltBytes = 16"
definition ivBytes :: nat where "ivBytes = 8"
definition tagBytes :: nat where "tagBytes = 16"
definition keyBytes :: nat where "keyBytes = 32"
definition blockBytes :: nat where "blockBytes = 64"
definition headerLen :: nat where
  "headerLen = length magic + 1 + saltBytes + ivBytes + 4"
definition MaxPlaintextLen :: nat where "MaxPlaintextLen = 4 * 1024 * 1024"

fun byte_xor :: "char \<Rightarrow> char \<Rightarrow> char" where
  "byte_xor (Char a0 a1 a2 a3 a4 a5 a6 a7) (Char b0 b1 b2 b3 b4 b5 b6 b7) =
     Char (a0 \<noteq> b0) (a1 \<noteq> b1) (a2 \<noteq> b2) (a3 \<noteq> b3) (a4 \<noteq> b4) (a5 \<noteq> b5) (a6 \<noteq> b6) (a7 \<noteq> b7)"

text \<open>\<^verbatim>\<open>binary.BigEndian\<close> on \<^verbatim>\<open>uint32\<close>; \<open>char_of\<close> keeps the low byte.\<close>

definition AppendUint32 :: "string \<Rightarrow> nat \<Rightarrow> string" where
  "AppendUint32 s n = s @ [char_of (n div 16777216), char_of (n div 65536), char_of (n div 256), char_of n]"

definition Uint32 :: "string \<Rightarrow> nat" where
  "Uint32 s = (let b = \<lambda>i. of_char (s ! i) :: nat
     in b 0 * 16777216 + b 1 * 65536 + b 2 * 256 + b 3)"

definition IsBlob :: "string \<Rightarrow> bool" where
  "IsBlob data \<longleftrightarrow> length data \<ge> length magic \<and> take (length magic) data = magic"

definition deriveKey :: "xof \<Rightarrow> string \<Rightarrow> string \<Rightarrow> string" where
  "deriveKey shake keyMaterial salt = shake (keyMaterial @ salt) keyBytes"

definition tag :: "xof \<Rightarrow> string \<Rightarrow> string \<Rightarrow> string \<Rightarrow> string" where
  "tag shake key iv ct =
     shake (key @ iv @ AppendUint32 [] (length ct mod 4294967296) @ ct) tagBytes"

text \<open>The \<open>Read\<close> of a sponge that has already delivered \<open>off\<close> bytes.\<close>

definition squeeze :: "xof \<Rightarrow> string \<Rightarrow> nat \<Rightarrow> nat \<Rightarrow> string" where
  "squeeze shake m off n = drop off (shake m (off + n))"

function xor_blocks :: "xof \<Rightarrow> string \<Rightarrow> string \<Rightarrow> nat \<Rightarrow> string" where
  "xor_blocks shake m data start =
     (if length data \<le> start then []
      else let n = min blockBytes (length data - start);
               block = squeeze shake m start n
           in map2 byte_xor (take n (drop start data)) block
              @ xor_blocks shake m data (start + blockBytes))"
  by pat_completeness auto
termination
  by (relation "measure (\<lambda>(_, _, data, start). length data - start)") (auto simp: blockBytes_def)

declare xor_blocks.simps [simp del]

definition xorStream :: "xof \<Rightarrow> string \<Rightarrow> string \<Rightarrow> string \<Rightarrow> string" where
  "xorStream shake key iv data = xor_blocks shake (key @ iv) data 0"

definition KceEncrypt :: "xof \<Rightarrow> string \<Rightarrow> string \<Rightarrow> string \<Rightarrow> string \<Rightarrow> kce_error + string" where
  "KceEncrypt shake salt iv plaintext keyMaterial =
     (if length keyMaterial = 0 then Inl EmptyKeyMaterial
      else if length plaintext > MaxPlaintextLen then Inl PlaintextTooLong
      else let key = deriveKey shake keyMaterial salt;
               ct = xorStream shake key iv plaintext
           in Inr (AppendUint32 (magic @ [versionFlg] @ salt @ iv) (length ct mod 4294967296)
                   @ ct @ tag shake key iv ct))"

definition KceDecrypt :: "xof \<Rightarrow> string \<Rightarrow> string \<Rightarrow> kce_error + string" where
  "KceDecrypt shake blob keyMaterial =
     (if length blob < headerLen + tagBytes \<or> \<not> IsBlob blob then Inl ErrInvalid
      else if blob ! length magic \<noteq> versionFlg then Inl ErrInvalid
      else let off = length magic + 1;
               salt = take saltBytes (drop off blob);
               off = off + saltBytes;
               iv = take ivBytes (drop off blob);
               off = off + ivBytes;
               ctLen = Uint32 (drop off blob);
               off = off + 4
           in if length blob \<noteq> off + ctLen + tagBytes then Inl ErrInvalid
              else let ct = take ctLen (drop off blob);
                       key = deriveKey shake keyMaterial salt;
                       want = tag shake key iv ct
                   in if want \<noteq> drop (off + ctLen) blob then Inl ErrInvalid
                      else Inr (xorStream shake key iv ct))"

subsection \<open>Lemmas\<close>

lemma byte_xor_xor [simp]: "byte_xor (byte_xor a b) b = a"
  by (cases a; cases b) (simp, blast)

lemma map2_xor_xor:
  "length xs \<le> length ks \<Longrightarrow> map2 byte_xor (map2 byte_xor xs ks) ks = xs"
  by (induction xs arbitrary: ks) (auto simp: Suc_le_length_iff)

lemma xof_length [simp]: "xof_ok shake \<Longrightarrow> length (shake m n) = n"
  by (simp add: xof_ok_def)

lemma xof_take: "xof_ok shake \<Longrightarrow> n \<le> k \<Longrightarrow> take n (shake m k) = shake m n"
  by (metis le_add_diff_inverse xof_ok_def)

lemma squeeze_eq:
  assumes "xof_ok shake" "off + n \<le> k"
  shows "squeeze shake m off n = take n (drop off (shake m k))"
proof -
  have "squeeze shake m off n = drop off (take (off + n) (shake m k))"
    using xof_take [OF assms] by (simp add: squeeze_def)
  also have "\<dots> = take n (drop off (shake m k))" by (simp add: drop_take)
  finally show ?thesis .
qed

text \<open>The block loop computes the plain stream cipher: data XOR the whole keystream.\<close>

lemma xor_blocks_eq:
  assumes "xof_ok shake"
  shows "xor_blocks shake m data start =
         map2 byte_xor (drop start data) (drop start (shake m (length data)))"
  using assms
proof (induction shake m data start rule: xor_blocks.induct)
  case (1 shake m data start)
  show ?case
  proof (cases "length data \<le> start")
    case True
    then show ?thesis by (subst xor_blocks.simps) simp
  next
    case False
    define n where "n = min blockBytes (length data - start)"
    let ?ks = "drop start (shake m (length data))"
    have n: "start + n \<le> length data" using False by (simp add: n_def)
    have rest: "drop (start + blockBytes) xs = drop n (drop start xs)" if "length xs = length data" for xs :: string
      using False that by (cases "blockBytes \<le> length data - start") (auto simp: n_def add.commute min_def)
    have "xor_blocks shake m data start = map2 byte_xor (take n (drop start data)) (take n ?ks)
        @ map2 byte_xor (drop n (drop start data)) (drop n ?ks)"
      using False 1(1)[OF False n_def refl 1(2)] rest squeeze_eq [OF 1(2) n, of m] 1(2)
      by (subst xor_blocks.simps) (simp add: n_def [symmetric] Let_def)
    also have "\<dots> = map2 byte_xor (drop start data) ?ks"
      using zip_append [of "take n (drop start data)" "take n ?ks" "drop n (drop start data)" "drop n ?ks"] n 1(2)
      by (simp only: map_append [symmetric] append_take_drop_id length_take length_drop xof_length)
    finally show ?thesis .
  qed
qed

lemma xorStream_eq:
  "xof_ok shake \<Longrightarrow> xorStream shake key iv data = map2 byte_xor data (shake (key @ iv) (length data))"
  by (simp add: xorStream_def xor_blocks_eq)

lemma xorStream_length [simp]: "xof_ok shake \<Longrightarrow> length (xorStream shake key iv data) = length data"
  by (simp add: xorStream_eq)

lemma xorStream_twice: "xof_ok shake \<Longrightarrow> xorStream shake key iv (xorStream shake key iv data) = data"
  by (simp add: xorStream_eq map2_xor_xor)

lemma div_shift: "(n::nat) div 65536 = n div 256 div 256" "n div 16777216 = n div 256 div 256 div 256"
  by (simp_all add: div_mult2_eq [symmetric])

lemma Uint32_Append:
  assumes "n < 4294967296"
  shows "Uint32 (AppendUint32 [] n @ rest) = n"
proof -
  define x y z where "x = n div 256" and "y = x div 256" and "z = y div 256"
  have "n = x * 256 + n mod 256" "x = y * 256 + x mod 256" "y = z * 256 + y mod 256"
    by (simp_all add: x_def y_def z_def)
  moreover have "z mod 256 = z" using assms by (simp add: x_def y_def z_def div_less_iff_less_mult)
  moreover have "Uint32 (AppendUint32 [] n @ rest) = z mod 256 * 16777216 + y mod 256 * 65536 + x mod 256 * 256 + n mod 256"
    by (simp add: Uint32_def AppendUint32_def div_shift x_def y_def z_def)
  ultimately show ?thesis by linarith
qed

lemma Uint32_less: "Uint32 s < 4294967296"
proof -
  have b: "(of_char c :: nat) \<le> 255" for c :: char
    using byte_val_less [of c] by linarith
  show ?thesis using b [of "s ! 0"] b [of "s ! 1"] b [of "s ! 2"] b [of "s ! 3"]
    by (simp add: Uint32_def Let_def)
qed

lemma shift_byte: "b < 256 \<Longrightarrow> (x * 256 + b) div 256 = x \<and> (x * 256 + b) mod 256 = (b::nat)"
  by simp

lemma AppendUint32_Uint32:
  assumes "length s \<ge> 4"
  shows "AppendUint32 [] (Uint32 s) = take 4 s"
proof -
  from assms obtain a b c d r where s: "s = a # b # c # d # r"
    by (auto simp: numeral_eq_Suc Suc_le_length_iff)
  let ?v = "of_char :: char \<Rightarrow> nat"
  have n: "Uint32 s = ((?v a * 256 + ?v b) * 256 + ?v c) * 256 + ?v d"
    by (simp add: Uint32_def s)
  have "Uint32 s div 256 = (?v a * 256 + ?v b) * 256 + ?v c" "Uint32 s mod 256 = ?v d"
    using shift_byte [OF byte_val_less [of d]] by (simp_all only: n)
  moreover have "((?v a * 256 + ?v b) * 256 + ?v c) div 256 = ?v a * 256 + ?v b"
    "((?v a * 256 + ?v b) * 256 + ?v c) mod 256 = ?v c"
    using shift_byte [OF byte_val_less [of c]] by blast+
  moreover have "(?v a * 256 + ?v b) div 256 = ?v a" "(?v a * 256 + ?v b) mod 256 = ?v b"
    using shift_byte [OF byte_val_less [of b]] by blast+
  moreover have "char_of k = (char_of (k mod 256) :: char)" for k :: nat
    by (simp add: char_of_mod_256)
  ultimately have "char_of (Uint32 s div 16777216) = a" "char_of (Uint32 s div 65536) = b"
    "char_of (Uint32 s div 256) = c" "char_of (Uint32 s) = d"
    by (metis div_shift char_of_char)+
  then show ?thesis by (simp add: AppendUint32_def s)
qed

text \<open>The shape of an envelope and what \<open>KceDecrypt\<close> reads from it.\<close>

definition envelope :: "string \<Rightarrow> string \<Rightarrow> string \<Rightarrow> string \<Rightarrow> string" where
  "envelope salt iv ct tg = magic @ [versionFlg] @ salt @ iv @ AppendUint32 [] (length ct) @ ct @ tg"

lemma length_magic: "length magic = 4"
  by (simp add: magic_def)

lemmas kce_sizes = length_magic saltBytes_def ivBytes_def tagBytes_def headerLen_def

lemma AppendUint32_length [simp]: "length (AppendUint32 s n) = length s + 4"
  by (simp add: AppendUint32_def)

lemma AppendUint32_append: "AppendUint32 s n = s @ AppendUint32 [] n"
  by (simp add: AppendUint32_def)

lemma envelope_decrypt:
  assumes "length salt = 16" "length iv = 8" "length tg = 16" "length ct < 4294967296"
  shows "KceDecrypt shake (envelope salt iv ct tg) k =
    (if tag shake (deriveKey shake k salt) iv ct = tg
     then Inr (xorStream shake (deriveKey shake k salt) iv ct) else Inl ErrInvalid)"
proof -
  let ?blob = "envelope salt iv ct tg"
  have parts: "length ?blob = 49 + length ct" "IsBlob ?blob" "?blob ! length magic = versionFlg"
    "take saltBytes (drop 5 ?blob) = salt" "take ivBytes (drop 21 ?blob) = iv"
    "drop 29 ?blob = AppendUint32 [] (length ct) @ ct @ tg" "drop 33 ?blob = ct @ tg"
    using assms by (simp_all add: envelope_def kce_sizes IsBlob_def nth_append)
  have "Uint32 (drop 29 ?blob) = length ct"
    using Uint32_Append [OF assms(4)] parts(6) by simp
  moreover have "drop (33 + length ct) ?blob = tg"
    using parts(7) by (metis append_eq_conv_conj drop_drop add.commute)
  ultimately show ?thesis
    using parts assms(3) by (simp add: KceDecrypt_def Let_def kce_sizes)
qed

lemma KceDecrypt_cases: "KceDecrypt shake blob k = Inl ErrInvalid \<or> (\<exists>pt. KceDecrypt shake blob k = Inr pt)"
  unfolding KceDecrypt_def Let_def by (simp del: drop_all take_all)

lemma KceDecrypt_bad:
  "length blob \<noteq> 49 + Uint32 (drop 29 blob) \<or> \<not> IsBlob blob \<or> blob ! 4 \<noteq> versionFlg \<Longrightarrow>
   KceDecrypt shake blob k = Inl ErrInvalid"
  unfolding KceDecrypt_def Let_def kce_sizes by (auto simp del: drop_all take_all)

lemma KceDecrypt_shape:
  assumes "KceDecrypt shake blob k = Inr pt"
  shows "\<exists>salt iv ct tg. blob = envelope salt iv ct tg \<and> length salt = 16 \<and> length iv = 8 \<and>
     length tg = 16 \<and> length ct < 4294967296"
proof -
  obtain n where n: "Uint32 (drop 29 blob) = n" by simp
  have len: "length blob = 49 + n" and blob: "IsBlob blob" and flg: "blob ! 4 = versionFlg"
    unfolding n [symmetric] using assms KceDecrypt_bad [of blob shake k] by (metis Inl_Inr_False)+
  let ?ct = "take n (drop 33 blob)"
  have "blob = take 4 blob @ [blob ! 4] @ take 16 (drop 5 blob) @ take 8 (drop 21 blob) @
      take 4 (drop 29 blob) @ ?ct @ drop (33 + n) blob"
  proof -
    have "blob = take 4 blob @ drop 4 blob" by simp
    also have "drop 4 blob = [blob ! 4] @ drop 5 blob"
      using Cons_nth_drop_Suc [of 4 blob] len by simp
    also have "drop 5 blob = take 16 (drop 5 blob) @ drop 21 blob"
      using append_take_drop_id [of 16 "drop 5 blob"] by simp
    also have "drop 21 blob = take 8 (drop 21 blob) @ drop 29 blob"
      using append_take_drop_id [of 8 "drop 21 blob"] by simp
    also have "drop 29 blob = take 4 (drop 29 blob) @ drop 33 blob"
      using append_take_drop_id [of 4 "drop 29 blob"] by simp
    also have "drop 33 blob = ?ct @ drop (33 + n) blob"
      using append_take_drop_id [of n "drop 33 blob"] by (simp add: add.commute)
    finally show ?thesis by simp
  qed
  moreover have "take 4 (drop 29 blob) = AppendUint32 [] (length ?ct)"
    using AppendUint32_Uint32 [of "drop 29 blob"] len n by simp
  moreover have "take 4 blob = magic" using blob by (simp add: IsBlob_def length_magic)
  ultimately have "blob = envelope (take 16 (drop 5 blob)) (take 8 (drop 21 blob)) ?ct (drop (33 + n) blob)"
    using flg by (simp add: envelope_def)
  moreover have "length (drop (33 + n) blob) = 16" "length ?ct < 4294967296"
    using len n Uint32_less [of "drop 29 blob"] by simp_all
  ultimately show ?thesis using len
    by (intro exI [of _ "take 16 (drop 5 blob)"] exI [of _ "take 8 (drop 21 blob)"] exI [of _ ?ct]
        exI [of _ "drop (33 + n) blob"]) simp
qed

lemma KceEncrypt_eq:
  assumes "xof_ok shake" "k \<noteq> []" "length pt \<le> MaxPlaintextLen"
  shows "KceEncrypt shake salt iv pt k =
    (let key = deriveKey shake k salt; ct = xorStream shake key iv pt
     in Inr (envelope salt iv ct (tag shake key iv ct)))"
proof -
  have "length pt < 4294967296" using assms(3) by (simp add: MaxPlaintextLen_def)
  with assms show ?thesis
    using AppendUint32_append [of "magic @ [versionFlg] @ salt @ iv"]
    by (simp add: KceEncrypt_def envelope_def Let_def)
qed

text \<open>A concrete extendable-output function, to run the definitions on.\<close>

definition demo_xof :: xof where
  "demo_xof m n = map (\<lambda>i. byte_xor (char_of (i * 7 + length m)) (if m = [] then CHR 0x00 else hd m)) [0..<n]"

lemma demo_xof_ok: "xof_ok demo_xof"
  by (simp add: xof_ok_def demo_xof_def take_map take_upt)

subsection \<open>Properties\<close>

lemma KceEncrypt_Decrypt:
  assumes "xof_ok shake" and "length salt = saltBytes" and "length iv = ivBytes"
    and "k \<noteq> []" and "length pt \<le> MaxPlaintextLen"
  shows "\<exists>blob. KceEncrypt shake salt iv pt k = Inr blob \<and> IsBlob blob \<and> KceDecrypt shake blob k = Inr pt \<and>
    length blob = 49 + length pt"
proof -
  let ?key = "deriveKey shake k salt"
  let ?ct = "xorStream shake ?key iv pt"
  have "length ?ct < 4294967296" using assms(1,5) by (simp add: MaxPlaintextLen_def)
  from envelope_decrypt [OF _ _ _ this, of salt iv "tag shake ?key iv ?ct" shake k] assms
  have "KceDecrypt shake (envelope salt iv ?ct (tag shake ?key iv ?ct)) k = Inr pt"
    by (simp add: saltBytes_def ivBytes_def tagBytes_def tag_def xorStream_twice)
  moreover have "IsBlob (envelope salt iv ?ct (tag shake ?key iv ?ct))"
    by (simp add: IsBlob_def envelope_def magic_def)
  moreover have "length (envelope salt iv ?ct (tag shake ?key iv ?ct)) = 49 + length pt"
    using assms by (simp add: envelope_def AppendUint32_def magic_def saltBytes_def ivBytes_def tag_def tagBytes_def)
  ultimately show ?thesis using KceEncrypt_eq [OF assms(1,4,5), of salt iv] by (simp add: Let_def)
qed

text \<open>C22: opening inverts sealing: for every key, salt, iv and plaintext of at most 4 MiB,
  Encrypt succeeds, its result is recognised as a blob, and Decrypt with the same key
  returns the plaintext.\<close>

theorem kce_roundtrip:
  assumes "xof_ok shake" and "length salt = saltBytes" and "length iv = ivBytes"
    and "k \<noteq> []" and "length pt \<le> MaxPlaintextLen"
  shows "\<exists>blob. KceEncrypt shake salt iv pt k = Inr blob \<and> IsBlob blob \<and> KceDecrypt shake blob k = Inr pt"
  using KceEncrypt_Decrypt [OF assms] by blast

theorem kce_roundtrip_witness:
  "\<exists>blob. KceEncrypt demo_xof (replicate 16 CHR ''s'') (replicate 8 CHR ''i'') ''proxies: []'' ''key'' = Inr blob \<and>
     IsBlob blob \<and> KceDecrypt demo_xof blob ''key'' = Inr ''proxies: []''"
  using kce_roundtrip [OF demo_xof_ok, of "replicate 16 CHR ''s''" "replicate 8 CHR ''i''" "''key''" "''proxies: []''"]
  by (simp add: saltBytes_def ivBytes_def MaxPlaintextLen_def)

text \<open>Decrypt accepts exactly the authenticated envelopes: it returns a plaintext if and
  only if the blob is magic, version, a 16-byte salt, an 8-byte iv, the length and bytes of a
  ciphertext and the 16-byte tag of that ciphertext under the derived key, and the plaintext is
  the ciphertext XOR the keystream; on every other blob it fails with ErrInvalid alone.\<close>

theorem kce_decrypt_exact:
  assumes "xof_ok shake"
  shows "(KceDecrypt shake blob k = Inr pt \<longleftrightarrow>
      (\<exists>salt iv ct. length salt = 16 \<and> length iv = 8 \<and> length ct < 4294967296 \<and>
         blob = envelope salt iv ct (tag shake (deriveKey shake k salt) iv ct) \<and>
         pt = map2 byte_xor ct (shake (deriveKey shake k salt @ iv) (length ct))))
    \<and> (\<forall>e. KceDecrypt shake blob k = Inl e \<longrightarrow> e = ErrInvalid)"
proof -
  have tl: "length (tag shake key iv ct) = 16" for key iv ct
    using assms by (simp add: tag_def tagBytes_def)
  have "\<exists>salt iv ct. length salt = 16 \<and> length iv = 8 \<and> length ct < 4294967296 \<and>
         blob = envelope salt iv ct (tag shake (deriveKey shake k salt) iv ct) \<and>
         pt = map2 byte_xor ct (shake (deriveKey shake k salt @ iv) (length ct))"
    if ok: "KceDecrypt shake blob k = Inr pt"
  proof -
    obtain salt iv ct tg where e: "blob = envelope salt iv ct tg" and
      l: "length salt = 16" "length iv = 8" "length tg = 16" "length ct < 4294967296"
      using KceDecrypt_shape [OF ok] by blast
    from envelope_decrypt [OF l, of shake k] ok e show ?thesis
      using l xorStream_eq [OF assms] by (auto split: if_splits)
  qed
  moreover have "KceDecrypt shake blob k = Inr pt"
    if "length salt = 16" "length iv = 8" "length ct < 4294967296"
      "blob = envelope salt iv ct (tag shake (deriveKey shake k salt) iv ct)"
      "pt = map2 byte_xor ct (shake (deriveKey shake k salt @ iv) (length ct))" for salt iv ct
    using envelope_decrypt [OF that(1,2) tl that(3), of shake] that(4,5) xorStream_eq [OF assms] by simp
  moreover have "e = ErrInvalid" if "KceDecrypt shake blob k = Inl e" for e
    using that KceDecrypt_cases [of shake blob k] by auto
  ultimately show ?thesis by blast
qed

theorem kce_decrypt_exact_witness:
  "KceDecrypt demo_xof (envelope (replicate 16 CHR ''s'') (replicate 8 CHR ''i'') ''x''
     (tag demo_xof (deriveKey demo_xof ''key'' (replicate 16 CHR ''s'')) (replicate 8 CHR ''i'') ''x'')) ''key'' =
   Inr (map2 byte_xor ''x'' (demo_xof (deriveKey demo_xof ''key'' (replicate 16 CHR ''s'') @ replicate 8 CHR ''i'') 1))"
proof -
  let ?s = "replicate 16 CHR ''s''" and ?i = "replicate 8 CHR ''i''"
  have "\<exists>salt iv ct. length salt = 16 \<and> length iv = 8 \<and> length ct < 4294967296 \<and>
      envelope ?s ?i ''x'' (tag demo_xof (deriveKey demo_xof ''key'' ?s) ?i ''x'') =
        envelope salt iv ct (tag demo_xof (deriveKey demo_xof ''key'' salt) iv ct) \<and>
      map2 byte_xor ''x'' (demo_xof (deriveKey demo_xof ''key'' ?s @ ?i) 1) =
        map2 byte_xor ct (demo_xof (deriveKey demo_xof ''key'' salt @ iv) (length ct))"
    by (intro exI [of _ ?s] exI [of _ ?i] exI [of _ "''x''"]) simp
  with kce_decrypt_exact [OF demo_xof_ok] show ?thesis by blast
qed

end
