(* ===== verification/Subscribe_Import.thy ===== *)
theory Subscribe_Import
  imports Subscribe_Outbound Httpx_Ssrf Kce_Envelope
begin

text \<open>
  Import of Clash profiles (\<^verbatim>\<open>subscribe/clashimport.go\<close>): the lenient readers of YAML scalars, unique
  names, the modes of proxy groups, the translation of each proxy into a sing-box outbound, and
  the guarded download of a profile, which may be a KCE1 envelope. The YAML reader, the JSON
  writer and the HTTP exchange are parameters.
\<close>

subsection \<open>Lenient readers\<close>

text \<open>An argument \<open>None\<close> is a missing key.\<close>

definition asString :: "json option \<Rightarrow> string" where
  "asString v = (case v of Some (JStr s) \<Rightarrow> s | Some (JInt n) \<Rightarrow> Itoa n | Some (JFloat _ t) \<Rightarrow> t | _ \<Rightarrow> [])"

definition asInt :: "json option \<Rightarrow> int" where
  "asInt v = (case v of Some (JInt n) \<Rightarrow> n | Some (JFloat n _) \<Rightarrow> n | _ \<Rightarrow> 0)"

definition asBool :: "json option \<Rightarrow> bool" where
  "asBool v = (case v of Some (JBool b) \<Rightarrow> b | _ \<Rightarrow> False)"

text \<open>The nil map and the empty map are read alike.\<close>

definition getMapVal :: "json_map \<Rightarrow> string \<Rightarrow> json_map" where
  "getMapVal m key = (case map_of m key of Some (JObj sub) \<Rightarrow> sub | _ \<Rightarrow> [])"

definition asStringSlice :: "json option \<Rightarrow> string list" where
  "asStringSlice v = (case v of
     Some (JArr raw) \<Rightarrow> filter (\<lambda>s. s \<noteq> []) (map (asString \<circ> Some) raw)
   | _ \<Rightarrow> [])"

definition orDefaultStr :: "string \<Rightarrow> string \<Rightarrow> string" where
  "orDefaultStr v def = (if v = [] then def else v)"

subsection \<open>Unique names\<close>

definition candidate :: "string \<Rightarrow> nat \<Rightarrow> string" where
  "candidate name i = name @ '' #'' @ itoa_nat i"

lemma candidate_inj: "candidate name i = candidate name j \<Longrightarrow> i = j"
  by (simp add: candidate_def itoa_nat_inj)

lemma finite_taken: "finite {j. candidate name j \<in> set seen}"
proof -
  have "inj_on (candidate name) {j. candidate name j \<in> set seen}" by (auto intro: inj_onI candidate_inj)
  moreover have "candidate name ` {j. candidate name j \<in> set seen} \<subseteq> set seen" by blast
  ultimately show ?thesis by (meson finite_set finite_subset finite_imageD)
qed

text \<open>The loop of \<^verbatim>\<open>uniqueName\<close>: it stops because the taken candidates are finitely many.\<close>

function next_free :: "string \<Rightarrow> nat \<Rightarrow> string list \<Rightarrow> string" where
  "next_free name i seen = (if candidate name i \<notin> set seen then candidate name i else next_free name (Suc i) seen)"
  by pat_completeness auto

termination next_free
proof (relation "measure (\<lambda>(name, i, seen). card {j. i \<le> j \<and> candidate name j \<in> set seen})")
  fix name i and seen :: "string list"
  assume "\<not> candidate name i \<notin> set seen"
  then have "i \<in> {j. i \<le> j \<and> candidate name j \<in> set seen}" "i \<notin> {j. Suc i \<le> j \<and> candidate name j \<in> set seen}" by auto
  moreover have "{j. Suc i \<le> j \<and> candidate name j \<in> set seen} \<subseteq> {j. i \<le> j \<and> candidate name j \<in> set seen}" by auto
  ultimately have "{j. Suc i \<le> j \<and> candidate name j \<in> set seen} \<subset> {j. i \<le> j \<and> candidate name j \<in> set seen}" by blast
  moreover have "finite {j. i \<le> j \<and> candidate name j \<in> set seen}"
    using finite_taken [of name seen] by (rule rev_finite_subset) auto
  ultimately show "((name, Suc i, seen), name, i, seen) \<in>
      measure (\<lambda>(name, i, seen). card {j. i \<le> j \<and> candidate name j \<in> set seen})"
    by (simp add: psubset_card_mono)
qed simp

declare next_free.simps [simp del]

definition uniqueName :: "string \<Rightarrow> string list \<Rightarrow> string" where
  "uniqueName name seen = (if name \<notin> set seen then name else next_free name 2 seen)"

subsection \<open>Modes of proxy groups\<close>

definition groupNameToMode :: "string \<Rightarrow> string" where
  "groupNameToMode name =
     (if name \<in> {''GLOBAL'', [CHR 0xE5, CHR 0x85, CHR 0xA8, CHR 0xE5, CHR 0xB1, CHR 0x80], ''Global''} then ''global''
      else if name \<in> {''DIRECT'', [CHR 0xE7, CHR 0x9B, CHR 0xB4, CHR 0xE8, CHR 0xBF, CHR 0x9E], ''Direct''} then ''direct''
      else [])"

definition group_modes :: "json_map \<Rightarrow> (string \<rightharpoonup> string) \<Rightarrow> (string \<rightharpoonup> string)" where
  "group_modes g modes =
     (let groupName = asString (map_of g ''name'') in
      if groupName = [] then modes
      else let mode = groupNameToMode groupName in
           if mode = [] then modes
           else fold (\<lambda>proxyName m. if proxyName \<noteq> [] then m(proxyName \<mapsto> mode) else m)
                  (asStringSlice (map_of g ''proxies'')) modes)"

definition extractModes :: "json_map list \<Rightarrow> (string \<rightharpoonup> string) \<Rightarrow> (string \<rightharpoonup> string)" where
  "extractModes groups modes = fold group_modes groups modes"

subsection \<open>Proxies to outbounds\<close>

definition singboxType :: "string \<Rightarrow> string" where
  "singboxType clashType = (if clashType = ''ss'' then ''shadowsocks'' else clashType)"

definition applyClashTLS :: "json_map \<Rightarrow> json_map \<Rightarrow> json_map" where
  "applyClashTLS ob p =
     (let reality = getMapVal p ''reality-opts'';
          sni = asString (map_of p ''servername'');
          alpn = asStringSlice (map_of p ''alpn'');
          fp = asString (map_of p ''client-fingerprint'')
      in if \<not> asBool (map_of p ''tls'') \<and> reality = [] then ob
         else put ''tls'' (JObj
           (put_if (fp \<noteq> []) ''utls'' (JObj [(''enabled'', JBool True), (''fingerprint'', JStr fp)])
           (put_if (reality \<noteq> []) ''reality'' (JObj [(''enabled'', JBool True),
               (''public_key'', JStr (asString (map_of reality ''public-key''))),
               (''short_id'', JStr (asString (map_of reality ''short-id'')))])
           (put_if (alpn \<noteq> []) ''alpn'' (JArr (map JStr alpn))
           (put_if (asBool (map_of p ''skip-cert-verify'')) ''insecure'' (JBool True)
           (put_if (sni \<noteq> []) ''server_name'' (JStr sni) [(''enabled'', JBool True)])))))) ob)"

definition ws_transport :: "json_map \<Rightarrow> json_map" where
  "ws_transport opts =
     (let path = asString (map_of opts ''path''); headers = getMapVal opts ''headers'';
          ed = asInt (map_of opts ''max-early-data''); edh = asString (map_of opts ''early-data-header-name'')
      in put_if (edh \<noteq> []) ''early_data_header_name'' (JStr edh)
        (put_if (ed > 0) ''max_early_data'' (JInt ed)
        (put_if (headers \<noteq> []) ''headers'' (JObj headers)
        (put_if (path \<noteq> []) ''path'' (JStr path) [(''type'', JStr ''ws'')]))))"

definition grpc_transport :: "json_map \<Rightarrow> json_map" where
  "grpc_transport opts =
     (let sn = asString (map_of opts ''grpc-service-name'')
      in put_if (sn \<noteq> []) ''service_name'' (JStr sn) [(''type'', JStr ''grpc'')])"

definition http_transport :: "json_map \<Rightarrow> json_map" where
  "http_transport opts =
     (let tr = (case map_of opts ''path'' of
            Some (JStr path) \<Rightarrow> put ''path'' (JStr path) [(''type'', JStr ''http'')]
          | Some (JArr (first # _)) \<Rightarrow> put ''path'' (JStr (asString (Some first))) [(''type'', JStr ''http'')]
          | _ \<Rightarrow> [(''type'', JStr ''http'')]);
          hosts = asStringSlice (map_of opts ''host''); headers = getMapVal opts ''headers''
      in if hosts \<noteq> [] then put ''host'' (JArr (map JStr hosts)) tr
         else put_if (headers \<noteq> []) ''headers'' (JObj headers) tr)"

definition applyClashTransport :: "json_map \<Rightarrow> json_map \<Rightarrow> json_map" where
  "applyClashTransport ob p =
     (let network = asString (map_of p ''network'') in
      if network = ''ws'' then put ''transport'' (JObj (ws_transport (getMapVal p ''ws-opts''))) ob
      else if network = ''grpc'' then put ''transport'' (JObj (grpc_transport (getMapVal p ''grpc-opts''))) ob
      else if network = ''http'' then put ''transport'' (JObj (http_transport (getMapVal p ''http-opts''))) ob
      else if network = ''h2'' then put ''transport'' (JObj (http_transport (getMapVal p ''h2-opts''))) ob
      else ob)"

text \<open>TLS is implicit in Hysteria2 and TUIC: the proxy map is updated before TLS is read.\<close>

definition implicit_tls :: "json_map \<Rightarrow> json_map" where
  "implicit_tls p =
     (let sni = asString (map_of p ''sni'')
      in put_if (sni \<noteq> []) ''servername'' (JStr sni) (put ''tls'' (JBool True) p))"

text \<open>The switch of \<^verbatim>\<open>clashToOutbound\<close>: the outbound with the fields of its type, and the proxy map.\<close>

definition type_fields :: "string \<Rightarrow> json_map \<Rightarrow> json_map \<Rightarrow> sub_error + json_map \<times> json_map" where
  "type_fields typ p ob =
     (let str = (\<lambda>k. asString (map_of p k)) in
      if typ = ''ss'' then
        (if str ''plugin'' \<noteq> [] then Inl (PluginUnsupported (str ''plugin''))
         else Inr (put ''password'' (JStr (str ''password'')) (put ''method'' (JStr (str ''cipher'')) ob), p))
      else if typ = ''vmess'' then
        Inr (put ''security'' (JStr (orDefaultStr (str ''cipher'') ''auto''))
          (put ''alter_id'' (JInt (asInt (map_of p ''alterId''))) (put ''uuid'' (JStr (str ''uuid'')) ob)), p)
      else if typ = ''vless'' then
        Inr (put_if (str ''flow'' \<noteq> []) ''flow'' (JStr (str ''flow'')) (put ''uuid'' (JStr (str ''uuid'')) ob), p)
      else if typ = ''trojan'' then Inr (put ''password'' (JStr (str ''password'')) ob, p)
      else if typ = ''hysteria2'' then
        Inr (put_if (str ''obfs'' = ''salamander'') ''obfs''
            (JObj [(''type'', JStr ''salamander''), (''password'', JStr (str ''obfs-password''))])
            (put ''password'' (JStr (str ''password'')) ob), implicit_tls p)
      else if typ = ''tuic'' then
        Inr (put_if (str ''congestion-controller'' \<noteq> []) ''congestion_control'' (JStr (str ''congestion-controller''))
            (put_if (str ''password'' \<noteq> []) ''password'' (JStr (str ''password'')) (put ''uuid'' (JStr (str ''uuid'')) ob)),
          implicit_tls p)
      else Inl (UnsupportedError typ))"

definition clashToOutbound :: "json_map \<Rightarrow> string \<Rightarrow> sub_error + json_map" where
  "clashToOutbound p t =
     (let typ = asString (map_of p ''type''); server = asString (map_of p ''server''); port = asInt (map_of p ''port'') in
      if server = [] \<or> port \<le> 0 \<or> port > 65535 then Inl (MissingFields ''server/port'')
      else case type_fields typ p [(''type'', JStr (singboxType typ)), (''tag'', JStr t), (''server'', JStr server),
             (''server_port'', JInt port)] of
        Inl e \<Rightarrow> Inl e
      | Inr (ob, p') \<Rightarrow> Inr (applyClashTransport (applyClashTLS ob p') p'))"

subsection \<open>Profiles\<close>

record clash_doc =
  cd_Proxies :: "json_map list"
  cd_ProxyGroups :: "json_map list"

record parsed_source =
  ps_Nodes :: "export_node list"
  ps_Skipped :: "string list"
  ps_Modes :: "string \<rightharpoonup> string"

text \<open>One round of the loop over the proxies; \<open>seen\<close> is the set of names given so far.\<close>

definition import_proxy :: "json_marshal \<Rightarrow> json_map \<Rightarrow> parsed_source \<times> string list \<Rightarrow> parsed_source \<times> string list" where
  "import_proxy marshal p st =
     (case st of (out, seen) \<Rightarrow>
        let name = asString (map_of p ''name'') in
        if name = [] then (out\<lparr>ps_Skipped := ps_Skipped out @ [''<unnamed>'']\<rparr>, seen)
        else let unique = uniqueName name seen in
          case clashToOutbound p unique of
            Inl _ \<Rightarrow> (out\<lparr>ps_Skipped := ps_Skipped out @ [name]\<rparr>, seen)
          | Inr ob \<Rightarrow> (case marshal (JObj ob) of
              None \<Rightarrow> (out\<lparr>ps_Skipped := ps_Skipped out @ [name]\<rparr>, seen)
            | Some raw \<Rightarrow> (out\<lparr>ps_Nodes := ps_Nodes out @ [\<lparr>x_Name = unique, x_Outbound = raw\<rparr>]\<rparr>, unique # seen)))"

definition ParseClashConfig :: "(string \<Rightarrow> clash_doc option) \<Rightarrow> json_marshal \<Rightarrow> string \<Rightarrow> sub_error + parsed_source" where
  "ParseClashConfig yaml_Unmarshal marshal raw =
     (case yaml_Unmarshal raw of
        None \<Rightarrow> Inl NotClashConfig
      | Some doc \<Rightarrow>
          if cd_Proxies doc = [] then Inl NoProxies
          else let out = \<lparr>ps_Nodes = [], ps_Skipped = [], ps_Modes = extractModes (cd_ProxyGroups doc) Map.empty\<rparr>
               in Inr (fst (fold (import_proxy marshal) (cd_Proxies doc) (out, []))))"

subsection \<open>Download\<close>

definition fetchSizeLimit :: nat where
  "fetchSizeLimit = 8388608"

datatype fetch_error = UnsafeURL | BadRequest | DoRefused ssrf_error | ExchangeFailed | BadStatus int | ReadFailed
  | TooLarge | ErrKeyRequired | KceFailed kce_error

text \<open>\<open>resp_Read n\<close> is what reading the body through a limit of \<open>n\<close> bytes gives.\<close>

record http_response =
  resp_StatusCode :: int
  resp_Read :: "nat \<Rightarrow> string option"

definition FetchConfigSource ::
  "url_parser \<Rightarrow> ip_parser \<Rightarrow> resolver \<Rightarrow> (string \<Rightarrow> bool) \<Rightarrow> (http_client \<Rightarrow> string \<Rightarrow> http_response option) \<Rightarrow> xof \<Rightarrow>
   http_client option \<Rightarrow> string \<Rightarrow> string \<Rightarrow> fetch_error + string" where
  "FetchConfigSource url_Parse ParseIP LookupIP NewRequest exchange shake client url keyMaterial =
     (case ValidateOutboundURL url_Parse ParseIP LookupIP url of Inl _ \<Rightarrow> Inl UnsafeURL
      | Inr _ \<Rightarrow>
     (if \<not> NewRequest url then Inl BadRequest
      else case SafeDo url_Parse ParseIP LookupIP client url of Inl e \<Rightarrow> Inl (DoRefused e)
      | Inr c \<Rightarrow> (case exchange c url of None \<Rightarrow> Inl ExchangeFailed
      | Some resp \<Rightarrow>
          if resp_StatusCode resp \<noteq> 200 then Inl (BadStatus (resp_StatusCode resp))
          else case resp_Read resp (fetchSizeLimit + 1) of None \<Rightarrow> Inl ReadFailed
          | Some body \<Rightarrow>
              if length body > fetchSizeLimit then Inl TooLarge
              else if IsBlob body then
                (if keyMaterial = [] then Inl ErrKeyRequired
                 else case KceDecrypt shake body keyMaterial of Inl e \<Rightarrow> Inl (KceFailed e) | Inr text \<Rightarrow> Inr text)
              else Inr body)))"

subsection \<open>Lemmas\<close>

lemma put_facts [simp]:
  "map_of (put k v m) x = (if x = k then Some v else map_of m x)"
  "map_of (put_if b k v m) x = (if b \<and> x = k then Some v else map_of m x)"
  by (simp_all add: put_if_def put_def update_conv')

lemma next_free_fresh: "next_free name i seen \<notin> set seen \<and> HasPrefix (next_free name i seen) name"
proof (induction name i seen rule: next_free.induct)
  case (1 name i seen)
  then show ?case
    by (simp add: next_free.simps [of name i] candidate_def)
qed

lemma uniqueName_fresh: "uniqueName name seen \<notin> set seen" "HasPrefix (uniqueName name seen) name"
  using next_free_fresh by (auto simp: uniqueName_def HasPrefix_def)

lemma uniqueName_nonempty: "name \<noteq> [] \<Longrightarrow> uniqueName name seen \<noteq> []"
  using uniqueName_fresh(2) [of name seen] by (auto simp: HasPrefix_def)

text \<open>The parts of the translation leave each other's keys alone.\<close>

lemma apply_frame_keys:
  "k \<noteq> ''tls'' \<Longrightarrow> map_of (applyClashTLS ob p) k = map_of ob k"
  "k \<noteq> ''transport'' \<Longrightarrow> map_of (applyClashTransport ob p) k = map_of ob k"
  by (simp_all add: applyClashTLS_def applyClashTransport_def Let_def)

definition clash_types :: "string list" where
  "clash_types = [''ss'', ''vmess'', ''vless'', ''trojan'', ''hysteria2'', ''tuic'']"

lemma type_fields_frame:
  assumes "type_fields typ p ob = Inr (ob', p')" and "k \<in> {''type'', ''tag'', ''server'', ''server_port''}"
  shows "map_of ob' k = map_of ob k" and "typ \<in> set clash_types"
  using assms by (auto simp: type_fields_def Let_def clash_types_def split: if_splits)

lemma clashToOutbound_shape:
  assumes "clashToOutbound p t = Inr m"
  shows "map_of m ''tag'' = Some (JStr t)" "map_of m ''server'' = Some (JStr (asString (map_of p ''server'')))"
    and "map_of m ''server_port'' = Some (JInt (asInt (map_of p ''port'')))"
    and "map_of m ''type'' = Some (JStr (singboxType (asString (map_of p ''type''))))"
    and "asString (map_of p ''type'') \<in> set clash_types"
    and "asString (map_of p ''server'') \<noteq> []" "0 < asInt (map_of p ''port'')" "asInt (map_of p ''port'') \<le> 65535"
proof -
  define base where "base = [(''type'', JStr (singboxType (asString (map_of p ''type'')))), (''tag'', JStr t),
    (''server'', JStr (asString (map_of p ''server''))), (''server_port'', JInt (asInt (map_of p ''port'')))]"
  obtain ob p' where f: "type_fields (asString (map_of p ''type'')) p base = Inr (ob, p')"
    and m: "m = applyClashTransport (applyClashTLS ob p') p'"
    using assms by (auto simp: clashToOutbound_def Let_def base_def split: if_splits sum.splits)
  show "asString (map_of p ''server'') \<noteq> []" "0 < asInt (map_of p ''port'')" "asInt (map_of p ''port'') \<le> 65535"
    using assms by (auto simp: clashToOutbound_def Let_def split: if_splits)
  show "asString (map_of p ''type'') \<in> set clash_types" using type_fields_frame(2) [OF f, of "''tag''"] by simp
  show "map_of m ''tag'' = Some (JStr t)" "map_of m ''server'' = Some (JStr (asString (map_of p ''server'')))"
    "map_of m ''server_port'' = Some (JInt (asInt (map_of p ''port'')))"
    "map_of m ''type'' = Some (JStr (singboxType (asString (map_of p ''type''))))"
    using type_fields_frame(1) [OF f] by (simp_all add: m apply_frame_keys) (simp_all add: base_def)
qed

lemma outbound_of_simps [simp]:
  "ob_Type (outbound_of m) = getStr m ''type''" "ob_Tag (outbound_of m) = getStr m ''tag''"
  "ob_Server (outbound_of m) = getStr m ''server''" "ob_ServerPort (outbound_of m) = getInt m ''server_port''"
  "ob_UUID (outbound_of m) = getStr m ''uuid''" "ob_Password (outbound_of m) = getStr m ''password''"
  "ob_Method (outbound_of m) = getStr m ''method''" "ob_Security (outbound_of m) = getStr m ''security''"
  "ob_AlterID (outbound_of m) = getInt m ''alter_id''" "ob_Flow (outbound_of m) = getStr m ''flow''"
  "ob_Congestion (outbound_of m) = getStr m ''congestion_control''"
  by (simp_all add: outbound_of_def Let_def split: option.split)

lemma outbound_of_sub [simp]:
  "ob_TLSEnabled (outbound_of m) = (case getMap m ''tls'' of None \<Rightarrow> False | Some t \<Rightarrow> getBool t ''enabled'')"
  "ob_ServerName (outbound_of m) = (case getMap m ''tls'' of None \<Rightarrow> [] | Some t \<Rightarrow> getStr t ''server_name'')"
  "ob_Insecure (outbound_of m) = (case getMap m ''tls'' of None \<Rightarrow> False | Some t \<Rightarrow> getBool t ''insecure'')"
  "ob_ALPN (outbound_of m) = (case getMap m ''tls'' of None \<Rightarrow> [] | Some t \<Rightarrow> getStrSlice t ''alpn'')"
  "ob_Transport (outbound_of m) = (case getMap m ''transport'' of None \<Rightarrow> [] | Some t \<Rightarrow> getStr t ''type'')"
  "ob_Path (outbound_of m) = (case getMap m ''transport'' of None \<Rightarrow> [] | Some t \<Rightarrow> getStr t ''path'')"
  "ob_ServiceName (outbound_of m) = (case getMap m ''transport'' of None \<Rightarrow> [] | Some t \<Rightarrow> getStr t ''service_name'')"
  "ob_Host (outbound_of m) = (case getMap m ''transport'' of None \<Rightarrow> []
     | Some t \<Rightarrow> (case getMap t ''headers'' of None \<Rightarrow> [] | Some hs \<Rightarrow> getStr hs ''Host''))"
  "ob_Obfs (outbound_of m) = (case getMap m ''obfs'' of None \<Rightarrow> [] | Some t \<Rightarrow> getStr t ''type'')"
  by (simp_all add: outbound_of_def Let_def split: option.split)

subsection \<open>Profiles import completely\<close>

text \<open>What the loop has established after the proxies \<open>ps\<close>.\<close>

definition imported :: "json_marshal \<Rightarrow> json_map list \<Rightarrow> parsed_source \<times> string list \<Rightarrow> bool" where
  "imported marshal ps st \<longleftrightarrow> (case st of (out, seen) \<Rightarrow>
     set seen = x_Name ` set (ps_Nodes out) \<and> distinct (map x_Name (ps_Nodes out)) \<and>
     length (ps_Nodes out) + length (ps_Skipped out) = length ps \<and>
     (\<forall>n \<in> set (ps_Nodes out). \<exists>p \<in> set ps. \<exists>m. clashToOutbound p (x_Name n) = Inr m \<and>
        marshal (JObj m) = Some (x_Outbound n) \<and> HasPrefix (x_Name n) (asString (map_of p ''name''))))"

lemma import_proxy_imported:
  assumes "imported marshal ps (out, seen)"
  shows "imported marshal (ps @ [p]) (import_proxy marshal p (out, seen))"
proof -
  define name where "name = asString (map_of p ''name'')"
  define u where "u = uniqueName name seen"
  have fresh: "u \<notin> x_Name ` set (ps_Nodes out)" "HasPrefix u name"
    using uniqueName_fresh [of name seen] assms by (auto simp: u_def imported_def)
  have skip: "imported marshal (ps @ [p]) (out\<lparr>ps_Skipped := ps_Skipped out @ [s]\<rparr>, seen)" for s
    using assms by (fastforce simp: imported_def)
  show ?thesis
  proof (cases "\<exists>m raw. name \<noteq> [] \<and> clashToOutbound p u = Inr m \<and> marshal (JObj m) = Some raw")
    case True
    then obtain m raw where m: "name \<noteq> []" "clashToOutbound p u = Inr m" "marshal (JObj m) = Some raw" by blast
    then have "import_proxy marshal p (out, seen) = (out\<lparr>ps_Nodes := ps_Nodes out @ [\<lparr>x_Name = u, x_Outbound = raw\<rparr>]\<rparr>, u # seen)"
      by (simp add: import_proxy_def name_def [symmetric] u_def [symmetric])
    with m fresh assms show ?thesis by (fastforce simp: imported_def name_def)
  next
    case False
    then have "\<exists>s. import_proxy marshal p (out, seen) = (out\<lparr>ps_Skipped := ps_Skipped out @ [s]\<rparr>, seen)"
      by (auto simp: import_proxy_def Let_def name_def [symmetric] u_def [symmetric] split: sum.splits option.splits)
    with skip show ?thesis by auto
  qed
qed

lemma fold_imported:
  "imported marshal ps st \<Longrightarrow> imported marshal (ps @ qs) (fold (import_proxy marshal) qs st)"
proof (induction qs arbitrary: ps st)
  case (Cons q qs)
  obtain out seen where st: "st = (out, seen)" by (cases st)
  have "imported marshal (ps @ [q]) (import_proxy marshal q st)"
    using import_proxy_imported Cons.prems unfolding st by blast
  from Cons.IH [OF this] show ?case by simp
qed simp

lemma import_modes: "ps_Modes (fst (fold (import_proxy marshal) qs st)) = ps_Modes (fst st)"
proof (induction qs arbitrary: st)
  case (Cons q qs)
  have "ps_Modes (fst (import_proxy marshal q st)) = ps_Modes (fst st)"
    by (cases st) (auto simp: import_proxy_def Let_def split: sum.splits option.splits)
  with Cons show ?case by simp
qed simp

text \<open>
  C30: importing a Clash profile accounts for every proxy and gives usable nodes. Import fails
  only for an unreadable or empty profile. Otherwise each proxy is either a node or listed as
  skipped, node names are pairwise distinct and extend the names in the profile, and every
  stored outbound is read back by the panel with the node's name as tag, one of the six
  supported types, a server and a valid port, so that it can be probed and exported. Assumed of
  the JSON codec: a written object reads back with the same fields.
\<close>

theorem clash_import_complete:
  assumes json: "\<forall>m t. marshal (JObj m) = Some t \<longrightarrow> (\<exists>m'. unmarshal t = Some (JObj m') \<and> outbound_of m' = outbound_of m)"
    and doc: "yaml_Unmarshal raw = Some doc" "cd_Proxies doc \<noteq> []"
  shows "\<exists>src. ParseClashConfig yaml_Unmarshal marshal raw = Inr src \<and>
    length (ps_Nodes src) + length (ps_Skipped src) = length (cd_Proxies doc) \<and>
    distinct (map x_Name (ps_Nodes src)) \<and>
    (\<forall>n \<in> set (ps_Nodes src). \<exists>p \<in> set (cd_Proxies doc). HasPrefix (x_Name n) (asString (map_of p ''name'')) \<and>
      (\<exists>ob. parseOutbound unmarshal (x_Outbound n) = Inr ob \<and> ob_Tag ob = x_Name n \<and>
         ob_Type ob = singboxType (asString (map_of p ''type'')) \<and> asString (map_of p ''type'') \<in> set clash_types \<and>
         0 < ob_ServerPort ob \<and> ob_ServerPort ob \<le> 65535 \<and>
         ParseOutboundServer unmarshal (x_Outbound n) = Inr (asString (map_of p ''server''), asInt (map_of p ''port''))))"
proof -
  define src where "src = fst (fold (import_proxy marshal) (cd_Proxies doc)
    (\<lparr>ps_Nodes = [], ps_Skipped = [], ps_Modes = extractModes (cd_ProxyGroups doc) Map.empty\<rparr>, []))"
  have inv: "imported marshal (cd_Proxies doc) (fold (import_proxy marshal) (cd_Proxies doc)
    (\<lparr>ps_Nodes = [], ps_Skipped = [], ps_Modes = extractModes (cd_ProxyGroups doc) Map.empty\<rparr>, []))"
    using fold_imported [of marshal "[]"] by (simp add: imported_def)
  have ok: "\<exists>ob. parseOutbound unmarshal t = Inr ob \<and> ob_Tag ob = name \<and>
      ob_Type ob = singboxType (asString (map_of p ''type'')) \<and> asString (map_of p ''type'') \<in> set clash_types \<and>
      0 < ob_ServerPort ob \<and> ob_ServerPort ob \<le> 65535 \<and>
      ParseOutboundServer unmarshal t = Inr (asString (map_of p ''server''), asInt (map_of p ''port''))"
    if m: "clashToOutbound p name = Inr m" "marshal (JObj m) = Some t" for p name m t
  proof -
    note shape = clashToOutbound_shape [OF m(1)]
    obtain m' where m': "unmarshal t = Some (JObj m')" "outbound_of m' = outbound_of m" using json m(2) by blast
    have "ob_Type (outbound_of m') = singboxType (asString (map_of p ''type''))"
      unfolding m'(2) by (simp add: getStr_def shape(4))
    then have ty: "getStr m' ''type'' = singboxType (asString (map_of p ''type''))" by simp
    have "getStr m' ''type'' \<noteq> []"
      using shape(5) by (auto simp: ty singboxType_def clash_types_def)
    then have parsed: "parseOutbound unmarshal t = Inr (outbound_of m)" using m' by (simp add: parseOutbound_def)
    then show ?thesis
      using shape by (simp add: ParseOutboundServer_def getStr_def getInt_def)
  qed
  have "ParseClashConfig yaml_Unmarshal marshal raw = Inr src"
    using doc by (simp add: ParseClashConfig_def src_def)
  moreover have "length (ps_Nodes src) + length (ps_Skipped src) = length (cd_Proxies doc)" "distinct (map x_Name (ps_Nodes src))"
    and "\<forall>n \<in> set (ps_Nodes src). \<exists>p \<in> set (cd_Proxies doc). \<exists>m. clashToOutbound p (x_Name n) = Inr m \<and>
        marshal (JObj m) = Some (x_Outbound n) \<and> HasPrefix (x_Name n) (asString (map_of p ''name''))"
    using inv by (auto simp: imported_def src_def split: prod.splits)
  ultimately show ?thesis using ok by meson
qed

definition demo_doc :: clash_doc where
  "demo_doc = \<lparr>cd_Proxies =
     [[(''name'', JStr ''hk''), (''type'', JStr ''trojan''), (''server'', JStr ''a.example''), (''port'', JInt 443), (''password'', JStr ''p'')],
      [(''name'', JStr ''hk''), (''type'', JStr ''snell''), (''server'', JStr ''b.example''), (''port'', JInt 443)]],
     cd_ProxyGroups = []\<rparr>"

definition demo_trojan :: json_map where
  "demo_trojan = [(''type'', JStr ''trojan''), (''tag'', JStr ''hk''), (''server'', JStr ''a.example''), (''server_port'', JInt 443), (''password'', JStr ''p'')]"

theorem clash_import_complete_witness:
  "\<exists>src. ParseClashConfig (\<lambda>_. Some demo_doc) (\<lambda>v. if v = JObj demo_trojan then Some ''t'' else None) ''y'' = Inr src \<and>
     ps_Nodes src = [\<lparr>x_Name = ''hk'', x_Outbound = ''t''\<rparr>] \<and> ps_Skipped src = [''hk''] \<and>
     ParseOutboundServer (\<lambda>_. Some (JObj demo_trojan)) ''t'' = Inr (''a.example'', 443)"
proof -
  define marshal where "marshal = (\<lambda>v. if v = JObj demo_trojan then Some ''t'' else None)"
  define unmarshal :: json_unmarshal where "unmarshal = (\<lambda>_. Some (JObj demo_trojan))"
  have tr: "clashToOutbound (hd (cd_Proxies demo_doc)) ''hk'' = Inr demo_trojan"
    by (simp add: clashToOutbound_def demo_doc_def demo_trojan_def asString_def asInt_def type_fields_def singboxType_def
        applyClashTLS_def applyClashTransport_def getMapVal_def asBool_def put_def)
  have sn: "clashToOutbound (cd_Proxies demo_doc ! 1) t = Inl (UnsupportedError ''snell'')" for t
    by (simp add: clashToOutbound_def demo_doc_def asString_def asInt_def type_fields_def)
  define src where "src = \<lparr>ps_Nodes = [\<lparr>x_Name = ''hk'', x_Outbound = ''t''\<rparr>], ps_Skipped = [''hk''], ps_Modes = Map.empty\<rparr>"
  have "ParseClashConfig (\<lambda>_. Some demo_doc) marshal ''y'' = Inr src"
    using tr sn by (simp add: ParseClashConfig_def demo_doc_def import_proxy_def uniqueName_def asString_def extractModes_def
        marshal_def src_def Let_def)
  moreover have "\<forall>m t. marshal (JObj m) = Some t \<longrightarrow> (\<exists>m'. unmarshal t = Some (JObj m') \<and> outbound_of m' = outbound_of m)"
    by (simp add: marshal_def unmarshal_def)
  note clash_import_complete [OF this, of "\<lambda>_. Some demo_doc" "''y''" demo_doc]
  ultimately show ?thesis
    by (auto simp: marshal_def unmarshal_def src_def demo_doc_def asString_def asInt_def clash_types_def)
qed

subsection \<open>Download\<close>

text \<open>The download when the guarded client answers with a body it can read.\<close>

lemma FetchConfigSource_answered:
  assumes "ValidateOutboundURL url_Parse ParseIP LookupIP url = Inr ()" "NewRequest url"
    and "SafeDo url_Parse ParseIP LookupIP client url = Inr c"
    and "exchange c url = Some \<lparr>resp_StatusCode = 200, resp_Read = (\<lambda>n. Some (take n body))\<rparr>"
  shows "FetchConfigSource url_Parse ParseIP LookupIP NewRequest exchange shake client url key =
    (if length body > fetchSizeLimit then Inl TooLarge
     else if IsBlob body then
       (if key = [] then Inl ErrKeyRequired
        else case KceDecrypt shake body key of Inl e \<Rightarrow> Inl (KceFailed e) | Inr text \<Rightarrow> Inr text)
     else Inr body)"
proof (cases "length body > fetchSizeLimit")
  case True
  then show ?thesis using assms by (simp add: FetchConfigSource_def)
next
  case False
  then have "take (fetchSizeLimit + 1) body = body" by simp
  with False show ?thesis using assms by (simp add: FetchConfigSource_def)
qed

text \<open>
  C33: what a download returns. Whatever the server does, a returned profile comes from an address
  that passed the outbound policy and an answer with status 200. Over the guarded client, a body
  above 8 MiB is refused and a plain one returned unchanged; an envelope sealed with a key (salt
  and iv of the right size, a plaintext within the format's limit) is refused without a key and
  returned as its plaintext with that key.
\<close>

theorem fetch_guarded_and_decrypted:
  assumes shake: "xof_ok shake"
  shows "(\<forall>out. FetchConfigSource url_Parse ParseIP LookupIP NewRequest exchange shake client url key = Inr out \<longrightarrow>
      ValidateOutboundURL url_Parse ParseIP LookupIP url = Inr () \<and>
      (\<exists>c resp. SafeDo url_Parse ParseIP LookupIP client url = Inr c \<and> exchange c url = Some resp \<and> resp_StatusCode resp = 200)) \<and>
    (ValidateOutboundURL url_Parse ParseIP LookupIP url = Inr () \<and> NewRequest url \<and>
      SafeDo url_Parse ParseIP LookupIP client url = Inr c \<and>
      exchange c url = Some \<lparr>resp_StatusCode = 200, resp_Read = (\<lambda>n. Some (take n body))\<rparr> \<longrightarrow>
      (length body > fetchSizeLimit \<longrightarrow>
         FetchConfigSource url_Parse ParseIP LookupIP NewRequest exchange shake client url key = Inl TooLarge) \<and>
      (length body \<le> fetchSizeLimit \<and> \<not> IsBlob body \<longrightarrow>
         FetchConfigSource url_Parse ParseIP LookupIP NewRequest exchange shake client url key = Inr body) \<and>
      (\<forall>salt iv pt k. length salt = saltBytes \<and> length iv = ivBytes \<and> k \<noteq> [] \<and> length pt \<le> MaxPlaintextLen \<and>
         KceEncrypt shake salt iv pt k = Inr body \<longrightarrow>
         FetchConfigSource url_Parse ParseIP LookupIP NewRequest exchange shake client url [] = Inl ErrKeyRequired \<and>
         FetchConfigSource url_Parse ParseIP LookupIP NewRequest exchange shake client url k = Inr pt))"
    (is "?guarded \<and> (?ok \<longrightarrow> ?big \<and> ?plain \<and> ?sealed)")
proof (rule conjI)
  show ?guarded by (auto simp: FetchConfigSource_def split: sum.splits if_splits option.splits)
next
  have "?big \<and> ?plain \<and> ?sealed" if ok: ?ok
  proof (rule conjI)
    show ?big using ok by (simp add: FetchConfigSource_answered)
    have ?plain using ok by (simp add: FetchConfigSource_answered)
    moreover have ?sealed
    proof (intro allI impI)
      fix salt iv pt k
      assume a: "length salt = saltBytes \<and> length iv = ivBytes \<and> k \<noteq> [] \<and> length pt \<le> MaxPlaintextLen \<and>
           KceEncrypt shake salt iv pt k = Inr body"
      with KceEncrypt_Decrypt [OF shake] have b: "IsBlob body" "KceDecrypt shake body k = Inr pt" "length body = 49 + length pt"
        by fastforce+
      then have "length body \<le> fetchSizeLimit" using a by (simp add: fetchSizeLimit_def MaxPlaintextLen_def)
      then show "FetchConfigSource url_Parse ParseIP LookupIP NewRequest exchange shake client url [] = Inl ErrKeyRequired \<and>
           FetchConfigSource url_Parse ParseIP LookupIP NewRequest exchange shake client url k = Inr pt"
        using ok b a by (simp add: FetchConfigSource_answered)
    qed
    ultimately show "?plain \<and> ?sealed" by (rule conjI)
  qed
  then show "?ok \<longrightarrow> ?big \<and> ?plain \<and> ?sealed" by (rule impI)
qed

theorem fetch_guarded_and_decrypted_witness:
  "\<exists>body. KceEncrypt demo_xof (replicate 16 CHR ''s'') (replicate 8 CHR ''i'') ''proxies: []'' ''key'' = Inr body \<and>
     FetchConfigSource (\<lambda>_. Some demo_url) (\<lambda>_. None) (\<lambda>_. Some [[8, 8, 8, 8]]) (\<lambda>_. True)
       (\<lambda>_ _. Some \<lparr>resp_StatusCode = 200, resp_Read = (\<lambda>n. Some (take n body))\<rparr>) demo_xof None ''https://example.org:443'' ''key''
     = Inr ''proxies: []''"
proof -
  obtain body where body: "KceEncrypt demo_xof (replicate 16 CHR ''s'') (replicate 8 CHR ''i'') ''proxies: []'' ''key'' = Inr body"
    by (simp add: KceEncrypt_def MaxPlaintextLen_def Let_def)
  have v: "ValidateOutboundURL (\<lambda>_. Some demo_url) (\<lambda>_. None) (\<lambda>_. Some [[8, 8, 8, 8]]) ''https://example.org:443'' = Inr ()"
    by code_simp
  obtain c where c: "SafeDo (\<lambda>_. Some demo_url) (\<lambda>_. None) (\<lambda>_. Some [[8, 8, 8, 8]]) None ''https://example.org:443'' = Inr c"
    using v by (simp add: SafeDo_def SafeHTTPClient_def)
  note fetch_guarded_and_decrypted [OF demo_xof_ok, of "\<lambda>_. Some demo_url" "\<lambda>_. None" "\<lambda>_. Some [[8, 8, 8, 8]]" "\<lambda>_. True"
      "\<lambda>_ _. Some \<lparr>resp_StatusCode = 200, resp_Read = (\<lambda>n. Some (take n body))\<rparr>" None "''https://example.org:443''" "''key''" c body]
  note this [THEN conjunct2, THEN mp, THEN conjunct2, THEN conjunct2, THEN spec, of "replicate 16 CHR ''s''",
      THEN spec, of "replicate 8 CHR ''i''", THEN spec, of "''proxies: []''", THEN spec, of "''key''"]
  with body v c show ?thesis by (simp add: saltBytes_def ivBytes_def MaxPlaintextLen_def)
qed

end
