(* ===== verification/Subscribe_Roundtrip.thy ===== *)
theory Subscribe_Roundtrip
  imports Subscribe_Import
begin

text \<open>
  The Clash exporter (\<^verbatim>\<open>subscribe/clash.go\<close>) against the Clash importer
  (\<^verbatim>\<open>subscribe/clashimport.go\<close>): what of a node survives when a profile generated by one panel is
  imported by another.
\<close>

text \<open>The outbound that comes back, field by field.\<close>

definition tls_after :: "outbound \<Rightarrow> bool" where
  "tls_after ob \<longleftrightarrow> ob_TLSEnabled ob \<or> ob_Type ob \<in> {''hysteria2'', ''tuic''}"

definition clash_view :: "string \<Rightarrow> outbound \<Rightarrow> outbound" where
  "clash_view t ob =
     (let ty = ob_Type ob; ss = ty \<in> {''shadowsocks'', ''ss''}; keep = (\<lambda>b s. if b then s else []) in
      \<lparr>ob_Type = (if ss then ''shadowsocks'' else ty), ob_Tag = t, ob_Server = ob_Server ob, ob_ServerPort = ob_ServerPort ob,
       ob_UUID = keep (ty \<in> {''vmess'', ''vless'', ''tuic''}) (ob_UUID ob),
       ob_Password = keep (ss \<or> ty \<in> {''trojan'', ''hysteria2'', ''tuic''}) (ob_Password ob),
       ob_Method = keep ss (ob_Method ob), ob_Security = keep (ty = ''vmess'') (orDefault (ob_Security ob) ''auto''),
       ob_AlterID = (if ty = ''vmess'' then ob_AlterID ob else 0), ob_Flow = keep (ty = ''vless'') (ob_Flow ob),
       ob_TLSEnabled = tls_after ob, ob_ServerName = keep (tls_after ob) (ob_ServerName ob),
       ob_Insecure = (tls_after ob \<and> ob_Insecure ob),
       ob_ALPN = (if tls_after ob then filter (\<lambda>s. s \<noteq> []) (ob_ALPN ob) else []),
       ob_Transport = keep (ob_Transport ob \<in> {''ws'', ''grpc'', ''http''}) (ob_Transport ob),
       ob_Path = keep (ob_Transport ob \<in> {''ws'', ''http''}) (ob_Path ob),
       ob_Host = keep (ob_Transport ob \<in> {''ws'', ''http''}) (ob_Host ob),
       ob_ServiceName = keep (ob_Transport ob = ''grpc'') (ob_ServiceName ob),
       ob_Congestion = keep (ty = ''tuic'') (ob_Congestion ob), ob_Obfs = []\<rparr>)"

subsection \<open>What the exporter writes\<close>

definition jopt :: "string \<Rightarrow> json option" where
  "jopt s = (if s = [] then None else Some (JStr s))"

lemma put_if_False [simp]: "put_if False k v m = m"
  by (simp add: put_if_def)

lemma asString_jopt [simp]: "asString (jopt s) = s" "asString (Some (JStr s)) = s" "asString None = []"
  by (auto simp: asString_def jopt_def)

text \<open>The document between the fields of the type and those of the transport.\<close>

definition clash_tls_fields :: "outbound \<Rightarrow> json_map \<Rightarrow> json_map" where
  "clash_tls_fields ob base =
     put_if (ob_ALPN ob \<noteq> []) ''alpn'' (JArr (map JStr (ob_ALPN ob)))
      (put_if (ob_Insecure ob) ''skip-cert-verify'' (JBool True)
      (put_if (ob_ServerName ob \<noteq> []) ''servername'' (JStr (ob_ServerName ob))
      (put_if (ob_TLSEnabled ob) ''tls'' (JBool True) base)))"

lemma clashProxy_eq:
  assumes "parseOutbound unmarshal (x_Outbound n) = Inr ob" "clashProxy unmarshal n = Inr p"
  shows "ob_Server ob \<noteq> []" "0 < ob_ServerPort ob"
    and "\<exists>base. clash_type_fields ob [(''name'', JStr (x_Name n)), (''server'', JStr (ob_Server ob)),
      (''port'', JInt (ob_ServerPort ob))] = Inr base \<and> p = clash_transport_fields ob (clash_tls_fields ob base)"
  using assms by (auto simp: clashProxy_def clash_tls_fields_def split: if_splits sum.splits)

lemma transport_fields_frame:
  "k \<notin> {''network'', ''ws-opts'', ''grpc-opts'', ''http-opts''} \<Longrightarrow> map_of (clash_transport_fields ob b) k = map_of b k"
  by (simp add: clash_transport_fields_def Let_def)

lemma tls_fields_lookup:
  "map_of (clash_tls_fields ob b) k =
     (if k = ''alpn'' \<and> ob_ALPN ob \<noteq> [] then Some (JArr (map JStr (ob_ALPN ob)))
      else if k = ''skip-cert-verify'' \<and> ob_Insecure ob then Some (JBool True)
      else if k = ''servername'' \<and> ob_ServerName ob \<noteq> [] then Some (JStr (ob_ServerName ob))
      else if k = ''tls'' \<and> ob_TLSEnabled ob then Some (JBool True) else map_of b k)"
  by (simp add: clash_tls_fields_def)

lemma type_fields_keys:
  assumes "clash_type_fields ob b = Inr base"
    and "k \<notin> {''type'', ''cipher'', ''password'', ''uuid'', ''alterId'', ''flow'', ''congestion-controller''}"
  shows "map_of base k = map_of b k"
  using assms by (auto simp: clash_type_fields_def split: if_splits)

subsection \<open>What the importer makes of it\<close>

lemma asStringSlice_strings: "asStringSlice (Some (JArr (map JStr xs))) = filter (\<lambda>s. s \<noteq> []) xs"
  by (simp add: asStringSlice_def comp_def)

lemma getStrSlice_strings: "map_of m k = Some (JArr (map JStr xs)) \<Longrightarrow> getStrSlice m k = xs"
proof -
  have "List.map_filter (\<lambda>v. case v of JStr s \<Rightarrow> Some s | _ \<Rightarrow> None) (map JStr xs) = xs"
    by (induction xs) (auto simp: List.map_filter_simps)
  then show "map_of m k = Some (JArr (map JStr xs)) \<Longrightarrow> getStrSlice m k = xs" by (simp add: getStrSlice_def)
qed

text \<open>The TLS object, for a proxy map whose TLS keys are those the exporter writes.\<close>

lemma applyClashTLS_exported:
  assumes "map_of p ''tls'' = (if T then Some (JBool True) else None)" "map_of p ''reality-opts'' = None"
    and "map_of p ''servername'' = jopt sn" "map_of p ''skip-cert-verify'' = (if ins then Some (JBool True) else None)"
    and "map_of p ''alpn'' = (if alpn = [] then None else Some (JArr (map JStr alpn)))" "map_of p ''client-fingerprint'' = None"
    and "map_of ob ''tls'' = None"
  shows "if T then \<exists>tls. getMap (applyClashTLS ob p) ''tls'' = Some tls \<and> getBool tls ''enabled'' \<and> getStr tls ''server_name'' = sn \<and>
      getBool tls ''insecure'' = ins \<and> getStrSlice tls ''alpn'' = filter (\<lambda>s. s \<noteq> []) alpn
    else getMap (applyClashTLS ob p) ''tls'' = None"
proof (cases T)
  case True
  define al where "al = filter (\<lambda>s. s \<noteq> []) alpn"
  have al: "asStringSlice (map_of p ''alpn'') = al"
    unfolding al_def by (simp add: assms(5) asStringSlice_strings) (simp add: asStringSlice_def)
  define tls where "tls = put_if (al \<noteq> []) ''alpn'' (JArr (map JStr al))
    (put_if ins ''insecure'' (JBool True) (put_if (sn \<noteq> []) ''server_name'' (JStr sn) [(''enabled'', JBool True)]))"
  have "applyClashTLS ob p = put ''tls'' (JObj tls) ob"
    using True by (simp add: applyClashTLS_def assms(1-4,6) al getMapVal_def asBool_def tls_def)
  then have "getMap (applyClashTLS ob p) ''tls'' = Some tls" by (simp add: getMap_def)
  moreover have "getBool tls ''enabled''" "getStr tls ''server_name'' = sn" "getBool tls ''insecure'' = ins"
    by (auto simp: tls_def getBool_def getStr_def)
  moreover have "getStrSlice tls ''alpn'' = al"
  proof (cases "al = []")
    case True
    then show ?thesis by (simp add: getStrSlice_def tls_def)
  qed (auto intro!: getStrSlice_strings simp: tls_def)
  ultimately show ?thesis using True by (simp add: al_def)
next
  case False
  then show ?thesis using assms by (simp add: applyClashTLS_def getMapVal_def asBool_def getMap_def)
qed

definition header_host :: "json_map \<Rightarrow> string" where
  "header_host tr = (case getMap tr ''headers'' of None \<Rightarrow> [] | Some hs \<Rightarrow> getStr hs ''Host'')"

definition host_opts :: "outbound \<Rightarrow> json_map \<Rightarrow> json_map" where
  "host_opts ob = put_if (ob_Host ob \<noteq> []) ''headers'' (JObj [(''Host'', JStr (ob_Host ob))])"

lemma ws_transport_exported:
  "ws_transport (host_opts ob (put_if (ob_Path ob \<noteq> []) ''path'' (JStr (ob_Path ob)) [])) =
     put_if (ob_Host ob \<noteq> []) ''headers'' (JObj [(''Host'', JStr (ob_Host ob))])
       (put_if (ob_Path ob \<noteq> []) ''path'' (JStr (ob_Path ob)) [(''type'', JStr ''ws'')])"
  by (simp add: ws_transport_def host_opts_def getMapVal_def asInt_def)

lemma http_transport_exported:
  "http_transport (if ob_Path ob \<noteq> [] \<or> ob_Host ob \<noteq> []
       then host_opts ob (put_if (ob_Path ob \<noteq> []) ''path'' (JArr [JStr (ob_Path ob)]) []) else []) =
     put_if (ob_Host ob \<noteq> []) ''headers'' (JObj [(''Host'', JStr (ob_Host ob))])
       (put_if (ob_Path ob \<noteq> []) ''path'' (JStr (ob_Path ob)) [(''type'', JStr ''http'')])"
  by (simp add: http_transport_def host_opts_def getMapVal_def asStringSlice_def) (simp add: put_if_def)

lemma grpc_transport_exported:
  "grpc_transport (if ob_ServiceName ob \<noteq> [] then [(''grpc-service-name'', JStr (ob_ServiceName ob))] else []) =
     put_if (ob_ServiceName ob \<noteq> []) ''service_name'' (JStr (ob_ServiceName ob)) [(''type'', JStr ''grpc'')]"
  by (simp add: grpc_transport_def)

lemma applyClashTransport_exported:
  assumes same: "\<forall>k \<in> {''network'', ''ws-opts'', ''grpc-opts'', ''http-opts''}. map_of p k = map_of (clash_transport_fields ob b) k"
    and none: "\<forall>k \<in> {''network'', ''ws-opts'', ''grpc-opts'', ''http-opts''}. map_of b k = None"
  shows "if ob_Transport ob \<in> {''ws'', ''grpc'', ''http''}
    then \<exists>tr. getMap (applyClashTransport m p) ''transport'' = Some tr \<and> getStr tr ''type'' = ob_Transport ob \<and>
      getStr tr ''path'' = (if ob_Transport ob \<in> {''ws'', ''http''} then ob_Path ob else []) \<and>
      getStr tr ''service_name'' = (if ob_Transport ob = ''grpc'' then ob_ServiceName ob else []) \<and>
      header_host tr = (if ob_Transport ob \<in> {''ws'', ''http''} then ob_Host ob else [])
    else getMap (applyClashTransport m p) ''transport'' = getMap m ''transport''"
proof -
  consider "ob_Transport ob = ''ws''" | "ob_Transport ob = ''grpc''" | "ob_Transport ob = ''http''"
    | "ob_Transport ob \<notin> {''ws'', ''grpc'', ''http''}" by blast
  then show ?thesis
  proof cases
    case 1
    have "map_of p ''network'' = Some (JStr ''ws'')"
      "map_of p ''ws-opts'' = Some (JObj (host_opts ob (put_if (ob_Path ob \<noteq> []) ''path'' (JStr (ob_Path ob)) [])))"
      using same 1 by (simp_all add: clash_transport_fields_def Let_def host_opts_def)
    then have "getMap (applyClashTransport m p) ''transport'' = Some (put_if (ob_Host ob \<noteq> []) ''headers'' (JObj [(''Host'', JStr (ob_Host ob))])
       (put_if (ob_Path ob \<noteq> []) ''path'' (JStr (ob_Path ob)) [(''type'', JStr ''ws'')]))"
      by (simp add: applyClashTransport_def getMapVal_def ws_transport_exported getMap_def)
    with 1 show ?thesis by (simp add: getStr_def header_host_def getMap_def)
  next
    case 2
    have "map_of p ''network'' = Some (JStr ''grpc'')" "getMapVal p ''grpc-opts'' =
        (if ob_ServiceName ob \<noteq> [] then [(''grpc-service-name'', JStr (ob_ServiceName ob))] else [])"
      using same none 2 by (simp_all add: clash_transport_fields_def Let_def getMapVal_def)
    then have "getMap (applyClashTransport m p) ''transport'' =
      Some (put_if (ob_ServiceName ob \<noteq> []) ''service_name'' (JStr (ob_ServiceName ob)) [(''type'', JStr ''grpc'')])"
      by (simp only: applyClashTransport_def asString_jopt Let_def grpc_transport_exported) (simp add: getMap_def)
    with 2 show ?thesis by (simp add: getStr_def header_host_def getMap_def)
  next
    case 3
    have "map_of p ''network'' = Some (JStr ''http'')" "getMapVal p ''http-opts'' = (if ob_Path ob \<noteq> [] \<or> ob_Host ob \<noteq> []
       then host_opts ob (put_if (ob_Path ob \<noteq> []) ''path'' (JArr [JStr (ob_Path ob)]) []) else [])"
      using same none 3 by (simp_all add: clash_transport_fields_def Let_def getMapVal_def host_opts_def)
    then have "getMap (applyClashTransport m p) ''transport'' = Some (put_if (ob_Host ob \<noteq> []) ''headers'' (JObj [(''Host'', JStr (ob_Host ob))])
       (put_if (ob_Path ob \<noteq> []) ''path'' (JStr (ob_Path ob)) [(''type'', JStr ''http'')]))"
      by (simp only: applyClashTransport_def asString_jopt Let_def http_transport_exported) (simp add: getMap_def)
    with 3 show ?thesis by (simp add: getStr_def header_host_def getMap_def)
  next
    case 4
    then have "map_of p ''network'' = None" using same none by (simp add: clash_transport_fields_def)
    with 4 show ?thesis by (simp add: applyClashTransport_def)
  qed
qed

definition clash_name :: "outbound \<Rightarrow> string" where
  "clash_name ob = (if ob_Type ob \<in> {''shadowsocks'', ''ss''} then ''ss'' else ob_Type ob)"

text \<open>The fields of the type, read back into the outbound \<open>ob0\<close> that has none of them yet.\<close>

lemma type_fields_exported:
  assumes base: "clash_type_fields ob b0 = Inr base"
    and b0: "\<forall>k \<in> {''plugin'', ''flow'', ''congestion-controller'', ''password'', ''sni'', ''obfs''}. map_of b0 k = None"
    and p: "\<forall>k \<in> {''type'', ''cipher'', ''password'', ''uuid'', ''alterId'', ''flow'', ''congestion-controller'',
       ''plugin'', ''sni'', ''obfs''}. map_of p k = map_of base k"
    and ob0: "\<forall>k \<in> {''uuid'', ''password'', ''method'', ''security'', ''alter_id'', ''flow'', ''congestion_control'',
       ''tls'', ''transport'', ''obfs''}. map_of ob0 k = None"
  shows "asString (map_of p ''type'') = clash_name ob \<and>
    (\<exists>obx. type_fields (clash_name ob) p ob0 =
         Inr (obx, if ob_Type ob \<in> {''hysteria2'', ''tuic''} then put ''tls'' (JBool True) p else p) \<and>
       getStr obx ''uuid'' = ob_UUID (clash_view t ob) \<and> getStr obx ''password'' = ob_Password (clash_view t ob) \<and>
       getStr obx ''method'' = ob_Method (clash_view t ob) \<and> getStr obx ''security'' = ob_Security (clash_view t ob) \<and>
       getInt obx ''alter_id'' = ob_AlterID (clash_view t ob) \<and> getStr obx ''flow'' = ob_Flow (clash_view t ob) \<and>
       getStr obx ''congestion_control'' = ob_Congestion (clash_view t ob) \<and>
       map_of obx ''tls'' = None \<and> map_of obx ''transport'' = None \<and> map_of obx ''obfs'' = None)"
proof -
  note defs = clash_type_fields_def type_fields_def clash_name_def Let_def clash_view_def getStr_def getInt_def asInt_def
    orDefault_def orDefaultStr_def implicit_tls_def
  consider "ob_Type ob = ''shadowsocks'' \<or> ob_Type ob = ''ss''" | "ob_Type ob = ''vmess''" | "ob_Type ob = ''vless''"
    | "ob_Type ob = ''trojan''" | "ob_Type ob = ''hysteria2''" | "ob_Type ob = ''tuic''"
    using base by (auto simp: clash_type_fields_def split: if_splits)
  then show ?thesis
  proof cases
    case 1
    with assms show ?thesis by (elim disjE) (auto simp: defs)
  next
    case 2
    then have f: "map_of p ''type'' = Some (JStr ''vmess'')" "map_of p ''uuid'' = Some (JStr (ob_UUID ob))"
      "map_of p ''alterId'' = Some (JInt (ob_AlterID ob))"
      "map_of p ''cipher'' = Some (JStr (if ob_Security ob = [] then ''auto'' else ob_Security ob))"
      using base p by (auto simp: clash_type_fields_def orDefault_def)
    show ?thesis using 2 ob0 by (simp add: f defs)
  next
    case 3
    with assms show ?thesis by (cases "ob_Flow ob = []") (auto simp: defs)
  next
    case 4
    with assms show ?thesis by (auto simp: defs)
  next
    case 5
    with assms show ?thesis by (auto simp: defs)
  next
    case 6
    then have f: "map_of p ''type'' = Some (JStr ''tuic'')" "map_of p ''uuid'' = Some (JStr (ob_UUID ob))"
      "map_of p ''password'' = jopt (ob_Password ob)" "map_of p ''congestion-controller'' = jopt (ob_Congestion ob)"
      "map_of p ''sni'' = None"
      using base b0 p by (auto simp: clash_type_fields_def jopt_def)
    show ?thesis using 6 ob0 by (simp add: f defs)
  qed
qed

text \<open>The TLS and transport objects of an outbound, as far as the panel reads them.\<close>

definition tls_seen :: "json_map \<Rightarrow> outbound \<Rightarrow> bool" where
  "tls_seen m v \<longleftrightarrow> ob_TLSEnabled (outbound_of m) = ob_TLSEnabled v \<and> ob_ServerName (outbound_of m) = ob_ServerName v \<and>
     ob_Insecure (outbound_of m) = ob_Insecure v \<and> ob_ALPN (outbound_of m) = ob_ALPN v"

definition transport_seen :: "json_map \<Rightarrow> outbound \<Rightarrow> bool" where
  "transport_seen m v \<longleftrightarrow> ob_Transport (outbound_of m) = ob_Transport v \<and> ob_Path (outbound_of m) = ob_Path v \<and>
     ob_Host (outbound_of m) = ob_Host v \<and> ob_ServiceName (outbound_of m) = ob_ServiceName v"

lemma exported_tls_seen:
  assumes base: "\<forall>k \<in> {''tls'', ''reality-opts'', ''servername'', ''skip-cert-verify'', ''alpn'', ''client-fingerprint''}. map_of base k = None"
    and px: "px = (if ob_Type ob \<in> {''hysteria2'', ''tuic''} then put ''tls'' (JBool True) p else p)"
    and p: "p = clash_transport_fields ob (clash_tls_fields ob base)" and obx: "map_of obx ''tls'' = None"
  shows "tls_seen (applyClashTransport (applyClashTLS obx px) px) (clash_view t ob)"
proof -
  have "map_of px ''tls'' = (if tls_after ob then Some (JBool True) else None)" "map_of px ''reality-opts'' = None"
    "map_of px ''servername'' = jopt (ob_ServerName ob)" "map_of px ''skip-cert-verify'' = (if ob_Insecure ob then Some (JBool True) else None)"
    "map_of px ''alpn'' = (if ob_ALPN ob = [] then None else Some (JArr (map JStr (ob_ALPN ob))))"
    "map_of px ''client-fingerprint'' = None"
    using base by (simp_all add: px tls_after_def p transport_fields_frame tls_fields_lookup jopt_def)
  note tls = applyClashTLS_exported [OF this obx]
  have "getMap (applyClashTransport (applyClashTLS obx px) px) ''tls'' = getMap (applyClashTLS obx px) ''tls''"
    by (simp add: getMap_def apply_frame_keys)
  with tls show ?thesis
    by (cases "tls_after ob") (auto simp: tls_seen_def clash_view_def Let_def)
qed

lemma exported_transport_seen:
  assumes base: "\<forall>k \<in> {''network'', ''ws-opts'', ''grpc-opts'', ''http-opts''}. map_of base k = None"
    and px: "px = (if ob_Type ob \<in> {''hysteria2'', ''tuic''} then put ''tls'' (JBool True) p else p)"
    and p: "p = clash_transport_fields ob (clash_tls_fields ob base)" and obx: "map_of obx ''transport'' = None"
  shows "transport_seen (applyClashTransport (applyClashTLS obx px) px) (clash_view t ob)"
proof -
  define m where "m = applyClashTransport (applyClashTLS obx px) px"
  have "\<forall>k \<in> {''network'', ''ws-opts'', ''grpc-opts'', ''http-opts''}. map_of (clash_tls_fields ob base) k = None"
    using base by (simp add: tls_fields_lookup)
  moreover have "\<forall>k \<in> {''network'', ''ws-opts'', ''grpc-opts'', ''http-opts''}.
      map_of px k = map_of (clash_transport_fields ob (clash_tls_fields ob base)) k"
    by (simp add: px p)
  ultimately have tr: "if ob_Transport ob \<in> {''ws'', ''grpc'', ''http''}
    then \<exists>tr. getMap m ''transport'' = Some tr \<and> getStr tr ''type'' = ob_Transport ob \<and>
      getStr tr ''path'' = (if ob_Transport ob \<in> {''ws'', ''http''} then ob_Path ob else []) \<and>
      getStr tr ''service_name'' = (if ob_Transport ob = ''grpc'' then ob_ServiceName ob else []) \<and>
      header_host tr = (if ob_Transport ob \<in> {''ws'', ''http''} then ob_Host ob else [])
    else getMap m ''transport'' = getMap (applyClashTLS obx px) ''transport''"
    unfolding m_def by (rule applyClashTransport_exported [rotated])
  have "getMap (applyClashTLS obx px) ''transport'' = None"
    by (simp add: getMap_def apply_frame_keys obx)
  with tr show ?thesis unfolding m_def [symmetric]
    by (cases "ob_Transport ob \<in> {''ws'', ''grpc'', ''http''}") (auto simp: transport_seen_def clash_view_def Let_def header_host_def)
qed

lemma outbound_of_eqI:
  assumes "\<forall>k \<in> {''uuid'', ''password'', ''method'', ''security'', ''flow'', ''congestion_control'', ''obfs'', ''alter_id''}.
      map_of m k = map_of obx k"
    and "getStr obx ''uuid'' = ob_UUID v" "getStr obx ''password'' = ob_Password v" "getStr obx ''method'' = ob_Method v"
    "getStr obx ''security'' = ob_Security v" "getInt obx ''alter_id'' = ob_AlterID v" "getStr obx ''flow'' = ob_Flow v"
    "getStr obx ''congestion_control'' = ob_Congestion v" "map_of obx ''obfs'' = None" "ob_Obfs v = []"
    and "getStr m ''type'' = ob_Type v" "getStr m ''tag'' = ob_Tag v" "getStr m ''server'' = ob_Server v"
    "getInt m ''server_port'' = ob_ServerPort v" "tls_seen m v" "transport_seen m v"
  shows "outbound_of m = v"
proof (rule outbound.equality)
  have "getMap m ''obfs'' = None" using assms(1,9) by (simp add: getMap_def)
  then show "ob_Obfs (outbound_of m) = ob_Obfs v" using assms(10) by simp
qed (use assms in \<open>simp_all add: tls_seen_def transport_seen_def getStr_def getInt_def del: outbound_of_sub\<close>)



end
