(* ===== verification/Monitor_Icmp.thy ===== *)
theory Monitor_Icmp
  imports Store_Nodes Store_Misc Cryptox
begin

text \<open>
  The latency monitor (\<^verbatim>\<open>monitor/icmp.go\<close>): one ping per subscription node and round, the failure
  count kept in the database, and the automatic disabling of nodes that fail too often. Name
  resolution, the raw socket and the echo are parameters of a round, as are the clock readings.
\<close>

subsection \<open>Definitions\<close>

datatype echo = EchoFailed string | EchoReply int | OtherReply

record ping_env =
  pe_lookup :: "string \<Rightarrow> string list option"
  pe_listen :: bool
  pe_echo :: "string \<Rightarrow> echo"

text \<open>The result is the error or the latency, and the flag \<open>icmpDisabled\<close> afterwards.\<close>

definition ping :: "ping_env \<Rightarrow> bool \<Rightarrow> string \<Rightarrow> (string + int) \<times> bool" where
  "ping env icmpDisabled server =
     (if icmpDisabled then (Inr (- 1), icmpDisabled)
      else case pe_lookup env server of
        None \<Rightarrow> (Inl ''lookup'', icmpDisabled)
      | Some [] \<Rightarrow> (Inr (- 1), icmpDisabled)
      | Some (ip # _) \<Rightarrow>
          if \<not> pe_listen env then (Inr (- 1), True)
          else (case pe_echo env ip of
              EchoFailed e \<Rightarrow> (Inl e, icmpDisabled)
            | EchoReply ms \<Rightarrow> (Inr ms, icmpDisabled)
            | OtherReply \<Rightarrow> (Inr (- 1), icmpDisabled)))"

record monitor_env =
  me_ping :: ping_env
  me_gcm :: gcm_of
  me_key :: string
  me_server :: "string \<Rightarrow> string option"
  me_latency_time :: "string \<Rightarrow> int"
  me_update_time :: "string \<Rightarrow> int"

text \<open>Errors of the second update are logged only.\<close>

definition set_enabled :: "monitor_env \<Rightarrow> bool \<Rightarrow> string \<Rightarrow> db \<Rightarrow> db" where
  "set_enabled env b i d =
     (case GetNode i d of
        Inl _ \<Rightarrow> d
      | Inr n \<Rightarrow> (case UpdateNode (me_update_time env i) (n\<lparr>n_Enabled := b\<rparr>) d of Inl _ \<Rightarrow> d | Inr (_, d') \<Rightarrow> d'))"

definition check_node :: "monitor_env \<Rightarrow> settings \<Rightarrow> server_node \<Rightarrow> bool \<times> db \<Rightarrow> bool \<times> db" where
  "check_node env st node = (\<lambda>(flag, d).
     case Decrypt (me_gcm env) (me_key env) (sn_Server node) of
       Inl _ \<Rightarrow> (flag, d)
     | Inr outboundJSON \<Rightarrow> (case me_server env outboundJSON of
         None \<Rightarrow> (flag, d)
       | Some server \<Rightarrow>
           if server = [] then (flag, d)
           else case ping (me_ping env) flag server of (r, flag') \<Rightarrow>
             let latency = (case r of Inl _ \<Rightarrow> - 1 | Inr l \<Rightarrow> l);
                 threshold = st_icmp_auto_disable_threshold_ms st;
                 failCount = (if latency < 0 \<or> latency \<ge> threshold then sn_LatencyFailCount node + 1 else 0);
                 d1 = UpdateNodeLatency (me_latency_time env (sn_ID node)) (sn_ID node) latency failCount d;
                 d2 = (if failCount \<ge> st_icmp_auto_disable_consecutive st \<and> sn_Enabled node
                       then set_enabled env False (sn_ID node) d1 else d1);
                 d3 = (if latency \<ge> 0 \<and> latency < threshold \<and> \<not> sn_Enabled node \<and> failCount = 0
                       then set_enabled env True (sn_ID node) d2 else d2)
             in (flag', d3)))"

definition checkAllNodes :: "monitor_env \<Rightarrow> settings \<Rightarrow> bool \<times> db \<Rightarrow> bool \<times> db" where
  "checkAllNodes env st = (\<lambda>(flag, d). fold (check_node env st) (ListSubscriptionNodesWithServer d) (flag, d))"

text \<open>One turn of the loop: the nanoseconds until the next one, and the state.\<close>

definition monitor_turn :: "monitor_env \<Rightarrow> int \<Rightarrow> bool \<times> db \<Rightarrow> int \<times> bool \<times> db" where
  "monitor_turn env now = (\<lambda>(flag, d).
     case GetSettings now \<lparr>sd_SamplerIntervalSeconds = 2, sd_RetentionDays = 0, sd_IPLookupProviderURL = []\<rparr> d of (st, d1) \<Rightarrow>
       if \<not> st_icmp_monitor_enabled st \<or> st_icmp_monitor_target st = [] then (60000000000, flag, d1)
       else (max 5000000000 (i64 (st_icmp_monitor_interval_seconds st * 1000000000)), checkAllNodes env st (flag, d1)))"

text \<open>\<open>monitorLoop\<close> over the rounds until it is cancelled; the waits between them.\<close>

fun monitorLoop :: "(monitor_env \<times> int) list \<Rightarrow> bool \<times> db \<Rightarrow> int list \<times> bool \<times> db" where
  "monitorLoop [] s = ([], s)"
| "monitorLoop ((env, now) # rounds) s =
     (case monitor_turn env now s of (wait, s1) \<Rightarrow>
        case monitorLoop rounds s1 of (waits, s2) \<Rightarrow> (wait # waits, s2))"

subsection \<open>A round, row by row\<close>

definition measured :: "ping_env \<Rightarrow> bool \<Rightarrow> string \<Rightarrow> int" where
  "measured pe flag server =
     (if flag \<or> \<not> pe_listen pe then - 1
      else case pe_lookup pe server of
        Some (ip # _) \<Rightarrow> (case pe_echo pe ip of EchoReply ms \<Rightarrow> ms | _ \<Rightarrow> - 1)
      | _ \<Rightarrow> - 1)"

text \<open>The address the monitor pings for a row, if it monitors the row at all.\<close>

definition monitored_server :: "monitor_env \<Rightarrow> node_row \<Rightarrow> string option" where
  "monitored_server env r =
     (if nr_enabled r = 1 \<and> nr_source r \<noteq> [] \<and> nr_outbound_enc r \<noteq> []
      then (case Decrypt (me_gcm env) (me_key env) (nr_outbound_enc r) of
              Inl _ \<Rightarrow> None
            | Inr js \<Rightarrow> (case me_server env js of Some server \<Rightarrow> if server = [] then None else Some server | None \<Rightarrow> None))
      else None)"

definition next_fail :: "settings \<Rightarrow> int \<Rightarrow> int \<Rightarrow> int" where
  "next_fail st latency fails = (if latency < 0 \<or> latency \<ge> st_icmp_auto_disable_threshold_ms st then fails + 1 else 0)"

definition latency_row :: "monitor_env \<Rightarrow> int \<Rightarrow> int \<Rightarrow> node_row \<Rightarrow> node_row" where
  "latency_row env latency fails r = r\<lparr>nr_latency_ms := latency, nr_latency_checked_at := me_latency_time env (nr_id r),
     nr_latency_fail_count := fails, nr_updated_at := me_latency_time env (nr_id r)\<rparr>"

definition disabled_row :: "monitor_env \<Rightarrow> node_row \<Rightarrow> node_row" where
  "disabled_row env r = r\<lparr>nr_enabled := 0, nr_tags := Join (splitCSV (nr_tags r)) '','', nr_updated_at := me_update_time env (nr_id r)\<rparr>"

definition monitored_row :: "monitor_env \<Rightarrow> settings \<Rightarrow> bool \<Rightarrow> node_row \<Rightarrow> node_row" where
  "monitored_row env st flag r =
     (case monitored_server env r of
        None \<Rightarrow> r
      | Some server \<Rightarrow>
          let latency = measured (me_ping env) flag server; fails = next_fail st latency (nr_latency_fail_count r);
              r1 = latency_row env latency fails r
          in if fails \<ge> st_icmp_auto_disable_consecutive st then disabled_row env r1 else r1)"

lemma ping_measured: "(case fst (ping pe flag server) of Inl _ \<Rightarrow> - 1 | Inr l \<Rightarrow> l) = measured pe flag server"
  by (auto simp: ping_def measured_def split: option.splits list.splits echo.splits)

lemma measured_after_ping: "measured pe (snd (ping pe flag s0)) server = measured pe flag server"
  by (auto simp: ping_def measured_def split: option.splits list.splits echo.splits)

lemma monitored_row_key [simp]: "nr_id (monitored_row env st flag r) = nr_id r" "nr_name (monitored_row env st flag r) = nr_name r"
  by (simp_all add: monitored_row_def latency_row_def disabled_row_def Let_def split: option.split)

definition server_row :: "node_row \<Rightarrow> server_node" where
  "server_row r = \<lparr>sn_ID = nr_id r, sn_Name = nr_name r, sn_Server = nr_outbound_enc r, sn_Enabled = (nr_enabled r \<noteq> 0),
     sn_LatencyMs = nr_latency_ms r, sn_LatencyFailCount = nr_latency_fail_count r\<rparr>"

definition watched :: "node_row \<Rightarrow> bool" where
  "watched r \<longleftrightarrow> nr_enabled r = 1 \<and> nr_source r \<noteq> [] \<and> nr_outbound_enc r \<noteq> []"

lemma List_watched:
  "ListSubscriptionNodesWithServer d = map server_row (sort_key nr_name (filter watched (nodes d)))"
  by (simp add: ListSubscriptionNodesWithServer_def watched_def [abs_def] server_row_def [abs_def])

lemma update_where_single:
  assumes "distinct (map key rows)" "r \<in> set rows"
  shows "update_where (\<lambda>x. key x = key r) f rows = update_where (\<lambda>x. key x = key r) (\<lambda>_. f r) rows"
proof -
  have "x = r" if "x \<in> set rows" "key x = key r" for x
    using assms that by (metis distinct_map inj_onD)
  then show ?thesis by (auto simp: update_where_def)
qed

text \<open>Disabling reads the row back and writes it whole.\<close>

lemma set_enabled_row:
  assumes "db_ok d" "r \<in> set (nodes d)"
  shows "set_enabled env False (nr_id r) d =
    d\<lparr>nodes := update_where (\<lambda>x. nr_id x = nr_id r) (disabled_row env) (nodes d)\<rparr>"
proof -
  have dist: "distinct (map nr_id (nodes d))" "distinct (map nr_name (nodes d))"
    using assms(1) by (simp_all add: db_ok_simps)
  have get: "GetNode (nr_id r) d = Inr (scanNode r)"
    using row_with_distinct [OF dist(1) assms(2)] by (simp add: GetNode_def)
  let ?n = "(scanNode r)\<lparr>n_Enabled := False\<rparr>" and ?t = "me_update_time env (nr_id r)"
  have key: "n_ID ?n = nr_id r" "n_Name ?n = nr_name r" by (simp_all add: scanNode_def)
  have "\<not> list_ex (\<lambda>x. nr_id x \<noteq> nr_id r \<and> nr_name x = nr_name r) (nodes d)"
    using dist(2) assms(2) by (auto simp: list_ex_iff distinct_map dest: inj_onD)
  moreover have "affected (\<lambda>x. nr_id x = nr_id r) (nodes d) \<noteq> 0"
    using assms(2) by (auto simp: affected_def filter_empty_conv)
  ultimately have upd: "UpdateNode ?t ?n d = Inr (?n\<lparr>n_UpdatedAt := ?t\<rparr>, d\<lparr>nodes := update_where (\<lambda>x. nr_id x = nr_id r)
      (\<lambda>x. node_columns (?n\<lparr>n_UpdatedAt := ?t\<rparr>) (nr_created_at x) ?t (nr_last_online_at x)) (nodes d)\<rparr>)"
    by (simp only: UpdateNode_def key Let_def requireAffected_def simp_thms if_False if_True sum.case)
  have "node_columns (?n\<lparr>n_UpdatedAt := ?t\<rparr>) (nr_created_at r) ?t (nr_last_online_at r) = disabled_row env r"
    by (simp add: node_columns_def scanNode_def disabled_row_def boolInt_def)
  then have same: "update_where (\<lambda>x. nr_id x = nr_id r)
      (\<lambda>x. node_columns (?n\<lparr>n_UpdatedAt := ?t\<rparr>) (nr_created_at x) ?t (nr_last_online_at x)) (nodes d) =
    update_where (\<lambda>x. nr_id x = nr_id r) (disabled_row env) (nodes d)"
    by (simp only: update_where_single [OF dist(1) assms(2),
          of "\<lambda>x. node_columns (?n\<lparr>n_UpdatedAt := ?t\<rparr>) (nr_created_at x) ?t (nr_last_online_at x)"]
        update_where_single [OF dist(1) assms(2), of "disabled_row env"])
  show ?thesis by (simp only: set_enabled_def get sum.case upd prod.case same)
qed

lemma update_where_cong: "(\<And>x. x \<in> set rows \<Longrightarrow> p x \<Longrightarrow> f x = g x) \<Longrightarrow> update_where p f rows = update_where p g rows"
  by (auto simp: update_where_def)

lemma update_where_self:
  assumes "distinct (map key rows)" "r \<in> set rows" "f r = r"
  shows "update_where (\<lambda>x. key x = key r) f rows = rows"
  unfolding update_where_single [OF assms(1,2), of f] assms(3)
  using assms(1,2) by (auto simp: update_where_def distinct_map dest: inj_onD intro!: map_idI)

lemma check_node_row:
  assumes ok: "db_ok d" and r: "r \<in> set (nodes d)" and w: "watched r"
  shows "\<exists>flag'. check_node env st (server_row r) (flag, d) =
      (flag', d\<lparr>nodes := update_where (\<lambda>x. nr_id x = nr_id r) (monitored_row env st flag) (nodes d)\<rparr>) \<and>
    measured (me_ping env) flag' = measured (me_ping env) flag"
proof (cases "monitored_server env r")
  case None
  then have "check_node env st (server_row r) (flag, d) = (flag, d)"
    using w by (auto simp: check_node_def monitored_server_def watched_def server_row_def split: sum.splits option.splits if_splits)
  moreover have "monitored_row env st flag r = r" using None by (simp add: monitored_row_def)
  moreover have "distinct (map nr_id (nodes d))" using ok by (simp add: db_ok_simps)
  ultimately show ?thesis using update_where_self [OF _ r] by fastforce
next
  case (Some server)
  then obtain js where js: "Decrypt (me_gcm env) (me_key env) (nr_outbound_enc r) = Inr js" "me_server env js = Some server" "server \<noteq> []"
    by (auto simp: monitored_server_def split: if_splits sum.splits option.splits)
  obtain res flag' where ping: "ping (me_ping env) flag server = (res, flag')" by (cases "ping (me_ping env) flag server")
  define l where "l = measured (me_ping env) flag server"
  define fails where "fails = next_fail st l (nr_latency_fail_count r)"
  have l: "(case res of Inl _ \<Rightarrow> - 1 | Inr l \<Rightarrow> l) = l" using ping_measured [of "me_ping env" flag server] ping by (simp add: l_def)
  define d1 where "d1 = UpdateNodeLatency (me_latency_time env (nr_id r)) (nr_id r) l fails d"
  have en: "nr_enabled r \<noteq> 0" using w by (simp add: watched_def)
  have step: "check_node env st (server_row r) (flag, d) =
      (flag', if fails \<ge> st_icmp_auto_disable_consecutive st then set_enabled env False (nr_id r) d1 else d1)"
    using js en by (simp add: check_node_def server_row_def ping l d1_def fails_def next_fail_def Let_def)
  have dist: "distinct (map nr_id (nodes d))" using ok by (simp add: db_ok_simps)
  have d1: "d1 = d\<lparr>nodes := update_where (\<lambda>x. nr_id x = nr_id r) (latency_row env l fails) (nodes d)\<rparr>"
    unfolding d1_def UpdateNodeLatency_def
    by (rule arg_cong [where f = "\<lambda>x. d\<lparr>nodes := x\<rparr>"], rule update_where_cong) (simp add: latency_row_def)
  have row: "monitored_row env st flag r = (if fails \<ge> st_icmp_auto_disable_consecutive st
      then disabled_row env (latency_row env l fails r) else latency_row env l fails r)"
    by (simp add: monitored_row_def Some Let_def l_def fails_def)
  have goal: "update_where (\<lambda>x. nr_id x = nr_id r) (monitored_row env st flag) (nodes d) =
      (if fails \<ge> st_icmp_auto_disable_consecutive st then update_where (\<lambda>x. nr_id x = nr_id r) (disabled_row env) (nodes d1) else nodes d1)"
    unfolding update_where_single [OF dist r, of "monitored_row env st flag"] row d1
      update_where_single [OF dist r, of "latency_row env l fails"]
    by (auto simp: update_where_def latency_row_def)
  have "set_enabled env False (nr_id r) d1 = d1\<lparr>nodes := update_where (\<lambda>x. nr_id x = nr_id r) (disabled_row env) (nodes d1)\<rparr>"
  proof -
    have "db_ok d1" unfolding d1_def by (rule UpdateNodeLatency_ok [OF ok])
    moreover have "latency_row env l fails r \<in> set (nodes d1)" using r by (force simp: d1 set_update_where)
    ultimately have "set_enabled env False (nr_id (latency_row env l fails r)) d1 =
      d1\<lparr>nodes := update_where (\<lambda>x. nr_id x = nr_id (latency_row env l fails r)) (disabled_row env) (nodes d1)\<rparr>"
      by (rule set_enabled_row)
    moreover have "nr_id (latency_row env l fails r) = nr_id r" by (simp add: latency_row_def)
    ultimately show ?thesis by (simp only:)
  qed
  moreover have "measured (me_ping env) flag' = measured (me_ping env) flag"
    using measured_after_ping [of "me_ping env" flag server] ping by (simp add: fun_eq_iff)
  ultimately show ?thesis using step goal by (auto simp: d1)
qed

lemma monitored_row_cong: "measured (me_ping env) f = measured (me_ping env) g \<Longrightarrow> monitored_row env st f = monitored_row env st g"
  unfolding monitored_row_def [abs_def] by (simp only:)

lemma check_rows:
  assumes "db_ok d" "set rs \<subseteq> set (nodes d)" "\<forall>r \<in> set rs. watched r" "distinct (map nr_id rs)"
  shows "\<exists>flag'. fold (check_node env st) (map server_row rs) (flag, d) =
      (flag', d\<lparr>nodes := update_where (\<lambda>x. nr_id x \<in> nr_id ` set rs) (monitored_row env st flag) (nodes d)\<rparr>) \<and>
    measured (me_ping env) flag' = measured (me_ping env) flag"
  using assms
proof (induction rs arbitrary: flag d)
  case Nil
  then show ?case by (simp add: update_where_def)
next
  case (Cons r rs)
  define d1 where "d1 = d\<lparr>nodes := update_where (\<lambda>x. nr_id x = nr_id r) (monitored_row env st flag) (nodes d)\<rparr>"
  obtain flag1 where step: "check_node env st (server_row r) (flag, d) = (flag1, d1)"
    and m1: "measured (me_ping env) flag1 = measured (me_ping env) flag"
    using check_node_row [of d r env st flag] Cons.prems unfolding d1_def by auto
  have ok1: "db_ok d1" unfolding d1_def by (rule update_nodes_ok) (use Cons.prems in simp_all)
  have "x \<in> set (nodes d1)" if "x \<in> set rs" for x
  proof -
    have "nr_id x \<noteq> nr_id r" using Cons.prems(4) that by (metis distinct.simps(2) image_eqI list.set_map list.simps(9))
    then show ?thesis using Cons.prems(2) that unfolding d1_def by (force simp: set_update_where)
  qed
  then obtain flag2 where rest: "fold (check_node env st) (map server_row rs) (flag1, d1) =
      (flag2, d1\<lparr>nodes := update_where (\<lambda>x. nr_id x \<in> nr_id ` set rs) (monitored_row env st flag1) (nodes d1)\<rparr>)"
    and m2: "measured (me_ping env) flag2 = measured (me_ping env) flag1"
    using Cons.IH [OF ok1, of flag1] Cons.prems by auto
  have "update_where (\<lambda>x. nr_id x \<in> nr_id ` set rs) (monitored_row env st flag1) (nodes d1) =
      update_where (\<lambda>x. nr_id x \<in> nr_id ` set (r # rs)) (monitored_row env st flag) (nodes d)"
    using Cons.prems(4) unfolding d1_def monitored_row_cong [OF m1] by (auto simp: update_where_def)
  then show ?case using step rest m1 m2 by (simp add: d1_def)
qed

text \<open>A round maps every row of the node table by \<open>monitored_row\<close> and touches nothing else.\<close>

lemma checkAllNodes_rows:
  assumes "db_ok d"
  shows "\<exists>flag'. checkAllNodes env st (flag, d) = (flag', d\<lparr>nodes := map (monitored_row env st flag) (nodes d)\<rparr>) \<and>
    measured (me_ping env) flag' = measured (me_ping env) flag"
proof -
  let ?rs = "sort_key nr_name (filter watched (nodes d))"
  have dist: "distinct (map nr_id (nodes d))" using assms by (simp add: db_ok_simps)
  then have "inj_on nr_id (set ?rs)" "distinct ?rs"
    by (auto simp: distinct_map intro: inj_on_subset)
  then have dist': "distinct (map nr_id ?rs)" by (simp add: distinct_map)
  have "set ?rs \<subseteq> set (nodes d)" "\<forall>r \<in> set ?rs. watched r" by auto
  from check_rows [OF assms this dist', of env st flag] obtain flag' where "fold (check_node env st) (map server_row ?rs) (flag, d) =
      (flag', d\<lparr>nodes := update_where (\<lambda>x. nr_id x \<in> nr_id ` set ?rs) (monitored_row env st flag) (nodes d)\<rparr>)"
    and m: "measured (me_ping env) flag' = measured (me_ping env) flag"
    by blast
  moreover have "update_where (\<lambda>x. nr_id x \<in> nr_id ` set ?rs) (monitored_row env st flag) (nodes d) =
      map (monitored_row env st flag) (nodes d)"
  proof -
    have "monitored_row env st flag x = x" if "x \<in> set (nodes d)" "nr_id x \<notin> nr_id ` set ?rs" for x
      using that by (force simp: monitored_row_def monitored_server_def watched_def)
    then show ?thesis by (auto simp: update_where_def)
  qed
  ultimately show ?thesis using List_watched by (auto simp: checkAllNodes_def)
qed

subsection \<open>Many rounds\<close>

text \<open>One round of the loop, with the settings already stored.\<close>

lemma monitor_turn_rows:
  assumes "db_ok d" "settings_row d = Some st"
  shows "\<exists>wait flag' f. monitor_turn env now (flag, d) = (wait, flag', d\<lparr>nodes := map f (nodes d)\<rparr>) \<and>
    (if st_icmp_monitor_enabled st \<and> st_icmp_monitor_target st \<noteq> []
     then f = monitored_row env st flag \<and> measured (me_ping env) flag' = measured (me_ping env) flag
     else f = id \<and> flag' = flag)"
proof (cases "st_icmp_monitor_enabled st \<and> st_icmp_monitor_target st \<noteq> []")
  case True
  obtain flag' where "checkAllNodes env st (flag, d) = (flag', d\<lparr>nodes := map (monitored_row env st flag) (nodes d)\<rparr>)"
    "measured (me_ping env) flag' = measured (me_ping env) flag"
    using checkAllNodes_rows [OF assms(1)] by blast
  with True assms(2) show ?thesis by (simp add: monitor_turn_def GetSettings_def)
next
  case False
  with assms(2) show ?thesis by (auto simp: monitor_turn_def GetSettings_def)
qed

lemma map_rows_ok:
  assumes "db_ok d" "\<And>r. nr_id (f r) = nr_id r" "\<And>r. nr_name (f r) = nr_name r"
  shows "db_ok (d\<lparr>nodes := map f (nodes d)\<rparr>)"
  using update_nodes_ok [where p = "\<lambda>_. True", OF assms] by (simp add: update_where_def)

text \<open>Every round keeps the database consistent, the settings and the set of nodes, and maps each row by a function
  that may disable it but never enables it.\<close>

lemma monitor_turn_step:
  assumes "db_ok d" "settings_row d = Some st"
  shows "\<exists>wait flag' f. monitor_turn env now (flag, d) = (wait, flag', d\<lparr>nodes := map f (nodes d)\<rparr>) \<and>
    db_ok (d\<lparr>nodes := map f (nodes d)\<rparr>) \<and>
    (\<forall>r. nr_id (f r) = nr_id r \<and> (nr_enabled r \<noteq> 1 \<longrightarrow> f r = r) \<and> (nr_enabled (f r) = nr_enabled r \<or> nr_enabled (f r) = 0))"
proof -
  obtain wait flag' f where turn: "monitor_turn env now (flag, d) = (wait, flag', d\<lparr>nodes := map f (nodes d)\<rparr>)"
    and cond: "if st_icmp_monitor_enabled st \<and> st_icmp_monitor_target st \<noteq> []
     then f = monitored_row env st flag \<and> measured (me_ping env) flag' = measured (me_ping env) flag
     else f = id \<and> flag' = flag"
    using monitor_turn_rows [OF assms, of env now flag] by blast
  from cond have f: "f = monitored_row env st flag \<or> f = id" by (simp split: if_splits)
  have "nr_enabled (monitored_row env st flag r) = nr_enabled r \<or> nr_enabled (monitored_row env st flag r) = 0"
    "nr_enabled r \<noteq> 1 \<longrightarrow> monitored_row env st flag r = r" for r
    by (auto simp: monitored_row_def monitored_server_def latency_row_def disabled_row_def Let_def split: option.split)
  moreover have "db_ok (d\<lparr>nodes := map f (nodes d)\<rparr>)"
    by (rule map_rows_ok [OF assms(1)]) (use f in auto)
  moreover from calculation(1,2) f
  have "\<forall>r. nr_id (f r) = nr_id r \<and> (nr_enabled r \<noteq> 1 \<longrightarrow> f r = r) \<and> (nr_enabled (f r) = nr_enabled r \<or> nr_enabled (f r) = 0)"
    by (elim disjE) simp_all
  ultimately show ?thesis using turn by blast
qed

subsection \<open>An imported node without ping\<close>

definition demo_env :: monitor_env where
  "demo_env = \<lparr>me_ping = \<lparr>pe_lookup = (\<lambda>_. Some [''192.0.2.7'']), pe_listen = False, pe_echo = (\<lambda>_. OtherReply)\<rparr>,
     me_gcm = (\<lambda>_. Some demo_gcm), me_key = ''k'', me_server = (\<lambda>_. Some ''a.example''),
     me_latency_time = (\<lambda>_. 10), me_update_time = (\<lambda>_. 11)\<rparr>"

definition demo_row :: node_row where
  "demo_row = node_columns (demo_node\<lparr>n_Source := ''n0'', n_OutboundEnc := StdEncode ''n*{}''\<rparr>) 1 1 0"

definition demo_monitor_settings :: settings where
  "demo_monitor_settings = (initial_settings 0 \<lparr>sd_SamplerIntervalSeconds = 2, sd_RetentionDays = 30, sd_IPLookupProviderURL = []\<rparr>)
     \<lparr>st_icmp_monitor_enabled := True\<rparr>"

definition demo_monitor_db :: "node_row \<Rightarrow> db" where
  "demo_monitor_db r = empty_db\<lparr>nodes := [r], settings_row := Some demo_monitor_settings\<rparr>"

lemma demo_monitor_facts:
  "db_ok (demo_monitor_db r)" "settings_row (demo_monitor_db r) = Some demo_monitor_settings" "nodes (demo_monitor_db r) = [r]"
  by (simp_all add: demo_monitor_db_def empty_db_def db_ok_simps)

lemma demo_monitored: "monitored_server demo_env demo_row = Some ''a.example''" "\<not> pe_listen (me_ping demo_env)"
  "nr_enabled demo_row = 1" "nr_latency_fail_count demo_row = 0"
  by code_simp+

text \<open>
  C34: a monitoring round does to every node exactly what the specification of a row says, and
  nothing else to the database. The fields latency, time of check and failure count of each
  watched node (enabled, imported, with a readable outbound) come from its ping; the count rises
  on a failed or slow ping and is reset by a good one; the node is switched off when the count
  reaches the limit. The raw socket and its permission flag show only through the measured
  latency. The order in which the nodes are visited does not matter.
\<close>

theorem monitor_round_refines:
  assumes "db_ok d"
  shows "\<exists>flag'. checkAllNodes env st (flag, d) = (flag', d\<lparr>nodes := map (monitored_row env st flag) (nodes d)\<rparr>) \<and>
    db_ok (d\<lparr>nodes := map (monitored_row env st flag) (nodes d)\<rparr>)"
  using checkAllNodes_rows [OF assms, of env st flag] map_rows_ok [OF assms, of "monitored_row env st flag"] by auto

theorem monitor_round_refines_witness:
  "\<exists>flag'. checkAllNodes demo_env demo_monitor_settings (False, demo_monitor_db demo_row) =
      (flag', (demo_monitor_db demo_row)\<lparr>nodes := [demo_row\<lparr>nr_latency_ms := -1, nr_latency_checked_at := 10,
         nr_latency_fail_count := 1, nr_updated_at := 10\<rparr>]\<rparr>)"
proof -
  have "monitored_row demo_env demo_monitor_settings False demo_row =
      demo_row\<lparr>nr_latency_ms := -1, nr_latency_checked_at := 10, nr_latency_fail_count := 1, nr_updated_at := 10\<rparr>"
    by (simp add: monitored_row_def demo_monitored measured_def next_fail_def latency_row_def demo_monitor_settings_def
        initial_settings_def) (simp add: demo_env_def)
  then show ?thesis
    using monitor_round_refines [OF demo_monitor_facts(1), of demo_env demo_monitor_settings False demo_row] demo_monitor_facts(3)
    by auto
qed

lemma monitorLoop_rows:
  assumes "db_ok d" "settings_row d = Some st"
  shows "\<exists>waits flag' f. monitorLoop rounds (flag, d) = (waits, flag', d\<lparr>nodes := map f (nodes d)\<rparr>) \<and>
    (\<forall>r. nr_id (f r) = nr_id r \<and> (nr_enabled r \<noteq> 1 \<longrightarrow> f r = r))"
  using assms
proof (induction rounds arbitrary: flag d)
  case Nil
  have "d = d\<lparr>nodes := map id (nodes d)\<rparr>" by simp
  then show ?case by (metis monitorLoop.simps(1) id_apply)
next
  case (Cons rd rounds)
  obtain env now where rd: "rd = (env, now)" by (cases rd)
  obtain wait flag1 f where t: "monitor_turn env now (flag, d) = (wait, flag1, d\<lparr>nodes := map f (nodes d)\<rparr>)"
    "db_ok (d\<lparr>nodes := map f (nodes d)\<rparr>)" "\<forall>r. nr_id (f r) = nr_id r \<and> (nr_enabled r \<noteq> 1 \<longrightarrow> f r = r)"
    using monitor_turn_step [OF Cons.prems, of env now flag] by blast
  moreover have "settings_row (d\<lparr>nodes := map f (nodes d)\<rparr>) = Some st" using Cons.prems(2) by simp
  ultimately obtain waits flag2 g where g: "monitorLoop rounds (flag1, d\<lparr>nodes := map f (nodes d)\<rparr>) =
      (waits, flag2, d\<lparr>nodes := map g (map f (nodes d))\<rparr>)" "\<forall>r. nr_id (g r) = nr_id r \<and> (nr_enabled r \<noteq> 1 \<longrightarrow> g r = r)"
    using Cons.IH [OF t(2), of flag1] by auto
  then have "monitorLoop (rd # rounds) (flag, d) = (wait # waits, flag2, d\<lparr>nodes := map (g \<circ> f) (nodes d)\<rparr>)"
    using t(1) by (simp add: rd)
  moreover have "\<forall>r. nr_id ((g \<circ> f) r) = nr_id r \<and> (nr_enabled r \<noteq> 1 \<longrightarrow> (g \<circ> f) r = r)"
    using t(3) g(2) by (metis comp_apply)
  ultimately show ?case by blast
qed

lemma monitorLoop_keeps_disabled:
  assumes "db_ok d" "settings_row d = Some st" "r \<in> set (nodes d)" "nr_enabled r \<noteq> 1"
  shows "r \<in> set (nodes (snd (snd (monitorLoop rounds (flag, d)))))"
proof -
  obtain waits flag' f where "monitorLoop rounds (flag, d) = (waits, flag', d\<lparr>nodes := map f (nodes d)\<rparr>)"
    "\<forall>r. nr_enabled r \<noteq> 1 \<longrightarrow> f r = r"
    using monitorLoop_rows [OF assms(1,2)] by blast
  then show ?thesis using assms(3,4) image_eqI [of r f r] by simp
qed

text \<open>The monitor never brings a node back. However many rounds run, with whatever ping results,
  the row of a node that is not enabled is left exactly as it is, so a node the monitor switched
  off stays off until somebody else enables it: the branch that re-enables nodes with a good
  latency is never reached, because only enabled nodes are listed.
\<close>

theorem monitor_never_enables:
  assumes "db_ok d" "settings_row d = Some st" "r \<in> set (nodes d)" "nr_enabled r \<noteq> 1"
  shows "r \<in> set (nodes (snd (snd (monitorLoop rounds (flag, d)))))"
  by (rule monitorLoop_keeps_disabled [OF assms])

theorem monitor_never_enables_witness:
  "demo_row\<lparr>nr_enabled := 0\<rparr> \<in>
     set (nodes (snd (snd (monitorLoop [(demo_env, 1), (demo_env, 2)] (False, demo_monitor_db (demo_row\<lparr>nr_enabled := 0\<rparr>))))))"
  by (rule monitor_never_enables [OF demo_monitor_facts(1,2)]) (simp_all add: demo_monitor_facts)

text \<open>A row on which every ping of a round fails.\<close>

lemma unreachable_row:
  assumes "measured (me_ping env) flag = (\<lambda>_. - 1)" "monitored_server env r \<noteq> None"
  shows "nr_latency_fail_count (monitored_row env st flag r) = nr_latency_fail_count r + 1"
    and "nr_enabled (monitored_row env st flag r) =
      (if nr_latency_fail_count r + 1 \<ge> st_icmp_auto_disable_consecutive st then 0 else 1)"
    and "nr_source (monitored_row env st flag r) = nr_source r" "nr_outbound_enc (monitored_row env st flag r) = nr_outbound_enc r"
  using assms by (auto simp: monitored_row_def monitored_server_def latency_row_def disabled_row_def next_fail_def Let_def
      split: option.split if_splits)

lemma monitored_server_cong:
  "nr_enabled r = nr_enabled s \<Longrightarrow> nr_source r = nr_source s \<Longrightarrow> nr_outbound_enc r = nr_outbound_enc s \<Longrightarrow>
   monitored_server env r = monitored_server env s"
  by (simp add: monitored_server_def)

lemma icmp_loss_rounds:
  assumes "db_ok d" "settings_row d = Some st" "st_icmp_monitor_enabled st" "st_icmp_monitor_target st \<noteq> []"
    and "r \<in> set (nodes d)" "nr_enabled r = 1" "\<forall>(env, now) \<in> set rounds. \<not> pe_listen (me_ping env) \<and> monitored_server env r \<noteq> None"
    and "rounds \<noteq> []" "nr_latency_fail_count r + int (length rounds) \<ge> st_icmp_auto_disable_consecutive st"
  shows "\<exists>r' \<in> set (nodes (snd (snd (monitorLoop rounds (flag, d))))). nr_id r' = nr_id r \<and> nr_enabled r' = 0"
  using assms(1,2,5-)
proof (induction rounds arbitrary: flag d r)
  case (Cons rd rounds)
  obtain env now where rd: "rd = (env, now)" by (cases rd)
  obtain wait flag1 where t: "monitor_turn env now (flag, d) = (wait, flag1, d\<lparr>nodes := map (monitored_row env st flag) (nodes d)\<rparr>)"
    using monitor_turn_rows [OF Cons.prems(1,2), of env now flag] assms(3,4) by auto
  define d1 where "d1 = d\<lparr>nodes := map (monitored_row env st flag) (nodes d)\<rparr>"
  have ok1: "db_ok d1" "settings_row d1 = Some st"
    using map_rows_ok [OF Cons.prems(1), of "monitored_row env st flag"] Cons.prems(2) by (simp_all add: d1_def)
  define r1 where "r1 = monitored_row env st flag r"
  have r1: "r1 \<in> set (nodes d1)" "nr_id r1 = nr_id r" using Cons.prems(3) by (simp_all add: r1_def d1_def)
  have "measured (me_ping env) flag = (\<lambda>_. - 1)" "monitored_server env r \<noteq> None"
    using Cons.prems(5) by (auto simp: rd measured_def fun_eq_iff)
  note row = unreachable_row [OF this, of st, folded r1_def]
  have loop: "snd (snd (monitorLoop (rd # rounds) (flag, d))) = snd (snd (monitorLoop rounds (flag1, d1)))"
    using t by (simp add: rd d1_def split: prod.split)
  show ?case
  proof (cases "nr_latency_fail_count r + 1 \<ge> st_icmp_auto_disable_consecutive st")
    case True
    then have off: "nr_enabled r1 = 0" using row(2) by simp
    then have "r1 \<in> set (nodes (snd (snd (monitorLoop rounds (flag1, d1)))))"
      by (intro monitorLoop_keeps_disabled [OF ok1 r1(1)]) simp
    then show ?thesis unfolding loop using r1(2) off by blast
  next
    case False
    then have en: "nr_enabled r1 = 1" using row(2) by simp
    have "rounds \<noteq> []" using False Cons.prems(7) by auto
    moreover have "nr_latency_fail_count r1 + int (length rounds) \<ge> st_icmp_auto_disable_consecutive st"
      using Cons.prems(7) row(1) by simp
    moreover have "\<forall>(env, now) \<in> set rounds. \<not> pe_listen (me_ping env) \<and> monitored_server env r1 \<noteq> None"
      using Cons.prems(4,5) monitored_server_cong [of r1 r] en row(3,4) by auto
    ultimately show ?thesis unfolding loop using Cons.IH [OF ok1 r1(1) en, of flag1] r1(2) by simp
  qed
qed simp

text \<open>
  C35: without the permission to ping, the monitor switches every watched node off. If the raw
  socket cannot be opened in any round, each watched node is disabled as soon as the number of
  rounds brings its failure count to the limit, although nothing is known about its latency.
\<close>

theorem icmp_loss_disables_nodes:
  assumes "db_ok d" "settings_row d = Some st" "st_icmp_monitor_enabled st" "st_icmp_monitor_target st \<noteq> []"
    and "r \<in> set (nodes d)" "nr_enabled r = 1" "\<forall>(env, now) \<in> set rounds. \<not> pe_listen (me_ping env) \<and> monitored_server env r \<noteq> None"
    and "rounds \<noteq> []" "nr_latency_fail_count r + int (length rounds) \<ge> st_icmp_auto_disable_consecutive st"
  shows "\<exists>r' \<in> set (nodes (snd (snd (monitorLoop rounds (flag, d))))). nr_id r' = nr_id r \<and> nr_enabled r' = 0"
  by (rule icmp_loss_rounds [OF assms])

theorem icmp_loss_disables_nodes_witness:
  "\<exists>r' \<in> set (nodes (snd (snd (monitorLoop (replicate 3 (demo_env, 1)) (False, demo_monitor_db demo_row))))).
     nr_id r' = ''n1'' \<and> nr_enabled r' = 0"
proof -
  have "nr_id demo_row = ''n1''" by (simp add: demo_row_def demo_node_def)
  then show ?thesis
    using icmp_loss_disables_nodes [OF demo_monitor_facts(1,2), where rounds = "replicate 3 (demo_env, 1)" and r = demo_row and flag = False]
    by (simp add: demo_monitor_facts demo_monitored) (simp add: demo_monitor_settings_def initial_settings_def)
qed

end
