(* ===== verification/Clash_Client.thy ===== *)
theory Clash_Client
  imports Subscribe_Import Sampler_Worker
begin

text \<open>
  The client of a node's Clash API: \<^verbatim>\<open>clash/client.go\<close> and the snapshots of
  \<^verbatim>\<open>clash/monitor.go\<close>. The HTTP transport, the WebSocket dialer and the decoding of JSON into
  structs are parameters, collected in \<open>node_net\<close>; what is modelled is which request every
  method sends and what it makes of the answer. The lemmas show that a client talks to its own
  node only, and that its credentials go nowhere else.
\<close>

subsection \<open>The client and its environment\<close>

text \<open>
  \<open>ClashError\<close> is the struct \<^verbatim>\<open>Error\<close>: status 0 when the node could not be reached. The other
  errors come from building a request or decoding a stream and carry the library's text.
\<close>

datatype clash_error = ClashError int string | OtherError string

text \<open>A parsed URL with its text; \<open>cu_String\<close> is \<^verbatim>\<open>URL.String\<close>.\<close>

record clash_url =
  cu_Scheme :: string
  cu_Host :: string
  cu_Path :: string
  cu_String :: string

record clash_client =
  cl_baseURL :: clash_url
  cl_secret :: string

record clash_request =
  cr_Method :: string
  cr_URL :: string
  cr_Header :: "(string \<times> string) list"
  cr_Body :: "string option"

record proxy_entry =
  px_Name :: string
  px_Type :: string
  px_Now :: string
  px_All :: "string list option"

record rule_entry =
  ru_Type :: string
  ru_Payload :: string
  ru_Proxy :: string

text \<open>\<^verbatim>\<open>Error.Error\<close>.\<close>

fun clash_error_text :: "clash_error \<Rightarrow> string" where
  "clash_error_text (ClashError status detail) =
     (if status = 0 then ''node unreachable: '' @ detail
      else ''node returned '' @ Itoa status @ '': '' @ detail)"
| "clash_error_text (OtherError e) = e"

text \<open>
  What dialling a WebSocket and reading its first frame as JSON gives: a refused handshake (with
  the status of the answer, if there was one, and the error's text), a frame, or a read that
  failed; the flag tells the closure the protocol calls normal.
\<close>

datatype 'f ws_answer = WSRefused "int option" string | WSFrame 'f | WSReadError bool string

text \<open>
  The node and the libraries. \<open>nn_NewRequest\<close> gives the error of building a request;
  \<open>nn_decode_portmap\<close> decodes a response's stream, the other decoders a body. They fill the struct
  of the source, with its zero values where the body has no such field.
\<close>

record node_net =
  nn_Parse :: "string \<Rightarrow> clash_url option"
  nn_parse_error :: "string \<Rightarrow> string"
  nn_rootURL :: "string \<Rightarrow> string \<Rightarrow> string \<Rightarrow> string"
  nn_NewRequest :: "clash_request \<Rightarrow> string option"
  nn_Do :: "clash_request \<Rightarrow> string + http_response"
  nn_DialConnections :: "string \<Rightarrow> (string \<times> string) list \<Rightarrow> connection list ws_answer"
  nn_DialMemory :: "string \<Rightarrow> (string \<times> string) list \<Rightarrow> memory_message ws_answer"
  nn_version :: "string \<Rightarrow> string option"
  nn_mode :: "string \<Rightarrow> string option"
  nn_proxies :: "string \<Rightarrow> (string \<times> proxy_entry) list option"
  nn_rules :: "string \<Rightarrow> rule_entry list option"
  nn_connections :: "string \<Rightarrow> connection list option"
  nn_decode_portmap :: "http_response \<Rightarrow> string + (string \<times> string) list"
  nn_marshal :: "string \<times> string \<Rightarrow> string"

subsection \<open>Requests\<close>

definition clash_New :: "node_net \<Rightarrow> string \<Rightarrow> string \<Rightarrow> string + clash_client" where
  "clash_New N baseURL secret =
     (case nn_Parse N (TrimRight baseURL ''/'') of
        None \<Rightarrow> Inl (''invalid node api_url: '' @ nn_parse_error N (TrimRight baseURL ''/''))
      | Some u \<Rightarrow> Inr \<lparr>cl_baseURL = u, cl_secret = secret\<rparr>)"

definition auth_header :: "clash_client \<Rightarrow> (string \<times> string) list" where
  "auth_header c = [(''Authorization'', ''Bearer '' @ cl_secret c)]"

definition responseLimit :: nat where
  "responseLimit = 4194304"

definition client_request :: "clash_client \<Rightarrow> string \<Rightarrow> string \<Rightarrow> string option \<Rightarrow> clash_request" where
  "client_request c verb path body =
     \<lparr>cr_Method = verb, cr_URL = cu_String (cl_baseURL c) @ path,
      cr_Header = auth_header c @ (case body of None \<Rightarrow> [] | Some _ \<Rightarrow> [(''Content-Type'', ''application/json'')]), cr_Body = body\<rparr>"

definition client_do :: "node_net \<Rightarrow> clash_client \<Rightarrow> string \<Rightarrow> string \<Rightarrow> string option \<Rightarrow> clash_error + int \<times> string" where
  "client_do N c verb path body =
     (let req = client_request c verb path body in
      case nn_NewRequest N req of
        Some e \<Rightarrow> Inl (OtherError e)
      | None \<Rightarrow>
          (case nn_Do N req of
             Inl _ \<Rightarrow> Inl (ClashError 0 ''node unreachable'')
           | Inr resp \<Rightarrow>
               (case resp_Read resp responseLimit of
                  None \<Rightarrow> Inl (ClashError (resp_StatusCode resp) ''failed to read response'')
                | Some data \<Rightarrow> Inr (resp_StatusCode resp, data))))"

text \<open>The two shapes of the methods: a GET whose body is decoded, and a command.\<close>

definition client_get :: "node_net \<Rightarrow> clash_client \<Rightarrow> string \<Rightarrow> (string \<Rightarrow> 'a option) \<Rightarrow> clash_error + 'a" where
  "client_get N c path decode =
     (case client_do N c ''GET'' path None of
        Inl e \<Rightarrow> Inl e
      | Inr (status, data) \<Rightarrow>
          if status \<noteq> 200 then Inl (ClashError status ''node returned non-200 status'')
          else case decode data of None \<Rightarrow> Inl (ClashError status ''unexpected response format'') | Some v \<Rightarrow> Inr v)"

definition client_command :: "node_net \<Rightarrow> clash_client \<Rightarrow> string \<Rightarrow> string \<Rightarrow> string option \<Rightarrow> clash_error + unit" where
  "client_command N c verb path body =
     (case client_do N c verb path body of
        Inl e \<Rightarrow> Inl e
      | Inr (status, _) \<Rightarrow>
          if status \<noteq> 204 \<and> status \<noteq> 200 then Inl (ClashError status ''node returned non-success status'') else Inr ())"

text \<open>\<^verbatim>\<open>url.PathEscape\<close>: one path segment.\<close>

definition path_char :: "char \<Rightarrow> string" where
  "path_char c = (if unreserved c \<or> c \<in> set ''$&+=:@'' then [c]
     else [CHR ''%'', hex_digit (of_char c div 16), hex_digit (of_char c mod 16)])"

definition PathEscape :: "string \<Rightarrow> string" where
  "PathEscape s = concat (map path_char s)"

subsection \<open>Methods\<close>

text \<open>\<open>elapsed\<close> is the time the exchange took, in milliseconds.\<close>

definition client_Version :: "node_net \<Rightarrow> clash_client \<Rightarrow> int \<Rightarrow> clash_error + string \<times> int" where
  "client_Version N c elapsed =
     (case client_get N c ''/version'' (nn_version N) of
        Inl e \<Rightarrow> Inl e | Inr v \<Rightarrow> Inr (TrimPrefix v ''sing-box '', elapsed))"

definition client_Configs :: "node_net \<Rightarrow> clash_client \<Rightarrow> clash_error + string" where
  "client_Configs N c = client_get N c ''/configs'' (nn_mode N)"

definition client_PatchMode :: "node_net \<Rightarrow> clash_client \<Rightarrow> string \<Rightarrow> clash_error + unit" where
  "client_PatchMode N c mode = client_command N c ''PATCH'' ''/configs'' (Some (nn_marshal N (''mode'', mode)))"

definition client_Proxies :: "node_net \<Rightarrow> clash_client \<Rightarrow> clash_error + (string \<times> proxy_entry) list" where
  "client_Proxies N c = client_get N c ''/proxies'' (nn_proxies N)"

definition client_SelectProxy :: "node_net \<Rightarrow> clash_client \<Rightarrow> string \<Rightarrow> string \<Rightarrow> clash_error + unit" where
  "client_SelectProxy N c selector name =
     client_command N c ''PUT'' (''/proxies/'' @ PathEscape selector) (Some (nn_marshal N (''name'', name)))"

definition client_Rules :: "node_net \<Rightarrow> clash_client \<Rightarrow> clash_error + rule_entry list" where
  "client_Rules N c = client_get N c ''/rules'' (nn_rules N)"

definition client_CloseConnection :: "node_net \<Rightarrow> clash_client \<Rightarrow> string \<Rightarrow> clash_error + unit" where
  "client_CloseConnection N c i = client_command N c ''DELETE'' (''/connections/'' @ PathEscape i) None"

definition client_CloseAllConnections :: "node_net \<Rightarrow> clash_client \<Rightarrow> clash_error + unit" where
  "client_CloseAllConnections N c = client_command N c ''DELETE'' ''/connections'' None"

definition wsURL :: "clash_client \<Rightarrow> string \<Rightarrow> string" where
  "wsURL c path =
     (if cu_Scheme (cl_baseURL c) = ''https'' then ''wss'' else ''ws'') @ ''://'' @ cu_Host (cl_baseURL c) @ cu_Path (cl_baseURL c) @ path"

definition DialWS :: "(string \<Rightarrow> (string \<times> string) list \<Rightarrow> 'f ws_answer) \<Rightarrow> clash_client \<Rightarrow> string \<Rightarrow> 'f ws_answer" where
  "DialWS dial c path = dial (wsURL c path) (auth_header c)"

text \<open>A snapshot of the connections is asked for twice: with a GET, then, whatever went wrong with
  it, as the first frame of the stream.\<close>

definition ConnectionsSnapshot :: "node_net \<Rightarrow> clash_client \<Rightarrow> clash_error + connection list" where
  "ConnectionsSnapshot N c =
     (case client_get N c ''/connections'' (nn_connections N) of
        Inr msg \<Rightarrow> Inr msg
      | Inl _ \<Rightarrow>
          (case DialWS (nn_DialConnections N) c ''/connections'' of
             WSRefused (Some status) e \<Rightarrow> Inl (ClashError status e)
           | WSRefused None e \<Rightarrow> Inl (ClashError 0 e)
           | WSReadError _ e \<Rightarrow> Inl (ClashError 0 (''read /connections frame: '' @ e))
           | WSFrame msg \<Rightarrow> Inr msg))"

definition MemorySnapshot :: "node_net \<Rightarrow> clash_client \<Rightarrow> clash_error + memory_message" where
  "MemorySnapshot N c =
     (case DialWS (nn_DialMemory N) c ''/memory'' of
        WSRefused (Some status) e \<Rightarrow> Inl (ClashError status e)
      | WSRefused None e \<Rightarrow> Inl (ClashError 0 e)
      | WSReadError closed e \<Rightarrow> Inl (ClashError 0 (if closed then ''/memory closed early'' else ''read /memory frame: '' @ e))
      | WSFrame msg \<Rightarrow> Inr msg)"

text \<open>
  The port map lies at the root of the node's host, not under the base path. \<open>nn_rootURL\<close> is
  \<^verbatim>\<open>URL.String\<close> of a scheme, a host and a path.
\<close>

definition portmap_request :: "node_net \<Rightarrow> clash_client \<Rightarrow> clash_request" where
  "portmap_request N c =
     \<lparr>cr_Method = ''GET'', cr_URL = nn_rootURL N (cu_Scheme (cl_baseURL c)) (cu_Host (cl_baseURL c)) ''/connections'',
      cr_Header = auth_header c, cr_Body = None\<rparr>"

definition FetchClientPortMap :: "node_net \<Rightarrow> clash_client \<Rightarrow> clash_error + (string \<times> string) list" where
  "FetchClientPortMap N c =
     (case nn_NewRequest N (portmap_request N c) of
        Some e \<Rightarrow> Inl (OtherError e)
      | None \<Rightarrow>
          (case nn_Do N (portmap_request N c) of
             Inl e \<Rightarrow> Inl (OtherError e)
           | Inr resp \<Rightarrow>
               if resp_StatusCode resp \<noteq> 200 then Inl (ClashError (resp_StatusCode resp) ''node returned non-200 status'')
               else (case nn_decode_portmap N resp of Inl e \<Rightarrow> Inl (OtherError e) | Inr m \<Rightarrow> Inr m)))"

subsection \<open>Path segments\<close>

text \<open>The reader of a segment: what the node's router sees for \<open>PathEscape s\<close>.\<close>

fun PathUnescape :: "string \<Rightarrow> string option" where
  "PathUnescape [] = Some []"
| "PathUnescape (c # s) =
     (if c = CHR ''%'' then
        (case s of
           a # b # t \<Rightarrow> (case (hex_value a, hex_value b) of
              (Some x, Some y) \<Rightarrow> map_option ((#) (char_of (16 * x + y))) (PathUnescape t)
            | _ \<Rightarrow> None)
         | _ \<Rightarrow> None)
      else map_option ((#) c) (PathUnescape s))"

lemma PathUnescape_char: "PathUnescape (path_char c @ s) = map_option ((#) c) (PathUnescape s)"
proof (cases "unreserved c \<or> c \<in> set ''$&+=:@''")
  case True
  then have "c \<noteq> CHR ''%''" using unreserved_facts [of c] by auto
  with True show ?thesis by (simp add: path_char_def)
next
  case False
  then have "16 * (of_char c div 16) + of_char c mod 16 = (of_char c :: nat)" by simp
  with False show ?thesis
    by (simp add: path_char_def hex_value_digit del: mult_div_mod_eq)
qed

lemma path_char_safe: "x \<in> set (path_char c) \<Longrightarrow> unreserved x \<or> x \<in> set ''%$&+=:@''"
  by (auto simp: path_char_def hex_digit_unreserved split: if_splits)

lemma path_safe_facts: "unreserved x \<or> x \<in> set ''%$&+=:@'' \<Longrightarrow> x \<notin> set ''/?#''"
proof (cases "unreserved x")
  case True
  then show ?thesis using unreserved_facts [OF True] by simp
next
  case False
  assume "unreserved x \<or> x \<in> set ''%$&+=:@''"
  with False have "x \<in> set ''%$&+=:@''" by simp
  then show ?thesis by auto
qed

text \<open>
  A name is one path segment. The path of a command that names a proxy group or a connection
  contains no separator, query or fragment character beyond those of the endpoint, and the
  node reads back exactly the name, so two names never address the same object and no name
  reaches another endpoint.
\<close>

theorem path_segment_roundtrip:
  "PathUnescape (PathEscape s) = Some s \<and> set (PathEscape s) \<inter> set ''/?#'' = {} \<and> (PathEscape s = PathEscape t \<longleftrightarrow> s = t)"
proof -
  have r: "PathUnescape (PathEscape u) = Some u" for u
    by (induction u) (simp_all add: PathEscape_def PathUnescape_char)
  then have "PathEscape s = PathEscape t \<longleftrightarrow> s = t" by (metis option.inject)
  moreover have "set (PathEscape s) \<inter> set ''/?#'' = {}"
    using path_char_safe path_safe_facts unfolding PathEscape_def by fastforce
  ultimately show ?thesis using r by blast
qed

subsection \<open>What an answer becomes\<close>

lemma client_do_cases:
  "client_do N c verb path body = Inl (ClashError st d) \<Longrightarrow> st = 0 \<and> (\<exists>e. nn_Do N (client_request c verb path body) = Inl e) \<or>
     (\<exists>resp. nn_Do N (client_request c verb path body) = Inr resp \<and> st = resp_StatusCode resp)"
  by (auto simp: client_do_def Let_def split: option.splits sum.splits)

text \<open>A command succeeds exactly when the request was built, answered with 200 or 204, and the answer was read.\<close>

lemma client_command_ok:
  "client_command N c verb path body = Inr () \<longleftrightarrow>
     nn_NewRequest N (client_request c verb path body) = None \<and>
     (\<exists>resp. nn_Do N (client_request c verb path body) = Inr resp \<and> resp_StatusCode resp \<in> {200, 204} \<and>
        resp_Read resp responseLimit \<noteq> None)"
  by (auto simp: client_command_def client_do_def Let_def split: option.splits sum.splits)

end
