(* ===== verification/Api_Http.thy ===== *)
theory Api_Http
  imports Store_Reach Sampler_Hub Auth_Session Auth_Limiter Subscribe_Import
begin

text \<open>
  The plumbing of the JSON API: problem documents and body decoding (\<^verbatim>\<open>httpx/httpx.go\<close>), bearer
  tokens, cursors, the idempotency store, query parameters (\<^verbatim>\<open>api/helpers.go\<close>), the panel's
  state and the guard \<open>requireAuth\<close> (\<^verbatim>\<open>api/server.go\<close>). A handler maps a request and the
  panel's state to a response and the new state; it runs at one clock reading (nanoseconds).
  Header, query and path values are association lists. The functions of other packages a
  handler calls (token signing, AEAD, media types, JSON and RFC 3339 text, name resolution,
  HTTP exchanges, bcrypt) are fields of \<open>env\<close>.
\<close>

subsection \<open>Requests and responses\<close>

type_synonym http_values = "(string \<times> string) list"

record request =
  rq_Header :: http_values
  rq_Query :: http_values
  rq_PathValue :: http_values
  rq_Path :: string
  rq_Host :: string
  rq_RemoteAddr :: string
  rq_Body :: string
  rq_ctxUserID :: "int option"

definition Get :: "http_values \<Rightarrow> string \<Rightarrow> string" where
  "Get m k = (case map_of m k of None \<Rightarrow> [] | Some v \<Rightarrow> v)"

record validation_error =
  ve_Detail :: string
  ve_Pointer :: string

record problem =
  pr_Type :: string
  pr_Title :: string
  pr_Status :: int
  pr_Detail :: string
  pr_Instance :: string
  pr_Errors :: "validation_error list"

datatype body = NoBody | JSONBody json | RawBody string | ProblemBody problem

record response =
  rp_Status :: int
  rp_Header :: http_values
  rp_Body :: body

definition setHeader :: "string \<Rightarrow> string \<Rightarrow> response \<Rightarrow> response" where
  "setHeader k v resp = resp\<lparr>rp_Header := AList.update k v (rp_Header resp)\<rparr>"

subsection \<open>Problem documents\<close>

definition StatusText :: "int \<Rightarrow> string" where
  "StatusText status = (case map_of
     [(200, ''OK''), (201, ''Created''), (202, ''Accepted''), (204, ''No Content''), (400, ''Bad Request''),
      (401, ''Unauthorized''), (404, ''Not Found''), (405, ''Method Not Allowed''), (409, ''Conflict''),
      (412, ''Precondition Failed''), (413, ''Request Entity Too Large''), (415, ''Unsupported Media Type''),
      (416, ''Requested Range Not Satisfiable''), (422, ''Unprocessable Entity''),
      (428, ''Precondition Required''), (429, ''Too Many Requests''), (500, ''Internal Server Error''),
      (502, ''Bad Gateway''), (503, ''Service Unavailable'')] status of None \<Rightarrow> [] | Some t \<Rightarrow> t)"

definition prob :: "string \<Rightarrow> string" where
  "prob name = ''https://sing-hub.dev/probs/'' @ name"

definition FieldErr :: "string \<Rightarrow> string \<Rightarrow> validation_error" where
  "FieldErr pointer detail = \<lparr>ve_Detail = detail, ve_Pointer = pointer\<rparr>"

definition WriteProblem :: "request \<Rightarrow> int \<Rightarrow> string \<Rightarrow> string \<Rightarrow> validation_error list \<Rightarrow> response" where
  "WriteProblem r status probType detail errs =
     \<lparr>rp_Status = status,
      rp_Header = [(''Content-Type'', ''application/problem+json; charset=utf-8''), (''X-Content-Type-Options'', ''nosniff'')],
      rp_Body = ProblemBody
        \<lparr>pr_Type = (if probType = [] then ''about:blank'' else probType),
         pr_Title = (if StatusText status = [] then ''Unknown Error'' else StatusText status),
         pr_Status = status, pr_Detail = detail, pr_Instance = rq_Path r, pr_Errors = errs\<rparr>\<rparr>"

definition Unauthorized :: "request \<Rightarrow> string \<Rightarrow> response" where
  "Unauthorized r detail = setHeader ''WWW-Authenticate'' ''Bearer realm=\"sing-hub\"''
     (WriteProblem r 401 (prob ''unauthorized'') detail [])"

definition NotFound :: "request \<Rightarrow> string \<Rightarrow> response" where
  "NotFound r detail = WriteProblem r 404 (prob ''not-found'') detail []"

definition Conflict :: "request \<Rightarrow> string \<Rightarrow> response" where
  "Conflict r detail = WriteProblem r 409 (prob ''conflict'') detail []"

definition Validation :: "request \<Rightarrow> string \<Rightarrow> validation_error list \<Rightarrow> response" where
  "Validation r detail errs = WriteProblem r 422 (prob ''validation-error'') detail errs"

definition NodeUnreachable :: "request \<Rightarrow> string \<Rightarrow> response" where
  "NodeUnreachable r detail = WriteProblem r 502 (prob ''node-unreachable'') detail []"

definition Internal :: "request \<Rightarrow> response" where
  "Internal r = WriteProblem r 500 (prob ''internal-error'') [] []"

definition WriteJSON :: "int \<Rightarrow> json \<Rightarrow> response" where
  "WriteJSON status v = \<lparr>rp_Status = status, rp_Header = [(''Content-Type'', ''application/json; charset=utf-8'')],
     rp_Body = JSONBody v\<rparr>"

definition WriteRawJSON :: "int \<Rightarrow> string \<Rightarrow> response" where
  "WriteRawJSON status raw = \<lparr>rp_Status = status, rp_Header = [(''Content-Type'', ''application/json; charset=utf-8'')],
     rp_Body = RawBody raw\<rparr>"

definition NoContent :: response where
  "NoContent = \<lparr>rp_Status = 204, rp_Header = [], rp_Body = NoBody\<rparr>"

subsection \<open>Request bodies\<close>

text \<open>
  What decoding a body of at most \<open>n\<close> bytes into a Go value gives: the three kinds of errors
  the panel tells apart, or the value and whether the input ends after it.
\<close>

datatype 'a decoded = DecodeTooLarge | DecodeSyntax | DecodeMismatch | Decoded 'a bool

type_synonym 'a decoder = "nat \<Rightarrow> string \<Rightarrow> 'a decoded"

definition maxBody :: nat where "maxBody = 1048576"

definition DecodeJSON :: "(string \<Rightarrow> string option) \<Rightarrow> 'a decoder \<Rightarrow> request \<Rightarrow> response + 'a" where
  "DecodeJSON ParseMediaType dec r =
     (case ParseMediaType (Get (rq_Header r) ''Content-Type'') of
        None \<Rightarrow> Inl (WriteProblem r 415 ''about:blank'' ''Content-Type must be application/json'' [])
      | Some mediaType \<Rightarrow>
          if mediaType \<noteq> ''application/json'' \<and> \<not> HasSuffix mediaType ''+json''
          then Inl (WriteProblem r 415 ''about:blank'' ''Content-Type must be application/json'' [])
          else case dec maxBody (rq_Body r) of
            DecodeTooLarge \<Rightarrow> Inl (WriteProblem r 413 ''about:blank'' ''request body exceeds size limit'' [])
          | DecodeSyntax \<Rightarrow> Inl (WriteProblem r 400 (prob ''validation-error'') ''request body is truncated or invalid JSON'' [])
          | DecodeMismatch \<Rightarrow> Inl (Validation r ''request body does not match the expected schema''
              [FieldErr [] ''request body has an invalid value or shape''])
          | Decoded v atEOF \<Rightarrow>
              if atEOF then Inr v
              else Inl (WriteProblem r 400 (prob ''validation-error'') ''request body contains trailing content after JSON object'' []))"

subsection \<open>Tokens, cursors and parameters\<close>

definition bearerToken :: "request \<Rightarrow> string option" where
  "bearerToken r =
     (let h = Get (rq_Header r) ''Authorization'' in
      if \<not> HasPrefix h ''Bearer '' then None
      else let token = TrimSpace (TrimPrefix h ''Bearer '') in if token \<noteq> [] then Some token else None)"

definition encodeCursor :: "string list \<Rightarrow> string" where
  "encodeCursor parts = RawURLEncode (Join parts [CHR 0x1F])"

definition decodeCursor :: "string \<Rightarrow> string list option" where
  "decodeCursor cursor =
     (if cursor = [] then Some []
      else case RawURLDecode cursor of None \<Rightarrow> None | Some raw \<Rightarrow> Some (Split raw (CHR 0x1F)))"

definition parsePositiveInt :: "string \<Rightarrow> int \<Rightarrow> int \<Rightarrow> int option" where
  "parsePositiveInt raw def mx =
     (if raw = [] then Some def
      else case ParseInt raw of None \<Rightarrow> None | Some n \<Rightarrow> if n < 1 \<or> n > mx then None else Some n)"

text \<open>\<open>time_Parse\<close> reads RFC 3339 text to unix seconds.\<close>

definition parseTimeRange :: "(string \<Rightarrow> int option) \<Rightarrow> int \<Rightarrow> request \<Rightarrow> string \<Rightarrow> (int \<times> int) option" where
  "parseTimeRange time_Parse now r interval =
     (let from0 = (if interval = ''hour'' then now - 7 * 86400 else if interval = ''day'' then now - 30 * 86400
                   else now - 86400);
          bound = (\<lambda>k v0. let v = Get (rq_Query r) k in if v = [] then Some v0 else time_Parse v)
      in case bound ''from'' from0 of None \<Rightarrow> None
         | Some from \<Rightarrow> (case bound ''to'' now of None \<Rightarrow> None
                        | Some to \<Rightarrow> if from > to then None else Some (from, to)))"

definition formatRFC3339 :: "(int \<Rightarrow> string) \<Rightarrow> int \<Rightarrow> string" where
  "formatRFC3339 time_Format ts = (if ts \<le> 0 then [] else time_Format ts)"

definition randomToken :: "string option \<Rightarrow> string option" where
  "randomToken rnd = map_option RawURLEncode rnd"

definition orEmpty :: "string list option \<Rightarrow> string list" where
  "orEmpty s = (case s of None \<Rightarrow> [] | Some xs \<Rightarrow> xs)"

definition isUniqueViolation :: "db_error \<Rightarrow> bool" where
  "isUniqueViolation e = (e = UniqueViolation)"

subsection \<open>The idempotency store\<close>

record idem_entry =
  ie_created :: int
  ie_status :: int
  ie_location :: string
  ie_body :: string
  ie_userID :: int
  ie_opHash :: string

record idem_store =
  is_ttl :: int
  is_entries :: "string \<rightharpoonup> idem_entry"

definition newIdempotencyStore :: "int \<Rightarrow> idem_store" where
  "newIdempotencyStore ttl = \<lparr>is_ttl = ttl, is_entries = Map.empty\<rparr>"

definition idem_get :: "int \<Rightarrow> string \<Rightarrow> idem_store \<Rightarrow> idem_entry option" where
  "idem_get now key s =
     (case is_entries s key of None \<Rightarrow> None
      | Some e \<Rightarrow> if TimeSub now (ie_created e) > is_ttl s then None else Some e)"

definition idem_gc :: "int \<Rightarrow> idem_store \<Rightarrow> idem_store" where
  "idem_gc now s = s\<lparr>is_entries := (\<lambda>k. case is_entries s k of None \<Rightarrow> None
     | Some e \<Rightarrow> if TimeSub now (ie_created e) > is_ttl s then None else Some e)\<rparr>"

definition idem_put :: "int \<Rightarrow> string \<Rightarrow> idem_entry \<Rightarrow> idem_store \<Rightarrow> idem_store" where
  "idem_put now key e s = (let s1 = idem_gc now s in s1\<lparr>is_entries := (is_entries s1)(key \<mapsto> e)\<rparr>)"

definition idem_putIfAbsent :: "int \<Rightarrow> string \<Rightarrow> idem_entry \<Rightarrow> idem_store \<Rightarrow> (idem_entry \<times> bool) \<times> idem_store" where
  "idem_putIfAbsent now key e s =
     (let s1 = idem_gc now s in
      case is_entries s1 key of
        Some existing \<Rightarrow> ((existing, True), s1)
      | None \<Rightarrow> ((e, False), s1\<lparr>is_entries := (is_entries s1)(key \<mapsto> e)\<rparr>))"

subsection \<open>The panel\<close>

text \<open>
  The state behind the server: the database, the hub, the rate limiter and the idempotency
  store. \<open>env\<close> holds the rest of the struct \<^verbatim>\<open>Server\<close> (crypto key, token manager, configuration)
  and the functions of other packages.
\<close>

record panel =
  p_db :: db
  p_hub :: hub
  p_limiter :: limiter
  p_idem :: idem_store

text \<open>The errors whose text a handler passes on; \<^verbatim>\<open>err.Error()\<close> is a field of \<open>env\<close>.\<close>

datatype api_error = UnsafeConfigURL ssrf_error | FetchFailed fetch_error | ParseFailed sub_error
  | SealFailed crypto_error | StoreFailed db_error | FieldType string json | ClashURLError

record env =
  ev_errorText :: "api_error \<Rightarrow> string"
  ev_cryptoKey :: string
  ev_auth :: manager
  ev_defaults :: sampler_defaults
  ev_newGCM :: gcm_of
  ev_sign :: jwt_sign
  ev_parse :: jwt_parse
  ev_HashPassword :: "string \<Rightarrow> string option"
  ev_ComparePassword :: "string \<Rightarrow> string \<Rightarrow> bool"
  ev_alloc :: "user list \<Rightarrow> int"
  ev_ParseMediaType :: "string \<Rightarrow> string option"
  ev_SplitHostPort :: "string \<Rightarrow> (string \<times> string) option"
  ev_time_Parse :: "string \<Rightarrow> int option"
  ev_time_Format :: "int \<Rightarrow> string"
  ev_marshal :: json_marshal
  ev_unmarshal :: json_unmarshal
  ev_json_Valid :: "string \<Rightarrow> bool"
  ev_outbound_identity :: "string \<Rightarrow> (string \<times> string \<times> string \<times> int) option"
  ev_marshalIndent :: json_marshal
  ev_yaml_Marshal :: json_marshal
  ev_yaml_Unmarshal :: "string \<Rightarrow> clash_doc option"
  ev_ToLower :: "string \<Rightarrow> string"
  ev_url_Parse :: url_parser
  ev_ParseIP :: ip_parser
  ev_LookupIP :: resolver
  ev_NewRequest :: "string \<Rightarrow> bool"
  ev_exchange :: "http_client \<Rightarrow> string \<Rightarrow> http_response option"
  ev_shake :: xof
  ev_clash_url_valid :: "string \<Rightarrow> bool"

text \<open>What \<^verbatim>\<open>NewServer\<close> builds: ten attempts in five minutes, replies kept for a day.\<close>

definition NewServer :: "db \<Rightarrow> hub \<Rightarrow> panel" where
  "NewServer d h = \<lparr>p_db = d, p_hub = h, p_limiter = NewLimiter 10 (300 * 1000000000),
     p_idem = newIdempotencyStore (24 * 3600 * 1000000000)\<rparr>"

definition rfc :: "env \<Rightarrow> int \<Rightarrow> json" where
  "rfc E ts = JStr (formatRFC3339 (ev_time_Format E) ts)"

definition nullableTime :: "env \<Rightarrow> int \<Rightarrow> bool \<Rightarrow> json" where
  "nullableTime E ts valid = (if \<not> valid \<or> ts \<le> 0 then JNull else rfc E ts)"

definition decrypt :: "env \<Rightarrow> string \<Rightarrow> crypto_error + string" where
  "decrypt E sealed = Decrypt (ev_newGCM E) (ev_cryptoKey E) sealed"

definition encrypt :: "env \<Rightarrow> string option \<Rightarrow> string \<Rightarrow> crypto_error + string" where
  "encrypt E rnd text = Encrypt (ev_newGCM E) rnd (ev_cryptoKey E) text"

definition reload_hub :: "env \<Rightarrow> int \<Rightarrow> panel \<Rightarrow> panel" where
  "reload_hub E now p =
     (case Reload (ev_newGCM E) (ev_cryptoKey E) (ev_clash_url_valid E) (\<lambda>_. Unix now) (Unix now) (p_hub p) (p_db p) of
        (h, d) \<Rightarrow> p\<lparr>p_hub := h, p_db := d\<rparr>)"

definition currentSettings :: "env \<Rightarrow> int \<Rightarrow> db \<Rightarrow> settings \<times> db" where
  "currentSettings E now d = GetSettings (Unix now) (ev_defaults E) d"

type_synonym handler = "request \<Rightarrow> panel \<Rightarrow> response \<times> panel"

definition requireAuth :: "env \<Rightarrow> int \<Rightarrow> handler \<Rightarrow> handler" where
  "requireAuth E now nxt r p =
     (case bearerToken r of
        None \<Rightarrow> (Unauthorized r ''missing bearer token'', p)
      | Some token \<Rightarrow>
          (case VerifyAccess (ev_parse E) db_refresh_store (ev_auth E) token now (p_db p) of
             Inl _ \<Rightarrow> (Unauthorized r ''invalid or expired token'', p)
           | Inr c \<Rightarrow> nxt (r\<lparr>rq_ctxUserID := Some (UserID c)\<rparr>) p))"

definition nodeOr404 :: "request \<Rightarrow> db \<Rightarrow> response + node" where
  "nodeOr404 r d =
     (case GetNode (Get (rq_PathValue r) ''node_id'') d of
        Inl e \<Rightarrow> Inl (if e = ErrNotFound then NotFound r ''node not found'' else Internal r)
      | Inr n \<Rightarrow> Inr n)"

text \<open>The address the server derives for itself; the host is not trusted with control characters.\<close>

definition request_origin :: "request \<Rightarrow> string" where
  "request_origin r =
     (let scheme = (if Get (rq_Header r) ''X-Forwarded-Proto'' = ''https'' then ''https'' else ''http'');
          host = (if rq_Host r = [] then ''localhost:42501'' else rq_Host r);
          host = (if ContainsAny host [CHR 0x0A, CHR 0x0D, CHR 0x09] then ''localhost:42501'' else host)
      in scheme @ ''://'' @ host)"

definition absoluteURL :: "request \<Rightarrow> string" where
  "absoluteURL r = request_origin r @ rq_Path r"

definition subURL :: "request \<Rightarrow> string \<Rightarrow> string" where
  "subURL r token = request_origin r @ ''/sub/'' @ token"

definition clientIP :: "env \<Rightarrow> request \<Rightarrow> string" where
  "clientIP E r = (case ev_SplitHostPort E (rq_RemoteAddr r) of None \<Rightarrow> rq_RemoteAddr r | Some (ip, _) \<Rightarrow> ip)"

definition handleHealth :: handler where
  "handleHealth r p = (WriteJSON 200 (JObj [(''status'', JStr ''ok'')]), p)"

subsection \<open>Lemmas\<close>

lemma rp_Status_simps [simp]:
  "rp_Status (WriteProblem r st t dt errs) = st" "rp_Status (setHeader k v resp) = rp_Status resp"
  "rp_Status (Unauthorized r dt) = 401" "rp_Status (NotFound r dt) = 404" "rp_Status (Conflict r dt) = 409"
  "rp_Status (Validation r dt errs) = 422" "rp_Status (NodeUnreachable r dt) = 502" "rp_Status (Internal r) = 500"
  "rp_Status (WriteJSON st js) = st" "rp_Status (WriteRawJSON st raw) = st" "rp_Status NoContent = 204"
  by (simp_all add: WriteProblem_def setHeader_def Unauthorized_def NotFound_def Conflict_def Validation_def
      NodeUnreachable_def Internal_def WriteJSON_def WriteRawJSON_def NoContent_def)

lemma rp_Body_simps [simp]:
  "rp_Body (setHeader k v resp) = rp_Body resp" "rp_Body (WriteJSON st js) = JSONBody js"
  "rp_Body (WriteRawJSON st raw) = RawBody raw"
  by (simp_all add: setHeader_def WriteJSON_def WriteRawJSON_def)

text \<open>Decoding fails only with the four client errors.\<close>

lemma DecodeJSON_error: "DecodeJSON m dec r = Inl resp \<Longrightarrow> rp_Status resp \<in> {400, 413, 415, 422}"
  by (auto simp: DecodeJSON_def split: option.splits if_splits decoded.splits)

lemma cursor_roundtrip:
  assumes "parts \<noteq> []" and "\<forall>p \<in> set parts. CHR 0x1F \<notin> set p" and "parts \<noteq> [[]]"
  shows "decodeCursor (encodeCursor parts) = Some parts" "encodeCursor parts \<noteq> []"
proof -
  have j: "Join parts [CHR 0x1F] \<noteq> []"
    using assms(1,3) by (cases "(parts, [CHR 0x1F])" rule: Join.cases) auto
  then show ne: "encodeCursor parts \<noteq> []"
    using RawURL_roundtrip [of "Join parts [CHR 0x1F]"] by (auto simp: encodeCursor_def RawURLDecode_def drop_newlines_def)
  then show "decodeCursor (encodeCursor parts) = Some parts"
    using assms by (simp add: decodeCursor_def encodeCursor_def RawURL_roundtrip Split_Join)
qed

lemma parsePositiveInt_range: "parsePositiveInt raw def mx = Some n \<Longrightarrow> 1 \<le> def \<Longrightarrow> def \<le> mx \<Longrightarrow> 1 \<le> n \<and> n \<le> mx"
  by (auto simp: parsePositiveInt_def split: if_splits option.splits)

lemma parseTimeRange_le: "parseTimeRange tp now r iv = Some (from, to) \<Longrightarrow> from \<le> to"
  by (auto simp: parseTimeRange_def Let_def split: option.splits if_splits)

text \<open>A stored reply is found until it is older than the time to live; replies of other keys stay.\<close>

lemma idem_get_put:
  "idem_get t k (idem_put now key e s) =
   (if k = key then (if TimeSub t (ie_created e) > is_ttl s then None else Some e)
    else case is_entries s k of None \<Rightarrow> None
         | Some e' \<Rightarrow> if TimeSub now (ie_created e') > is_ttl s \<or> TimeSub t (ie_created e') > is_ttl s then None else Some e')"
  by (auto simp: idem_get_def idem_put_def idem_gc_def Let_def split: option.splits)

lemma idem_putIfAbsent_first:
  "idem_putIfAbsent now key e s =
   (case idem_get now key s of
      Some old \<Rightarrow> ((old, True), idem_gc now s)
    | None \<Rightarrow> ((e, False), idem_put now key e s))"
  by (simp add: idem_putIfAbsent_def idem_get_def idem_put_def idem_gc_def Let_def split: option.splits)

lemma requireAuth_cases:
  "requireAuth E now nxt r p = (Unauthorized r dt, p) \<or>
   (\<exists>token c. bearerToken r = Some token \<and>
      VerifyAccess (ev_parse E) db_refresh_store (ev_auth E) token now (p_db p) = Inr c \<and>
      requireAuth E now nxt r p = nxt (r\<lparr>rq_ctxUserID := Some (UserID c)\<rparr>) p)"
  if "dt = (if bearerToken r = None then ''missing bearer token'' else ''invalid or expired token'')"
  using that by (auto simp: requireAuth_def split: option.splits sum.splits)

lemma nodeOr404_Inr: "nodeOr404 r d = Inr n \<longleftrightarrow> GetNode (Get (rq_PathValue r) ''node_id'') d = Inr n"
  by (auto simp: nodeOr404_def split: sum.splits)

lemma nodeOr404_Inl:
  "nodeOr404 r d = Inl resp \<longleftrightarrow>
   \<not> node_exists (Get (rq_PathValue r) ''node_id'') d \<and> resp = NotFound r ''node not found''"
  using GetNode_None [of "Get (rq_PathValue r) ''node_id''" d]
  by (cases "GetNode (Get (rq_PathValue r) ''node_id'') d")
    (auto simp: nodeOr404_def GetNode_node_exists [symmetric])

subsection \<open>Handlers as clients of the store\<close>

text \<open>
  The contract of a handler towards the database: whatever it does, its effect is a sequence
  of store operations. Guarding a handler and serving any sequence of requests keep the
  contract, and with it the consistency of the tables.
\<close>

abbreviation store_steps :: "db \<Rightarrow> db \<Rightarrow> bool" where
  "store_steps \<equiv> store_step\<^sup>*\<^sup>*"

lemma then_step: "store_step d d' \<Longrightarrow> store_steps d0 d \<Longrightarrow> store_steps d0 d'"
  by (rule rtranclp.rtrancl_into_rtrancl)

lemmas then_steps = store_step.intros [THEN then_step]

lemma store_steps_ok: "store_steps d d' \<Longrightarrow> db_ok d \<Longrightarrow> db_ok d'"
  by (induction rule: rtranclp_induct) (blast intro: store_step_ok)+

lemma or_keep_steps: "(\<And>d'. res = Inr d' \<Longrightarrow> store_steps d0 d') \<Longrightarrow> store_steps d0 d \<Longrightarrow> store_steps d0 (or_keep d res)"
  by (cases res) (auto simp: or_keep_def)

fun serve :: "('q \<Rightarrow> handler) \<Rightarrow> ('q \<times> request) list \<Rightarrow> panel \<Rightarrow> response list \<times> panel" where
  "serve handle [] p = ([], p)"
| "serve handle ((q, r) # rs) p =
     (case handle q r p of (resp, p') \<Rightarrow> case serve handle rs p' of (resps, p'') \<Rightarrow> (resp # resps, p''))"

lemma serve_invariant:
  assumes "\<And>q r p. I (p_db p) \<Longrightarrow> I (p_db (snd (handle q r p)))" and "I (p_db p)"
  shows "I (p_db (snd (serve handle rs p)))"
  using assms(2)
proof (induction rs arbitrary: p)
  case (Cons qr rs)
  from Cons.IH [OF assms(1) [OF Cons.prems]] show ?case by (cases qr) (simp add: split_beta)
qed simp

locale store_client =
  fixes handle :: "'q \<Rightarrow> handler"
  assumes steps: "store_steps (p_db p) (p_db (snd (handle q r p)))"
begin

lemma serve_steps: "store_steps (p_db p) (p_db (snd (serve handle rs p)))"
proof (induction rs arbitrary: p)
  case (Cons qr rs)
  obtain q r where "qr = (q, r)" by force
  with Cons [of "snd (handle q r p)"] steps [of p q r] show ?case
    by (auto simp: split: prod.splits intro: rtranclp_trans)
qed simp

lemma serve_ok: "db_ok (p_db p) \<Longrightarrow> db_ok (p_db (snd (serve handle rs p)))"
  using serve_steps store_steps_ok by blast

lemma guarded_steps: "store_steps (p_db p) (p_db (snd (requireAuth E now (handle q) r p)))"
  using steps by (auto simp: requireAuth_def split: option.splits sum.splits)

end

lemma flushWorker_steps:
  assumes "store_steps d0 d"
  shows "store_steps d0 (snd (flushWorker now w d))"
proof -
  have a: "store_steps d0 (if b then SetLastOnline i now d else d)" for b i
    using assms by (simp add: then_steps)
  note a' = a [of True, simplified] a [of False, simplified]
  have b: "store_steps d0 (or_keep e (InsertTrafficSamples x e))" "store_steps d0 (or_keep e (UpsertRollups y e))"
    "store_steps d0 (or_keep e (UpsertIPStats z e))" if "store_steps d0 e" for e x y z
    using that by (auto intro: or_keep_steps then_steps)
  show ?thesis by (auto simp: flushWorker_def Let_def split: prod.splits intro!: a' b)
qed

lemma reload_running_steps:
  "store_steps d0 d \<Longrightarrow> store_steps d0 (snd (reload_running clock desired ci ws d))"
proof (induction clock desired ci ws d rule: reload_running.induct)
  case (2 clock desired ci i w ws d)
  have a: "store_steps d0 (ClearActiveIPs i (case GetNode i d of Inr _ \<Rightarrow> snd (flushWorker (clock i) (Stop w) d) | Inl _ \<Rightarrow> d))"
    by (auto intro!: then_steps flushWorker_steps 2 split: sum.splits)
  have b: "store_steps d0 d1" if "flushWorker (clock i) (Stop w) d = (w1, d1)" for w1 d1
    using flushWorker_steps [OF 2(4), of "clock i" "Stop w"] that by simp
  show ?case using 2 a b by (auto simp: Let_def split: prod.splits)
qed simp

lemma reload_hub_steps:
  assumes "store_steps d0 (p_db p)"
  shows "store_steps d0 (p_db (reload_hub E now p))"
proof -
  obtain st d1 where s: "hub_settings (Unix now) (p_db p) = (st, d1)" by force
  then have "store_steps d0 d1" using assms by (auto simp: hub_settings_def intro: then_steps)
  from reload_running_steps [OF this] show ?thesis
    using assms s by (simp add: reload_hub_def Reload_def Let_def split_beta)
qed

lemma currentSettings_steps: "store_steps d0 d \<Longrightarrow> store_steps d0 (snd (currentSettings E now d))"
  by (cases "currentSettings E now d") (auto simp: currentSettings_def intro: then_steps)

subsection \<open>What a reload leaves alone\<close>

text \<open>
  Reconciling the hub flushes workers: it writes traffic, address statistics and the time a
  node was last online, and nothing else.
\<close>

definition offline_row :: "node_row \<Rightarrow> node_row" where
  "offline_row r = r\<lparr>nr_last_online_at := 0\<rparr>"

definition same_config :: "db \<Rightarrow> db \<Rightarrow> bool" where
  "same_config d d' \<longleftrightarrow>
     users d' = users d \<and> refresh_tokens d' = refresh_tokens d \<and> user_subscriptions d' = user_subscriptions d \<and>
     operations d' = operations d \<and> exit_ip_checks d' = exit_ip_checks d \<and>
     (settings_row d = None \<or> settings_row d' = settings_row d) \<and>
     map offline_row (nodes d') = map offline_row (nodes d)"

lemma same_config_refl: "same_config d d"
  by (simp add: same_config_def)

lemma same_config_trans: "same_config d d' \<Longrightarrow> same_config d' d'' \<Longrightarrow> same_config d d''"
  by (auto simp: same_config_def)

lemma or_keep_config:
  assumes "\<And>d'. res = Inr d' \<Longrightarrow> same_config d d'"
  shows "same_config d (or_keep d res)"
  using assms by (cases res) (auto simp: or_keep_def same_config_refl)

lemma exec_each_config:
  "exec_each f xs d = Inr d' \<Longrightarrow> (\<And>x e e'. f x e = Inr e' \<Longrightarrow> same_config e e') \<Longrightarrow> same_config d d'"
  by (erule exec_each_invariant) (auto intro: same_config_refl same_config_trans)

lemma sampling_config:
  "InsertTrafficSamples ms d = Inr d' \<Longrightarrow> same_config d d'"
  "UpsertRollups rs d = Inr d' \<Longrightarrow> same_config d d'"
  "UpsertIPStats xs d = Inr d' \<Longrightarrow> same_config d d'"
  "same_config d (SetLastOnline i ts d)" "same_config d (ClearActiveIPs i d)"
proof -
  have f: "insert_sample m e = Inr e' \<Longrightarrow> same_config e e'" "insert_rollup r e = Inr e' \<Longrightarrow> same_config e e'"
    "insert_delta x e = Inr e' \<Longrightarrow> same_config e e'" for m r x e e'
    by (auto simp: same_config_def insert_sample_def insert_rollup_def insert_delta_def split: if_splits)
  show "InsertTrafficSamples ms d = Inr d' \<Longrightarrow> same_config d d'" "UpsertRollups rs d = Inr d' \<Longrightarrow> same_config d d'"
    "UpsertIPStats xs d = Inr d' \<Longrightarrow> same_config d d'"
    by (auto simp: InsertTrafficSamples_def UpsertRollups_def UpsertIPStats_def split: if_splits
        intro: exec_each_config f same_config_refl)
  show "same_config d (SetLastOnline i ts d)"
    by (simp add: same_config_def SetLastOnline_def update_where_def offline_row_def)
  show "same_config d (ClearActiveIPs i d)" by (auto simp: same_config_def ClearActiveIPs_def)
qed

lemma flushWorker_config: "same_config d (snd (flushWorker now w d))"
proof -
  have a: "same_config d e \<Longrightarrow> same_config d (or_keep e (InsertTrafficSamples x e))"
    "same_config d e \<Longrightarrow> same_config d (or_keep e (UpsertRollups y e))"
    "same_config d e \<Longrightarrow> same_config d (or_keep e (UpsertIPStats z e))" for e x y z
    by (auto intro: same_config_trans or_keep_config sampling_config)
  show ?thesis
    by (auto simp: flushWorker_def Let_def split: prod.splits intro!: a sampling_config(4) same_config_refl)
qed

lemma reload_running_config:
  "same_config d0 d \<Longrightarrow> same_config d0 (snd (reload_running clock desired ci ws d))"
proof (induction clock desired ci ws d rule: reload_running.induct)
  case (2 clock desired ci i w ws d)
  have a: "same_config d (ClearActiveIPs i (case GetNode i d of Inr _ \<Rightarrow> snd (flushWorker (clock i) (Stop w) d) | Inl _ \<Rightarrow> d))"
    by (rule same_config_trans [OF _ sampling_config(5)]) (auto simp: flushWorker_config same_config_refl split: sum.splits)
  have b: "same_config d0 d1" if "flushWorker (clock i) (Stop w) d = (w1, d1)" for w1 d1
    using same_config_trans [OF 2(4) flushWorker_config, of "clock i" "Stop w"] that by simp
  show ?case using 2 same_config_trans [OF 2(4) a] b by (auto simp: Let_def split: prod.splits)
qed simp

lemma reload_hub_config: "same_config (p_db p) (p_db (reload_hub E now p))"
proof -
  have "same_config d (snd (hub_settings t d))" for t d
    by (auto simp: same_config_def hub_settings_def GetSettings_def Let_def split: option.splits)
  from reload_running_config [OF this] show ?thesis
    by (simp add: reload_hub_def Reload_def Let_def split_beta same_config_refl)
qed

subsection \<open>Listings with cursors\<close>

text \<open>
  A client that follows \<^verbatim>\<open>next_cursor\<close> until it is absent. The contract of a listing: the page
  after a row holds the next rows in order, at most \<open>lim\<close> of them, and names a cursor exactly
  when rows are left. The client then sees every row once and in order.
\<close>

definition body_fields :: "response \<Rightarrow> json_map" where
  "body_fields resp = (case rp_Body resp of JSONBody (JObj m) \<Rightarrow> m | _ \<Rightarrow> [])"

fun follow_pages :: "(string \<Rightarrow> json_map) \<Rightarrow> nat \<Rightarrow> string \<Rightarrow> json list" where
  "follow_pages get 0 cursor = []"
| "follow_pages get (Suc fuel) cursor =
     (let b = get cursor in
      (case map_of b ''items'' of Some (JArr xs) \<Rightarrow> xs | _ \<Rightarrow> []) @
      (case map_of b ''next_cursor'' of Some (JStr c) \<Rightarrow> follow_pages get fuel c | _ \<Rightarrow> []))"

definition is_page :: "nat \<Rightarrow> ('r \<Rightarrow> json) \<Rightarrow> ('r \<Rightarrow> string) \<Rightarrow> 'r list \<Rightarrow> json_map \<Rightarrow> bool" where
  "is_page n item cursor rest b \<longleftrightarrow>
     map_of b ''items'' = Some (JArr (map item (take n rest))) \<and>
     map_of b ''next_cursor'' = (if n < length rest then Some (JStr (cursor (last (take n rest)))) else None)"

locale paged_listing =
  fixes inv :: "'p \<Rightarrow> bool"
    and get :: "'p \<Rightarrow> string \<Rightarrow> json_map"
    and rows :: "'p \<Rightarrow> 'r list"
    and lim :: "'p \<Rightarrow> nat"
    and item :: "'p \<Rightarrow> 'r \<Rightarrow> json"
    and cursor :: "'r \<Rightarrow> string"
  assumes lim_pos: "inv p \<Longrightarrow> 0 < lim p"
    and first_page: "inv p \<Longrightarrow> is_page (lim p) (item p) cursor (rows p) (get p [])"
    and next_page: "inv p \<Longrightarrow> rows p = xs @ ys \<Longrightarrow> xs \<noteq> [] \<Longrightarrow> is_page (lim p) (item p) cursor ys (get p (cursor (last xs)))"
begin

lemma follow_rest:
  assumes "inv p" and "rows p = xs @ ys" and "is_page (lim p) (item p) cursor ys (get p c)" and "length ys < fuel"
  shows "follow_pages (get p) fuel c = map (item p) ys"
  using assms
proof (induction fuel arbitrary: xs ys c)
  case (Suc fuel)
  let ?n = "lim p"
  show ?case
  proof (cases "?n < length ys")
    case False
    with Suc.prems show ?thesis by (simp add: is_page_def)
  next
    case True
    then have ne: "take ?n ys \<noteq> []" using lim_pos [OF Suc.prems(1)] by (cases ys) auto
    have r: "rows p = (xs @ take ?n ys) @ drop ?n ys" using Suc.prems(2) by simp
    have "is_page ?n (item p) cursor (drop ?n ys) (get p (cursor (last (take ?n ys))))"
      using next_page [OF Suc.prems(1) r] ne by simp
    from Suc.IH [OF Suc.prems(1) r this] have
      "follow_pages (get p) fuel (cursor (last (take ?n ys))) = map (item p) (drop ?n ys)"
      using Suc.prems(4) lim_pos [OF Suc.prems(1)] True by simp
    then show ?thesis using Suc.prems(3) True by (simp add: is_page_def flip: map_append)
  qed
qed simp

lemma follow_all: "inv p \<Longrightarrow> length (rows p) < fuel \<Longrightarrow> follow_pages (get p) fuel [] = map (item p) (rows p)"
  using follow_rest [of p "[]" "rows p" "[]" fuel] first_page [of p] by simp

end

subsection \<open>A server for the examples\<close>

definition demo_server :: env where
  "demo_server = \<lparr>ev_errorText = (\<lambda>_. ''error''), ev_cryptoKey = ''k'', ev_auth = demo_manager, ev_defaults = demo_defaults, ev_newGCM = (\<lambda>_. Some demo_gcm),
     ev_sign = demo_sign, ev_parse = demo_parse, ev_HashPassword = (\<lambda>pw. Some (rev pw)),
     ev_ComparePassword = (\<lambda>h pw. h = rev pw), ev_alloc = sqlite_next_id, ev_ParseMediaType = Some,
     ev_SplitHostPort = (\<lambda>a. Some (a, ''443'')), ev_time_Parse = (\<lambda>_. None), ev_time_Format = Itoa,
     ev_marshal = (\<lambda>_. Some ''{}''), ev_unmarshal = (\<lambda>_. None), ev_json_Valid = (\<lambda>_. True),
     ev_outbound_identity = (\<lambda>_. None), ev_marshalIndent = (\<lambda>_. Some ''{}''), ev_yaml_Marshal = (\<lambda>_. Some ''proxies''), ev_yaml_Unmarshal = (\<lambda>_. Some demo_doc),
     ev_ToLower = ToLower, ev_url_Parse = (\<lambda>_. Some demo_url), ev_ParseIP = (\<lambda>_. None), ev_LookupIP = (\<lambda>_. Some [[8, 8, 8, 8]]),
     ev_NewRequest = (\<lambda>_. True), ev_exchange = (\<lambda>_ _. Some \<lparr>resp_StatusCode = 200, resp_Read = (\<lambda>_. Some ''doc'')\<rparr>),
     ev_shake = demo_xof, ev_clash_url_valid = (\<lambda>_. True)\<rparr>"

definition demo_request :: request where
  "demo_request = \<lparr>rq_Header = [(''Content-Type'', ''application/json''), (''Authorization'', ''Bearer A'')], rq_Query = [],
     rq_PathValue = [], rq_Path = ''/'', rq_Host = ''hub.example'', rq_RemoteAddr = ''203.0.113.7'', rq_Body = ''body'',
     rq_ctxUserID = None\<rparr>"

definition demo_panel :: panel where
  "demo_panel = NewServer demo_db \<lparr>h_running = True, h_workers = []\<rparr>"

lemma demo_server_simps [simp]:
  "ev_parse demo_server = demo_parse" "ev_auth demo_server = demo_manager" "ev_ParseMediaType demo_server = Some"
  "ev_SplitHostPort demo_server a = Some (a, ''443'')" "ev_ComparePassword demo_server h pw = (h = rev pw)"
  "ev_HashPassword demo_server pw = Some (rev pw)" "ev_newGCM demo_server k = Some demo_gcm" "ev_sign demo_server = demo_sign"
  "p_db demo_panel = demo_db" "rq_Query demo_request = []" "ev_alloc demo_server = sqlite_next_id"
  by (simp_all add: demo_server_def demo_panel_def NewServer_def demo_request_def)

lemma demo_bearer: "bearerToken demo_request = Some ''A''"
  by (simp add: bearerToken_def demo_request_def Get_def HasPrefix_def TrimPrefix_def TrimSpace_def space_encodings_def)

lemma demo_session: "VerifyAccess demo_parse db_refresh_store demo_manager ''A'' 1000000000000 demo_db = Inr (demo_claims ClaimTypeAccess 1060)"
  using demo_verify(1)
  by (simp add: VerifyAccess_def db_refresh_store_def GetRefreshToken_def demo_id demo_db_def demo_token_def row_with_def Unix_def)

end
