(* ===== verification/Http_Mux.thy ===== *)
theory Http_Mux
  imports Clash_Client Api_Http
begin

text \<open>
  Request routing as the panel uses it: the patterns of \<^verbatim>\<open>api/server.go\<close> and \<^verbatim>\<open>webui/server.go\<close> and
  the search of Go's \<^verbatim>\<open>http.ServeMux\<close> for them. A path is cleaned, cut into segments and followed
  down the routing tree, where a literal comes before a wildcard and a wildcard before the rest of
  a path. The lemmas show that the search finds a matching pattern if there is one, that it
  finds the most specific one, and that the order of registration does not matter. Hosts in
  patterns, patterns without a method, and CONNECT, whose paths are not cleaned, do not occur.
\<close>

subsection \<open>Patterns\<close>

text \<open>A pattern's path: literal segments, wildcards for one segment, and at the end a wildcard for the
  rest; a trailing slash is one without a name.\<close>

datatype seg = Lit string | Wild string | Multi string

definition parseSeg :: "string \<Rightarrow> seg" where
  "parseSeg s =
     (if s = [] then Multi []
      else if HasPrefix s ''{'' then
        (let name = butlast (tl s) in
         if HasSuffix name ''...'' then Multi (take (length name - 3) name) else Wild name)
      else Lit s)"

definition parsePattern :: "string \<Rightarrow> string \<times> seg list" where
  "parsePattern s =
     (case Split s (CHR '' '') of
        [verb, path] \<Rightarrow> (verb, map parseSeg (Split (tl path) (CHR ''/'')))
      | _ \<Rightarrow> ([], map parseSeg (Split (tl s) (CHR ''/''))))"

subsection \<open>Paths\<close>

text \<open>\<^verbatim>\<open>path.Clean\<close> of a rooted path, which keeps a trailing slash.\<close>

definition clean_step :: "string list \<Rightarrow> string \<Rightarrow> string list" where
  "clean_step st s = (if s = [] \<or> s = ''.'' then st else if s = ''..'' then drop 1 st else s # st)"

definition cleanPath :: "string \<Rightarrow> string" where
  "cleanPath p =
     (let p = (if HasPrefix p ''/'' then p else ''/'' @ p);
          np = ''/'' @ Join (rev (foldl clean_step [] (Split (tl p) (CHR ''/'')))) ''/''
      in if HasSuffix p ''/'' \<and> np \<noteq> ''/'' then np @ ''/'' else np)"

definition unescape_seg :: "string \<Rightarrow> string" where
  "unescape_seg s = (case PathUnescape s of None \<Rightarrow> s | Some t \<Rightarrow> t)"

text \<open>The segments of a clean path, unescaped. A trailing slash is a segment of its own.\<close>

definition path_segments :: "string \<Rightarrow> string list" where
  "path_segments p =
     (let xs = Split (tl p) (CHR ''/'') in
      map unescape_seg (butlast xs) @ [if last xs = [] then ''/'' else unescape_seg (last xs)])"

subsection \<open>The search\<close>

text \<open>
  A node of the routing tree is the list of the patterns below it, each with the segments that are
  left and what it leads to; \<open>lit_child\<close>, \<open>wild_child\<close> and \<open>multi_child\<close> are its children.
\<close>

type_synonym 'a mux_node = "(seg list \<times> 'a) list"

fun lit_child :: "string \<Rightarrow> 'a mux_node \<Rightarrow> 'a mux_node" where
  "lit_child s [] = []"
| "lit_child s ((Lit l # ss, x) # rows) = (if l = s then (ss, x) # lit_child s rows else lit_child s rows)"
| "lit_child s (r # rows) = lit_child s rows"

fun wild_child :: "'a mux_node \<Rightarrow> 'a mux_node" where
  "wild_child [] = []"
| "wild_child ((Wild n # ss, x) # rows) = (ss, x) # wild_child rows"
| "wild_child (r # rows) = wild_child rows"

fun multi_child :: "'a mux_node \<Rightarrow> (string \<times> 'a) list" where
  "multi_child [] = []"
| "multi_child ((Multi n # ss, x) # rows) = (n, x) # multi_child rows"
| "multi_child (r # rows) = multi_child rows"

fun leaves :: "'a mux_node \<Rightarrow> 'a list" where
  "leaves [] = []"
| "leaves (([], x) # rows) = x # leaves rows"
| "leaves (r # rows) = leaves rows"

text \<open>The value of a wildcard for the rest; one without a name records none.\<close>

definition multi_values :: "string \<Rightarrow> string list \<Rightarrow> string list" where
  "multi_values n path = (if n = [] then [] else [Join (map (\<lambda>s. if s = ''/'' then [] else s) path) ''/''])"

fun matchPath :: "'a mux_node \<Rightarrow> string list \<Rightarrow> ('a \<times> string list) option" where
  "matchPath rows [] = (case leaves rows of [] \<Rightarrow> None | x # _ \<Rightarrow> Some (x, []))"
| "matchPath rows (s # path) =
     (case matchPath (lit_child s rows) path of
        Some res \<Rightarrow> Some res
      | None \<Rightarrow>
          (case (if s = ''/'' then None else matchPath (wild_child rows) path) of
             Some (x, vs) \<Rightarrow> Some (x, s # vs)
           | None \<Rightarrow> (case multi_child rows of [] \<Rightarrow> None | (n, x) # _ \<Rightarrow> Some (x, multi_values n (s # path)))))"

text \<open>\<open>muxes\<close> are the registered patterns with their handlers; a row keeps its pattern.\<close>

type_synonym 'h mux = "(string \<times> 'h) list"

definition method_rows :: "'h mux \<Rightarrow> string \<Rightarrow> (string \<times> 'h) mux_node" where
  "method_rows mx verb = map (\<lambda>(pat, h). (snd (parsePattern pat), pat, h)) (filter (\<lambda>(pat, h). fst (parsePattern pat) = verb) mx)"

text \<open>GET patterns serve HEAD as well.\<close>

definition match_request :: "'h mux \<Rightarrow> string \<Rightarrow> string \<Rightarrow> ((string \<times> 'h) \<times> string list) option" where
  "match_request mx verb path =
     (case matchPath (method_rows mx verb) (path_segments path) of
        Some res \<Rightarrow> Some res
      | None \<Rightarrow> if verb = ''HEAD'' then matchPath (method_rows mx ''GET'') (path_segments path) else None)"

definition wild_names :: "seg list \<Rightarrow> string list" where
  "wild_names ss = concat (map (\<lambda>s. case s of Lit _ \<Rightarrow> [] | Wild n \<Rightarrow> [n] | Multi n \<Rightarrow> if n = [] then [] else [n]) ss)"

definition is_multi :: "seg list \<Rightarrow> bool" where
  "is_multi ss = (case last ss of Multi _ \<Rightarrow> True | _ \<Rightarrow> False)"

text \<open>Whether a match uses up the path: a pattern for the rest is exact when the rest is empty.\<close>

definition exactMatch :: "((string \<times> 'h) \<times> string list) option \<Rightarrow> string \<Rightarrow> bool" where
  "exactMatch m path =
     (case m of
        None \<Rightarrow> False
      | Some ((pat, _), _) \<Rightarrow>
          let ss = snd (parsePattern pat) in
          if \<not> is_multi ss then True
          else HasSuffix path ''/'' \<and> length ss = length (filter (\<lambda>c. c = CHR ''/'') path))"

datatype 'h found = Handle string 'h http_values | MovedTo string | WrongMethod "string list" | NoRoute

definition known_methods :: "string list" where
  "known_methods = [''DELETE'', ''GET'', ''PATCH'', ''POST'', ''PUT'']"

definition matchingMethods :: "'h mux \<Rightarrow> string \<Rightarrow> string list" where
  "matchingMethods mx path =
     (let hit = (\<lambda>verb. matchPath (method_rows mx verb) (path_segments path) \<noteq> None \<or>
            \<not> HasSuffix path ''/'' \<and> matchPath (method_rows mx verb) (path_segments (path @ ''/'')) \<noteq> None)
      in concat (map (\<lambda>verb. if hit verb then if verb = ''GET'' then [''GET'', ''HEAD''] else [verb] else []) known_methods))"

definition findHandler :: "'h mux \<Rightarrow> string \<Rightarrow> string \<Rightarrow> 'h found" where
  "findHandler mx verb escapedPath =
     (let path = cleanPath escapedPath; m = match_request mx verb path in
      if \<not> exactMatch m path \<and> \<not> HasSuffix path ''/'' \<and> exactMatch (match_request mx verb (path @ ''/'')) (path @ ''/'')
      then MovedTo (path @ ''/'')
      else if path \<noteq> escapedPath then MovedTo path
      else (case m of
              Some ((pat, h), vs) \<Rightarrow> Handle pat h (zip (wild_names (snd (parsePattern pat))) vs)
            | None \<Rightarrow> (case matchingMethods mx path of [] \<Rightarrow> NoRoute | vs \<Rightarrow> WrongMethod vs)))"

subsection \<open>What a pattern matches\<close>

text \<open>The meaning of a pattern by itself, and which of two patterns is tried first.\<close>

fun matches_path :: "seg list \<Rightarrow> string list \<Rightarrow> string list option" where
  "matches_path [] [] = Some []"
| "matches_path (Lit l # ss) (s # path) = (if l = s then matches_path ss path else None)"
| "matches_path (Wild n # ss) (s # path) = (if s = ''/'' then None else map_option ((#) s) (matches_path ss path))"
| "matches_path (Multi n # ss) (s # path) = Some (multi_values n (s # path))"
| "matches_path _ _ = None"

fun seg_rank :: "seg \<Rightarrow> nat" where
  "seg_rank (Lit _) = 0"
| "seg_rank (Wild _) = 1"
| "seg_rank (Multi _) = 2"

fun before :: "seg list \<Rightarrow> seg list \<Rightarrow> bool" where
  "before (a # as) (b # bs) = (seg_rank a < seg_rank b \<or> seg_rank a = seg_rank b \<and> (seg_rank a = 2 \<or> before as bs))"
| "before _ _ = True"

text \<open>Two patterns of one shape differ in the names of their wildcards only; what follows a wildcard for
  the rest does not count.\<close>

fun shape :: "seg list \<Rightarrow> seg list" where
  "shape [] = []"
| "shape (Lit l # ss) = Lit l # shape ss"
| "shape (Wild n # ss) = Wild [] # shape ss"
| "shape (Multi n # ss) = [Multi []]"

lemma lit_child_iff: "(ss, x) \<in> set (lit_child s rows) \<longleftrightarrow> (Lit s # ss, x) \<in> set rows"
  by (induction s rows rule: lit_child.induct) auto

lemma wild_child_iff: "(ss, x) \<in> set (wild_child rows) \<longleftrightarrow> (\<exists>n. (Wild n # ss, x) \<in> set rows)"
  by (induction rows rule: wild_child.induct) auto

lemma multi_child_iff: "(n, x) \<in> set (multi_child rows) \<longleftrightarrow> (\<exists>ss. (Multi n # ss, x) \<in> set rows)"
  by (induction rows rule: multi_child.induct) auto

lemma leaves_iff: "x \<in> set (leaves rows) \<longleftrightarrow> ([], x) \<in> set rows"
  by (induction rows rule: leaves.induct) auto

lemmas mux_child_iffs = lit_child_iff wild_child_iff multi_child_iff leaves_iff

lemma matchPath_no_rows [simp]: "matchPath [] path = None"
  by (induction path) simp_all

lemma matches_path_Cons:
  "matches_path ss (s # path) = Some vs \<longleftrightarrow>
     (\<exists>t. ss = Lit s # t \<and> matches_path t path = Some vs) \<or>
     (\<exists>n t ws. ss = Wild n # t \<and> s \<noteq> ''/'' \<and> matches_path t path = Some ws \<and> vs = s # ws) \<or>
     (\<exists>n t. ss = Multi n # t \<and> vs = multi_values n (s # path))"
  by (cases "(ss, s # path)" rule: matches_path.cases) auto

lemma matches_path_Nil: "matches_path ss [] = Some vs \<longleftrightarrow> ss = [] \<and> vs = []"
  by (cases "(ss, [] :: string list)" rule: matches_path.cases) auto

lemma matches_empty_pattern: "matches_path [] path = Some vs \<longleftrightarrow> path = [] \<and> vs = []"
  by (cases path) auto

text \<open>The search finds a pattern when there is one.\<close>

lemma matchPath_complete:
  "(ss, x) \<in> set rows \<Longrightarrow> matches_path ss path \<noteq> None \<Longrightarrow> \<exists>y vs. matchPath rows path = Some (y, vs)"
proof (induction rows path arbitrary: ss rule: matchPath.induct)
  case (1 rows)
  then have "x \<in> set (leaves rows)" by (auto simp: leaves_iff matches_path_Nil)
  then show ?case by (auto split: list.split)
next
  case (2 rows s path)
  show ?case
  proof (cases "matchPath (lit_child s rows) path")
    case (Some res)
    then show ?thesis by (cases res) simp
  next
    case no_lit: None
    show ?thesis
    proof (cases "if s = ''/'' then None else matchPath (wild_child rows) path")
      case (Some res)
      with no_lit show ?thesis by (cases res) simp
    next
      case no_wild: None
      from 2(4) obtain vs where "matches_path ss (s # path) = Some vs" by blast
      then consider t where "ss = Lit s # t" "matches_path t path \<noteq> None"
        | n t where "ss = Wild n # t" "s \<noteq> ''/''" "matches_path t path \<noteq> None"
        | n t where "ss = Multi n # t"
        unfolding matches_path_Cons by auto
      then have "multi_child rows \<noteq> []"
      proof cases
        case 1
        with 2(1,3) no_lit show ?thesis by (fastforce simp: lit_child_iff)
      next
        case (2 n t)
        then have "(t, x) \<in> set (wild_child rows)" using \<open>(ss, x) \<in> set rows\<close> by (auto simp: wild_child_iff)
        from "2.IH"(2) [OF no_lit 2(2) this 2(3)] no_wild 2(2) show ?thesis by simp
      next
        case (3 n t)
        with 2(3) have "(n, x) \<in> set (multi_child rows)" by (auto simp: multi_child_iff)
        then show ?thesis by auto
      qed
      with no_lit no_wild show ?thesis by (auto split: list.split)
    qed
  qed
qed

text \<open>It returns a pattern that matches, with its values, and every other match comes after it.\<close>

lemma matchPath_first:
  assumes "matchPath rows path = Some (x, vs)"
  shows "\<exists>ss. (ss, x) \<in> set rows \<and> matches_path ss path = Some vs \<and>
    (\<forall>ss' x'. (ss', x') \<in> set rows \<and> matches_path ss' path \<noteq> None \<longrightarrow> before ss ss')"
  using assms
proof (induction rows path arbitrary: vs rule: matchPath.induct)
  case (1 rows)
  then show ?case by (auto split: list.splits intro!: exI [of _ "[]"] simp flip: leaves_iff)
next
  case (2 rows s path)
  let ?lits = "matchPath (lit_child s rows) path"
  let ?wilds = "if s = ''/'' then None else matchPath (wild_child rows) path"
  have no_lit: "matches_path t path = None" if "?lits = None" "(Lit s # t, y) \<in> set rows" for t y
    using matchPath_complete [of t y "lit_child s rows" path] that by (cases "matches_path t path") (auto simp: lit_child_iff)
  have no_wild: "s = ''/'' \<or> matches_path t path = None" if "?wilds = None" "(Wild n # t, y) \<in> set rows" for n t y
    using matchPath_complete [of t y "wild_child rows" path] that
    by (cases "matches_path t path") (auto simp: wild_child_iff split: if_splits)
  consider (lit) "?lits = Some (x, vs)" | (wild) ws where "?lits = None" "s \<noteq> ''/''" "matchPath (wild_child rows) path = Some (x, ws)" "vs = s # ws"
    | (multi) n where "?lits = None" "?wilds = None" "(n, x) \<in> set (multi_child rows)" "vs = multi_values n (s # path)"
    using 2(3) by (auto split: option.splits if_splits list.splits prod.splits)
  then show ?case
  proof cases
    case lit
    from 2(1) [OF lit] obtain ss where "(Lit s # ss, x) \<in> set rows" "matches_path ss path = Some vs"
      and "\<forall>ss' x'. (ss', x') \<in> set (lit_child s rows) \<and> matches_path ss' path \<noteq> None \<longrightarrow> before ss ss'"
      by (auto simp: lit_child_iff)
    then show ?thesis
      by (intro exI [of _ "Lit s # ss"]) (auto simp: matches_path_Cons lit_child_iff)
  next
    case wild
    from 2(2) [OF wild(1,2,3)] obtain ss n where "(Wild n # ss, x) \<in> set rows" "matches_path ss path = Some ws"
      and "\<forall>ss' x'. (ss', x') \<in> set (wild_child rows) \<and> matches_path ss' path \<noteq> None \<longrightarrow> before ss ss'"
      by (auto simp: wild_child_iff)
    note ss = this
    have "before (Wild n # ss) t" if t: "(t, x') \<in> set rows" and m: "matches_path t (s # path) = Some w" for t x' w
      using m [unfolded matches_path_Cons]
    proof (elim disjE exE conjE)
      fix t' assume "t = Lit s # t'" "matches_path t' path = Some w"
      with no_lit [OF wild(1)] t show ?thesis by simp
    next
      fix n' t' w' assume c: "t = Wild n' # t'" "matches_path t' path = Some w'"
      with t have "(t', x') \<in> set (wild_child rows)" by (auto simp: wild_child_iff)
      with ss(3) c show ?thesis by auto
    qed simp
    with ss wild(2,4) show ?thesis by (intro exI [of _ "Wild n # ss"]) auto
  next
    case multi
    then obtain t where "(Multi n # t, x) \<in> set rows" by (auto simp: multi_child_iff)
    moreover have "before (Multi n # t) t'" if t': "(t', x') \<in> set rows" and m: "matches_path t' (s # path) = Some w" for t' x' w
      using m [unfolded matches_path_Cons] no_lit [OF multi(1)] no_wild [OF multi(2)] t' by (auto simp: disj_imp)
    ultimately show ?thesis using multi(4) by (intro exI [of _ "Multi n # t"]) auto
  qed
qed

lemma before_antisym_shape:
  "before as bs \<Longrightarrow> before bs as \<Longrightarrow> matches_path as path \<noteq> None \<Longrightarrow> matches_path bs path \<noteq> None \<Longrightarrow> shape as = shape bs"
proof (induction as bs arbitrary: path rule: before.induct)
  case (1 a as b bs)
  then obtain s rest where path: "path = s # rest" by (cases path) (auto simp: matches_path_Nil)
  show ?case using 1 by (cases a; cases b) (auto simp: path split: if_splits)
qed (auto elim!: matches_path.elims simp: matches_path_Nil)

text \<open>
  Patterns of which no two have the same shape can be registered in any order: the search
  depends on their set alone.
\<close>

lemma matchPath_order:
  assumes "set rows = set rows'"
    and inj: "\<And>ss x ss' x'. (ss, x) \<in> set rows \<Longrightarrow> (ss', x') \<in> set rows \<Longrightarrow> shape ss = shape ss' \<Longrightarrow> (ss, x) = (ss', x')"
  shows "matchPath rows path = matchPath rows' path"
proof (cases "matchPath rows path")
  case None
  then have "\<nexists>r. matchPath rows' path = Some r"
    using matchPath_first [of rows' path] matchPath_complete [of _ _ rows path] assms(1) by fastforce
  with None show ?thesis by (cases "matchPath rows' path") auto
next
  case (Some r)
  obtain x vs where r: "r = (x, vs)" by (cases r)
  from matchPath_first [OF Some [unfolded r]] obtain ss where ss: "(ss, x) \<in> set rows" "matches_path ss path = Some vs"
    "\<forall>ss' x'. (ss', x') \<in> set rows \<and> matches_path ss' path \<noteq> None \<longrightarrow> before ss ss'" by blast
  with matchPath_complete [of ss x rows' path] assms(1) obtain y ws where y: "matchPath rows' path = Some (y, ws)" by auto
  from matchPath_first [OF y] obtain ss' where ss': "(ss', y) \<in> set rows" "matches_path ss' path = Some ws"
    "\<forall>t x'. (t, x') \<in> set rows \<and> matches_path t path \<noteq> None \<longrightarrow> before ss' t" using assms(1) by auto
  have "shape ss = shape ss'"
    by (rule before_antisym_shape [of _ _ path]) (use ss ss' in auto)
  with inj [OF ss(1) ss'(1)] have "(ss, x) = (ss', y)" .
  with ss(2) ss'(2) y Some r show ?thesis by simp
qed

subsection \<open>Finding a given pattern\<close>

text \<open>Whether two patterns could match one path; the second has no wildcard for the rest.\<close>

fun can_overlap :: "seg list \<Rightarrow> seg list \<Rightarrow> bool" where
  "can_overlap [] [] = True"
| "can_overlap (Lit a # as) (Lit b # bs) = (a = b \<and> can_overlap as bs)"
| "can_overlap (Lit a # as) (Wild n # bs) = can_overlap as bs"
| "can_overlap (Wild m # as) (Lit b # bs) = can_overlap as bs"
| "can_overlap (Wild m # as) (Wild n # bs) = can_overlap as bs"
| "can_overlap (Multi m # as) (b # bs) = True"
| "can_overlap _ _ = False"

fun no_multi :: "seg list \<Rightarrow> bool" where
  "no_multi [] = True"
| "no_multi (Multi n # ss) = False"
| "no_multi (s # ss) = no_multi ss"

lemma can_overlap_sound:
  "matches_path ss' path = Some vs' \<Longrightarrow> matches_path ss path = Some vs \<Longrightarrow> no_multi ss \<Longrightarrow> can_overlap ss' ss"
proof (induction ss' ss arbitrary: path vs vs' rule: can_overlap.induct)
qed (case_tac path; force simp: matches_path_Nil split: if_splits)+

text \<open>A pattern is found on every path it matches, if no other one that could match the path comes before it.\<close>

lemma matchPath_finds:
  assumes "(ss, x) \<in> set rows" and "matches_path ss path = Some vs" and "no_multi ss"
    and "\<And>ss' x'. (ss', x') \<in> set rows \<Longrightarrow> can_overlap ss' ss \<Longrightarrow> before ss' ss \<Longrightarrow> (ss', x') = (ss, x)"
  shows "matchPath rows path = Some (x, vs)"
proof -
  from matchPath_complete [OF assms(1), of path] assms(2) obtain y ws where y: "matchPath rows path = Some (y, ws)" by auto
  from matchPath_first [OF y] assms(1,2) obtain ss' where "(ss', y) \<in> set rows" "matches_path ss' path = Some ws" "before ss' ss"
    by auto
  with assms(4) [OF this(1) can_overlap_sound [OF this(2) assms(2,3)] this(3)] assms(2) y show ?thesis by simp
qed

text \<open>The path of a pattern with values for its wildcards.\<close>

fun fill :: "seg list \<Rightarrow> string list \<Rightarrow> string list" where
  "fill [] vs = []"
| "fill (Lit l # ss) vs = l # fill ss vs"
| "fill (s # ss) (v # vs) = PathEscape v # fill ss vs"
| "fill (s # ss) [] = [] # fill ss []"

definition filled_path :: "seg list \<Rightarrow> string list \<Rightarrow> string" where
  "filled_path ss vs = ''/'' @ Join (fill ss vs) ''/''"

text \<open>What a value must not be: empty, a dot segment, or a lone slash, which escaped is no segment of its own.\<close>

definition seg_value :: "string \<Rightarrow> bool" where
  "seg_value v \<longleftrightarrow> v \<noteq> [] \<and> v \<noteq> ''.'' \<and> v \<noteq> ''..'' \<and> v \<noteq> ''/''"

definition plain_lit :: "string \<Rightarrow> bool" where
  "plain_lit l \<longleftrightarrow> l \<noteq> [] \<and> l \<noteq> ''.'' \<and> l \<noteq> ''..'' \<and> CHR ''/'' \<notin> set l \<and> CHR ''%'' \<notin> set l"

fun lits_plain :: "seg list \<Rightarrow> bool" where
  "lits_plain [] = True"
| "lits_plain (Lit l # ss) = (plain_lit l \<and> lits_plain ss)"
| "lits_plain (s # ss) = lits_plain ss"

definition clean_seg :: "string \<Rightarrow> bool" where
  "clean_seg s \<longleftrightarrow> s \<noteq> [] \<and> s \<noteq> ''.'' \<and> s \<noteq> ''..'' \<and> CHR ''/'' \<notin> set s"

lemma PathUnescape_no_percent: "CHR ''%'' \<notin> set s \<Longrightarrow> PathUnescape s = Some s"
  by (induction s rule: PathUnescape.induct) auto

lemma unescape_seg_simps: "unescape_seg (PathEscape v) = v" "plain_lit l \<Longrightarrow> unescape_seg l = l"
proof -
  have "PathUnescape (PathEscape u) = Some u" for u
    by (induction u) (simp_all add: PathEscape_def PathUnescape_char)
  then show "unescape_seg (PathEscape v) = v" by (simp add: unescape_seg_def)
qed (simp add: unescape_seg_def plain_lit_def PathUnescape_no_percent)

lemma PathEscape_clean:
  assumes "seg_value v"
  shows "clean_seg (PathEscape v)"
proof -
  have "CHR ''/'' \<notin> set (PathEscape v)"
    using path_char_safe path_safe_facts unfolding PathEscape_def by fastforce
  moreover have dots: "u = v'" if "PathEscape u = PathEscape v'" for u v'
    using that unescape_seg_simps(1) by metis
  have "PathEscape [] = []" "PathEscape ''.'' = ''.''" "PathEscape ''..'' = ''..''" by code_simp+
  then have "PathEscape v \<noteq> []" "PathEscape v \<noteq> ''.''" "PathEscape v \<noteq> ''..''"
    using assms dots unfolding seg_value_def by metis+
  ultimately show ?thesis by (simp add: clean_seg_def)
qed

lemma fold_clean: "\<forall>s \<in> set xs. clean_seg s \<Longrightarrow> foldl clean_step st xs = rev xs @ st"
  by (induction xs arbitrary: st) (auto simp: clean_step_def clean_seg_def)

lemma Split_clean:
  assumes "xs \<noteq> []" and "\<forall>s \<in> set xs. clean_seg s"
  shows "Split (Join xs ''/'') (CHR ''/'') = xs"
  by (rule Split_Join) (use assms in \<open>auto simp: clean_seg_def\<close>)

lemma HasSuffix_char: "HasSuffix s [c] \<longleftrightarrow> s \<noteq> [] \<and> last s = c"
  by (cases s rule: rev_cases) (auto simp: HasSuffix_def HasPrefix_def)

lemma Join_last:
  "xs \<noteq> [] \<Longrightarrow> \<forall>s \<in> set xs. clean_seg s \<Longrightarrow> Join xs ''/'' \<noteq> [] \<and> last (Join xs ''/'') = last (last xs)"
proof (induction xs rule: list_nonempty_induct)
  case (single x)
  then show ?case by (simp add: clean_seg_def)
next
  case (cons x xs)
  then show ?case by (cases xs) auto
qed

lemma Join_no_trailing_slash:
  assumes "xs \<noteq> []" and "\<forall>s \<in> set xs. clean_seg s"
  shows "\<not> HasSuffix (''/'' @ Join xs ''/'') ''/''"
proof -
  have "clean_seg (last xs)" using assms by simp
  then have "last (last xs) \<noteq> CHR ''/''" unfolding clean_seg_def by (metis last_in_set)
  with Join_last [OF assms] show ?thesis by (simp add: HasSuffix_char)
qed

lemma clean_path:
  assumes "xs \<noteq> []" and "\<forall>s \<in> set xs. clean_seg s"
  shows "cleanPath (''/'' @ Join xs ''/'') = ''/'' @ Join xs ''/''"
    and "path_segments (''/'' @ Join xs ''/'') = map unescape_seg xs"
    and "\<not> HasSuffix (''/'' @ Join xs ''/'') ''/''"
proof -
  show no: "\<not> HasSuffix (''/'' @ Join xs ''/'') ''/''" by (rule Join_no_trailing_slash [OF assms])
  show "cleanPath (''/'' @ Join xs ''/'') = ''/'' @ Join xs ''/''"
    using no Split_clean [OF assms] fold_clean [OF assms(2), of "[]"] by (simp add: cleanPath_def HasPrefix_def Let_def)
  have "last xs \<noteq> []" using assms by (auto simp: clean_seg_def)
  then show "path_segments (''/'' @ Join xs ''/'') = map unescape_seg xs"
    using Split_clean [OF assms] assms(1)
    by (cases xs rule: rev_cases) (auto simp: path_segments_def Let_def)
qed

lemma fill_ok:
  assumes "no_multi ss" and "lits_plain ss" and "length vs = length (wild_names ss)" and "\<forall>v \<in> set vs. seg_value v"
  shows "(\<forall>s \<in> set (fill ss vs). clean_seg s) \<and> matches_path ss (map unescape_seg (fill ss vs)) = Some vs"
  using assms
proof (induction ss vs rule: fill.induct)
  case (2 l ss vs)
  then show ?case by (auto simp: wild_names_def unescape_seg_simps plain_lit_def clean_seg_def)
qed (auto simp: wild_names_def unescape_seg_simps PathEscape_clean seg_value_def)

lemma no_multi_last: "no_multi ss \<Longrightarrow> ss \<noteq> [] \<Longrightarrow> \<not> is_multi ss"
  by (induction ss rule: no_multi.induct) (auto simp: is_multi_def split: seg.splits)

lemma method_rows_iff:
  "(ss, pat, h) \<in> set (method_rows mx verb) \<longleftrightarrow> (pat, h) \<in> set mx \<and> parsePattern pat = (verb, ss)"
  by (cases "parsePattern pat") (force simp: method_rows_def)

lemma findHandler_pattern:
  assumes "(pat, h) \<in> set mx" and pat: "parsePattern pat = (verb, ss)" and "ss \<noteq> []"
    and "no_multi ss" and "lits_plain ss" and "length vs = length (wild_names ss)" and "\<forall>v \<in> set vs. seg_value v"
    and rival: "\<And>pat' h' ss'. (pat', h') \<in> set mx \<Longrightarrow> parsePattern pat' = (verb, ss') \<Longrightarrow> can_overlap ss' ss \<Longrightarrow> before ss' ss \<Longrightarrow>
      (pat', h') = (pat, h)"
  shows "findHandler mx verb (filled_path ss vs) = Handle pat h (zip (wild_names ss) vs)"
proof -
  note f = fill_ok [OF assms(4-7)]
  have ne: "fill ss vs \<noteq> []" using assms(3) by (cases "(ss, vs)" rule: fill.cases) auto
  note c = clean_path [OF ne conjunct1 [OF f], folded filled_path_def]
  have "matchPath (method_rows mx verb) (path_segments (filled_path ss vs)) = Some ((pat, h), vs)"
  proof (rule matchPath_finds [where ss = ss])
    show "(ss, pat, h) \<in> set (method_rows mx verb)" using assms(1) pat by (simp add: method_rows_iff)
    show "matches_path ss (path_segments (filled_path ss vs)) = Some vs" using c(2) f by simp
    fix ss' x' assume r: "(ss', x') \<in> set (method_rows mx verb)" "can_overlap ss' ss" "before ss' ss"
    obtain pat' h' where x': "x' = (pat', h')" by (cases x')
    with r(1) have "(pat', h') \<in> set mx" "parsePattern pat' = (verb, ss')" by (auto simp: method_rows_iff)
    with rival [OF this r(2,3)] pat x' show "(ss', x') = (ss, pat, h)" by auto
  qed (rule assms(4))
  then have "match_request mx verb (filled_path ss vs) = Some ((pat, h), vs)" by (simp add: match_request_def)
  moreover have "\<not> is_multi ss" by (rule no_multi_last [OF assms(4,3)])
  ultimately show ?thesis using c pat by (simp add: findHandler_def exactMatch_def Let_def)
qed

text \<open>What a found handler was registered for.\<close>

lemma match_request_in:
  assumes "match_request mx verb path = Some ((pat, h), vs)"
  shows "(pat, h) \<in> set mx \<and> matches_path (snd (parsePattern pat)) (path_segments path) = Some vs"
proof -
  from assms consider "matchPath (method_rows mx verb) (path_segments path) = Some ((pat, h), vs)"
    | "matchPath (method_rows mx ''GET'') (path_segments path) = Some ((pat, h), vs)"
    by (auto simp: match_request_def split: option.splits if_splits)
  then show ?thesis by cases (drule matchPath_first, auto simp: method_rows_iff)+
qed

lemma findHandler_in:
  "findHandler mx verb path = Handle pat h vals \<Longrightarrow>
     (pat, h) \<in> set mx \<and> cleanPath path = path \<and> (\<exists>vs. matches_path (snd (parsePattern pat)) (path_segments path) = Some vs)"
  by (auto simp: findHandler_def Let_def dest!: match_request_in split: if_splits option.splits list.splits)

end
