(* ===== verification/Api_Accounts.thy ===== *)
theory Api_Accounts
  imports Api_Http
begin

text \<open>
  Sessions and accounts over HTTP: \<^verbatim>\<open>api/session.go\<close> and \<^verbatim>\<open>api/users.go\<close>. Login and refresh are
  rate limited per client address before the body is read. The lemmas show that a refused
  login does not tell whether the account exists, that logging out ends every session of the
  account, that the listing pages are complete, and that the first account stays.
\<close>

subsection \<open>Sessions\<close>

text \<open>\<^verbatim>\<open>int(d.Seconds())\<close> truncates.\<close>

definition whole_seconds :: "int \<Rightarrow> int" where
  "whole_seconds ns = (if 0 \<le> ns then ns div 1000000000 else - ((- ns) div 1000000000))"

definition sessionBody :: "int \<Rightarrow> pair \<Rightarrow> json" where
  "sessionBody now pr =
     JObj [(''access_token'', JStr (AccessToken pr)), (''token_type'', JStr ''Bearer''),
           (''expires_in_seconds'', JInt (whole_seconds (TimeSub (AccessExpiresAt pr) now))),
           (''refresh_token'', JStr (RefreshToken pr))]"

text \<open>The two throttled entry points share this step; an address that does not split is empty.\<close>

definition throttle :: "env \<Rightarrow> int \<Rightarrow> string \<Rightarrow> string \<Rightarrow> request \<Rightarrow> panel \<Rightarrow> response option \<times> panel" where
  "throttle E now kind detail r p =
     (let ip = (case ev_SplitHostPort E (rq_RemoteAddr r) of None \<Rightarrow> [] | Some (h, _) \<Rightarrow> h);
          key = kind @ ip
      in case Allow key now (p_limiter p) of (ok, l) \<Rightarrow>
           if ok then (None, p\<lparr>p_limiter := l\<rparr>)
           else let retry = whole_seconds (RetryAfter key now l);
                    retry = (if retry < 1 then 1 else retry)
                in (Some (setHeader ''Retry-After'' (Itoa retry) (WriteProblem r 429 (prob ''rate-limited'') detail [])),
                    p\<lparr>p_limiter := l\<rparr>))"

record credentials =
  cr_Username :: string
  cr_Password :: string

definition dummy_hash :: string where
  "dummy_hash = ''$2a$10$7EqJtq98hPqEX7fNZaFWoOhi5B0X0FkF0mQ5oZ4S1lGqRzCkU3SNe''"

text \<open>The outcome of the password check with the bcrypt comparisons it makes.\<close>

definition check_password :: "env \<Rightarrow> user option \<Rightarrow> string \<Rightarrow> bool \<times> (string \<times> string) list" where
  "check_password E found pw =
     (case found of
        Some u \<Rightarrow> (ev_ComparePassword E (u_password_hash u) pw, [(u_password_hash u, pw)])
      | None \<Rightarrow> (False, [(dummy_hash, ''dummy-password'')]))"

definition handleCreateSession :: "env \<Rightarrow> credentials decoder \<Rightarrow> string option \<Rightarrow> int \<Rightarrow> handler" where
  "handleCreateSession E dec rnd now r p =
     (case throttle E now ''login:'' ''too many login attempts, retry later'' r p of
        (Some resp, p1) \<Rightarrow> (resp, p1)
      | (None, p1) \<Rightarrow>
     (case DecodeJSON (ev_ParseMediaType E) dec r of Inl resp \<Rightarrow> (resp, p1)
      | Inr inp \<Rightarrow>
          if cr_Username inp = [] \<or> cr_Password inp = []
          then (Validation r ''username and password are required''
                  [FieldErr ''#/username'' ''must not be empty'', FieldErr ''#/password'' ''must not be empty''], p1)
          else if (case GetUserByUsername (cr_Username inp) (p_db p1) of Inl e \<Rightarrow> e \<noteq> ErrNotFound | Inr _ \<Rightarrow> False)
          then (Internal r, p1)
          else let found = (case GetUserByUsername (cr_Username inp) (p_db p1) of Inl _ \<Rightarrow> None | Inr u \<Rightarrow> Some u) in
               if \<not> fst (check_password E found (cr_Password inp)) then (Unauthorized r ''invalid credentials'', p1)
               else case found of None \<Rightarrow> (Internal r, p1)
               | Some u \<Rightarrow>
                   (case Issue (ev_sign E) db_refresh_store (ev_auth E) (u_id u) (u_username u) (u_role u) now rnd (p_db p1) of
                      Inl _ \<Rightarrow> (Internal r, p1)
                    | Inr (pr, d) \<Rightarrow>
                        (setHeader ''Location'' ''/me'' (WriteJSON 201 (sessionBody now pr)), p1\<lparr>p_db := d\<rparr>))))"

definition handleRefreshSession :: "env \<Rightarrow> string decoder \<Rightarrow> string option \<Rightarrow> int \<Rightarrow> handler" where
  "handleRefreshSession E dec rnd now r p =
     (case throttle E now ''refresh:'' ''too many refresh attempts, retry later'' r p of
        (Some resp, p1) \<Rightarrow> (resp, p1)
      | (None, p1) \<Rightarrow>
     (case DecodeJSON (ev_ParseMediaType E) dec r of Inl resp \<Rightarrow> (resp, p1)
      | Inr token \<Rightarrow>
     (case Rotate (ev_sign E) (ev_parse E) db_refresh_store (ev_auth E) token now rnd (p_db p1) of
        Inl e \<Rightarrow> (Unauthorized r (if e = ErrRevoked then ''refresh token has been revoked'' else ''invalid refresh token''), p1)
      | Inr (pr, d) \<Rightarrow> (WriteJSON 200 (sessionBody now pr), p1\<lparr>p_db := d\<rparr>))))"

definition handleDeleteSession :: "env \<Rightarrow> int \<Rightarrow> handler" where
  "handleDeleteSession E now r p =
     (case bearerToken r of
        None \<Rightarrow> (Unauthorized r ''missing bearer token'', p)
      | Some token \<Rightarrow>
          (case VerifyAccess (ev_parse E) db_refresh_store (ev_auth E) token now (p_db p) of
             Inl _ \<Rightarrow> (Unauthorized r ''invalid or expired token'', p)
           | Inr c \<Rightarrow> (NoContent, p\<lparr>p_db := RevokeAllRefreshTokens (UserID c) (p_db p)\<rparr>)))"

definition handleGetMe :: "env \<Rightarrow> int \<Rightarrow> handler" where
  "handleGetMe E now r p =
     (let token = (case bearerToken r of None \<Rightarrow> [] | Some t \<Rightarrow> t) in
      case VerifyAccess (ev_parse E) db_refresh_store (ev_auth E) token now (p_db p) of
        Inl _ \<Rightarrow> (Unauthorized r ''invalid or expired token'', p)
      | Inr c \<Rightarrow>
          (WriteJSON 200 (JObj [(''username'', JStr (cl_username c)),
             (''created_at'', case GetUserByUsername (cl_username c) (p_db p) of Inl _ \<Rightarrow> JStr [] | Inr u \<Rightarrow> rfc E (u_created_at u))]), p))"

subsection \<open>Accounts\<close>

definition userBody :: "env \<Rightarrow> user \<Rightarrow> json" where
  "userBody E u = JObj [(''id'', JInt (u_id u)), (''username'', JStr (u_username u)), (''created_at'', rfc E (u_created_at u))]"

definition userError :: "request \<Rightarrow> db_error \<Rightarrow> response" where
  "userError r e =
     (if e = ErrNotFound then NotFound r ''user not found''
      else if isUniqueViolation e then Conflict r ''username already exists''
      else Internal r)"

definition userOr404 :: "request \<Rightarrow> db \<Rightarrow> response + user" where
  "userOr404 r d =
     (case ParseInt (Get (rq_PathValue r) ''user_id'') of
        None \<Rightarrow> Inl (NotFound r ''user not found'')
      | Some uid \<Rightarrow>
          if uid \<le> 0 then Inl (NotFound r ''user not found'')
          else case GetUserByID uid d of Inl e \<Rightarrow> Inl (userError r e) | Inr u \<Rightarrow> Inr u)"

definition validUsername :: "string \<Rightarrow> bool" where
  "validUsername name \<longleftrightarrow> name \<noteq> [] \<and> RuneCountInString name \<le> 64"

definition validPassword :: "string \<Rightarrow> bool" where
  "validPassword pw \<longleftrightarrow> RuneCountInString pw \<ge> 6 \<and> length pw \<le> 72"

definition handleGetUser :: "env \<Rightarrow> handler" where
  "handleGetUser E r p =
     (case userOr404 r (p_db p) of Inl resp \<Rightarrow> (resp, p) | Inr u \<Rightarrow> (WriteJSON 200 (userBody E u), p))"

text \<open>The loop over the accounts: the items of the page and, when it is full, the last id in it.\<close>

fun users_page :: "env \<Rightarrow> int \<Rightarrow> int \<Rightarrow> user list \<Rightarrow> json list \<Rightarrow> int \<Rightarrow> json list \<times> int option" where
  "users_page E n after [] items lst = (items, None)"
| "users_page E n after (u # us) items lst =
     (if u_id u \<le> after then users_page E n after us items lst
      else if int (length items) = n then (items, Some lst)
      else users_page E n after us (items @ [userBody E u]) (u_id u))"

definition users_cursor :: "int \<Rightarrow> string" where
  "users_cursor i = encodeCursor [Itoa i]"

definition handleListUsers :: "env \<Rightarrow> handler" where
  "handleListUsers E r p =
     (case parsePositiveInt (Get (rq_Query r) ''page_size'') 100 100 of
        None \<Rightarrow> (Validation r ''page_size must be 1..100'' [], p)
      | Some n \<Rightarrow>
          let cursor = Get (rq_Query r) ''cursor'';
              after = (if cursor = [] then 0 else case decodeCursor cursor of Some [x] \<Rightarrow> ParseIntValue x | _ \<Rightarrow> 0)
          in if cursor \<noteq> [] \<and> after \<le> 0 then (Validation r ''cursor is invalid'' [], p)
             else case users_page E n after (ListUsers (p_db p)) [] 0 of (items, nxt) \<Rightarrow>
               (WriteJSON 200 (JObj ((case nxt of None \<Rightarrow> [] | Some i \<Rightarrow> [(''next_cursor'', JStr (users_cursor i))]) @
                  [(''items'', JArr items)])), p))"

definition handleCreateUser :: "env \<Rightarrow> credentials decoder \<Rightarrow> int \<Rightarrow> handler" where
  "handleCreateUser E dec now r p =
     (case DecodeJSON (ev_ParseMediaType E) dec r of Inl resp \<Rightarrow> (resp, p)
      | Inr b \<Rightarrow>
          let username = TrimSpace (cr_Username b) in
          if \<not> validUsername username
          then (Validation r ''username must be 1-64 characters'' [FieldErr ''#/username'' ''1-64 characters required''], p)
          else if \<not> validPassword (cr_Password b)
          then (Validation r ''password must be at least 6 characters and at most 72 UTF-8 bytes''
                  [FieldErr ''#/password'' ''6 or more characters, maximum 72 bytes''], p)
          else case ev_HashPassword E (cr_Password b) of None \<Rightarrow> (Internal r, p)
          | Some h \<Rightarrow>
              (case CreateUser (ev_alloc E) username h (Unix now) (p_db p) of
                 Inl e \<Rightarrow> (userError r e, p)
               | Inr (i, d) \<Rightarrow>
                   (case GetUserByID i d of
                      Inl e \<Rightarrow> (userError r e, p\<lparr>p_db := d\<rparr>)
                    | Inr u \<Rightarrow> (setHeader ''Location'' (''/users/'' @ Itoa i) (WriteJSON 201 (userBody E u)), p\<lparr>p_db := d\<rparr>))))"

definition handleDeleteUser :: handler where
  "handleDeleteUser r p =
     (case userOr404 r (p_db p) of Inl resp \<Rightarrow> (resp, p)
      | Inr u \<Rightarrow>
          if u_id u = 1 then (Validation r ''cannot delete the default admin account'' [], p)
          else case DeleteUser (u_id u) (p_db p) of
                 Inl e \<Rightarrow> (userError r e, p)
               | Inr d \<Rightarrow> (NoContent, p\<lparr>p_db := d\<rparr>))"

record user_patch =
  up_Username :: "string option"
  up_Password :: "string option"

definition handleUpdateUser :: "env \<Rightarrow> user_patch decoder \<Rightarrow> handler" where
  "handleUpdateUser E dec r p =
     (case userOr404 r (p_db p) of Inl resp \<Rightarrow> (resp, p)
      | Inr u \<Rightarrow>
     (case DecodeJSON (ev_ParseMediaType E) dec r of Inl resp \<Rightarrow> (resp, p)
      | Inr b \<Rightarrow>
          let username = map_option TrimSpace (up_Username b) in
          if (case username of None \<Rightarrow> False | Some n \<Rightarrow> \<not> validUsername n)
          then (Validation r ''username must be 1-64 characters'' [FieldErr ''#/username'' ''1-64 characters required''], p)
          else if (case up_Password b of None \<Rightarrow> False | Some pw \<Rightarrow> \<not> validPassword pw)
          then (Validation r ''password must be at least 6 characters and at most 72 UTF-8 bytes''
                  [FieldErr ''#/password'' ''6 or more characters, maximum 72 bytes''], p)
          else if (case up_Password b of None \<Rightarrow> False | Some pw \<Rightarrow> ev_HashPassword E pw = None) then (Internal r, p)
          else let h = (case up_Password b of None \<Rightarrow> None | Some pw \<Rightarrow> ev_HashPassword E pw) in
               case UpdateUser (u_id u) username h (p_db p) of
                 Inl e \<Rightarrow> (userError r e, p)
               | Inr d \<Rightarrow> (WriteJSON 200 (userBody E (u\<lparr>u_username := (case username of None \<Rightarrow> u_username u | Some n \<Rightarrow> n)\<rparr>)),
                           p\<lparr>p_db := d\<rparr>)))"

subsection \<open>Lemmas\<close>

lemma throttle_db [simp]: "throttle E now kind dt r p = (x, p1) \<Longrightarrow> p_db p1 = p_db p"
  by (auto simp: throttle_def Let_def split: prod.splits if_splits)

lemma throttle_body: "throttle E now kind dt (r\<lparr>rq_Body := b\<rparr>) p = throttle E now kind dt r p"
  by (simp add: throttle_def WriteProblem_def Let_def split_beta)

lemma Issue_steps:
  "Issue sign db_refresh_store m i n role now rnd d = Inr (pr, d') \<Longrightarrow> store_steps d0 d \<Longrightarrow> store_steps d0 d'"
  by (auto simp: Issue_def db_refresh_store_def split: sum.splits prod.splits intro: then_steps)

lemma Rotate_steps:
  "Rotate sign parse db_refresh_store m tok now rnd d = Inr (pr, d') \<Longrightarrow> store_steps d0 d \<Longrightarrow> store_steps d0 d'"
  by (auto simp: Rotate_def db_refresh_store_def split: sum.splits prod.splits if_splits intro: then_steps)

lemma userOr404_Inr: "userOr404 r d = Inr u \<Longrightarrow> u \<in> set (users d) \<and> 0 < u_id u"
  by (auto simp: userOr404_def GetUserByID_def split: option.splits if_splits sum.splits dest: row_with_Some)

text \<open>The loop collects the accounts after the cursor up to the page size.\<close>

lemma users_page_spec:
  "length items \<le> n \<Longrightarrow>
   users_page E (int n) after us items lst =
     (let rest = filter (\<lambda>u. after < u_id u) us; k = n - length items in
      (items @ map (userBody E) (take k rest),
       if k < length rest then Some (if k = 0 then lst else u_id (last (take k rest))) else None))"
proof (induction us arbitrary: items lst)
  case (Cons u us)
  show ?case
  proof (cases "u_id u \<le> after")
    case True
    then have "\<not> after < u_id u" by simp
    with True Cons.IH [OF Cons.prems, of lst] show ?thesis by (simp del: not_less)
  next
    case False
    show ?thesis
    proof (cases "length items = n")
      case True
      with False show ?thesis by simp
    next
      case neq: False
      then obtain k where k: "n - length items = Suc k" using Cons.prems by (cases "n - length items") auto
      then have k': "n - Suc (length items) = k" by simp
      from Cons.IH [of "items @ [userBody E u]" "u_id u"] neq Cons.prems k k' False show ?thesis
        by (cases k) (auto simp: Let_def)
    qed
  qed
qed simp

definition users_listing_inv :: "env \<times> request \<times> panel \<Rightarrow> bool" where
  "users_listing_inv = (\<lambda>(E, r, p). db_ok (p_db p) \<and> (\<forall>u \<in> set (users (p_db p)). 0 < u_id u \<and> in_i64 (u_id u)) \<and>
     parsePositiveInt (Get (rq_Query r) ''page_size'') 100 100 \<noteq> None)"

definition get_users :: "env \<times> request \<times> panel \<Rightarrow> string \<Rightarrow> json_map" where
  "get_users = (\<lambda>(E, r, p) c. body_fields (fst (handleListUsers E (r\<lparr>rq_Query := (''cursor'', c) # rq_Query r\<rparr>) p)))"

definition users_page_size :: "env \<times> request \<times> panel \<Rightarrow> nat" where
  "users_page_size = (\<lambda>(E, r, p). nat (the (parsePositiveInt (Get (rq_Query r) ''page_size'') 100 100)))"

lemma Itoa_no_sep: "CHR 0x1F \<notin> set (Itoa i)"
  by (auto dest!: Itoa_chars simp: is_digit_def)

lemma users_cursor_roundtrip: "decodeCursor (users_cursor i) = Some [Itoa i]" "users_cursor i \<noteq> []"
  using cursor_roundtrip [of "[Itoa i]"] Itoa_no_sep by (simp_all add: users_cursor_def)

lemma Get_Cons: "Get ((k, v) # m) x = (if x = k then v else Get m x)"
  by (simp add: Get_def)

lemma get_users_page:
  assumes "users_listing_inv (E, r, p)"
    and "c = [] \<and> after = 0 \<or> c = users_cursor after \<and> 0 < after \<and> in_i64 after"
  shows "is_page (users_page_size (E, r, p)) (userBody E) (users_cursor \<circ> u_id)
           (filter (\<lambda>u. after < u_id u) (ListUsers (p_db p))) (get_users (E, r, p) c)"
proof -
  from assms(1) obtain m where m: "parsePositiveInt (Get (rq_Query r) ''page_size'') 100 100 = Some m"
    by (auto simp: users_listing_inv_def)
  then have pos: "1 \<le> m" using parsePositiveInt_range by force
  define n where "n = nat m"
  have n: "m = int n" "0 < n" "users_page_size (E, r, p) = n" using pos m by (simp_all add: n_def users_page_size_def)
  let ?rest = "filter (\<lambda>u. after < u_id u) (ListUsers (p_db p))"
  have "get_users (E, r, p) c = (case users_page E (int n) after (ListUsers (p_db p)) [] 0 of (items, nxt) \<Rightarrow>
      (case nxt of None \<Rightarrow> [] | Some i \<Rightarrow> [(''next_cursor'', JStr (users_cursor i))]) @ [(''items'', JArr items)])"
    using assms(2) m n
    by (auto simp: get_users_def handleListUsers_def Get_Cons users_cursor_roundtrip ParseIntValue_Itoa body_fields_def
        split: prod.splits)
  then show ?thesis
    using n(2,3) users_page_spec [of "[]" n E after "ListUsers (p_db p)" 0]
    by (simp add: is_page_def Let_def split: if_splits)
qed

interpretation users_order: keyset_order "(<) :: int \<Rightarrow> int \<Rightarrow> bool" u_id
  by unfold_locales auto

interpretation users_listing: paged_listing users_listing_inv get_users "\<lambda>(E, r, p). ListUsers (p_db p)" users_page_size
  "\<lambda>(E, r, p). userBody E" "users_cursor \<circ> u_id"
proof (unfold_locales, goal_cases)
  case (1 q)
  then obtain E r p m where "q = (E, r, p)" "parsePositiveInt (Get (rq_Query r) ''page_size'') 100 100 = Some m"
    by (cases q) (auto simp: users_listing_inv_def)
  then show ?case using parsePositiveInt_range [of _ 100 100 m] by (force simp: users_page_size_def)
next
  case (2 q)
  obtain E r p where q: "q = (E, r, p)" by (cases q)
  have "filter (\<lambda>u. 0 < u_id u) (ListUsers (p_db p)) = ListUsers (p_db p)"
    using 2 q by (simp add: users_listing_inv_def ListUsers_def filter_id_conv)
  with get_users_page [of E r p "[]" 0] 2 q show ?case by simp
next
  case (3 q xs ys)
  obtain E r p where q: "q = (E, r, p)" by (cases q)
  from 3 q have l: "ListUsers (p_db p) = xs @ ys" by simp
  have ok: "distinct (map u_id (users (p_db p)))" using 3(1) q by (simp add: users_listing_inv_def db_ok_simps)
  have "sorted_wrt (\<lambda>a b. u_id a < u_id b) (xs @ ys)"
    using strictly_sorted [OF ok] l by (simp add: ListUsers_def)
  from users_order.rest_after [OF this 3(3)] have "filter (\<lambda>u. u_id (last xs) < u_id u) (ListUsers (p_db p)) = ys"
    by (simp add: l)
  moreover have "last xs \<in> set (users (p_db p))"
    using l 3(3) by (metis ListUsers_def last_in_set set_append set_sort Un_iff)
  ultimately show ?case
    using get_users_page [of E r p "users_cursor (u_id (last xs))" "u_id (last xs)"] 3(1) q by (simp add: users_listing_inv_def)
qed

subsection \<open>The account routes as one service\<close>

datatype account_call =
    Login "credentials decoder" "string option" int
  | Refresh "string decoder" "string option" int
  | Logout int
  | Me int
  | GetAccount
  | ListAccounts
  | CreateAccount "credentials decoder" int
  | DeleteAccount
  | UpdateAccount "user_patch decoder"

fun account_api :: "env \<Rightarrow> account_call \<Rightarrow> handler" where
  "account_api E (Login dec rnd now) = handleCreateSession E dec rnd now"
| "account_api E (Refresh dec rnd now) = handleRefreshSession E dec rnd now"
| "account_api E (Logout now) = handleDeleteSession E now"
| "account_api E (Me now) = handleGetMe E now"
| "account_api E GetAccount = handleGetUser E"
| "account_api E ListAccounts = handleListUsers E"
| "account_api E (CreateAccount dec now) = handleCreateUser E dec now"
| "account_api E DeleteAccount = handleDeleteUser"
| "account_api E (UpdateAccount dec) = handleUpdateUser E dec"

text \<open>Every account route changes the database by at most one store operation.\<close>

inductive account_effect :: "db \<Rightarrow> db \<Rightarrow> bool" where
  ae_none: "account_effect d d"
| ae_issue: "Issue sign db_refresh_store m i n role now rnd d = Inr (pr, d') \<Longrightarrow> account_effect d d'"
| ae_rotate: "Rotate sign parse db_refresh_store m tok now rnd d = Inr (pr, d') \<Longrightarrow> account_effect d d'"
| ae_logout: "account_effect d (RevokeAllRefreshTokens u d)"
| ae_create: "CreateUser alloc n h now d = Inr (i, d') \<Longrightarrow> validUsername n \<Longrightarrow> account_effect d d'"
| ae_update: "UpdateUser i n h d = Inr d' \<Longrightarrow> (\<And>x. n = Some x \<Longrightarrow> validUsername x) \<Longrightarrow> account_effect d d'"
| ae_delete: "DeleteUser i d = Inr d' \<Longrightarrow> i \<noteq> 1 \<Longrightarrow> account_effect d d'"

lemma account_api_effect: "account_effect (p_db p) (p_db (snd (account_api E q r p)))"
proof (cases q)
  case (Login dec rnd now)
  obtain x p1 where t: "throttle E now ''login:'' ''too many login attempts, retry later'' r p = (x, p1)" by force
  then have "p_db p1 = p_db p" by simp
  with t Login show ?thesis
    by (auto simp: handleCreateSession_def Let_def split: sum.splits option.splits prod.splits intro: account_effect.intros)
next
  case (Refresh dec rnd now)
  obtain x p1 where t: "throttle E now ''refresh:'' ''too many refresh attempts, retry later'' r p = (x, p1)" by force
  then have "p_db p1 = p_db p" by simp
  with t Refresh show ?thesis
    by (auto simp: handleRefreshSession_def split: sum.splits option.splits prod.splits intro: account_effect.intros)
next
  case (UpdateAccount dec)
  then show ?thesis
    by (auto simp: handleUpdateUser_def Let_def split: sum.splits option.splits intro: ae_none ae_update)
next
  case (CreateAccount dec now)
  then show ?thesis
    by (auto simp: handleCreateUser_def Let_def split: sum.splits option.splits intro: ae_none ae_create)
next
  case DeleteAccount
  then show ?thesis by (auto simp: handleDeleteUser_def split: sum.splits intro: ae_none ae_delete)
next
  case (Logout now)
  then show ?thesis by (auto simp: handleDeleteSession_def split: sum.splits option.splits intro: ae_none ae_logout)
next
  case ListAccounts
  have "snd (handleListUsers E r p) = p"
    by (simp add: handleListUsers_def Let_def split: option.splits prod.splits)
  with ListAccounts show ?thesis by (simp add: ae_none)
qed (auto simp: handleGetMe_def handleGetUser_def Let_def split: sum.splits intro: ae_none)

lemma account_effect_steps: "account_effect d d' \<Longrightarrow> store_steps d d'"
proof (induction rule: account_effect.induct)
  case (ae_create alloc n h now d i d')
  then show ?case by (auto simp: CreateUser_def intro: st_create_user [THEN then_step])
qed (auto intro: Issue_steps Rotate_steps st_revoke_all [THEN then_step] st_update_user [THEN then_step]
    st_delete_user [THEN then_step])

interpretation account_api: store_client "account_api E" for E
  by unfold_locales (rule account_effect_steps [OF account_api_effect])

text \<open>The accounts a panel keeps: the first one is always there, every name is valid.\<close>

definition accounts_valid :: "db \<Rightarrow> bool" where
  "accounts_valid d \<longleftrightarrow> user_exists 1 d \<and> (\<forall>u \<in> set (users d). validUsername (u_username u))"

lemma session_ops_users:
  "Issue sign db_refresh_store m i n role now rnd d = Inr (pr, d') \<Longrightarrow> users d' = users d"
  "Rotate sign parse db_refresh_store m tok now rnd d = Inr (pr, d') \<Longrightarrow> users d' = users d"
  by (auto simp: Issue_def Rotate_def db_refresh_store_def InsertRefreshToken_def ReplaceRefreshToken_def Let_def
      split: sum.splits prod.splits if_splits)

lemma account_effect_valid: "account_effect d d' \<Longrightarrow> accounts_valid d \<Longrightarrow> accounts_valid d'"
proof (induction rule: account_effect.induct)
  case (ae_update i n h d d')
  define f where "f u = u\<lparr>u_username := coalesce n (u_username u), u_password_hash := coalesce h (u_password_hash u)\<rparr>" for u :: user
  have us: "users d' = update_where (\<lambda>u. u_id u = i) f (users d)"
    using ae_update(1) by (auto simp: UpdateUser_def Let_def f_def [abs_def] split: if_splits)
  then have "map u_id (users d') = map u_id (users d)" by (simp add: map_key_update_where f_def)
  then have "u_id ` set (users d') = u_id ` set (users d)" by (metis list.set_map)
  moreover have "validUsername (u_username (f u))" if "validUsername (u_username u)" for u
    using that ae_update(2) by (cases n) (auto simp: f_def coalesce_def)
  ultimately show ?case using ae_update(3) by (auto simp: accounts_valid_def user_exists_iff us set_update_where)
next
  case (ae_delete i d d')
  then show ?case by (force simp: accounts_valid_def user_exists_iff DeleteUser_def set_delete_where split: sum.splits)
next
  case (ae_create alloc n h now d i d')
  then show ?case
    by (auto simp: accounts_valid_def user_exists_iff CreateUser_def createUser_def Let_def split: if_splits)
qed (auto simp: accounts_valid_def user_exists_def RevokeAllRefreshTokens_def session_ops_users)

subsection \<open>Properties\<close>

text \<open>C1: a refused login does not reveal whether the account exists: a request for an unknown
  account and one with a wrong password get the same response, the same new state, and cost
  one bcrypt comparison each; neither touches the database.\<close>

theorem login_hides_accounts:
  assumes "DecodeJSON (ev_ParseMediaType E) dec r = Inr c1" and "DecodeJSON (ev_ParseMediaType E) dec (r\<lparr>rq_Body := b\<rparr>) = Inr c2"
    and "cr_Username c1 \<noteq> []" and "cr_Password c1 \<noteq> []" and "cr_Username c2 \<noteq> []" and "cr_Password c2 \<noteq> []"
    and "GetUserByUsername (cr_Username c1) (p_db p) = Inl ErrNotFound"
    and "GetUserByUsername (cr_Username c2) (p_db p) = Inr u" and "\<not> ev_ComparePassword E (u_password_hash u) (cr_Password c2)"
  shows "handleCreateSession E dec rnd now r p = handleCreateSession E dec rnd now (r\<lparr>rq_Body := b\<rparr>) p \<and>
    length (snd (check_password E None (cr_Password c1))) = length (snd (check_password E (Some u) (cr_Password c2))) \<and>
    p_db (snd (handleCreateSession E dec rnd now r p)) = p_db p"
proof -
  obtain x p1 where t: "throttle E now ''login:'' ''too many login attempts, retry later'' r p = (x, p1)" by force
  then have "p_db p1 = p_db p" by simp
  moreover have "Unauthorized (r\<lparr>rq_Body := b\<rparr>) dt = Unauthorized r dt" for dt
    by (simp add: Unauthorized_def WriteProblem_def)
  ultimately show ?thesis
    using assms t throttle_body [of E now "''login:''" "''too many login attempts, retry later''" b r p]
    by (auto simp: handleCreateSession_def check_password_def split: option.splits)
qed

theorem login_hides_accounts_witness:
  "handleCreateSession demo_server (\<lambda>_ s. Decoded \<lparr>cr_Username = s, cr_Password = ''pw''\<rparr> True) None 5 (demo_request\<lparr>rq_Body := ''nobody''\<rparr>) demo_panel =
   handleCreateSession demo_server (\<lambda>_ s. Decoded \<lparr>cr_Username = s, cr_Password = ''pw''\<rparr> True) None 5 (demo_request\<lparr>rq_Body := ''ann''\<rparr>) demo_panel"
  using login_hides_accounts [of demo_server "\<lambda>_ s. Decoded \<lparr>cr_Username = s, cr_Password = ''pw''\<rparr> True" "demo_request\<lparr>rq_Body := ''nobody''\<rparr>"
      "\<lparr>cr_Username = ''nobody'', cr_Password = ''pw''\<rparr>" "''ann''" "\<lparr>cr_Username = ''ann'', cr_Password = ''pw''\<rparr>" demo_panel demo_user None 5]
  by (simp add: DecodeJSON_def demo_request_def Get_def GetUserByUsername_def demo_db_def demo_user_def row_with_def)

text \<open>C2: logging out is final and global: after DELETE /session succeeded, a request with any
  access token of that account's sessions is refused by every guarded route, without effect,
  however the store's sessions develop as long as the session id is not registered again.\<close>

theorem logout_ends_sessions:
  assumes "db_ok (p_db p)" and "handleDeleteSession E now r p = (NoContent, p1)"
    and "bearerToken r = Some tok0" and "verify (ev_parse E) (ev_auth E) tok0 ClaimTypeAccess now = Inr c0"
    and "t \<in> set (refresh_tokens (p_db p))" and "rt_user_id t = UserID c0"
    and "session_run (p_db p1) js (p_db p2)" and "rt_jti t \<notin> set js"
    and "bearerToken q = Some tok" and "verify (ev_parse E) (ev_auth E) tok ClaimTypeAccess now' = Inr c" and "cl_id c = rt_jti t"
  shows "requireAuth E now' nxt q p2 = (Unauthorized q ''invalid or expired token'', p2)"
proof -
  have p1: "p_db p1 = RevokeAllRefreshTokens (UserID c0) (p_db p)"
    using assms(2-4)
    by (auto simp: handleDeleteSession_def VerifyAccess_def Unauthorized_def NoContent_def setHeader_def WriteProblem_def
        split: sum.splits prod.splits if_splits)
  have "t' = t" if "t' \<in> set (refresh_tokens (p_db p))" "rt_jti t' = rt_jti t" for t'
    using that assms(1,5) by (auto simp: db_ok_simps distinct_map dest: inj_onD)
  then have dead: "session_dead (rt_jti t) (p_db p1)"
    using assms(6) unfolding p1 by (auto simp: session_dead_def RevokeAllRefreshTokens_def set_update_where)
  have "db_ok (p_db p1)" using assms(1) p1 RevokeAllRefreshTokens_ok by simp
  from dead_session_refused(1) [OF session_run_ok [OF assms(7) this] session_run_dead [OF assms(7) dead assms(8)] assms(10,11)]
  show ?thesis using assms(9) by (simp add: requireAuth_def)
qed

theorem logout_ends_sessions_witness:
  "requireAuth demo_server 1000000000000 handleHealth demo_request (snd (handleDeleteSession demo_server 1000000000000 demo_request demo_panel)) =
     (Unauthorized demo_request ''invalid or expired token'', snd (handleDeleteSession demo_server 1000000000000 demo_request demo_panel))"
proof -
  let ?p1 = "demo_panel\<lparr>p_db := RevokeAllRefreshTokens 1 demo_db\<rparr>"
  have out: "handleDeleteSession demo_server 1000000000000 demo_request demo_panel = (NoContent, ?p1)"
    using demo_session by (simp add: handleDeleteSession_def demo_bearer demo_UserID)
  then show ?thesis
    using logout_ends_sessions [of demo_panel demo_server 1000000000000 demo_request ?p1 "''A''" "demo_claims ClaimTypeAccess 1060"
        demo_token "[]" ?p1 demo_request "''A''" 1000000000000 "demo_claims ClaimTypeAccess 1060" handleHealth]
      demo_db_ok(1) demo_bearer demo_verify(1) demo_UserID demo_id(1) run_refl [of "p_db ?p1"]
    by (simp add: demo_db_def demo_token_def)
qed

text \<open>A client that follows the cursors of GET /users, whatever page size it asked for, gets
  every account exactly once, in the order of the ids.\<close>

theorem user_listing_complete:
  assumes "db_ok (p_db p)" and "\<forall>u \<in> set (users (p_db p)). 0 < u_id u \<and> in_i64 (u_id u)"
    and "parsePositiveInt (Get (rq_Query r) ''page_size'') 100 100 \<noteq> None"
    and "length (users (p_db p)) < fuel"
  shows "follow_pages (get_users (E, r, p)) fuel [] = map (userBody E) (sort_key u_id (users (p_db p)))"
  using users_listing.follow_all [of "(E, r, p)" fuel] assms by (simp add: users_listing_inv_def ListUsers_def)

theorem user_listing_complete_witness:
  "follow_pages (get_users (demo_server, demo_request, demo_panel)) 2 [] = [userBody demo_server demo_user]"
  using user_listing_complete [of demo_panel demo_request 2 demo_server] demo_db_ok(1)
  by (simp add: demo_db_def demo_user_def in_i64_def parsePositiveInt_def Get_def)

text \<open>C3: whatever requests the session and account routes serve, in whatever order, the tables
  stay consistent, the first account is never deleted, and every account has a valid name.\<close>

theorem accounts_stay_valid:
  assumes "db_ok (p_db p)" and "accounts_valid (p_db p)"
  shows "db_ok (p_db (snd (serve (account_api E) rs p))) \<and> accounts_valid (p_db (snd (serve (account_api E) rs p)))"
proof
  show "db_ok (p_db (snd (serve (account_api E) rs p)))" using assms(1) by (rule account_api.serve_ok)
  show "accounts_valid (p_db (snd (serve (account_api E) rs p)))"
    by (rule serve_invariant [OF account_effect_valid [OF account_api_effect] assms(2)])
qed

theorem accounts_stay_valid_witness:
  "accounts_valid (p_db (snd (serve (account_api demo_server)
     [(DeleteAccount, demo_request\<lparr>rq_PathValue := [(''user_id'', ''1'')]\<rparr>), (Logout 1000000000000, demo_request)] demo_panel)))"
proof -
  have "RuneCountInString ''ann'' = 3" by (simp add: byte_in_def)
  then have "accounts_valid demo_db"
    by (simp add: accounts_valid_def demo_db_def demo_user_def user_exists_def validUsername_def)
  with accounts_stay_valid [of demo_panel demo_server] demo_db_ok(1) show ?thesis by (simp del: serve.simps)
qed

end
