(* ===== verification/Api_Settings.thy ===== *)
theory Api_Settings
  imports Api_Http
begin

text \<open>
  The settings over HTTP: \<^verbatim>\<open>api/settings.go\<close>, and the branding images of \<^verbatim>\<open>api/images.go\<close>. A patch
  needs the entity tag of the revision it was made from; its fields are checked before any is
  applied. The lemmas show that accepted values stay in their bounds for ever and that two
  patches made from one revision cannot both succeed. Image decoding is a parameter.
\<close>

subsection \<open>Settings\<close>

definition settingsETag :: "int \<Rightarrow> string" where
  "settingsETag revision = ''\"settings-r'' @ Itoa revision @ ''\"''"

definition settingsBody :: "env \<Rightarrow> settings \<Rightarrow> json" where
  "settingsBody E st = JObj
     ([(''sampler_interval_seconds'', JInt (st_sampler_interval_seconds st)), (''retention_days'', JInt (st_retention_days st)),
       (''ip_lookup_enabled'', JBool (st_ip_lookup_enabled st)), (''ip_lookup_provider_url'', JStr (st_ip_lookup_provider_url st)),
       (''singbox_bin_path'', JStr (st_singbox_bin_path st)), (''brand_name'', JStr (st_brand_name st)),
       (''reset_cooldown_minutes'', JInt (st_reset_cooldown_minutes st)), (''updated_at'', rfc E (st_updated_at st))] @
      (if st_favicon st \<noteq> [] then [(''favicon_url'', JStr ''/settings/favicon'')] else []) @
      (if st_logo st \<noteq> [] then [(''logo_url'', JStr ''/settings/logo'')] else []))"

definition handleGetSettings :: "env \<Rightarrow> int \<Rightarrow> handler" where
  "handleGetSettings E now r p =
     (case currentSettings E now (p_db p) of (st, d) \<Rightarrow>
        (setHeader ''ETag'' (settingsETag (st_revision st)) (WriteJSON 200 (settingsBody E st)), p\<lparr>p_db := d\<rparr>))"

text \<open>
  A JSON number is a float: its conversion to \<^verbatim>\<open>int\<close> and its text. A number with a fraction
  shows a point in its text; a number whose text has an exponent converts to a value outside
  the bounds, so the point decides \<^verbatim>\<open>math.Trunc(n) != n\<close> for the numbers inside.
\<close>

definition bad_whole :: "int \<Rightarrow> int \<Rightarrow> json \<Rightarrow> bool" where
  "bad_whole lo hi v = (case v of JFloat n t \<Rightarrow> n < lo \<or> n > hi \<or> CHR ''.'' \<in> set t | _ \<Rightarrow> True)"

definition bad_url :: "json \<Rightarrow> bool" where
  "bad_url v = (case v of JStr s \<Rightarrow> \<not> (length s > 8 \<and> (take 7 s = ''http://'' \<or> take 8 s = ''https://'')) | _ \<Rightarrow> True)"

definition check_field :: "json_map \<Rightarrow> string \<Rightarrow> (json \<Rightarrow> bool) \<Rightarrow> string \<Rightarrow> validation_error list" where
  "check_field patch k bad detail =
     (case map_of patch k of None \<Rightarrow> [] | Some v \<Rightarrow> if bad v then [FieldErr (''#/'' @ k) detail] else [])"

definition validateSettingsPatch :: "json_map \<Rightarrow> validation_error list" where
  "validateSettingsPatch patch =
     check_field patch ''sampler_interval_seconds'' (bad_whole 2 60) ''must be an integer 2..60'' @
     check_field patch ''retention_days'' (bad_whole 1 365) ''must be an integer 1..365'' @
     check_field patch ''ip_lookup_enabled'' (\<lambda>v. case v of JBool _ \<Rightarrow> False | _ \<Rightarrow> True) ''must be a boolean'' @
     check_field patch ''ip_lookup_provider_url'' bad_url ''must be an http(s) URL'' @
     check_field patch ''singbox_bin_path'' (\<lambda>v. case v of JNull \<Rightarrow> False | JStr _ \<Rightarrow> False | _ \<Rightarrow> True) ''must be a string or null''"

text \<open>The assignments after validation; the last two fields are only checked here.\<close>

definition assign :: "json_map \<Rightarrow> string \<Rightarrow> (json \<Rightarrow> settings \<Rightarrow> settings) \<Rightarrow> settings \<Rightarrow> settings" where
  "assign patch k f st = (case map_of patch k of None \<Rightarrow> st | Some v \<Rightarrow> f v st)"

definition set_int :: "((int \<Rightarrow> int) \<Rightarrow> settings \<Rightarrow> settings) \<Rightarrow> json \<Rightarrow> settings \<Rightarrow> settings" where
  "set_int upd v st = (case v of JFloat n _ \<Rightarrow> upd (\<lambda>_. n) st | _ \<Rightarrow> st)"

definition set_bool :: "((bool \<Rightarrow> bool) \<Rightarrow> settings \<Rightarrow> settings) \<Rightarrow> json \<Rightarrow> settings \<Rightarrow> settings" where
  "set_bool upd v st = (case v of JBool b \<Rightarrow> upd (\<lambda>_. b) st | _ \<Rightarrow> st)"

definition set_text :: "((string \<Rightarrow> string) \<Rightarrow> settings \<Rightarrow> settings) \<Rightarrow> json \<Rightarrow> settings \<Rightarrow> settings" where
  "set_text upd v st = (case v of JStr s \<Rightarrow> upd (\<lambda>_. s) st | JNull \<Rightarrow> upd (\<lambda>_. []) st | _ \<Rightarrow> st)"

definition checked_fields :: "json_map \<Rightarrow> settings \<Rightarrow> settings" where
  "checked_fields patch st =
     assign patch ''singbox_bin_path'' (set_text st_singbox_bin_path_update)
       (assign patch ''ip_lookup_provider_url'' (set_text st_ip_lookup_provider_url_update)
         (assign patch ''ip_lookup_enabled'' (set_bool st_ip_lookup_enabled_update)
           (assign patch ''retention_days'' (set_int st_retention_days_update)
             (assign patch ''sampler_interval_seconds'' (set_int st_sampler_interval_seconds_update) st))))"

definition apply_settings_patch :: "json_map \<Rightarrow> settings \<Rightarrow> string + settings" where
  "apply_settings_patch patch st0 =
     (let st = checked_fields patch st0;
          st = assign patch ''brand_name'' (set_text st_brand_name_update) st
      in if (case map_of patch ''brand_name'' of None \<Rightarrow> False | Some JNull \<Rightarrow> False | Some (JStr _) \<Rightarrow> False | _ \<Rightarrow> True)
         then Inl ''field brand_name must be a string or null''
         else if (case map_of patch ''reset_cooldown_minutes'' of None \<Rightarrow> False | Some (JFloat _ _) \<Rightarrow> False | _ \<Rightarrow> True)
         then Inl ''field reset_cooldown_minutes must be a number''
         else Inr (assign patch ''reset_cooldown_minutes'' (set_int st_reset_cooldown_minutes_update) st))"

definition precondition :: "request \<Rightarrow> string \<Rightarrow> string \<Rightarrow> response option" where
  "precondition r etag detail =
     (let ifMatch = Get (rq_Header r) ''If-Match'' in
      if ifMatch = [] then Some (WriteProblem r 428 (prob ''precondition-required'') ''If-Match header is required'' [])
      else if ifMatch \<noteq> etag then Some (WriteProblem r 412 (prob ''precondition-failed'') detail [])
      else None)"

definition stale_detail :: string where
  "stale_detail = ''settings were modified concurrently; GET /settings and retry''"

definition handleUpdateSettings :: "env \<Rightarrow> json_map decoder \<Rightarrow> int \<Rightarrow> handler" where
  "handleUpdateSettings E dec now r p =
     (case currentSettings E now (p_db p) of (st, d) \<Rightarrow>
      let p1 = p\<lparr>p_db := d\<rparr> in
      case precondition r (settingsETag (st_revision st)) stale_detail of Some resp \<Rightarrow> (resp, p1)
      | None \<Rightarrow>
     (case DecodeJSON (ev_ParseMediaType E) dec r of Inl resp \<Rightarrow> (resp, p1)
      | Inr patch \<Rightarrow>
          if validateSettingsPatch patch \<noteq> []
          then (Validation r ''settings failed validation'' (validateSettingsPatch patch), p1)
          else case apply_settings_patch patch st of Inl e \<Rightarrow> (Validation r e [], p1)
          | Inr st' \<Rightarrow>
              (case UpdateSettings (Unix now) st' d of
                 Inl e \<Rightarrow> (if e = ErrSettingsConflict then WriteProblem r 412 (prob ''precondition-failed'') stale_detail [] else Internal r, p1)
               | Inr (st'', d') \<Rightarrow>
                   (setHeader ''ETag'' (settingsETag (st_revision st'')) (WriteJSON 200 (settingsBody E st'')),
                    reload_hub E now (p\<lparr>p_db := d'\<rparr>)))))"

definition handleGetBrand :: "env \<Rightarrow> int \<Rightarrow> handler" where
  "handleGetBrand E now r p =
     (case currentSettings E now (p_db p) of (st, d) \<Rightarrow>
        (WriteJSON 200 (JObj ([(''brand_name'', JStr (st_brand_name st))] @
           (if st_favicon st \<noteq> [] then [(''favicon_url'', JStr ''/settings/favicon'')] else []) @
           (if st_logo st \<noteq> [] then [(''logo_url'', JStr ''/settings/logo'')] else []))), p\<lparr>p_db := d\<rparr>))"

subsection \<open>Branding images\<close>

text \<open>
  \<open>read_limited n\<close> is what reading at most \<open>n\<close> bytes of the body gives and whether the read
  failed; \<open>DecodeConfig\<close> gives width, height and format, \<open>image_Decode\<close> decodes the whole image.
\<close>

definition maxBrandingBytes :: nat where "maxBrandingBytes = 2097152"

definition maxBrandingDimension :: int where "maxBrandingDimension = 4096"

record image_lib =
  im_read :: "nat \<Rightarrow> string \<Rightarrow> string \<times> bool"
  im_DecodeConfig :: "string \<Rightarrow> (int \<times> int \<times> string) option"
  im_Decode :: "string \<Rightarrow> bool"

definition uploadBranding ::
  "env \<Rightarrow> image_lib \<Rightarrow> int \<Rightarrow> (int \<Rightarrow> string \<Rightarrow> db \<Rightarrow> db) \<Rightarrow> handler" where
  "uploadBranding E im now save r p =
     (let bad_media = (WriteProblem r 415 ''about:blank'' ''expected PNG, JPEG or GIF image'' [], p) in
      case ev_ParseMediaType E (Get (rq_Header r) ''Content-Type'') of None \<Rightarrow> bad_media
      | Some mediaType \<Rightarrow>
          if mediaType \<notin> {''application/octet-stream'', ''image/png'', ''image/jpeg'', ''image/gif''} then bad_media
          else case im_read im (maxBrandingBytes + 1) (rq_Body r) of (data, failed) \<Rightarrow>
            if length data > maxBrandingBytes then (WriteProblem r 413 ''about:blank'' ''image exceeds 2 MiB'' [], p)
            else if failed \<or> data = [] then (WriteProblem r 400 ''about:blank'' ''empty or unreadable body'' [], p)
            else case im_DecodeConfig im data of
              None \<Rightarrow> (Validation r ''expected a valid image no larger than 4096x4096 pixels'' [], p)
            | Some (w, h, format) \<Rightarrow>
                if w < 1 \<or> h < 1 \<or> w > maxBrandingDimension \<or> h > maxBrandingDimension
                then (Validation r ''expected a valid image no larger than 4096x4096 pixels'' [], p)
                else if mediaType \<noteq> ''application/octet-stream'' \<and> mediaType \<noteq> ''image/'' @ format
                then (WriteProblem r 415 ''about:blank'' ''Content-Type does not match the image'' [], p)
                else if \<not> im_Decode im data then (Validation r ''image data is incomplete or invalid'' [], p)
                else case currentSettings E now (p_db p) of (st, d) \<Rightarrow>
                  (WriteJSON 200 (JObj [(''status'', JStr ''ok'')]), p\<lparr>p_db := save (Unix now) data d\<rparr>))"

definition handleUploadFavicon :: "env \<Rightarrow> image_lib \<Rightarrow> int \<Rightarrow> handler" where
  "handleUploadFavicon E im now = uploadBranding E im now UpdateSettingsFavicon"

definition handleUploadLogo :: "env \<Rightarrow> image_lib \<Rightarrow> int \<Rightarrow> handler" where
  "handleUploadLogo E im now = uploadBranding E im now UpdateSettingsLogo"

text \<open>\<open>serveContent\<close> is \<^verbatim>\<open>http.ServeContent\<close> with the headers set so far, \<open>digest\<close> the hex text of SHA-256.\<close>

definition serveBranding ::
  "env \<Rightarrow> image_lib \<Rightarrow> (string \<Rightarrow> string) \<Rightarrow> (request \<Rightarrow> http_values \<Rightarrow> string \<Rightarrow> response) \<Rightarrow> int \<Rightarrow> bool \<Rightarrow> handler" where
  "serveBranding E im digest serveContent now favicon r p =
     (case currentSettings E now (p_db p) of (st, d) \<Rightarrow>
        let data = (if favicon then st_favicon st else st_logo st) in
        (case im_DecodeConfig im data of
           None \<Rightarrow> NotFound r ''image has not been configured; upload a valid image''
         | Some (_, _, format) \<Rightarrow>
             serveContent r [(''Content-Type'', ''image/'' @ format), (''Cache-Control'', ''public, no-cache''),
               (''X-Content-Type-Options'', ''nosniff''), (''ETag'', ''\"'' @ digest data @ ''\"'')] data, p\<lparr>p_db := d\<rparr>))"

subsection \<open>The settings routes as one service\<close>

datatype settings_call =
    GetSettingsCall int
  | PatchSettingsCall "json_map decoder" int
  | BrandCall int
  | FaviconCall image_lib int
  | LogoCall image_lib int

fun settings_api :: "env \<Rightarrow> settings_call \<Rightarrow> handler" where
  "settings_api E (GetSettingsCall now) = handleGetSettings E now"
| "settings_api E (PatchSettingsCall dec now) = handleUpdateSettings E dec now"
| "settings_api E (BrandCall now) = handleGetBrand E now"
| "settings_api E (FaviconCall im now) = handleUploadFavicon E im now"
| "settings_api E (LogoCall im now) = handleUploadLogo E im now"

subsection \<open>Lemmas\<close>

lemma currentSettings_row: "currentSettings E now d = (st, d') \<Longrightarrow> settings_row d' = Some st"
  by (auto simp: currentSettings_def GetSettings_def Let_def split: option.splits)

lemma settingsETag_inj: "in_i64 a \<Longrightarrow> in_i64 b \<Longrightarrow> settingsETag a = settingsETag b \<Longrightarrow> a = b"
  by (auto simp: settingsETag_def intro: Itoa_inj)

lemma uploadBranding_cases:
  assumes "uploadBranding E im now save r p = (resp, p')"
  shows "p' = p \<or> (\<exists>data. p' = p\<lparr>p_db := save (Unix now) data (snd (currentSettings E now (p_db p)))\<rparr>)"
proof -
  define Q where "Q = (\<lambda>z :: response \<times> panel. snd z = p \<or> (\<exists>data. snd z = p\<lparr>p_db := save (Unix now) data (snd (currentSettings E now (p_db p)))\<rparr>))"
  have Q: "Q (x, p)" "Q (x, p\<lparr>p_db := save (Unix now) data (snd (currentSettings E now (p_db p)))\<rparr>)" for x data
    by (auto simp: Q_def)
  have If: "Q (if b then x else y)" if "Q x" "Q y" for b x y using that by simp
  have "Q (uploadBranding E im now save r p)"
    unfolding uploadBranding_def Let_def
    by (cases "ev_ParseMediaType E (Get (rq_Header r) ''Content-Type'')")
      (auto simp only: option.case prod.case split_beta intro!: If Q split: option.split)
  with assms show ?thesis by (simp add: Q_def)
qed

lemma handleUpdateSettings_cases:
  assumes "currentSettings E now (p_db p) = (st, d)"
  shows "(\<exists>resp. handleUpdateSettings E dec now r p = (resp, p\<lparr>p_db := d\<rparr>) \<and> rp_Status resp \<noteq> 200) \<or>
    (\<exists>patch st' st'' d'. Get (rq_Header r) ''If-Match'' = settingsETag (st_revision st) \<and>
      validateSettingsPatch patch = [] \<and> apply_settings_patch patch st = Inr st' \<and> UpdateSettings (Unix now) st' d = Inr (st'', d') \<and>
      handleUpdateSettings E dec now r p =
        (setHeader ''ETag'' (settingsETag (st_revision st'')) (WriteJSON 200 (settingsBody E st'')), reload_hub E now (p\<lparr>p_db := d'\<rparr>)))"
proof (cases "precondition r (settingsETag (st_revision st)) stale_detail")
  case (Some resp)
  then have "rp_Status resp \<noteq> 200" by (auto simp: precondition_def Let_def split: if_splits)
  with Some assms show ?thesis by (simp add: handleUpdateSettings_def Let_def)
next
  case None
  then have m: "Get (rq_Header r) ''If-Match'' = settingsETag (st_revision st)"
    by (auto simp: precondition_def Let_def split: if_splits)
  show ?thesis
  proof (cases "DecodeJSON (ev_ParseMediaType E) dec r")
    case (Inl resp)
    with None assms DecodeJSON_error [OF Inl] show ?thesis by (auto simp: handleUpdateSettings_def Let_def)
  next
    case (Inr patch)
    with None assms m show ?thesis
      by (auto simp: handleUpdateSettings_def Let_def split: sum.splits prod.splits)
  qed
qed

text \<open>Patched values are within their bounds, everything else but the two late fields is kept.\<close>

definition settings_bounded :: "settings \<Rightarrow> bool" where
  "settings_bounded st \<longleftrightarrow> 2 \<le> st_sampler_interval_seconds st \<and> st_sampler_interval_seconds st \<le> 60 \<and>
     1 \<le> st_retention_days st \<and> st_retention_days st \<le> 365"

lemma check_field_Nil: "check_field patch k bad dt = [] \<longleftrightarrow> (\<forall>v. map_of patch k = Some v \<longrightarrow> \<not> bad v)"
  by (auto simp: check_field_def split: option.splits)

lemma assign_keeps: "(\<And>v st. g (f v st) = g st) \<Longrightarrow> g (assign patch k f st) = g st"
  by (simp add: assign_def split: option.splits)

lemma set_keeps:
  "(\<And>h st. g (upd h st) = g st) \<Longrightarrow> g (set_int upd v st) = g st"
  "(\<And>h st. g (updb h st) = g st) \<Longrightarrow> g (set_bool updb v st) = g st"
  "(\<And>h st. g (updt h st) = g st) \<Longrightarrow> g (set_text updt v st) = g st"
  by (auto simp: set_int_def set_bool_def set_text_def split: json.splits)

lemma apply_patch_revision: "apply_settings_patch patch st = Inr st' \<Longrightarrow> st_revision st' = st_revision st"
  by (auto simp: apply_settings_patch_def checked_fields_def Let_def assign_keeps [where g = st_revision]
      set_keeps [where g = st_revision] split: if_splits)

lemma apply_patch_fields:
  assumes "apply_settings_patch patch st = Inr st'"
  shows "st_sampler_interval_seconds st' = st_sampler_interval_seconds (assign patch ''sampler_interval_seconds'' (set_int st_sampler_interval_seconds_update) st)"
    and "st_retention_days st' = st_retention_days (assign patch ''retention_days'' (set_int st_retention_days_update) st)"
proof -
  show "st_sampler_interval_seconds st' = st_sampler_interval_seconds (assign patch ''sampler_interval_seconds'' (set_int st_sampler_interval_seconds_update) st)"
    using assms by (auto simp: apply_settings_patch_def checked_fields_def Let_def assign_keeps [where g = st_sampler_interval_seconds]
        set_keeps [where g = st_sampler_interval_seconds] split: if_splits)
  have "st_retention_days st' = st_retention_days (assign patch ''retention_days'' (set_int st_retention_days_update)
      (assign patch ''sampler_interval_seconds'' (set_int st_sampler_interval_seconds_update) st))"
    using assms by (auto simp: apply_settings_patch_def checked_fields_def Let_def assign_keeps [where g = st_retention_days]
        set_keeps [where g = st_retention_days] split: if_splits)
  then show "st_retention_days st' = st_retention_days (assign patch ''retention_days'' (set_int st_retention_days_update) st)"
    by (simp add: assign_def set_int_def split: option.splits json.splits)
qed

lemma apply_patch_bounded:
  assumes "validateSettingsPatch patch = []" and "apply_settings_patch patch st = Inr st'" and "settings_bounded st"
  shows "settings_bounded st'"
proof -
  have v: "map_of patch ''sampler_interval_seconds'' = Some (JFloat n t) \<Longrightarrow> 2 \<le> n \<and> n \<le> 60"
    "map_of patch ''retention_days'' = Some (JFloat n t) \<Longrightarrow> 1 \<le> n \<and> n \<le> 365" for n t
    using assms(1) by (auto simp: validateSettingsPatch_def check_field_Nil bad_whole_def)
  with assms(3) show ?thesis
    unfolding settings_bounded_def apply_patch_fields [OF assms(2)]
    by (auto simp: assign_def set_int_def split: option.splits json.splits)
qed

lemma handleUpdateSettings_steps: "store_steps (p_db p) (p_db (snd (handleUpdateSettings E dec now r p)))"
proof -
  obtain st d where cs: "currentSettings E now (p_db p) = (st, d)" by force
  then have d: "store_steps (p_db p) d" using currentSettings_steps [of "p_db p" "p_db p" E now] by simp
  have "store_steps (p_db p) d'" if "UpdateSettings (Unix now) st' d = Inr (st'', d')" for st' st'' d'
    using then_step [OF st_settings [OF that] d] .
  with handleUpdateSettings_cases [OF cs, of dec r] d show ?thesis by (auto intro!: reload_hub_steps)
qed

lemma uploadBranding_steps:
  assumes "\<And>now x d d0. store_steps d0 d \<Longrightarrow> store_steps d0 (save now x d)"
  shows "store_steps (p_db p) (p_db (snd (uploadBranding E im now save r p)))"
proof -
  obtain resp p' where u: "uploadBranding E im now save r p = (resp, p')" by force
  from uploadBranding_cases [OF this] show ?thesis
    using assms currentSettings_steps [of "p_db p" "p_db p" E now] by (auto simp: u)
qed

interpretation settings_api: store_client "settings_api E" for E
proof (unfold_locales)
  fix p :: panel and q r
  have c: "store_steps (p_db p) d" if "currentSettings E now (p_db p) = (st, d)" for now st d
    using currentSettings_steps [of "p_db p" "p_db p" E now] that by simp
  show "store_steps (p_db p) (p_db (snd (settings_api E q r p)))"
    by (cases q) (auto simp: handleUpdateSettings_steps handleGetSettings_def handleGetBrand_def handleUploadFavicon_def
        handleUploadLogo_def split: prod.splits intro: c uploadBranding_steps st_logo [THEN then_step] st_favicon [THEN then_step])
qed

text \<open>The invariant of the settings row; before its first use the defaults stand in for it.\<close>

definition settings_inv :: "db \<Rightarrow> bool" where
  "settings_inv d \<longleftrightarrow> (\<forall>st. settings_row d = Some st \<longrightarrow> settings_bounded st)"

definition defaults_bounded :: "env \<Rightarrow> bool" where
  "defaults_bounded E \<longleftrightarrow> 2 \<le> sd_SamplerIntervalSeconds (ev_defaults E) \<and> sd_SamplerIntervalSeconds (ev_defaults E) \<le> 60 \<and>
     1 \<le> sd_RetentionDays (ev_defaults E) \<and> sd_RetentionDays (ev_defaults E) \<le> 365"

lemma currentSettings_bounded:
  "defaults_bounded E \<Longrightarrow> settings_inv d \<Longrightarrow> currentSettings E now d = (st, d') \<Longrightarrow> settings_bounded st \<and> settings_inv d'"
  by (auto simp: defaults_bounded_def settings_inv_def currentSettings_def GetSettings_def settings_bounded_def
      initial_settings_def Let_def split: option.splits)

lemma handleUpdateSettings_inv:
  assumes "defaults_bounded E" and "settings_inv (p_db p)"
  shows "settings_inv (p_db (snd (handleUpdateSettings E dec now r p)))"
proof -
  obtain st d where cs: "currentSettings E now (p_db p) = (st, d)" by force
  from currentSettings_bounded [OF assms cs] have b: "settings_bounded st" "settings_inv d" by simp_all
  have r: "settings_inv (p_db (reload_hub E now q))" if "settings_inv (p_db q)" "settings_row (p_db q) \<noteq> None" for q
    using that reload_hub_config [of q E now] by (auto simp: same_config_def settings_inv_def)
  have u: "settings_row d' \<noteq> None \<and> settings_inv d'"
    if "UpdateSettings (Unix now) st' d = Inr (st'', d')" "settings_bounded st'" for st' st'' d'
    using that by (auto simp: UpdateSettings_def settings_inv_def settings_bounded_def split: option.splits if_splits)
  from handleUpdateSettings_cases [OF cs, of dec r] b r u apply_patch_bounded show ?thesis by fastforce
qed

lemma images_inv:
  "settings_inv d \<Longrightarrow> settings_inv (UpdateSettingsFavicon t x d)" "settings_inv d \<Longrightarrow> settings_inv (UpdateSettingsLogo t x d)"
  by (auto simp: UpdateSettingsFavicon_def UpdateSettingsLogo_def settings_inv_def settings_bounded_def)

lemma settings_api_inv:
  assumes "defaults_bounded E" and "settings_inv (p_db p)"
  shows "settings_inv (p_db (snd (settings_api E q r p)))"
proof -
  have c: "settings_inv d" if "currentSettings E now (p_db p) = (st, d)" for now st d
    using currentSettings_bounded [OF assms that] by simp
  have u: "settings_inv (p_db (snd (uploadBranding E im now save r p)))"
    if "\<And>t x d. settings_inv d \<Longrightarrow> settings_inv (save t x d)" for im now save
  proof -
    obtain resp p' where u: "uploadBranding E im now save r p = (resp, p')" by force
    show ?thesis using uploadBranding_cases [OF u] that c [of now] assms(2) by (cases "currentSettings E now (p_db p)") (auto simp: u)
  qed
  show ?thesis
  proof (cases q)
    case (PatchSettingsCall dec now)
    then show ?thesis using handleUpdateSettings_inv [OF assms] by simp
  qed (auto simp: handleGetSettings_def handleGetBrand_def handleUploadFavicon_def handleUploadLogo_def split: prod.splits
      intro!: c u images_inv)
qed

subsection \<open>Properties\<close>

text \<open>Whatever requests the settings routes serve, the sampling interval stays between 2 and
  60 seconds and the retention between 1 and 365 days, and the tables stay consistent.\<close>

theorem settings_stay_bounded:
  assumes "defaults_bounded E" and "settings_inv (p_db p)" and "db_ok (p_db p)"
  shows "settings_inv (p_db (snd (serve (settings_api E) rs p))) \<and> db_ok (p_db (snd (serve (settings_api E) rs p)))"
proof
  show "settings_inv (p_db (snd (serve (settings_api E) rs p)))"
    by (rule serve_invariant [where I = settings_inv, OF _ assms(2)]) (rule settings_api_inv [OF assms(1)])
  show "db_ok (p_db (snd (serve (settings_api E) rs p)))" using assms(3) by (rule settings_api.serve_ok)
qed

theorem settings_stay_bounded_witness:
  "settings_inv (p_db (snd (serve (settings_api demo_server)
     [(PatchSettingsCall (\<lambda>_ _. Decoded [(''retention_days'', JFloat 900 ''900'')] True) 5,
       demo_request\<lparr>rq_Header := [(''Content-Type'', ''application/json''), (''If-Match'', settingsETag 1)]\<rparr>)] demo_panel)))"
proof -
  have "defaults_bounded demo_server" by (simp add: defaults_bounded_def demo_server_def demo_defaults_def)
  moreover have "settings_inv demo_db" by (simp add: settings_inv_def demo_db_def empty_db_def)
  ultimately show ?thesis using settings_stay_bounded [of demo_server demo_panel] demo_db_ok(1) by (simp del: serve.simps)
qed

text \<open>No settings update is lost over HTTP: once a patch with some entity tag succeeded, every
  later patch with the same tag is refused with 412 and changes nothing, however many
  further settings writes happened in between.\<close>

theorem settings_patch_once:
  assumes "handleUpdateSettings E dec now r p = (resp, p1)" and "rp_Status resp = 200"
    and "settings_run (p_db p1) n (p_db p2)" and "Get (rq_Header r2) ''If-Match'' = Get (rq_Header r) ''If-Match''"
    and "\<forall>st. settings_row (p_db p2) = Some st \<longrightarrow> 0 < st_revision st - int n - 1 \<and> in_i64 (st_revision st)"
  shows "handleUpdateSettings E dec2 now2 r2 p2 = (WriteProblem r2 412 (prob ''precondition-failed'') stale_detail [], p2)"
proof -
  obtain st d where cs: "currentSettings E now (p_db p) = (st, d)" by force
  note row = currentSettings_row [OF cs]
  from handleUpdateSettings_cases [OF cs, of dec r] assms(1,2) obtain st' st'' d' patch where
    m: "Get (rq_Header r) ''If-Match'' = settingsETag (st_revision st)" and
    ap: "apply_settings_patch patch st = Inr st'" and up: "UpdateSettings (Unix now) st' d = Inr (st'', d')" and
    p1: "p1 = reload_hub E now (p\<lparr>p_db := d'\<rparr>)" by auto
  from up row obtain s1 where s1: "settings_row d' = Some s1" "st_revision s1 = st_revision st + 1"
    by (auto simp: UpdateSettings_def split: option.splits if_splits)
  have "settings_row (p_db p1) = Some s1" using reload_hub_config [of "p\<lparr>p_db := d'\<rparr>" E now] s1(1) by (simp add: p1 same_config_def)
  from settings_run_revision [OF assms(3) this] obtain s2 where
    s2: "settings_row (p_db p2) = Some s2" "st_revision s2 = st_revision s1 + int n" by blast
  then have cs2: "currentSettings E now2 (p_db p2) = (s2, p_db p2)" by (simp add: currentSettings_def GetSettings_def)
  have "in_i64 (st_revision s2)" "in_i64 (st_revision st)" using assms(5) s2 s1(2) by (auto simp: in_i64_def)
  then have "settingsETag (st_revision s2) \<noteq> settingsETag (st_revision st)"
    using settingsETag_inj s2(2) s1(2) by fastforce
  moreover have "settingsETag (st_revision st) \<noteq> []" by (simp add: settingsETag_def)
  ultimately show ?thesis using cs2 m assms(4) by (simp add: handleUpdateSettings_def precondition_def Let_def)
qed

definition demo_patch :: "json_map decoder" where
  "demo_patch = (\<lambda>_ _. Decoded [(''retention_days'', JFloat 9 ''9'')] True)"

definition demo_patch_request :: request where
  "demo_patch_request = demo_request\<lparr>rq_Header := [(''Content-Type'', ''application/json''), (''If-Match'', settingsETag 1)]\<rparr>"

theorem settings_patch_once_witness:
  "\<exists>p1. handleUpdateSettings demo_server demo_patch 5 demo_patch_request (demo_panel\<lparr>p_hub := \<lparr>h_running = False, h_workers = []\<rparr>\<rparr>) =
     (setHeader ''ETag'' (settingsETag 2) (WriteJSON 200 (settingsBody demo_server
        ((initial_settings 0 demo_defaults)\<lparr>st_retention_days := 9, st_revision := 2\<rparr>))), p1) \<and>
     rp_Status (fst (handleUpdateSettings demo_server demo_patch 6 demo_patch_request p1)) = 412"
proof -
  let ?p = "demo_panel\<lparr>p_hub := \<lparr>h_running = False, h_workers = []\<rparr>\<rparr>"
  let ?st = "(initial_settings 0 demo_defaults)\<lparr>st_retention_days := 9, st_revision := 2\<rparr>"
  let ?p1 = "?p\<lparr>p_db := demo_db\<lparr>settings_row := Some ?st\<rparr>\<rparr>"
  let ?r = "setHeader ''ETag'' (settingsETag 2) (WriteJSON 200 (settingsBody demo_server ?st))"
  have cs: "currentSettings demo_server 5 demo_db = (initial_settings 0 demo_defaults, demo_db\<lparr>settings_row := Some (initial_settings 0 demo_defaults)\<rparr>)"
    by (simp add: currentSettings_def GetSettings_def demo_db_def empty_db_def Unix_def demo_server_def Let_def)
  have hdr: "Get (rq_Header demo_patch_request) ''If-Match'' = settingsETag 1" "Get (rq_Header demo_patch_request) ''Content-Type'' = ''application/json''"
    by (simp_all add: demo_patch_request_def Get_def)
  have rev: "st_revision (initial_settings 0 demo_defaults) = 1" by (simp add: initial_settings_def)
  have ap: "apply_settings_patch [(''retention_days'', JFloat 9 ''9'')] (initial_settings 0 demo_defaults) =
      Inr ((initial_settings 0 demo_defaults)\<lparr>st_retention_days := 9\<rparr>)"
    by (simp add: apply_settings_patch_def checked_fields_def assign_def set_int_def)
  have va: "validateSettingsPatch [(''retention_days'', JFloat 9 ''9'')] = []"
    by (simp add: validateSettingsPatch_def check_field_def bad_whole_def)
  have up: "UpdateSettings (Unix 5) ((initial_settings 0 demo_defaults)\<lparr>st_retention_days := 9\<rparr>)
      (demo_db\<lparr>settings_row := Some (initial_settings 0 demo_defaults)\<rparr>) = Inr (?st, demo_db\<lparr>settings_row := Some ?st\<rparr>)"
    by (simp add: UpdateSettings_def initial_settings_def Unix_def add64_def i64_def)
  have pre: "precondition demo_patch_request (settingsETag 1) stale_detail = None"
    by (simp add: precondition_def hdr settingsETag_def)
  have dec: "DecodeJSON Some demo_patch demo_patch_request = Inr [(''retention_days'', JFloat 9 ''9'')]"
    by (simp add: DecodeJSON_def hdr demo_patch_def)
  have rel: "reload_hub demo_server 5 ?p1 = ?p1" by (simp add: reload_hub_def Reload_def)
  have run: "handleUpdateSettings demo_server demo_patch 5 demo_patch_request ?p = (?r, ?p1)"
    using rel by (simp add: handleUpdateSettings_def cs Let_def rev pre dec va ap up)
  from settings_patch_once [OF this, where n = 0 and ?p2.0 = ?p1 and ?r2.0 = demo_patch_request and ?dec2.0 = demo_patch and ?now2.0 = 6]
  have "handleUpdateSettings demo_server demo_patch 6 demo_patch_request ?p1 =
      (WriteProblem demo_patch_request 412 (prob ''precondition-failed'') stale_detail [], ?p1)"
    by (simp add: sr_none in_i64_def)
  with run show ?thesis by auto
qed

end
