(* ===== verification/Json_Codec.thy ===== *)
theory Json_Codec
  imports Subscribe_Outbound
begin

text \<open>
  A concrete text format for documents, to instantiate the JSON parameters where a property
  relies on reading back what was written: tagged prefix notation, every element of a string or
  list marked by \<^verbatim>\<open>x\<close> and the end by a dot. Decoding takes fuel; the length of the text is enough.
\<close>

definition enc_str :: "string \<Rightarrow> string" where
  "enc_str s = concat (map (\<lambda>c. [CHR ''x'', c]) s) @ ''.''"

definition enc_int :: "int \<Rightarrow> string" where
  "enc_int n = (if n < 0 then ''m'' else ''p'') @ replicate (nat \<bar>n\<bar>) (CHR ''1'') @ ''.''"

fun enc :: "json \<Rightarrow> string" where
  "enc JNull = ''N''"
| "enc (JBool b) = (if b then ''T'' else ''F'')"
| "enc (JInt n) = CHR ''I'' # enc_int n"
| "enc (JFloat n t) = CHR ''D'' # enc_int n @ enc_str t"
| "enc (JStr s) = CHR ''S'' # enc_str s"
| "enc (JArr xs) = CHR ''A'' # concat (map (\<lambda>x. CHR ''x'' # enc x) xs) @ ''.''"
| "enc (JObj m) = CHR ''O'' # concat (map (\<lambda>(k, v). CHR ''x'' # enc_str k @ enc v) m) @ ''.''"
| "enc (JRaw s) = CHR ''R'' # enc_str s"

fun dec_str :: "string \<Rightarrow> (string \<times> string) option" where
  "dec_str (x # c # s) =
     (if x = CHR ''.'' then Some ([], c # s)
      else case dec_str s of None \<Rightarrow> None | Some (t, r) \<Rightarrow> Some (c # t, r))"
| "dec_str [x] = (if x = CHR ''.'' then Some ([], []) else None)"
| "dec_str [] = None"

definition dec_int :: "string \<Rightarrow> (int \<times> string) option" where
  "dec_int s = (case s of [] \<Rightarrow> None
     | c # t \<Rightarrow> let n = int (length (takeWhile (\<lambda>x. x = CHR ''1'') t)); r = drop 1 (dropWhile (\<lambda>x. x = CHR ''1'') t)
               in Some (if c = CHR ''m'' then - n else n, r))"

fun dec :: "nat \<Rightarrow> string \<Rightarrow> (json \<times> string) option"
  and dec_list :: "nat \<Rightarrow> string \<Rightarrow> (json list \<times> string) option"
  and dec_map :: "nat \<Rightarrow> string \<Rightarrow> (json_map \<times> string) option" where
  "dec 0 s = None"
| "dec (Suc n) [] = None"
| "dec (Suc n) (c # s) =
     (if c = CHR ''N'' then Some (JNull, s)
      else if c = CHR ''T'' then Some (JBool True, s)
      else if c = CHR ''F'' then Some (JBool False, s)
      else if c = CHR ''I'' then map_option (\<lambda>(i, r). (JInt i, r)) (dec_int s)
      else if c = CHR ''D'' then
        (case dec_int s of None \<Rightarrow> None | Some (i, r) \<Rightarrow> map_option (\<lambda>(t, r'). (JFloat i t, r')) (dec_str r))
      else if c = CHR ''S'' then map_option (\<lambda>(t, r). (JStr t, r)) (dec_str s)
      else if c = CHR ''A'' then map_option (\<lambda>(xs, r). (JArr xs, r)) (dec_list n s)
      else if c = CHR ''O'' then map_option (\<lambda>(m, r). (JObj m, r)) (dec_map n s)
      else map_option (\<lambda>(t, r). (JRaw t, r)) (dec_str s))"
| "dec_list 0 s = None"
| "dec_list (Suc n) [] = None"
| "dec_list (Suc n) (c # s) =
     (if c = CHR ''.'' then Some ([], s)
      else case dec n s of None \<Rightarrow> None
           | Some (x, r) \<Rightarrow> map_option (\<lambda>(xs, r'). (x # xs, r')) (dec_list n r))"
| "dec_map 0 s = None"
| "dec_map (Suc n) [] = None"
| "dec_map (Suc n) (c # s) =
     (if c = CHR ''.'' then Some ([], s)
      else case dec_str s of None \<Rightarrow> None
           | Some (k, r) \<Rightarrow>
               (case dec n r of None \<Rightarrow> None
                | Some (v, r') \<Rightarrow> map_option (\<lambda>(m, r''). ((k, v) # m, r'')) (dec_map n r')))"

definition codec_marshal :: json_marshal where
  "codec_marshal v = Some (enc v)"

definition codec_unmarshal :: json_unmarshal where
  "codec_unmarshal s = (case dec (length s) s of Some (v, []) \<Rightarrow> Some v | _ \<Rightarrow> None)"

lemma dec_enc_str [simp]: "dec_str (enc_str s @ r) = Some (s, r)"
  by (induction s) (cases r; simp add: enc_str_def)+

lemma dec_enc_int [simp]: "dec_int (enc_int n @ r) = Some (n, r)"
  by (auto simp: dec_int_def enc_int_def takeWhile_append dropWhile_append)

lemma dec_enc: "length (enc j) \<le> n \<Longrightarrow> dec n (enc j @ r) = Some (j, r)"
proof (induction j arbitrary: n r)
  case (JArr xs)
  have "dec_list k (concat (map (\<lambda>x. CHR ''x'' # enc x) ys) @ ''.'' @ r) = Some (ys, r)"
    if "set ys \<subseteq> set xs" "length (concat (map (\<lambda>x. CHR ''x'' # enc x) ys)) < k" for ys k
    using that
  proof (induction ys arbitrary: k)
    case Nil
    then show ?case by (cases k) auto
  next
    case (Cons y ys)
    then obtain k' where "k = Suc k'" by (cases k) auto
    with Cons JArr.IH show ?case by simp
  qed
  from this [of xs "n - 1"] JArr.prems show ?case by (cases n) auto
next
  case (JObj m)
  have "dec_map k (concat (map (\<lambda>(k, v). CHR ''x'' # enc_str k @ enc v) ys) @ ''.'' @ r) = Some (ys, r)"
    if "set ys \<subseteq> set m" "length (concat (map (\<lambda>(k, v). CHR ''x'' # enc_str k @ enc v) ys)) < k" for ys k
    using that
  proof (induction ys arbitrary: k)
    case Nil
    then show ?case by (cases k) auto
  next
    case (Cons y ys)
    then obtain k' where "k = Suc k'" by (cases k) auto
    moreover obtain a v where y: "y = (a, v)" by force
    moreover have "dec l (enc v @ t) = Some (v, t)" if "length (enc v) \<le> l" for l t
      using JObj.IH [of "(a, v)" v] Cons.prems y that by auto
    ultimately show ?case using Cons by simp
  qed
  from this [of m "n - 1"] JObj.prems show ?case by (cases n) auto
qed (auto dest!: Suc_le_D split: if_splits)

lemma codec_faithful: "codec_unmarshal (enc v) = Some v"
  using dec_enc [of v "length (enc v)" "[]"] by (simp add: codec_unmarshal_def)

end
