(* ===== verification/Api_Subscription.thy ===== *)
theory Api_Subscription
  imports Api_Http Json_Codec
begin

text \<open>
  Subscriptions over HTTP: \<^verbatim>\<open>api/subscription.go\<close>. An account has one secret token; whoever holds
  it may fetch the exported nodes in one of three formats. The lemmas show that nothing else
  opens the content, that resetting or revoking the token ends it, and that the selector of
  the generated configuration refers to outbounds that are in it.
\<close>

subsection \<open>Export\<close>

definition renameOutboundTag :: "env \<Rightarrow> string \<Rightarrow> string \<Rightarrow> string" where
  "renameOutboundTag E ob name =
     (case ev_unmarshal E ob of
        Some (JObj m) \<Rightarrow>
          if map_of m ''tag'' \<noteq> None
          then case ev_marshal E (JObj (put ''tag'' (JStr name) m)) of Some raw \<Rightarrow> raw | None \<Rightarrow> ob
          else ob
      | _ \<Rightarrow> ob)"

definition export_one :: "env \<Rightarrow> node \<Rightarrow> export_node option" where
  "export_one E n =
     (if \<not> n_Enabled n \<or> n_OutboundEnc n = [] then None
      else case decrypt E (n_OutboundEnc n) of
        Inl _ \<Rightarrow> None
      | Inr text \<Rightarrow> Some \<lparr>x_Name = n_Name n, x_Outbound = renameOutboundTag E text (n_Name n)\<rparr>)"

definition exportableNodes :: "env \<Rightarrow> db \<Rightarrow> export_node list" where
  "exportableNodes E d = List.map_filter (export_one E) (ListNodes d)"

subsection \<open>Handlers\<close>

definition subscription_body :: "env \<Rightarrow> request \<Rightarrow> bool \<Rightarrow> json \<Rightarrow> json \<Rightarrow> int \<Rightarrow> json" where
  "subscription_body E r enabled tok url updated =
     JObj [(''enabled'', JBool enabled), (''token'', tok), (''url'', url),
           (''formats'', JArr [JStr ''singbox'', JStr ''clash'', JStr ''base64'']), (''updated_at'', rfc E updated)]"

definition handleGetSubscription :: "env \<Rightarrow> int \<Rightarrow> handler" where
  "handleGetSubscription E now r p =
     (case rq_ctxUserID r of None \<Rightarrow> (Unauthorized r ''unauthorized'', p)
      | Some userID \<Rightarrow>
          (case GetSubscription (Unix now) userID (p_db p) of
             Inl _ \<Rightarrow> (Internal r, p)
           | Inr (sub, d) \<Rightarrow>
               (WriteJSON 200 (if sb_Token sub \<noteq> []
                  then subscription_body E r True (JStr (sb_Token sub)) (JStr (subURL r (sb_Token sub))) (sb_UpdatedAt sub)
                  else subscription_body E r False JNull JNull (sb_UpdatedAt sub)), p\<lparr>p_db := d\<rparr>)))"

definition handleResetSubscriptionToken :: "env \<Rightarrow> string option \<Rightarrow> int \<Rightarrow> handler" where
  "handleResetSubscriptionToken E rnd now r p =
     (case rq_ctxUserID r of None \<Rightarrow> (Unauthorized r ''unauthorized'', p)
      | Some userID \<Rightarrow>
          (case randomToken rnd of None \<Rightarrow> (Internal r, p)
           | Some token \<Rightarrow>
               (case SetSubscriptionToken (Unix now) userID token (p_db p) of
                  Inl _ \<Rightarrow> (Internal r, p)
                | Inr d \<Rightarrow>
                    (case GetSubscription (Unix now) userID d of
                       Inl _ \<Rightarrow> (Internal r, p\<lparr>p_db := d\<rparr>)
                     | Inr (sub, d') \<Rightarrow>
                         (setHeader ''Location'' ''/subscription'' (WriteJSON 200
                            (subscription_body E r True (JStr (sb_Token sub)) (JStr (subURL r (sb_Token sub))) (sb_UpdatedAt sub))),
                          p\<lparr>p_db := d'\<rparr>)))))"

definition handleDeleteSubscription :: "env \<Rightarrow> int \<Rightarrow> handler" where
  "handleDeleteSubscription E now r p =
     (case rq_ctxUserID r of None \<Rightarrow> (Unauthorized r ''unauthorized'', p)
      | Some userID \<Rightarrow>
          (case SetSubscriptionToken (Unix now) userID [] (p_db p) of
             Inl _ \<Rightarrow> (Internal r, p)
           | Inr d \<Rightarrow> (NoContent, p\<lparr>p_db := d\<rparr>)))"

definition constantTimeEqual :: "string \<Rightarrow> string \<Rightarrow> bool" where
  "constantTimeEqual a b \<longleftrightarrow> length a = length b \<and> list_all2 (=) a b"

text \<open>The content type and the text in the asked format; \<open>None\<close> for an unknown format.\<close>

definition generate :: "env \<Rightarrow> string \<Rightarrow> export_node list \<Rightarrow> (string \<times> (sub_error + string)) option" where
  "generate E format ns =
     (if format = ''singbox'' then
        Some (''application/json; charset=utf-8'', GenerateSingbox (ev_json_Valid E) (ev_marshal E) (ev_marshalIndent E) ns)
      else if format = ''clash'' then Some (''text/yaml; charset=utf-8'', GenerateClash (ev_unmarshal E) (ev_yaml_Marshal E) ns)
      else if format = ''base64'' then Some (''text/plain; charset=utf-8'', GenerateBase64 (ev_unmarshal E) (ev_marshal E) ns)
      else None)"

definition subscription_reply :: "env \<Rightarrow> request \<Rightarrow> db \<Rightarrow> response" where
  "subscription_reply E r d =
     (let format = (if Get (rq_Query r) ''format'' = [] then ''singbox'' else Get (rq_Query r) ''format'') in
      case generate E format (exportableNodes E d) of
        None \<Rightarrow> Validation r ''format must be singbox|clash|base64'' [FieldErr ''#format'' ''one of singbox, clash, base64'']
      | Some (_, Inl _) \<Rightarrow> WriteProblem r 503 (prob ''subscription-empty'') ''no exportable nodes are configured'' []
      | Some (contentType, Inr text) \<Rightarrow>
          \<lparr>rp_Status = 200, rp_Header = [(''Content-Type'', contentType), (''Cache-Control'', ''no-store''),
             (''Profile-Update-Interval'', ''6'')], rp_Body = RawBody text\<rparr>)"

definition handleSubscriptionContent :: "env \<Rightarrow> int \<Rightarrow> handler" where
  "handleSubscriptionContent E now r p =
     (let token = Get (rq_PathValue r) ''token'' in
      case Allow (''sub:'' @ clientIP E r) now (p_limiter p) of (ok, l) \<Rightarrow>
      let p1 = p\<lparr>p_limiter := l\<rparr>; missing = NotFound r ''subscription not found'' in
      if \<not> ok then (setHeader ''Retry-After'' ''60'' (WriteProblem r 429 (prob ''rate-limited'') ''subscription rate limited'' []), p1)
      else let userID = FindSubscriptionUser token (p_db p1) in
        if userID = 0 then (missing, p1)
        else case GetSubscription (Unix now) userID (p_db p1) of
          Inl _ \<Rightarrow> (missing, p1)
        | Inr (sub, d) \<Rightarrow>
            let p2 = p1\<lparr>p_db := d\<rparr> in
            if sb_Token sub = [] \<or> \<not> constantTimeEqual token (sb_Token sub) then (missing, p2)
            else (subscription_reply E r d, p2))"

subsection \<open>Lemmas\<close>

datatype subscription_call = GetSub int | ResetSub "string option" int | DeleteSub int | FetchSub int

fun subscription_api :: "env \<Rightarrow> subscription_call \<Rightarrow> handler" where
  "subscription_api E (GetSub now) = handleGetSubscription E now"
| "subscription_api E (ResetSub rnd now) = handleResetSubscriptionToken E rnd now"
| "subscription_api E (DeleteSub now) = handleDeleteSubscription E now"
| "subscription_api E (FetchSub now) = handleSubscriptionContent E now"

lemma subscription_ops_steps:
  "GetSubscription now u d = Inr (sub, d') \<Longrightarrow> store_steps d0 d \<Longrightarrow> store_steps d0 d'"
  "SetSubscriptionToken now u t d = Inr d' \<Longrightarrow> store_steps d0 d \<Longrightarrow> store_steps d0 d'"
  by (erule then_step [OF st_get_sub], assumption, erule then_step [OF st_set_sub], assumption)

interpretation subscription_api: store_client "subscription_api E" for E
proof (unfold_locales)
  fix p :: panel and q r
  show "store_steps (p_db p) (p_db (snd (subscription_api E q r p)))"
    by (cases q) (auto simp: handleGetSubscription_def handleResetSubscriptionToken_def handleDeleteSubscription_def
        handleSubscriptionContent_def Let_def split: option.splits sum.splits prod.splits intro: subscription_ops_steps)
qed

lemma constantTimeEqual_eq [simp]: "constantTimeEqual a b \<longleftrightarrow> a = b"
  by (auto simp: constantTimeEqual_def list_all2_eq [symmetric])

lemma FindSubscriptionUser_Some:
  "FindSubscriptionUser tok d = u \<Longrightarrow> u \<noteq> 0 \<Longrightarrow> \<exists>row \<in> set (user_subscriptions d). sub_token row = tok \<and> tok \<noteq> [] \<and> sub_user_id row = u"
  by (auto simp: FindSubscriptionUser_def find_Some_iff split: option.splits)

text \<open>No row with the token, no content.\<close>

lemma content_needs_token:
  assumes "Get (rq_PathValue r) ''token'' \<notin> sub_token ` set (user_subscriptions (p_db p)) \<or> Get (rq_PathValue r) ''token'' = []"
  shows "fst (handleSubscriptionContent E now r p) = NotFound r ''subscription not found'' \<or>
    rp_Status (fst (handleSubscriptionContent E now r p)) = 429"
proof -
  have "FindSubscriptionUser (Get (rq_PathValue r) ''token'') (p_db p) = 0"
    using FindSubscriptionUser_Some assms by (metis image_eqI)
  then show ?thesis by (simp add: handleSubscriptionContent_def Let_def split: prod.splits)
qed

lemma exportable_in:
  "x \<in> set (exportableNodes E d) \<longleftrightarrow>
   (\<exists>row \<in> set (nodes d). nr_enabled row \<noteq> 0 \<and> nr_outbound_enc row \<noteq> [] \<and>
      (\<exists>text. decrypt E (nr_outbound_enc row) = Inr text \<and>
         x = \<lparr>x_Name = nr_name row, x_Outbound = renameOutboundTag E text (nr_name row)\<rparr>))"
proof -
  have "export_one E (scanNode row) = Some x \<longleftrightarrow> nr_enabled row \<noteq> 0 \<and> nr_outbound_enc row \<noteq> [] \<and>
      (\<exists>text. decrypt E (nr_outbound_enc row) = Inr text \<and>
         x = \<lparr>x_Name = nr_name row, x_Outbound = renameOutboundTag E text (nr_name row)\<rparr>)" for row
    by (auto simp: export_one_def scanNode_def split: sum.splits)
  moreover have "set (List.map_filter f xs) = {y. \<exists>z \<in> set xs. f z = Some y}" for f :: "node \<Rightarrow> export_node option" and xs
    by (auto simp: List.map_filter_def image_iff) (metis option.sel)
  ultimately show ?thesis by (auto simp: exportableNodes_def ListNodes_def)
qed

lemma subscription_reply_cong: "nodes d = nodes d' \<Longrightarrow> subscription_reply E r d = subscription_reply E r d'"
  by (simp add: subscription_reply_def exportableNodes_def ListNodes_def)

lemma GetSubscription_live:
  assumes "db_ok d" and "row \<in> set (user_subscriptions d)"
  shows "\<exists>d'. GetSubscription now (sub_user_id row) d = Inr (\<lparr>sb_Token = sub_token row, sb_UpdatedAt = sub_updated_at row\<rparr>, d') \<and>
     nodes d' = nodes d"
proof -
  let ?subs = "upsert sub_user_id (\<lambda>old new :: subscription_row. old) (new_subscription (sub_user_id row) [] now) (user_subscriptions d)"
  have "user_exists (sub_user_id row) d" using assms by (simp add: db_ok_def refs_ok_def)
  moreover have "?subs = user_subscriptions d"
    using assms(2) by (auto simp: upsert_def new_subscription_def list_ex_iff update_where_def)
  moreover have "row_with sub_user_id (sub_user_id row) (user_subscriptions d) = Some row"
    using assms by (intro row_with_distinct) (auto simp: db_ok_simps)
  ultimately show ?thesis by (simp add: GetSubscription_def Let_def)
qed

text \<open>Setting a token replaces the token of one account.\<close>

lemma SetSubscriptionToken_tokens:
  assumes "SetSubscriptionToken now u tok d = Inr d'"
  shows "sub_token ` set (user_subscriptions d') =
    insert tok (sub_token ` {row \<in> set (user_subscriptions d). sub_user_id row \<noteq> u})"
proof (cases "u \<in> sub_user_id ` set (user_subscriptions d)")
  case True
  with assms have "user_subscriptions d' = update_where (\<lambda>r. sub_user_id r = u) (\<lambda>r. token_merge r (new_subscription u tok now)) (user_subscriptions d)"
    by (auto simp: SetSubscriptionToken_def upsert_def new_subscription_def list_ex_iff split: if_splits)
  then have eq: "set (user_subscriptions d') = (\<lambda>r. if sub_user_id r = u then token_merge r (new_subscription u tok now) else r) ` set (user_subscriptions d)"
    by (simp add: set_update_where)
  have "sub_token (if sub_user_id r = u then token_merge r (new_subscription u tok now) else r) = (if sub_user_id r = u then tok else sub_token r)" for r
    by (simp add: token_merge_def new_subscription_def)
  with True show ?thesis unfolding eq image_image by auto
next
  case False
  with assms have "user_subscriptions d' = user_subscriptions d @ [new_subscription u tok now]"
    by (auto simp: SetSubscriptionToken_def upsert_def new_subscription_def list_ex_iff split: if_splits)
  with False show ?thesis by (auto simp: new_subscription_def image_iff)
qed

lemma GetSubscription_tokens:
  "GetSubscription now u d = Inr (sub, d') \<Longrightarrow> sub_token ` set (user_subscriptions d') \<subseteq> insert [] (sub_token ` set (user_subscriptions d))"
  by (auto simp: GetSubscription_def Let_def upsert_def new_subscription_def update_where_def split: if_splits option.splits)

text \<open>What the JSON library documents: objects can be written, and reading gives them back.\<close>

definition json_faithful :: "env \<Rightarrow> bool" where
  "json_faithful E \<longleftrightarrow> (\<forall>m. \<exists>raw. ev_marshal E (JObj m) = Some raw \<and> ev_unmarshal E raw = Some (JObj m))"

definition has_tag :: "env \<Rightarrow> string \<Rightarrow> string \<Rightarrow> bool" where
  "has_tag E raw name \<longleftrightarrow> (\<exists>m. ev_unmarshal E raw = Some (JObj m) \<and> map_of m ''tag'' = Some (JStr name))"

lemma renameOutboundTag_tag:
  assumes "json_faithful E" and "ev_unmarshal E ob = Some (JObj m)" and "map_of m ''tag'' \<noteq> None"
  shows "has_tag E (renameOutboundTag E ob name) name"
proof -
  from assms(1) obtain raw where "ev_marshal E (JObj (put ''tag'' (JStr name) m)) = Some raw"
    "ev_unmarshal E raw = Some (JObj (put ''tag'' (JStr name) m))" unfolding json_faithful_def by blast
  with assms(2,3) show ?thesis by (simp add: renameOutboundTag_def has_tag_def)
qed

fun config_outbounds :: "json \<Rightarrow> string list" where
  "config_outbounds (JObj m) =
     (case map_of m ''outbounds'' of Some (JArr xs) \<Rightarrow> List.map_filter (\<lambda>x. case x of JRaw s \<Rightarrow> Some s | _ \<Rightarrow> None) xs | _ \<Rightarrow> [])"
| "config_outbounds _ = []"

lemma map_filter_raw: "List.map_filter (\<lambda>x. case x of JRaw s \<Rightarrow> Some s | _ \<Rightarrow> None) (map (JRaw \<circ> f) xs) = map f xs"
  by (induction xs) (simp_all add: List.map_filter_simps)

subsection \<open>Properties\<close>


definition demo_sub_panel :: panel where
  "demo_sub_panel = demo_panel\<lparr>p_db := demo_db\<lparr>user_subscriptions := [new_subscription 1 ''tok'' 3]\<rparr>\<rparr>"

lemma demo_sub_ok: "db_ok (p_db demo_sub_panel)"
  using demo_db_ok(1) by (simp add: demo_sub_panel_def demo_db_def demo_user_def db_ok_simps new_subscription_def)

lemma demo_allow: "fst (Allow k now (p_limiter demo_sub_panel))"
  by (simp add: Allow_def demo_sub_panel_def demo_panel_def NewServer_def NewLimiter_def)


text \<open>Resetting or revoking a subscription ends the old token: a request with it is answered
  404 (or 429), unless another account has the same token.\<close>

theorem subscription_reset_revokes:
  assumes "handleResetSubscriptionToken E rnd now r p = (resp, p1) \<or> handleDeleteSubscription E now r p = (resp, p1)"
    and "rp_Status resp \<in> {200, 204}" and "rq_ctxUserID r = Some u"
    and "\<forall>row \<in> set (user_subscriptions (p_db p)). sub_token row = tok \<longrightarrow> sub_user_id row = u"
    and "map_option RawURLEncode rnd \<noteq> Some tok" and "Get (rq_PathValue q) ''token'' = tok"
  shows "rp_Status (fst (handleSubscriptionContent E t q p1)) \<in> {404, 429}"
proof -
  have old: "tok = [] \<or> tok \<notin> sub_token ` set (user_subscriptions d)"
    if "SetSubscriptionToken n u new (p_db p) = Inr d" "new \<noteq> tok \<or> new = []" for n new d
    using SetSubscriptionToken_tokens [OF that(1)] that(2) assms(4) by auto
  consider (reset) token d where "randomToken rnd = Some token" "SetSubscriptionToken (Unix now) u token (p_db p) = Inr d"
      "\<exists>sub d'. GetSubscription (Unix now) u d = Inr (sub, d') \<and> p_db p1 = d'"
    | (del) d where "SetSubscriptionToken (Unix now) u [] (p_db p) = Inr d" "p_db p1 = d"
    using assms(1-3)
    by (auto simp: handleResetSubscriptionToken_def handleDeleteSubscription_def split: option.splits sum.splits)
  then have "tok = [] \<or> tok \<notin> sub_token ` set (user_subscriptions (p_db p1))"
  proof cases
    case reset
    then have "token \<noteq> tok" using assms(5) by (auto simp: randomToken_def)
    with old [OF reset(2)] reset(3) GetSubscription_tokens show ?thesis by blast
  next
    case del
    with old [OF del(1)] show ?thesis by simp
  qed
  then show ?thesis using content_needs_token [of q p1 E t] assms(6) by auto
qed

theorem subscription_reset_revokes_witness:
  "\<exists>p1. handleDeleteSubscription demo_server 5 (demo_request\<lparr>rq_ctxUserID := Some 1\<rparr>) demo_sub_panel = (NoContent, p1) \<and>
     rp_Status (fst (handleSubscriptionContent demo_server 6 (demo_request\<lparr>rq_PathValue := [(''token'', ''tok'')]\<rparr>) p1)) \<in> {404, 429}"
proof -
  let ?r = "demo_request\<lparr>rq_ctxUserID := Some 1\<rparr>"
  obtain p1 where d: "handleDeleteSubscription demo_server 5 ?r demo_sub_panel = (NoContent, p1)"
    by (simp add: handleDeleteSubscription_def SetSubscriptionToken_def user_exists_def demo_sub_panel_def demo_db_def demo_user_def)
  then show ?thesis
    using subscription_reset_revokes [of demo_server None 5 ?r demo_sub_panel NoContent p1 1 "''tok''"
        "demo_request\<lparr>rq_PathValue := [(''token'', ''tok'')]\<rparr>" 6]
    by (auto simp: Get_def demo_sub_panel_def new_subscription_def)
qed

text \<open>In the sing-box configuration generated for a subscription, every name the selector
  offers is the tag of an outbound of the same configuration, whatever the nodes are called,
  provided the stored outbounds carry a tag.\<close>

theorem selector_names_resolve:
  assumes "json_faithful E"
    and "\<forall>row \<in> set (nodes d). \<forall>text. decrypt E (nr_outbound_enc row) = Inr text \<longrightarrow>
           (\<exists>m. ev_unmarshal E text = Some (JObj m) \<and> map_of m ''tag'' \<noteq> None)"
    and "singbox_config (ev_json_Valid E) (ev_marshal E) (exportableNodes E d) = Inr cfg"
  shows "\<exists>sel raws names s. config_outbounds cfg = sel # raws \<and> ev_unmarshal E sel = Some (JObj s) \<and>
    map_of s ''outbounds'' = Some (JArr (map JStr names)) \<and> names \<noteq> [] \<and> (\<forall>name \<in> set names. \<exists>raw \<in> set raws. has_tag E raw name)"
proof -
  define valid where "valid = filter (\<lambda>n. ev_json_Valid E (x_Outbound n)) (exportableNodes E d)"
  define selector where "selector = [(''type'', JStr ''selector''), (''tag'', JStr SelectorTag),
     (''outbounds'', JArr (map (JStr \<circ> x_Name) valid)), (''interrupt_exist_connections'', JBool False)]"
  from assms(3) have ne: "valid \<noteq> []" and cfg: "cfg = JObj [(''log'', JObj [(''level'', JStr ''warn'')]),
      (''outbounds'', JArr (mustJSON (ev_marshal E) (JObj selector) # map (JRaw \<circ> x_Outbound) valid)), (''route'', JObj [(''final'', JStr SelectorTag)])]"
    by (auto simp: singbox_config_def valid_def [symmetric] selector_def Let_def split: if_splits)
  from assms(1) obtain sel where sel: "ev_marshal E (JObj selector) = Some sel" "ev_unmarshal E sel = Some (JObj selector)"
    unfolding json_faithful_def by blast
  have "config_outbounds cfg = sel # map x_Outbound valid"
    by (simp add: cfg mustJSON_def sel(1) List.map_filter_simps map_filter_raw)
  moreover have "has_tag E (x_Outbound n) (x_Name n)" if "n \<in> set valid" for n
  proof -
    from that have "n \<in> set (exportableNodes E d)" by (simp add: valid_def)
    with assms(2) renameOutboundTag_tag [OF assms(1)] show ?thesis by (force simp: exportable_in)
  qed
  ultimately show ?thesis
    using sel(2) ne by (intro exI [of _ sel] exI [of _ "map x_Outbound valid"] exI [of _ "map x_Name valid"] exI [of _ selector])
      (auto simp: selector_def)
qed

definition demo_export_server :: env where
  "demo_export_server = demo_server\<lparr>ev_marshal := codec_marshal, ev_unmarshal := codec_unmarshal\<rparr>"

definition demo_tagged :: json_map where
  "demo_tagged = [(''tag'', JStr ''hk''), (''type'', JStr ''trojan'')]"

definition demo_export_db :: db where
  "demo_export_db = empty_db\<lparr>nodes := [node_columns (demo_node\<lparr>n_OutboundEnc := StdEncode (''n*'' @ enc (JObj demo_tagged))\<rparr>) 1 1 0]\<rparr>"

theorem selector_names_resolve_witness:
  "\<exists>cfg sel raws names s. singbox_config (ev_json_Valid demo_export_server) (ev_marshal demo_export_server)
       (exportableNodes demo_export_server demo_export_db) = Inr cfg \<and> config_outbounds cfg = sel # raws \<and>
     codec_unmarshal sel = Some (JObj s) \<and> map_of s ''outbounds'' = Some (JArr (map JStr names)) \<and> names \<noteq> [] \<and>
     (\<forall>name \<in> set names. \<exists>raw \<in> set raws. has_tag demo_export_server raw name)"
proof -
  let ?E = demo_export_server and ?t = "enc (JObj demo_tagged)"
  have E: "ev_marshal ?E = codec_marshal" "ev_unmarshal ?E = codec_unmarshal" "ev_json_Valid ?E = (\<lambda>_. True)"
    by (simp_all add: demo_export_server_def demo_server_def)
  have dc: "decrypt ?E (StdEncode (''n*'' @ ?t)) = Inr ?t"
    using StdEncode_Nil_iff [of "''n*'' @ ?t"]
    by (simp add: decrypt_def Decrypt_def Std_roundtrip demo_export_server_def demo_server_def demo_gcm_def HasPrefix_def)
  have faithful: "json_faithful ?E" by (simp add: json_faithful_def E codec_marshal_def codec_faithful del: enc.simps)
  have row: "nodes demo_export_db = [node_columns (demo_node\<lparr>n_OutboundEnc := StdEncode (''n*'' @ ?t)\<rparr>) 1 1 0]"
    by (simp add: demo_export_db_def empty_db_def)
  have "export_one ?E (scanNode (node_columns (demo_node\<lparr>n_OutboundEnc := StdEncode (''n*'' @ ?t)\<rparr>) 1 1 0)) \<noteq> None"
    using dc StdEncode_Nil_iff [of "''n*'' @ ?t"] by (simp add: export_one_def scanNode_def node_columns_def demo_node_def boolInt_def)
  then have "exportableNodes ?E demo_export_db \<noteq> []"
    by (auto simp: exportableNodes_def ListNodes_def row List.map_filter_simps)
  then obtain cfg where cfg: "singbox_config (ev_json_Valid ?E) (ev_marshal ?E) (exportableNodes ?E demo_export_db) = Inr cfg"
    by (auto simp: singbox_config_def E Let_def)
  have "\<forall>r \<in> set (nodes demo_export_db). \<forall>text. decrypt ?E (nr_outbound_enc r) = Inr text \<longrightarrow>
      (\<exists>m. ev_unmarshal ?E text = Some (JObj m) \<and> map_of m ''tag'' \<noteq> None)"
    using dc codec_faithful [of "JObj demo_tagged"] by (simp add: row node_columns_def E demo_tagged_def)
  from selector_names_resolve [OF faithful this cfg] cfg show ?thesis unfolding E by blast
qed

end
