(* ===== verification/Api_Nodes.thy ===== *)
theory Api_Nodes
  imports Api_Http
begin

text \<open>
  The node routes: \<^verbatim>\<open>api/nodes.go\<close> and \<^verbatim>\<open>api/nodes_util.go\<close>. Nodes are listed in pages, created,
  read, patched under an entity tag and deleted; a node with a configuration URL is the anchor
  of the nodes imported from it, which a re-import brings in line with the downloaded profile.
  Nonces and UUID bytes are arguments, indexed by the place where they are drawn.
\<close>

subsection \<open>Views\<close>

definition opt_json :: "string option \<Rightarrow> json" where
  "opt_json x = (case x of None \<Rightarrow> JNull | Some s \<Rightarrow> JStr s)"

definition viewNode :: "env \<Rightarrow> node \<Rightarrow> bool \<Rightarrow> json_map" where
  "viewNode E n withOutbound =
     [(''id'', JStr (n_ID n)), (''name'', JStr (n_Name n)), (''api_url'', JStr (n_APIURL n)),
      (''api_secret_set'', JBool (n_APISecretEnc n \<noteq> [])),
      (''outbound_json'', if withOutbound \<and> n_OutboundEnc n \<noteq> []
         then case decrypt E (n_OutboundEnc n) of Inl _ \<Rightarrow> JNull | Inr text \<Rightarrow> JStr text else JNull),
      (''source'', JStr (n_Source n)), (''config_url'', JStr (n_ConfigURL n)), (''kce_key_set'', JBool (n_KCEKeyEnc n \<noteq> [])),
      (''tags'', JArr (map JStr (n_Tags n))), (''enabled'', JBool (n_Enabled n)), (''remark'', JStr (n_Remark n)),
      (''created_at'', rfc E (n_CreatedAt n)), (''updated_at'', rfc E (n_UpdatedAt n)),
      (''last_online_at'', nullableTime E (n_LastOnline n) (n_HasLastOnl n))]"

definition containsTag :: "string list \<Rightarrow> string \<Rightarrow> bool" where
  "containsTag tags want = list_ex (\<lambda>t. t = want) tags"

text \<open>\<open>ev_outbound_identity\<close> decodes the text into the struct of tag, type, server and port.\<close>

definition parsedOutboundSummary :: "env \<Rightarrow> node \<Rightarrow> json_map" where
  "parsedOutboundSummary E n =
     (if n_OutboundEnc n = [] then []
      else case decrypt E (n_OutboundEnc n) of Inl _ \<Rightarrow> []
      | Inr text \<Rightarrow>
          (case ev_outbound_identity E text of None \<Rightarrow> []
           | Some (t, ty, sv, port) \<Rightarrow>
               [(''parsed_name'', JStr t), (''parsed_type'', JStr ty), (''server'', JStr sv), (''server_port'', JInt port)]))"

definition nodeSource :: "string \<Rightarrow> string" where
  "nodeSource anchorID = ''node:'' @ anchorID"

definition summaryItem :: "env \<Rightarrow> hub \<Rightarrow> node \<Rightarrow> json" where
  "summaryItem E h n =
     (let st = fst (hub_Status (n_ID n) h) in
      JObj ([(''id'', JStr (n_ID n)), (''name'', JStr (n_Name n)), (''api_url'', JStr (n_APIURL n)),
         (''config_imported'', JBool (n_ConfigURL n \<noteq> [])), (''tags'', JArr (map JStr (n_Tags n))), (''enabled'', JBool (n_Enabled n)),
         (''source'', JStr (n_Source n)), (''mode'', JStr (n_Mode n)), (''online'', JBool (ls_Online st)),
         (''has_outbound'', JBool (n_OutboundEnc n \<noteq> [])), (''up_bps'', JInt (ls_UpBPS st)), (''down_bps'', JInt (ls_DownBPS st)),
         (''active_connections'', JInt (ls_ActiveConnections st)), (''last_online_at'', nullableTime E (n_LastOnline n) (n_HasLastOnl n)),
         (''latency_ms'', JInt (n_LatencyMs n)), (''latency_fail_count'', JInt (n_LatencyFailCount n))] @
        parsedOutboundSummary E n @
        [(''host_id'', JStr (if HasPrefix (n_Source n) ''node:'' then TrimPrefix (n_Source n) ''node:'' else n_ID n))]))"

subsection \<open>The listing\<close>

definition node_selected :: "env \<Rightarrow> request \<Rightarrow> node \<Rightarrow> bool" where
  "node_selected E r n \<longleftrightarrow>
     (let nameFilter = ev_ToLower E (Get (rq_Query r) ''q''); tagFilter = Get (rq_Query r) ''tag'';
          enabledFilter = Get (rq_Query r) ''enabled''
      in (nameFilter = [] \<or> Contains (ev_ToLower E (n_Name n)) nameFilter) \<and>
         (tagFilter = [] \<or> containsTag (n_Tags n) tagFilter) \<and>
         (enabledFilter = [] \<or> (enabledFilter = ''true'') = n_Enabled n))"

text \<open>The loop: items so far, name of the last one; the result has the name for the next cursor.\<close>

fun nodes_page :: "env \<Rightarrow> hub \<Rightarrow> request \<Rightarrow> int \<Rightarrow> string \<Rightarrow> node list \<Rightarrow> json list \<Rightarrow> string \<Rightarrow> json list \<times> string" where
  "nodes_page E h r n after [] items lst = (items, [])"
| "nodes_page E h r n after (x # xs) items lst =
     (if after \<noteq> [] \<and> n_Name x \<le> after then nodes_page E h r n after xs items lst
      else if \<not> node_selected E r x then nodes_page E h r n after xs items lst
      else if int (length items) \<ge> n then (items, lst)
      else nodes_page E h r n after xs (items @ [summaryItem E h x]) (n_Name x))"

definition page_links :: "request \<Rightarrow> string \<Rightarrow> json_map" where
  "page_links r next =
     [(''next_cursor'', JStr next),
      (''links'', JObj [(''self'', JStr (absoluteURL r)),
         (''next'', JStr (absoluteURL r @ ''?'' @ Encode (Set ''cursor'' next (rq_Query r))))])]"

definition handleListNodes :: "env \<Rightarrow> handler" where
  "handleListNodes E r p =
     (case parsePositiveInt (Get (rq_Query r) ''page_size'') 20 100 of
        None \<Rightarrow> (Validation r ''page_size must be 1..100'' [FieldErr ''#page_size'' ''must be 1..100''], p)
      | Some n \<Rightarrow>
          let cursor = Get (rq_Query r) ''cursor'';
              after = (if cursor = [] then Some [] else case decodeCursor cursor of Some [x] \<Rightarrow> Some x | _ \<Rightarrow> None)
          in case after of
               None \<Rightarrow> (Validation r ''cursor is invalid'' [FieldErr ''#cursor'' ''malformed cursor''], p)
             | Some afterName \<Rightarrow>
                 (case nodes_page E (p_hub p) r n afterName (ListNodes (p_db p)) [] [] of (items, nextName) \<Rightarrow>
                    (WriteJSON 200 (JObj ((''items'', JArr items) #
                       (if nextName \<noteq> [] then page_links r (encodeCursor [nextName]) else []))), p)))"

subsection \<open>Input\<close>

record node_input =
  in_Name :: string
  in_APIURL :: string
  in_APISecret :: string
  in_OutboundJSON :: "string option"
  in_ConfigURL :: string
  in_KCEKey :: string
  in_Tags :: "string list option"
  in_Enabled :: "bool option"
  in_Remark :: string

definition isHTTPURL :: "string \<Rightarrow> bool" where
  "isHTTPURL raw \<longleftrightarrow> HasPrefix raw ''http://'' \<or> HasPrefix raw ''https://''"

definition validateNodeInput :: "env \<Rightarrow> node_input \<Rightarrow> bool \<Rightarrow> validation_error list" where
  "validateNodeInput E inp forCreate =
     (if (forCreate \<or> in_Name inp \<noteq> []) \<and> (TrimSpace (in_Name inp) = [] \<or> length (TrimSpace (in_Name inp)) > 64)
      then [FieldErr ''#/name'' ''required, 1..64 characters''] else []) @
     (if (forCreate \<or> in_APIURL inp \<noteq> []) \<and> \<not> isHTTPURL (TrimRight (in_APIURL inp) ''/'')
      then [FieldErr ''#/api_url'' ''must be an http(s) URL of the node Clash API''] else []) @
     (if forCreate \<and> TrimSpace (in_APISecret inp) = [] then [FieldErr ''#/api_secret'' ''required''] else []) @
     (case in_OutboundJSON inp of None \<Rightarrow> []
      | Some ob \<Rightarrow> if TrimSpace ob \<noteq> [] \<and> \<not> ev_json_Valid E ob then [FieldErr ''#/outbound_json'' ''must be a valid JSON object''] else []) @
     (let u = TrimRight (TrimSpace (in_ConfigURL inp)) ''/'' in
      if u \<noteq> [] \<and> \<not> isHTTPURL u then [FieldErr ''#/config_url'' ''must be an http(s) URL of the encrypted config''] else [])"

definition hex_pair :: "nat \<Rightarrow> string" where
  "hex_pair v = [''0123456789abcdef'' ! (v div 16), ''0123456789abcdef'' ! (v mod 16)]"

text \<open>\<open>b\<close> are the sixteen random bytes; the version and variant bits are set.\<close>

definition newUUID :: "string \<Rightarrow> string" where
  "newUUID b =
     (let v = map of_char b :: nat list;
          v = v[6 := (v ! 6) mod 16 + 64];
          v = v[8 := (v ! 8) mod 64 + 128];
          h = concat (map hex_pair v)
      in take 8 h @ ''-'' @ take 4 (drop 8 h) @ ''-'' @ take 4 (drop 12 h) @ ''-'' @ take 4 (drop 16 h) @ ''-'' @ take 12 (drop 20 h))"

subsection \<open>Import\<close>

record import_stats =
  im_Found :: int
  im_Imported :: int
  im_Updated :: int
  im_Removed :: int
  im_Skipped :: int

text \<open>\<open>base\<close> when it is free, else the first free \<open>base #N\<close>.\<close>

definition uniqueNodeName :: "string \<Rightarrow> db \<Rightarrow> string" where
  "uniqueNodeName base d =
     (if GetNodeByName base d = Inl ErrNotFound then base else next_free base 2 (map nr_name (nodes d)))"

fun rollbackCreatedNodes :: "string list \<Rightarrow> db \<Rightarrow> db" where
  "rollbackCreatedNodes [] d = d"
| "rollbackCreatedNodes (i # is) d =
     rollbackCreatedNodes is (case DeleteNode i d of Inl _ \<Rightarrow> d | Inr d' \<Rightarrow> d')"

definition child_mode :: "(string \<rightharpoonup> string) \<Rightarrow> string \<Rightarrow> string" where
  "child_mode modes name = (case modes name of None \<Rightarrow> ''rule'' | Some m \<Rightarrow> if m = [] then ''rule'' else m)"

definition child_node :: "string \<Rightarrow> node \<Rightarrow> string \<Rightarrow> string \<Rightarrow> string \<Rightarrow> node" where
  "child_node uid anchor name sealed mode =
     \<lparr>n_ID = uid, n_Name = name, n_APIURL = [], n_APISecretEnc = [], n_OutboundEnc = sealed, n_Source = nodeSource (n_ID anchor),
      n_ConfigURL = [], n_KCEKeyEnc = [], n_Tags = n_Tags anchor, n_Enabled = n_Enabled anchor, n_Remark = [], n_Mode = mode,
      n_LatencyMs = 0, n_LatencyCheckedAt = 0, n_LatencyFailCount = 0, n_CreatedAt = 0, n_UpdatedAt = 0, n_LastOnline = 0,
      n_HasLastOnl = False\<rparr>"

record import_state =
  sy_stats :: import_stats
  sy_created :: "string list"
  sy_db :: db

definition outdated :: "env \<Rightarrow> node \<Rightarrow> string \<Rightarrow> string \<Rightarrow> bool" where
  "outdated E cur ob mode \<longleftrightarrow>
     (case decrypt E (n_OutboundEnc cur) of Inl _ \<Rightarrow> True | Inr text \<Rightarrow> text \<noteq> ob) \<or> n_Mode cur \<noteq> mode"

text \<open>One proxy of the loop; an error comes with the database after the rollback.\<close>

definition sync_proxy ::
  "env \<Rightarrow> (nat \<Rightarrow> string option) \<Rightarrow> (nat \<Rightarrow> string) \<Rightarrow> int \<Rightarrow> node \<Rightarrow> (string \<rightharpoonup> string) \<Rightarrow> (string \<times> node) list \<Rightarrow>
   nat \<times> export_node \<Rightarrow> import_state \<Rightarrow> (api_error \<times> db) + import_state" where
  "sync_proxy E nonce uid now anchor modes prevByName = (\<lambda>(i, proxy) s.
     case encrypt E (nonce i) (x_Outbound proxy) of
       Inl e \<Rightarrow> Inl (SealFailed e, rollbackCreatedNodes (sy_created s) (sy_db s))
     | Inr sealed \<Rightarrow>
         let mode = child_mode modes (x_Name proxy) in
         case map_of prevByName (x_Name proxy) of
           Some cur \<Rightarrow>
             if outdated E cur (x_Outbound proxy) mode
             then case UpdateNode (Unix now) (cur\<lparr>n_OutboundEnc := sealed, n_Mode := mode\<rparr>) (sy_db s) of
                    Inl e \<Rightarrow> Inl (StoreFailed e, rollbackCreatedNodes (sy_created s) (sy_db s))
                  | Inr (_, d) \<Rightarrow> Inr (s\<lparr>sy_stats := (sy_stats s)\<lparr>im_Updated := im_Updated (sy_stats s) + 1\<rparr>, sy_db := d\<rparr>)
             else Inr s
         | None \<Rightarrow>
             (let child = child_node (newUUID (uid i)) anchor (uniqueNodeName (x_Name proxy) (sy_db s)) sealed mode in
              case CreateNode (Unix now) child (sy_db s) of
                Inl e \<Rightarrow> Inl (StoreFailed e, rollbackCreatedNodes (sy_created s) (sy_db s))
              | Inr (_, d) \<Rightarrow> Inr (s\<lparr>sy_stats := (sy_stats s)\<lparr>im_Imported := im_Imported (sy_stats s) + 1\<rparr>,
                                   sy_created := sy_created s @ [n_ID child], sy_db := d\<rparr>)))"

fun sync_proxies ::
  "(nat \<times> export_node \<Rightarrow> import_state \<Rightarrow> (api_error \<times> db) + import_state) \<Rightarrow> (nat \<times> export_node) list \<Rightarrow> import_state \<Rightarrow>
   (api_error \<times> db) + import_state" where
  "sync_proxies f [] s = Inr s"
| "sync_proxies f (x # xs) s = (case f x s of Inl e \<Rightarrow> Inl e | Inr s' \<Rightarrow> sync_proxies f xs s')"

text \<open>The second loop removes the previous children the profile no longer names.\<close>

fun remove_gone :: "string list \<Rightarrow> (string \<times> node) list \<Rightarrow> import_state \<Rightarrow> (api_error \<times> db) + import_state" where
  "remove_gone seen [] s = Inr s"
| "remove_gone seen ((name, cur) # prev) s =
     (if name \<in> set seen then remove_gone seen prev s
      else case DeleteNode (n_ID cur) (sy_db s) of
             Inl e \<Rightarrow> Inl (StoreFailed e, rollbackCreatedNodes (sy_created s) (sy_db s))
           | Inr d \<Rightarrow> remove_gone seen prev
               (s\<lparr>sy_stats := (sy_stats s)\<lparr>im_Removed := im_Removed (sy_stats s) + 1\<rparr>, sy_db := d\<rparr>))"

definition take_first :: "env \<Rightarrow> string option \<Rightarrow> int \<Rightarrow> node \<Rightarrow> string \<Rightarrow> db \<Rightarrow> (api_error + db) \<times> node" where
  "take_first E rnd now anchor ob d =
     (case encrypt E rnd ob of
        Inl e \<Rightarrow> (Inl (SealFailed e), anchor)
      | Inr sealed \<Rightarrow>
          (let a = anchor\<lparr>n_OutboundEnc := sealed\<rparr> in
           case UpdateNode (Unix now) a d of Inl e \<Rightarrow> (Inl (StoreFailed e), a) | Inr (a', d') \<Rightarrow> (Inr d', a')))"

definition sync_children ::
  "env \<Rightarrow> (nat \<Rightarrow> string option) \<Rightarrow> (nat \<Rightarrow> string) \<Rightarrow> int \<Rightarrow> node \<Rightarrow> parsed_source \<Rightarrow> bool \<Rightarrow> db \<Rightarrow>
   (api_error + import_stats) \<times> db" where
  "sync_children E nonce uid now anchor parsed takeFirst d =
     (let prevByName = map (\<lambda>n. (n_Name n, n)) (ListNodesBySource (nodeSource (n_ID anchor)) d);
          todo = (if takeFirst then drop 1 else id) (enumerate 0 (ps_Nodes parsed));
          s0 = \<lparr>sy_stats = \<lparr>im_Found = int (length (ps_Nodes parsed)), im_Imported = 0, im_Updated = 0, im_Removed = 0,
                  im_Skipped = int (length (ps_Skipped parsed))\<rparr>, sy_created = [], sy_db = d\<rparr>
      in case sync_proxies (sync_proxy E nonce uid now anchor (ps_Modes parsed) prevByName) todo s0 of
           Inl (e, d') \<Rightarrow> (Inl e, d')
         | Inr s \<Rightarrow> (case remove_gone (map (x_Name \<circ> snd) todo) prevByName s of
                      Inl (e, d') \<Rightarrow> (Inl e, d')
                    | Inr s' \<Rightarrow> (Inr (sy_stats s'), sy_db s')))"

definition importProxiesForNode ::
  "env \<Rightarrow> (nat \<Rightarrow> string option) \<Rightarrow> (nat \<Rightarrow> string) \<Rightarrow> int \<Rightarrow> node \<Rightarrow> string \<Rightarrow> bool \<Rightarrow> db \<Rightarrow>
   (api_error + import_stats) \<times> node \<times> db" where
  "importProxiesForNode E nonce uid now anchor kceKey takeFirst d =
     (case ValidateOutboundURL (ev_url_Parse E) (ev_ParseIP E) (ev_LookupIP E) (n_ConfigURL anchor) of
        Inl e \<Rightarrow> (Inl (UnsafeConfigURL e), anchor, d)
      | Inr _ \<Rightarrow>
     (case FetchConfigSource (ev_url_Parse E) (ev_ParseIP E) (ev_LookupIP E) (ev_NewRequest E) (ev_exchange E) (ev_shake E)
             (Some SafeHTTPClient) (n_ConfigURL anchor) kceKey of
        Inl e \<Rightarrow> (Inl (FetchFailed e), anchor, d)
      | Inr raw \<Rightarrow>
     (case ParseClashConfig (ev_yaml_Unmarshal E) (ev_marshal E) raw of
        Inl e \<Rightarrow> (Inl (ParseFailed e), anchor, d)
      | Inr parsed \<Rightarrow>
          if ps_Nodes parsed = []
          then (Inr \<lparr>im_Found = 0, im_Imported = 0, im_Updated = 0, im_Removed = 0,
                    im_Skipped = int (length (ps_Skipped parsed))\<rparr>, anchor, d)
          else case (if takeFirst then take_first E (nonce (length (ps_Nodes parsed))) now anchor (x_Outbound (hd (ps_Nodes parsed))) d
                     else (Inr d, anchor)) of
            (Inl e, a) \<Rightarrow> (Inl e, a, d)
          | (Inr d1, a) \<Rightarrow> (case sync_children E nonce uid now a parsed takeFirst d1 of (res, d2) \<Rightarrow> (res, a, d2)))))"

definition import_detail :: "env \<Rightarrow> api_error \<Rightarrow> string" where
  "import_detail E e =
     (case e of FetchFailed ErrKeyRequired \<Rightarrow> ''payload is KCE1 encrypted; a decryption key is required''
      | FetchFailed fe \<Rightarrow> ''fetch failed: '' @ ev_errorText E (FetchFailed fe)
      | _ \<Rightarrow> ev_errorText E e)"

subsection \<open>Creating, reading, patching and deleting\<close>

definition stats_json :: "import_stats \<Rightarrow> json" where
  "stats_json st = JObj [(''found'', JInt (im_Found st)), (''imported'', JInt (im_Imported st)), (''updated'', JInt (im_Updated st)),
     (''removed'', JInt (im_Removed st)), (''skipped'', JInt (im_Skipped st))]"

definition nodeImportResponse :: "env \<Rightarrow> node \<Rightarrow> import_stats option \<Rightarrow> json" where
  "nodeImportResponse E n imp =
     JObj (viewNode E n False @ (case imp of None \<Rightarrow> [] | Some st \<Rightarrow> [(''import'', stats_json st)]))"

definition idem_key :: "request \<Rightarrow> string option" where
  "idem_key r =
     (let key = Get (rq_Header r) ''Idempotency-Key'';
          userID = (case rq_ctxUserID r of None \<Rightarrow> 0 | Some u \<Rightarrow> u)
      in if key = [] then None else Some (''create-node:'' @ Itoa userID @ '':'' @ key))"

text \<open>Nonces 0 to 2 seal the secret, the outbound and the key of the profile; the import draws the later ones.\<close>

definition input_node :: "env \<Rightarrow> (nat \<Rightarrow> string option) \<Rightarrow> string \<Rightarrow> node_input \<Rightarrow> crypto_error + node" where
  "input_node E nonce uid inp =
     (case encrypt E (nonce 0) (in_APISecret inp) of Inl e \<Rightarrow> Inl e
      | Inr secretEnc \<Rightarrow>
     (case (case in_OutboundJSON inp of None \<Rightarrow> Inr []
            | Some ob \<Rightarrow> if TrimSpace ob \<noteq> [] then encrypt E (nonce 1) (TrimSpace ob) else Inr []) of Inl e \<Rightarrow> Inl e
      | Inr outboundEnc \<Rightarrow>
          let configURL = TrimRight (TrimSpace (in_ConfigURL inp)) ''/'' in
          case (if configURL \<noteq> [] then encrypt E (nonce 2) (in_KCEKey inp) else Inr []) of Inl e \<Rightarrow> Inl e
          | Inr kceKeyEnc \<Rightarrow>
              Inr \<lparr>n_ID = newUUID uid, n_Name = in_Name inp, n_APIURL = TrimRight (in_APIURL inp) ''/'', n_APISecretEnc = secretEnc,
                   n_OutboundEnc = outboundEnc, n_Source = [], n_ConfigURL = configURL, n_KCEKeyEnc = kceKeyEnc,
                   n_Tags = orEmpty (in_Tags inp), n_Enabled = (in_Enabled inp \<noteq> Some False), n_Remark = in_Remark inp, n_Mode = [],
                   n_LatencyMs = 0, n_LatencyCheckedAt = 0, n_LatencyFailCount = 0, n_CreatedAt = 0, n_UpdatedAt = 0,
                   n_LastOnline = 0, n_HasLastOnl = False\<rparr>))"

definition finish_create :: "env \<Rightarrow> int \<Rightarrow> request \<Rightarrow> node \<Rightarrow> import_stats option \<Rightarrow> panel \<Rightarrow> response \<times> panel" where
  "finish_create E now r n imp p =
     (let p1 = reload_hub E now p;
          raw = (case ev_marshal E (nodeImportResponse E n imp) of None \<Rightarrow> [] | Some t \<Rightarrow> t);
          loc = ''/nodes/'' @ n_ID n;
          p2 = (case idem_key r of None \<Rightarrow> p1
                | Some k \<Rightarrow> p1\<lparr>p_idem := idem_put now k
                    \<lparr>ie_created = now, ie_status = 201, ie_location = loc, ie_body = raw,
                     ie_userID = (case rq_ctxUserID r of None \<Rightarrow> 0 | Some u \<Rightarrow> u), ie_opHash = []\<rparr> (p_idem p1)\<rparr>)
      in (setHeader ''Location'' loc (WriteRawJSON 201 raw), p2))"

definition handleCreateNode ::
  "env \<Rightarrow> node_input decoder \<Rightarrow> (nat \<Rightarrow> string option) \<Rightarrow> (nat \<Rightarrow> string) \<Rightarrow> int \<Rightarrow> handler" where
  "handleCreateNode E dec nonce uid now r p =
     (case (case idem_key r of None \<Rightarrow> None | Some k \<Rightarrow> idem_get now k (p_idem p)) of
        Some entry \<Rightarrow> (setHeader ''Location'' (ie_location entry) (WriteRawJSON (ie_status entry) (ie_body entry)), p)
      | None \<Rightarrow>
     (case DecodeJSON (ev_ParseMediaType E) dec r of Inl resp \<Rightarrow> (resp, p)
      | Inr inp \<Rightarrow>
          if validateNodeInput E inp True \<noteq> []
          then (Validation r ''node input failed validation'' (validateNodeInput E inp True), p)
          else case input_node E nonce (uid 0) inp of Inl _ \<Rightarrow> (Internal r, p)
          | Inr n0 \<Rightarrow>
              (case CreateNode (Unix now) n0 (p_db p) of
                 Inl e \<Rightarrow> (if isUniqueViolation e then Conflict r ''a node with this name already exists'' else Internal r, p)
               | Inr (n, d) \<Rightarrow>
                   if n_ConfigURL n = [] then finish_create E now r n None (p\<lparr>p_db := d\<rparr>)
                   else case importProxiesForNode E (\<lambda>i. nonce (i + 3)) (\<lambda>i. uid (i + 1)) now n (in_KCEKey inp) (n_OutboundEnc n = []) d of
                     (Inl e, _, d') \<Rightarrow> (WriteProblem r 502 (prob ''upstream-unavailable'') (import_detail E e) [], p\<lparr>p_db := d'\<rparr>)
                   | (Inr st, n', d') \<Rightarrow> finish_create E now r n' (Some st) (p\<lparr>p_db := d'\<rparr>))))"

definition nodeETag :: "int \<Rightarrow> string" where
  "nodeETag updatedAt = ''\"node-v1-'' @ Itoa updatedAt @ ''\"''"

definition handleGetNode :: "env \<Rightarrow> handler" where
  "handleGetNode E r p =
     (case nodeOr404 r (p_db p) of Inl resp \<Rightarrow> (resp, p)
      | Inr n \<Rightarrow> (setHeader ''ETag'' (nodeETag (n_UpdatedAt n))
                   (WriteJSON 200 (JObj (viewNode E n (Get (rq_Query r) ''include'' = ''outbound'')))), p))"

text \<open>Decoding a member of the patch into a field of the node: \<^verbatim>\<open>null\<close> leaves the field as it is.\<close>

definition into_string :: "json \<Rightarrow> string \<Rightarrow> string option" where
  "into_string v old = (case v of JStr s \<Rightarrow> Some s | JNull \<Rightarrow> Some old | _ \<Rightarrow> None)"

definition into_bool :: "json \<Rightarrow> bool \<Rightarrow> bool option" where
  "into_bool v old = (case v of JBool b \<Rightarrow> Some b | JNull \<Rightarrow> Some old | _ \<Rightarrow> None)"

definition into_strings :: "json \<Rightarrow> string list option" where
  "into_strings v = (case v of JNull \<Rightarrow> Some []
     | JArr xs \<Rightarrow> all_some (map (\<lambda>x. into_string x []) xs) | _ \<Rightarrow> None)"

text \<open>A member that is present and not \<^verbatim>\<open>null\<close>.\<close>

definition given :: "json_map \<Rightarrow> string \<Rightarrow> json option" where
  "given patch k = (case map_of patch k of None \<Rightarrow> None | Some JNull \<Rightarrow> None | Some v \<Rightarrow> Some v)"

definition patch_name :: "env \<Rightarrow> json_map \<Rightarrow> node \<Rightarrow> string + node" where
  "patch_name E patch n = (case given patch ''name'' of None \<Rightarrow> Inr n
     | Some v \<Rightarrow> (case into_string v (n_Name n) of None \<Rightarrow> Inl (''field name: '' @ ev_errorText E (FieldType ''name'' v))
       | Some s \<Rightarrow> let t = TrimSpace s in if t = [] \<or> length t > 64 then Inl ''field name must be 1..64 characters''
                  else Inr (n\<lparr>n_Name := t\<rparr>)))"

definition patch_api_url :: "env \<Rightarrow> json_map \<Rightarrow> node \<Rightarrow> string + node" where
  "patch_api_url E patch n = (case given patch ''api_url'' of None \<Rightarrow> Inr n
     | Some v \<Rightarrow> (case into_string v (n_APIURL n) of None \<Rightarrow> Inl (''field api_url: '' @ ev_errorText E (FieldType ''api_url'' v))
       | Some s \<Rightarrow> if \<not> isHTTPURL s then Inl ''field api_url must be an http(s) URL''
                  else Inr (n\<lparr>n_APIURL := TrimRight s ''/''\<rparr>)))"

definition patch_api_secret :: "env \<Rightarrow> string option \<Rightarrow> json_map \<Rightarrow> node \<Rightarrow> string + node" where
  "patch_api_secret E rnd patch n = (case given patch ''api_secret'' of None \<Rightarrow> Inr n
     | Some v \<Rightarrow> (case into_string v [] of None \<Rightarrow> Inl (''field api_secret: '' @ ev_errorText E (FieldType ''api_secret'' v))
       | Some s \<Rightarrow> (case encrypt E rnd s of Inl e \<Rightarrow> Inl (ev_errorText E (SealFailed e)) | Inr x \<Rightarrow> Inr (n\<lparr>n_APISecretEnc := x\<rparr>))))"

definition patch_outbound :: "env \<Rightarrow> string option \<Rightarrow> json_map \<Rightarrow> node \<Rightarrow> string + node" where
  "patch_outbound E rnd patch n = (case map_of patch ''outbound_json'' of None \<Rightarrow> Inr n
     | Some JNull \<Rightarrow> Inr (n\<lparr>n_OutboundEnc := []\<rparr>)
     | Some v \<Rightarrow> (case into_string v [] of None \<Rightarrow> Inl (''field outbound_json: '' @ ev_errorText E (FieldType ''outbound_json'' v))
       | Some s \<Rightarrow> (case encrypt E rnd (TrimSpace s) of Inl e \<Rightarrow> Inl (ev_errorText E (SealFailed e))
                   | Inr x \<Rightarrow> Inr (n\<lparr>n_OutboundEnc := x\<rparr>))))"

definition patch_tags :: "env \<Rightarrow> json_map \<Rightarrow> node \<Rightarrow> string + node" where
  "patch_tags E patch n = (case given patch ''tags'' of None \<Rightarrow> Inr n
     | Some v \<Rightarrow> (case into_strings v of None \<Rightarrow> Inl (''field tags: '' @ ev_errorText E (FieldType ''tags'' v))
       | Some ts \<Rightarrow> Inr (n\<lparr>n_Tags := ts\<rparr>)))"

definition patch_enabled :: "env \<Rightarrow> json_map \<Rightarrow> node \<Rightarrow> string + node" where
  "patch_enabled E patch n = (case given patch ''enabled'' of None \<Rightarrow> Inr n
     | Some v \<Rightarrow> (case into_bool v (n_Enabled n) of None \<Rightarrow> Inl (''field enabled: '' @ ev_errorText E (FieldType ''enabled'' v))
       | Some b \<Rightarrow> Inr (n\<lparr>n_Enabled := b\<rparr>)))"

definition patch_remark :: "env \<Rightarrow> json_map \<Rightarrow> node \<Rightarrow> string + node" where
  "patch_remark E patch n = (case given patch ''remark'' of None \<Rightarrow> Inr n
     | Some v \<Rightarrow> (case into_string v (n_Remark n) of None \<Rightarrow> Inl (''field remark: '' @ ev_errorText E (FieldType ''remark'' v))
       | Some s \<Rightarrow> Inr (n\<lparr>n_Remark := s\<rparr>)))"

fun chain :: "(node \<Rightarrow> string + node) list \<Rightarrow> node \<Rightarrow> string + node" where
  "chain [] n = Inr n"
| "chain (f # fs) n = (case f n of Inl e \<Rightarrow> Inl e | Inr n' \<Rightarrow> chain fs n')"

definition applyNodePatch :: "env \<Rightarrow> (nat \<Rightarrow> string option) \<Rightarrow> json_map \<Rightarrow> node \<Rightarrow> string + node" where
  "applyNodePatch E nonce patch =
     chain [patch_name E patch, patch_api_url E patch, patch_api_secret E (nonce 0) patch, patch_outbound E (nonce 1) patch,
            patch_tags E patch, patch_enabled E patch, patch_remark E patch]"

text \<open>The members that drive an import; the first component says whether one was present.\<close>

definition patch_config_url :: "env \<Rightarrow> request \<Rightarrow> json_map \<Rightarrow> node \<Rightarrow> response + node" where
  "patch_config_url E r patch n = (case map_of patch ''config_url'' of None \<Rightarrow> Inr n
     | Some JNull \<Rightarrow> Inr (n\<lparr>n_ConfigURL := [], n_KCEKeyEnc := []\<rparr>)
     | Some v \<Rightarrow> (case into_string v (n_ConfigURL n) of
         None \<Rightarrow> Inl (Validation r (''field config_url: '' @ ev_errorText E (FieldType ''config_url'' v)) [])
       | Some s \<Rightarrow> let u = TrimRight (TrimSpace s) ''/'' in
           if u \<noteq> [] \<and> \<not> isHTTPURL u then Inl (Validation r ''field config_url must be an http(s) URL'' [])
           else Inr (n\<lparr>n_ConfigURL := u\<rparr>)))"

definition patch_kce_key :: "env \<Rightarrow> string option \<Rightarrow> request \<Rightarrow> json_map \<Rightarrow> node \<Rightarrow> response + string \<times> node" where
  "patch_kce_key E rnd r patch n = (case map_of patch ''kce_key'' of None \<Rightarrow> Inr ([], n)
     | Some v \<Rightarrow> (case into_string v [] of
         None \<Rightarrow> Inl (Validation r (''field kce_key: '' @ ev_errorText E (FieldType ''kce_key'' v)) [])
       | Some kceKey \<Rightarrow> (case encrypt E rnd kceKey of Inl _ \<Rightarrow> Inl (Internal r) | Inr x \<Rightarrow> Inr (kceKey, n\<lparr>n_KCEKeyEnc := x\<rparr>))))"

text \<open>The node and key a patch asks for, or the refusal; nothing is stored yet.\<close>

definition patched_node :: "env \<Rightarrow> (nat \<Rightarrow> string option) \<Rightarrow> request \<Rightarrow> json_map \<Rightarrow> node \<Rightarrow> response + string \<times> node" where
  "patched_node E nonce r patch n =
     (case patch_config_url E r patch n of Inl resp \<Rightarrow> Inl resp
      | Inr n1 \<Rightarrow> (case patch_kce_key E (nonce 2) r patch n1 of Inl resp \<Rightarrow> Inl resp
      | Inr (kceKey, n2) \<Rightarrow> (case applyNodePatch E nonce patch n2 of Inl e \<Rightarrow> Inl (Validation r e []) | Inr n3 \<Rightarrow> Inr (kceKey, n3))))"

definition node_precondition :: "request \<Rightarrow> node \<Rightarrow> response option" where
  "node_precondition r n =
     (let ifMatch = Get (rq_Header r) ''If-Match'' in
      if ifMatch = [] then Some (WriteProblem r 428 (prob ''precondition-required'') ''If-Match header is required'' [])
      else if ifMatch \<noteq> nodeETag (n_UpdatedAt n)
      then Some (WriteProblem r 412 (prob ''precondition-failed'') ''etag mismatch; refresh and retry'' []) else None)"

definition finish_update :: "env \<Rightarrow> int \<Rightarrow> request \<Rightarrow> string \<Rightarrow> import_stats option \<Rightarrow> panel \<Rightarrow> response \<times> panel" where
  "finish_update E now r i imp p =
     (let p1 = reload_hub E now p in
      case GetNode i (p_db p1) of
        Inl _ \<Rightarrow> (Internal r, p1)
      | Inr n \<Rightarrow> (setHeader ''ETag'' (nodeETag (n_UpdatedAt n)) (WriteJSON 200 (nodeImportResponse E n imp)), p1))"

definition handleUpdateNode ::
  "env \<Rightarrow> json_map decoder \<Rightarrow> (nat \<Rightarrow> string option) \<Rightarrow> (nat \<Rightarrow> string) \<Rightarrow> int \<Rightarrow> handler" where
  "handleUpdateNode E dec nonce uid now r p =
     (case nodeOr404 r (p_db p) of Inl resp \<Rightarrow> (resp, p)
      | Inr n0 \<Rightarrow>
     (case node_precondition r n0 of Some resp \<Rightarrow> (resp, p)
      | None \<Rightarrow>
     (case DecodeJSON (ev_ParseMediaType E) dec r of Inl resp \<Rightarrow> (resp, p)
      | Inr patch \<Rightarrow>
     (case patched_node E nonce r patch n0 of Inl resp \<Rightarrow> (resp, p)
      | Inr (kceKey, n1) \<Rightarrow>
     (case UpdateNode (Unix now) n1 (p_db p) of
        Inl e \<Rightarrow> (if e = ErrNotFound then NotFound r ''node not found''
                 else if isUniqueViolation e then Conflict r ''a node with this name already exists'' else Internal r, p)
      | Inr (n, d) \<Rightarrow>
          let importRequested = (map_of patch ''config_url'' \<noteq> None \<or> map_of patch ''kce_key'' \<noteq> None);
              manualOutbound = (map_of patch ''outbound_json'' \<noteq> None)
          in if importRequested \<and> n_ConfigURL n \<noteq> []
             then case importProxiesForNode E (\<lambda>i. nonce (i + 3)) uid now n kceKey (\<not> manualOutbound) d of
                    (Inl e, _, d') \<Rightarrow> (WriteProblem r 502 (prob ''upstream-unavailable'') (import_detail E e) [], p\<lparr>p_db := d'\<rparr>)
                  | (Inr st, _, d') \<Rightarrow> finish_update E now r (n_ID n) (Some st) (p\<lparr>p_db := d'\<rparr>)
             else finish_update E now r (n_ID n) None (p\<lparr>p_db := d\<rparr>))))))"

fun delete_children :: "node list \<Rightarrow> db \<Rightarrow> db" where
  "delete_children [] d = d"
| "delete_children (c # cs) d = delete_children cs (case DeleteNode (n_ID c) d of Inl _ \<Rightarrow> d | Inr d' \<Rightarrow> d')"

definition handleDeleteNode :: "env \<Rightarrow> int \<Rightarrow> handler" where
  "handleDeleteNode E now r p =
     (case nodeOr404 r (p_db p) of Inl resp \<Rightarrow> (resp, p)
      | Inr n \<Rightarrow>
          let d1 = delete_children (ListNodesBySource (nodeSource (n_ID n)) (p_db p)) (p_db p) in
          case DeleteNode (n_ID n) d1 of
            Inl _ \<Rightarrow> (Internal r, p\<lparr>p_db := d1\<rparr>)
          | Inr d2 \<Rightarrow> (NoContent, reload_hub E now (p\<lparr>p_db := d2\<rparr>)))"

end
