(* ===== verification/Api_Import.thy ===== *)
theory Api_Import
  imports Api_Nodes
begin

text \<open>
  Correctness of the profile import of \<^verbatim>\<open>api/nodes.go\<close>. Every edit of the import is a store
  operation on the anchor or on one of its children, also when it fails and rolls back; when
  it succeeds, the children are exactly the proxies of the profile.
\<close>

subsection \<open>Node operations on the rows\<close>

lemma CreateNode_rows:
  assumes "CreateNode now n d = Inr (n', d')"
  shows "nodes d' = nodes d @ [node_columns (n\<lparr>n_CreatedAt := now, n_UpdatedAt := now\<rparr>) now now 0]"
    and "n_ID n \<notin> nr_id ` set (nodes d)" and "n' = n\<lparr>n_CreatedAt := now, n_UpdatedAt := now\<rparr>"
  using assms by (auto simp: CreateNode_def Let_def list_ex_key split: if_splits)

lemma UpdateNode_rows:
  assumes "UpdateNode now n d = Inr (n', d')"
  shows "nodes d' = update_where (\<lambda>r. nr_id r = n_ID n)
     (\<lambda>r. node_columns (n\<lparr>n_UpdatedAt := now\<rparr>) (nr_created_at r) now (nr_last_online_at r)) (nodes d)"
    and "n' = n\<lparr>n_UpdatedAt := now\<rparr>"
  using assms by (auto simp: UpdateNode_def Let_def requireAffected_def split: if_splits)

lemma UpdateNode_ids: "UpdateNode now n d = Inr (n', d') \<Longrightarrow> nr_id ` set (nodes d') = nr_id ` set (nodes d)"
proof -
  assume "UpdateNode now n d = Inr (n', d')"
  then have "map nr_id (nodes d') = map nr_id (nodes d)"
    unfolding UpdateNode_rows(1) [OF \<open>UpdateNode now n d = Inr (n', d')\<close>] by (intro map_key_update_where) simp
  then show ?thesis by (metis list.set_map)
qed

lemma DeleteNode_rows:
  assumes "DeleteNode i d = Inr d'"
  shows "nodes d' = filter (\<lambda>r. nr_id r \<noteq> i) (nodes d)"
  using assms by (auto simp: DeleteNode_def delete_where_def split: sum.splits)

lemma DeleteNode_exists: "node_exists i d \<longleftrightarrow> (\<exists>d'. DeleteNode i d = Inr d')"
  by (auto simp: DeleteNode_def requireAffected_def affected_0 node_exists_def list_ex_iff split: sum.splits if_splits)

lemma node_columns_source [simp]:
  "nr_source (node_columns n c u l) = n_Source n" "nr_mode (node_columns n c u l) = n_Mode n"
  "nr_outbound_enc (node_columns n c u l) = n_OutboundEnc n"
  by (simp_all add: node_columns_def)

lemma scanNode_fields [simp]:
  "n_ID (scanNode r) = nr_id r" "n_Name (scanNode r) = nr_name r" "n_Source (scanNode r) = nr_source r"
  "n_OutboundEnc (scanNode r) = nr_outbound_enc r" "n_Mode (scanNode r) = nr_mode r"
  by (simp_all add: scanNode_def)

lemma child_node_fields [simp]:
  "n_ID (child_node u a nm s m) = u" "n_Name (child_node u a nm s m) = nm" "n_OutboundEnc (child_node u a nm s m) = s"
  "n_Source (child_node u a nm s m) = nodeSource (n_ID a)" "n_Mode (child_node u a nm s m) = m"
  by (simp_all add: child_node_def)

lemma uniqueNodeName_fresh:
  "uniqueNodeName base d \<notin> nr_name ` set (nodes d)" "HasPrefix (uniqueNodeName base d) base"
proof -
  have "GetNodeByName base d = Inl ErrNotFound \<longleftrightarrow> base \<notin> nr_name ` set (nodes d)"
    by (auto simp: GetNodeByName_def row_with_None [symmetric] split: option.splits)
  with next_free_fresh [of base 2 "map nr_name (nodes d)"]
  show "uniqueNodeName base d \<notin> nr_name ` set (nodes d)" "HasPrefix (uniqueNodeName base d) base"
    by (auto simp: uniqueNodeName_def HasPrefix_def)
qed

lemma decrypt_encrypt:
  assumes "ev_newGCM E (ev_cryptoKey E) = Some g" and "aead_ok g" and "\<forall>n. rnd = Some n \<longrightarrow> length n = NonceSize g"
    and "encrypt E rnd text = Inr sealed"
  shows "decrypt E sealed = Inr text"
proof (cases "text = []")
  case True
  with assms(4) show ?thesis by (simp add: encrypt_def decrypt_def Encrypt_def Decrypt_def)
next
  case False
  with assms Decrypt_sealed [of "ev_newGCM E" "ev_cryptoKey E" g] show ?thesis
    by (auto simp: encrypt_def decrypt_def Encrypt_def split: option.splits)
qed

subsection \<open>Edits of an anchor's children\<close>

text \<open>
  An edit on behalf of an anchor: a sequence of store steps after which every row that is
  neither the anchor nor one of its children is as before, in the same order. An id belongs to
  the children when no row with it has another source.
\<close>

definition child_id :: "string \<Rightarrow> string \<Rightarrow> db \<Rightarrow> bool" where
  "child_id sc i d \<longleftrightarrow> (\<forall>row \<in> set (nodes d). nr_id row = i \<longrightarrow> nr_source row = sc)"

definition unrelated :: "string \<Rightarrow> string \<Rightarrow> node_row \<Rightarrow> bool" where
  "unrelated aid sc row \<longleftrightarrow> nr_id row \<noteq> aid \<and> nr_source row \<noteq> sc"

definition anchored_edit :: "string \<Rightarrow> string \<Rightarrow> db \<Rightarrow> db \<Rightarrow> bool" where
  "anchored_edit aid sc d d' \<longleftrightarrow> store_steps d d' \<and>
     filter (unrelated aid sc) (nodes d') = filter (unrelated aid sc) (nodes d) \<and>
     (\<forall>i. child_id sc i d \<longrightarrow> child_id sc i d')"

lemma anchored_refl: "anchored_edit aid sc d d"
  by (simp add: anchored_edit_def)

lemma anchored_trans: "anchored_edit aid sc d d' \<Longrightarrow> anchored_edit aid sc d' d'' \<Longrightarrow> anchored_edit aid sc d d''"
  by (auto simp: anchored_edit_def)

lemma filter_update_where_same:
  "(\<And>r. r \<in> set rows \<Longrightarrow> p r \<Longrightarrow> \<not> P r \<and> \<not> P (f r)) \<Longrightarrow> filter P (update_where p f rows) = filter P rows"
  by (induction rows) auto

lemma anchored_create:
  assumes "CreateNode now n d = Inr (n', d')" and "n_Source n = sc"
  shows "anchored_edit aid sc d d'"
  using then_step [OF st_create_node [OF assms(1)] rtranclp.rtrancl_refl] CreateNode_rows(1) [OF assms(1)] assms(2)
  by (auto simp: anchored_edit_def unrelated_def child_id_def)

lemma anchored_update:
  assumes "UpdateNode now n d = Inr (n', d')" and "n_Source n = sc" and "child_id sc (n_ID n) d"
  shows "anchored_edit aid sc d d'"
proof -
  have "filter (unrelated aid sc) (nodes d') = filter (unrelated aid sc) (nodes d)"
    unfolding UpdateNode_rows(1) [OF assms(1)]
    by (rule filter_update_where_same) (use assms in \<open>auto simp: unrelated_def child_id_def\<close>)
  moreover have "child_id sc i d'" if "child_id sc i d" for i
    using that assms(2) by (auto simp: child_id_def UpdateNode_rows(1) [OF assms(1)] set_update_where)
  ultimately show ?thesis
    using then_step [OF st_update_node [OF assms(1)] rtranclp.rtrancl_refl] by (simp add: anchored_edit_def)
qed

lemma anchored_delete:
  assumes "DeleteNode i d = Inr d'" and "child_id sc i d"
  shows "anchored_edit aid sc d d'"
proof -
  have "filter (unrelated aid sc) (nodes d') = filter (unrelated aid sc) (nodes d)"
    unfolding DeleteNode_rows [OF assms(1)] filter_filter
    by (rule filter_cong) (use assms(2) in \<open>auto simp: unrelated_def child_id_def\<close>)
  moreover have "child_id sc j d'" if "child_id sc j d" for j
    using that by (auto simp: child_id_def DeleteNode_rows [OF assms(1)])
  ultimately show ?thesis
    using then_step [OF st_delete_node [OF assms(1)] rtranclp.rtrancl_refl] by (simp add: anchored_edit_def)
qed

lemma rollback_anchored: "\<forall>i \<in> set cs. child_id sc i d \<Longrightarrow> anchored_edit aid sc d (rollbackCreatedNodes cs d)"
proof (induction cs arbitrary: d)
  case (Cons i cs)
  define d1 where "d1 = (case DeleteNode i d of Inl _ \<Rightarrow> d | Inr d' \<Rightarrow> d')"
  have a: "anchored_edit aid sc d d1"
    using Cons.prems anchored_delete by (cases "DeleteNode i d") (auto simp: d1_def anchored_refl)
  then have "\<forall>j \<in> set cs. child_id sc j d1" using Cons.prems by (auto simp: anchored_edit_def)
  from anchored_trans [OF a Cons.IH [OF this]] show ?case by (simp add: d1_def)
qed (simp add: anchored_refl)

lemma rollback_ids: "nr_id ` set (nodes (rollbackCreatedNodes cs d)) = nr_id ` set (nodes d) - set cs"
proof (induction cs arbitrary: d)
  case (Cons i cs)
  have "nr_id ` set (nodes (case DeleteNode i d of Inl _ \<Rightarrow> d | Inr d' \<Rightarrow> d')) = nr_id ` set (nodes d) - {i}"
  proof (cases "DeleteNode i d")
    case (Inl e)
    then have "\<not> node_exists i d" using DeleteNode_exists by auto
    with Inl show ?thesis by (simp add: node_exists_iff)
  qed (auto simp: DeleteNode_rows)
  with Cons show ?case by auto
qed simp

text \<open>The two loops, on success and on failure; \<open>i0\<close> are the ids before the import.\<close>

definition loop_ok :: "string \<Rightarrow> string \<Rightarrow> db \<Rightarrow> (string \<times> node) list \<Rightarrow> import_state \<Rightarrow> bool" where
  "loop_ok aid sc d0 prev s \<longleftrightarrow> anchored_edit aid sc d0 (sy_db s) \<and>
     (\<forall>i \<in> set (sy_created s). child_id sc i (sy_db s)) \<and>
     (\<forall>(name, cur) \<in> set prev. n_Source cur = sc \<and> child_id sc (n_ID cur) (sy_db s)) \<and>
     nr_id ` set (nodes (sy_db s)) \<subseteq> nr_id ` set (nodes d0) \<union> set (sy_created s)"

definition failed_ok :: "string \<Rightarrow> string \<Rightarrow> db \<Rightarrow> db \<Rightarrow> bool" where
  "failed_ok aid sc d0 d \<longleftrightarrow> anchored_edit aid sc d0 d \<and> nr_id ` set (nodes d) \<subseteq> nr_id ` set (nodes d0)"

lemma rollback_failed: "loop_ok aid sc d0 prev s \<Longrightarrow> failed_ok aid sc d0 (rollbackCreatedNodes (sy_created s) (sy_db s))"
  using rollback_anchored [of "sy_created s" sc "sy_db s" aid] rollback_ids [of "sy_created s" "sy_db s"]
  by (auto simp: loop_ok_def failed_ok_def intro: anchored_trans)

lemma loop_ok_step:
  assumes "loop_ok aid sc d0 prev s" and "anchored_edit aid sc (sy_db s) d"
    and "nr_id ` set (nodes d) \<subseteq> nr_id ` set (nodes (sy_db s)) \<union> set new" and "\<forall>i \<in> set new. child_id sc i d"
  shows "loop_ok aid sc d0 prev (s\<lparr>sy_stats := st, sy_created := sy_created s @ new, sy_db := d\<rparr>)"
proof -
  have "\<forall>i. child_id sc i (sy_db s) \<longrightarrow> child_id sc i d" using assms(2) by (simp add: anchored_edit_def)
  moreover have "nr_id ` set (nodes d) \<subseteq> nr_id ` set (nodes d0) \<union> set (sy_created s @ new)"
    using assms(1,3) unfolding loop_ok_def set_append by blast
  ultimately show ?thesis
    using assms(1,2,4) anchored_trans [of aid sc d0 "sy_db s" d] unfolding loop_ok_def by (auto split: prod.splits)
qed

lemma sync_proxy_ok:
  assumes "loop_ok aid sc d0 prev s" and "sc = nodeSource (n_ID anchor)"
  shows "case sync_proxy E nonce uid now anchor modes prev ip s of
    Inl (e, d) \<Rightarrow> failed_ok aid sc d0 d | Inr s' \<Rightarrow> loop_ok aid sc d0 prev s'"
proof -
  obtain i proxy where ip: "ip = (i, proxy)" by force
  note fail = rollback_failed [OF assms(1)]
  show ?thesis
  proof (cases "encrypt E (nonce i) (x_Outbound proxy)")
    case (Inl e)
    with fail show ?thesis by (simp add: sync_proxy_def ip)
  next
    case sealed: (Inr sealed)
    let ?mode = "child_mode modes (x_Name proxy)"
    show ?thesis
    proof (cases "map_of prev (x_Name proxy)")
      case (Some cur)
      let ?n = "cur\<lparr>n_OutboundEnc := sealed, n_Mode := ?mode\<rparr>"
      from Some have cur: "n_Source cur = sc" "child_id sc (n_ID cur) (sy_db s)"
        using assms(1) by (auto simp: loop_ok_def dest!: map_of_SomeD)
      show ?thesis
      proof (cases "UpdateNode (Unix now) ?n (sy_db s)")
        case (Inl e)
        with fail sealed Some assms(1) show ?thesis by (simp add: sync_proxy_def ip Let_def)
      next
        case (Inr nd)
        obtain n' d where nd: "nd = (n', d)" by force
        have "anchored_edit aid sc (sy_db s) d"
          using anchored_update [of "Unix now" ?n "sy_db s"] Inr nd cur by simp
        moreover have "nr_id ` set (nodes d) \<subseteq> nr_id ` set (nodes (sy_db s))"
          using UpdateNode_ids [of "Unix now" ?n "sy_db s"] Inr nd by simp
        ultimately have "loop_ok aid sc d0 prev (s\<lparr>sy_stats := st, sy_db := d\<rparr>)" for st
          using loop_ok_step [OF assms(1), of d "[]" st] by simp
        with sealed Some Inr nd assms(1) show ?thesis by (simp add: sync_proxy_def ip Let_def)
      qed
    next
      case None
      let ?c = "child_node (newUUID (uid i)) anchor (uniqueNodeName (x_Name proxy) (sy_db s)) sealed ?mode"
      show ?thesis
      proof (cases "CreateNode (Unix now) ?c (sy_db s)")
        case (Inl e)
        with fail sealed None show ?thesis by (simp add: sync_proxy_def ip Let_def)
      next
        case (Inr nd)
        obtain n' d where nd: "nd = (n', d)" by force
        note rows = CreateNode_rows [OF Inr [unfolded nd]]
        have "anchored_edit aid sc (sy_db s) d"
          using anchored_create Inr nd assms(2) by simp
        moreover have "nr_id ` set (nodes d) \<subseteq> nr_id ` set (nodes (sy_db s)) \<union> set [newUUID (uid i)]"
          using rows(1) by auto
        moreover have "child_id sc (newUUID (uid i)) d" using rows(1,2) assms(2) by (force simp: child_id_def)
        ultimately show ?thesis
          using loop_ok_step [OF assms(1), of d "[newUUID (uid i)]"] sealed None Inr nd
          by (simp add: sync_proxy_def ip Let_def)
      qed
    qed
  qed
qed

lemma sync_proxies_ok:
  assumes "loop_ok aid sc d0 prev s" and "sc = nodeSource (n_ID anchor)"
  shows "case sync_proxies (sync_proxy E nonce uid now anchor modes prev) xs s of
    Inl (e, d) \<Rightarrow> failed_ok aid sc d0 d | Inr s' \<Rightarrow> loop_ok aid sc d0 prev s'"
  using assms(1)
proof (induction xs arbitrary: s)
  case (Cons x xs)
  from sync_proxy_ok [OF Cons.prems assms(2), of E nonce uid now modes x] Cons.IH show ?case
    by (cases "sync_proxy E nonce uid now anchor modes prev x s") auto
qed simp

lemma remove_gone_ok:
  assumes "loop_ok aid sc d0 prev0 s" and "set prev \<subseteq> set prev0"
  shows "case remove_gone seen prev s of Inl (e, d) \<Rightarrow> failed_ok aid sc d0 d | Inr s' \<Rightarrow> loop_ok aid sc d0 prev0 s'"
  using assms
proof (induction prev arbitrary: s)
  case (Cons nc prev)
  obtain name cur where nc: "nc = (name, cur)" by force
  have c: "child_id sc (n_ID cur) (sy_db s)" using Cons.prems nc by (auto simp: loop_ok_def)
  show ?case
  proof (cases "name \<in> set seen")
    case True
    with Cons nc show ?thesis by simp
  next
    case False
    show ?thesis
    proof (cases "DeleteNode (n_ID cur) (sy_db s)")
      case (Inl e)
      with False nc rollback_failed [OF Cons.prems(1)] show ?thesis by simp
    next
      case (Inr d)
      have "loop_ok aid sc d0 prev0 (s\<lparr>sy_stats := st, sy_db := d\<rparr>)" for st
        using loop_ok_step [OF Cons.prems(1) anchored_delete [OF Inr c], of "[]" st] DeleteNode_rows [OF Inr] by auto
      with False nc Inr Cons show ?thesis by simp
    qed
  qed
qed simp

lemma ListNodesBySource_in:
  "n \<in> set (ListNodesBySource sc d) \<longleftrightarrow> (\<exists>row \<in> set (nodes d). nr_source row = sc \<and> n = scanNode row)"
  by (auto simp: ListNodesBySource_def)

lemma loop_ok_start:
  assumes "db_ok d" and "prev = map (\<lambda>n. (n_Name n, n)) (ListNodesBySource sc d)" and "sy_created s = []" and "sy_db s = d"
  shows "loop_ok aid sc d prev s"
proof -
  have "child_id sc (nr_id row) d" if "row \<in> set (nodes d)" "nr_source row = sc" for row
  proof -
    have "inj_on nr_id (set (nodes d))" using assms(1) by (simp add: db_ok_simps distinct_map)
    with that show ?thesis by (auto simp: child_id_def dest: inj_onD)
  qed
  then have "\<forall>(name, cur) \<in> set prev. n_Source cur = sc \<and> child_id sc (n_ID cur) d"
    unfolding assms(2) by (auto simp: ListNodesBySource_in)
  then show ?thesis unfolding loop_ok_def by (simp add: assms(3,4) anchored_refl)
qed

lemma sync_children_ok:
  assumes "db_ok d" and "sync_children E nonce uid now anchor parsed takeFirst d = (res, d')"
  shows "anchored_edit aid (nodeSource (n_ID anchor)) d d' \<and>
    (isl res \<longrightarrow> nr_id ` set (nodes d') \<subseteq> nr_id ` set (nodes d))"
proof -
  let ?sc = "nodeSource (n_ID anchor)"
  define prev where "prev = map (\<lambda>n. (n_Name n, n)) (ListNodesBySource ?sc d)"
  define todo where "todo = (if takeFirst then drop 1 else id) (enumerate 0 (ps_Nodes parsed))"
  define s0 where "s0 = \<lparr>sy_stats = \<lparr>im_Found = int (length (ps_Nodes parsed)), im_Imported = 0, im_Updated = 0, im_Removed = 0,
      im_Skipped = int (length (ps_Skipped parsed))\<rparr>, sy_created = [], sy_db = d\<rparr>"
  have "loop_ok aid ?sc d prev s0" by (rule loop_ok_start) (simp_all add: assms prev_def s0_def)
  note sync = sync_proxies_ok [OF this refl, of E nonce uid now "ps_Modes parsed" todo]
  have res: "(res, d') = (case sync_proxies (sync_proxy E nonce uid now anchor (ps_Modes parsed) prev) todo s0 of
      Inl (e, d') \<Rightarrow> (Inl e, d')
    | Inr s \<Rightarrow> (case remove_gone (map (x_Name \<circ> snd) todo) prev s of Inl (e, d') \<Rightarrow> (Inl e, d') | Inr s' \<Rightarrow> (Inr (sy_stats s'), sy_db s')))"
    using assms(2) unfolding sync_children_def Let_def prev_def [symmetric] todo_def [symmetric] s0_def [symmetric] by simp
  show ?thesis
  proof (cases "sync_proxies (sync_proxy E nonce uid now anchor (ps_Modes parsed) prev) todo s0")
    case (Inl ed)
    with sync res show ?thesis by (auto simp: failed_ok_def split: prod.splits)
  next
    case (Inr s)
    with sync have "loop_ok aid ?sc d prev s" by simp
    from remove_gone_ok [OF this, of prev "map (x_Name \<circ> snd) todo"] res Inr show ?thesis
      by (auto simp: failed_ok_def loop_ok_def split: sum.splits prod.splits)
  qed
qed

lemma take_first_ok:
  assumes "take_first E rnd now anchor ob d = (Inr d', a)"
  shows "store_steps d d'" and "n_ID a = n_ID anchor" and "nr_id ` set (nodes d') = nr_id ` set (nodes d)"
    and "filter (unrelated (n_ID anchor) sc) (nodes d') = filter (unrelated (n_ID anchor) sc) (nodes d)"
proof -
  from assms obtain sealed n where u: "UpdateNode (Unix now) (anchor\<lparr>n_OutboundEnc := sealed\<rparr>) d = Inr (a, d')"
    by (auto simp: take_first_def Let_def split: sum.splits)
  show "store_steps d d'" using then_step [OF st_update_node [OF u] rtranclp.rtrancl_refl] .
  show "n_ID a = n_ID anchor" using UpdateNode_rows(2) [OF u] by simp
  show "nr_id ` set (nodes d') = nr_id ` set (nodes d)" using UpdateNode_ids [OF u] .
  show "filter (unrelated (n_ID anchor) sc) (nodes d') = filter (unrelated (n_ID anchor) sc) (nodes d)"
    unfolding UpdateNode_rows(1) [OF u] by (rule filter_update_where_same) (simp_all add: unrelated_def)
qed

definition downloaded :: "env \<Rightarrow> string \<Rightarrow> string \<Rightarrow> unit + parsed_source" where
  "downloaded E url kceKey =
     (case FetchConfigSource (ev_url_Parse E) (ev_ParseIP E) (ev_LookupIP E) (ev_NewRequest E) (ev_exchange E) (ev_shake E)
             (Some SafeHTTPClient) url kceKey of
        Inl _ \<Rightarrow> Inl ()
      | Inr raw \<Rightarrow> (case ParseClashConfig (ev_yaml_Unmarshal E) (ev_marshal E) raw of Inl _ \<Rightarrow> Inl () | Inr parsed \<Rightarrow> Inr parsed))"

text \<open>Past the download and the parser, the import is the update of the anchor and the two loops.\<close>

lemma import_cases:
  assumes "importProxiesForNode E nonce uid now anchor kceKey takeFirst d = (res, a, d')"
  shows "d' = d \<or>
    (\<exists>parsed d1. downloaded E (n_ConfigURL anchor) kceKey = Inr parsed \<and> ps_Nodes parsed \<noteq> [] \<and>
       (if takeFirst then take_first E (nonce (length (ps_Nodes parsed))) now anchor (x_Outbound (hd (ps_Nodes parsed))) d = (Inr d1, a)
        else d1 = d \<and> a = anchor) \<and>
       sync_children E nonce uid now a parsed takeFirst d1 = (res, d'))"
  using assms by (auto simp: importProxiesForNode_def downloaded_def split: sum.splits if_splits prod.splits)

lemma import_ok:
  assumes "db_ok d" and "importProxiesForNode E nonce uid now anchor kceKey takeFirst d = (res, a, d')"
  shows "store_steps d d' \<and>
    filter (unrelated (n_ID anchor) (nodeSource (n_ID anchor))) (nodes d') = filter (unrelated (n_ID anchor) (nodeSource (n_ID anchor))) (nodes d) \<and>
    (isl res \<longrightarrow> nr_id ` set (nodes d') \<subseteq> nr_id ` set (nodes d))"
  using import_cases [OF assms(2)]
proof (elim disjE exE conjE)
  fix parsed d1
  assume first: "if takeFirst then take_first E (nonce (length (ps_Nodes parsed))) now anchor (x_Outbound (hd (ps_Nodes parsed))) d = (Inr d1, a)
      else d1 = d \<and> a = anchor"
    and sync: "sync_children E nonce uid now a parsed takeFirst d1 = (res, d')"
  from first have d1: "store_steps d d1" "n_ID a = n_ID anchor" "nr_id ` set (nodes d1) = nr_id ` set (nodes d)"
    "filter (unrelated (n_ID anchor) (nodeSource (n_ID anchor))) (nodes d1) = filter (unrelated (n_ID anchor) (nodeSource (n_ID anchor))) (nodes d)"
    using take_first_ok by (auto split: if_splits)
  from sync_children_ok [OF store_steps_ok [OF d1(1) assms(1)] sync] d1 show ?thesis
    by (auto simp: anchored_edit_def intro: rtranclp_trans)
qed simp

subsection \<open>The children after a successful import\<close>

text \<open>A row that carries a proxy of the profile: named after it, with its outbound sealed and its mode.\<close>

definition carries :: "env \<Rightarrow> string \<Rightarrow> (string \<rightharpoonup> string) \<Rightarrow> export_node \<Rightarrow> node_row \<Rightarrow> bool" where
  "carries E sc modes pr row \<longleftrightarrow> nr_source row = sc \<and> HasPrefix (nr_name row) (x_Name pr) \<and>
     decrypt E (nr_outbound_enc row) = Inr (x_Outbound pr) \<and> nr_mode row = child_mode modes (x_Name pr)"

text \<open>The ids of the previous children whose name is not among \<open>names\<close>.\<close>

definition pending :: "string set \<Rightarrow> (string \<times> node) list \<Rightarrow> string set" where
  "pending names prev = {n_ID cur | name cur. (name, cur) \<in> set prev \<and> name \<notin> names}"

definition known_children :: "string \<Rightarrow> (string \<times> node) list \<Rightarrow> bool" where
  "known_children sc prev \<longleftrightarrow> distinct (map fst prev) \<and> inj_on (n_ID \<circ> snd) (set prev) \<and>
     (\<forall>(name, cur) \<in> set prev. n_Name cur = name \<and> n_Source cur = sc)"

definition synced :: "env \<Rightarrow> string \<Rightarrow> (string \<rightharpoonup> string) \<Rightarrow> (string \<times> node) list \<Rightarrow> export_node list \<Rightarrow> db \<Rightarrow> bool" where
  "synced E sc modes prev ps d \<longleftrightarrow> distinct (map nr_id (nodes d)) \<and>
     (\<forall>(name, cur) \<in> set prev. name \<notin> x_Name ` set ps \<longrightarrow> (\<exists>row \<in> set (nodes d). scanNode row = cur)) \<and>
     (\<forall>pr \<in> set ps. \<exists>row \<in> set (nodes d). carries E sc modes pr row \<and> nr_id row \<notin> pending (x_Name ` set ps) prev) \<and>
     (\<forall>row \<in> set (nodes d). nr_source row = sc \<longrightarrow>
        nr_id row \<in> pending (x_Name ` set ps) prev \<or> (\<exists>pr \<in> set ps. carries E sc modes pr row))"

lemma synced_prev:
  "synced E sc modes prev ps d \<Longrightarrow> (name, cur) \<in> set prev \<Longrightarrow> name \<notin> x_Name ` set ps \<Longrightarrow> \<exists>row \<in> set (nodes d). scanNode row = cur"
  unfolding synced_def by fast

lemma carries_updated:
  assumes "decrypt E sealed = Inr (x_Outbound pr)" and "n_Source cur = sc" and "n_Name cur = x_Name pr"
  shows "carries E sc modes pr (node_columns (cur\<lparr>n_OutboundEnc := sealed, n_Mode := child_mode modes (x_Name pr), n_UpdatedAt := u\<rparr>) a b c)"
  using assms by (simp add: carries_def node_columns_def HasPrefix_def)

lemma pending_step:
  assumes "known_children sc prev" and "map_of prev nm = Some cur" and "nm \<notin> names"
  shows "pending (insert nm names) prev = pending names prev - {n_ID cur}" and "n_ID cur \<in> pending names prev"
proof -
  have mem: "(nm, cur) \<in> set prev" using assms(2) by (rule map_of_SomeD)
  show "n_ID cur \<in> pending names prev" using mem assms(3) by (auto simp: pending_def)
  have inj: "inj_on (n_ID \<circ> snd) (set prev)" using assms(1) by (simp add: known_children_def)
  have "name = nm" if "(name, c) \<in> set prev" "n_ID c = n_ID cur" for name c
    using inj_onD [OF inj _ that(1) mem] that(2) by simp
  moreover have "c = cur" if "(nm, c) \<in> set prev" for c
    using map_of_is_SomeI [OF _ that] assms(1,2) by (simp add: known_children_def)
  ultimately have "(name, c) \<in> set prev \<Longrightarrow> name \<noteq> nm \<longleftrightarrow> n_ID c \<noteq> n_ID cur" for name c by metis
  then show "pending (insert nm names) prev = pending names prev - {n_ID cur}"
    unfolding pending_def by (intro set_eqI) (simp, metis)
qed

lemma pending_unknown: "map_of prev nm = None \<Longrightarrow> pending (insert nm names) prev = pending names prev"
  by (force simp: pending_def map_of_eq_None_iff)

lemma synced_update:
  assumes prev: "known_children sc prev" and known: "map_of prev (x_Name pr) = Some cur"
    and new: "x_Name pr \<notin> x_Name ` set ps" and inv: "synced E sc modes prev ps d"
    and opens: "decrypt E sealed = Inr (x_Outbound pr)"
    and upd: "UpdateNode now (cur\<lparr>n_OutboundEnc := sealed, n_Mode := child_mode modes (x_Name pr)\<rparr>) d = Inr (n', d')"
  shows "synced E sc modes prev (ps @ [pr]) d'"
proof -
  let ?p = "\<lambda>r. nr_id r = n_ID cur"
  let ?f = "\<lambda>r. node_columns (cur\<lparr>n_OutboundEnc := sealed, n_Mode := child_mode modes (x_Name pr), n_UpdatedAt := now\<rparr>)
    (nr_created_at r) now (nr_last_online_at r)"
  have rows: "nodes d' = update_where ?p ?f (nodes d)" using UpdateNode_rows(1) [OF upd] by simp
  then have mem: "row \<in> set (nodes d') \<longleftrightarrow> (\<exists>r \<in> set (nodes d). row = (if ?p r then ?f r else r))" for row
    by (auto simp: set_update_where)
  have keep: "r \<in> set (nodes d')" if "r \<in> set (nodes d)" "nr_id r \<noteq> n_ID cur" for r using that mem by force
  have names: "x_Name ` set (ps @ [pr]) = insert (x_Name pr) (x_Name ` set ps)" by simp
  note pend = pending_step [OF prev known new]
  have known_mem: "(x_Name pr, cur) \<in> set prev" using known by (rule map_of_SomeD)
  then have cur: "n_Source cur = sc" "n_Name cur = x_Name pr" using prev by (auto simp: known_children_def)
  have good: "carries E sc modes pr (?f r)" for r using carries_updated opens cur by simp
  obtain r0 where r0: "r0 \<in> set (nodes d)" "scanNode r0 = cur"
    using synced_prev [OF inv known_mem new] by auto
  then have id0: "nr_id r0 = n_ID cur" by auto
  have "distinct (map nr_id (nodes d'))"
    using inv map_key_update_where [of ?p nr_id ?f "nodes d"] by (simp add: synced_def rows)
  moreover have "\<exists>row \<in> set (nodes d'). scanNode row = c" if c: "(name, c) \<in> set prev" "name \<notin> x_Name ` set (ps @ [pr])" for name c
  proof -
    have "n_ID c \<in> pending (x_Name ` set ps) prev - {n_ID cur}" using c unfolding pend(1) [symmetric] by (auto simp: pending_def)
    moreover obtain r where "r \<in> set (nodes d)" "scanNode r = c" using synced_prev [OF inv c(1)] c(2) by auto
    ultimately show ?thesis using keep by (metis Diff_iff insertCI scanNode_fields(1))
  qed
  moreover have "\<exists>row \<in> set (nodes d'). carries E sc modes q row \<and> nr_id row \<notin> pending (x_Name ` set (ps @ [pr])) prev"
    if "q \<in> set (ps @ [pr])" for q
  proof (cases "q \<in> set ps")
    case True
    then obtain r where "r \<in> set (nodes d)" "carries E sc modes q r" "nr_id r \<notin> pending (x_Name ` set ps) prev"
      using inv by (auto simp: synced_def)
    moreover from this have "r \<in> set (nodes d')" using keep pend(2) by metis
    ultimately show ?thesis unfolding names pend(1) by blast
  next
    case False
    then have "q = pr" using that by simp
    moreover have "?f r0 \<in> set (nodes d')" using r0(1) by (simp add: mem id0 bexI [of _ r0])
    moreover have "nr_id (?f r0) \<notin> pending (x_Name ` set (ps @ [pr])) prev" unfolding names pend(1) by (simp add: node_columns_def)
    ultimately show ?thesis using good by blast
  qed
  moreover have "nr_id row \<in> pending (x_Name ` set (ps @ [pr])) prev \<or> (\<exists>q \<in> set (ps @ [pr]). carries E sc modes q row)"
    if row: "row \<in> set (nodes d')" "nr_source row = sc" for row
  proof -
    from row(1) [unfolded mem] obtain r where r: "r \<in> set (nodes d)" "row = (if ?p r then ?f r else r)" ..
    show ?thesis
    proof (cases "?p r")
      case True
      with r good show ?thesis by auto
    next
      case False
      with r row inv have "nr_id row \<in> pending (x_Name ` set ps) prev \<or> (\<exists>q \<in> set ps. carries E sc modes q row)"
        by (auto simp: synced_def)
      with False r(2) pend(1) show ?thesis unfolding names by auto
    qed
  qed
  ultimately show ?thesis unfolding synced_def by blast
qed

lemma synced_kept:
  assumes prev: "known_children sc prev" and known: "map_of prev (x_Name pr) = Some cur"
    and new: "x_Name pr \<notin> x_Name ` set ps" and inv: "synced E sc modes prev ps d"
    and same: "\<not> outdated E cur (x_Outbound pr) (child_mode modes (x_Name pr))"
  shows "synced E sc modes prev (ps @ [pr]) d"
proof -
  have names: "x_Name ` set (ps @ [pr]) = insert (x_Name pr) (x_Name ` set ps)" by simp
  note pend = pending_step [OF prev known new]
  have known_mem: "(x_Name pr, cur) \<in> set prev" using known by (rule map_of_SomeD)
  obtain r0 where r0: "r0 \<in> set (nodes d)" "scanNode r0 = cur" using synced_prev [OF inv known_mem new] by auto
  have dist: "distinct (map nr_id (nodes d))" using inv by (simp add: synced_def)
  have good: "carries E sc modes pr r0"
    using same known_mem prev r0(2) by (auto simp: carries_def outdated_def HasPrefix_def known_children_def split: sum.splits)
  have only: "row = r0" if "row \<in> set (nodes d)" "nr_id row = n_ID cur" for row
    using that r0 dist by (auto simp: distinct_map dest: inj_onD)
  have "\<exists>row \<in> set (nodes d). scanNode row = c" if "(name, c) \<in> set prev" "name \<notin> x_Name ` set (ps @ [pr])" for name c
    using synced_prev [OF inv that(1)] that(2) by auto
  moreover have "\<exists>row \<in> set (nodes d). carries E sc modes q row \<and> nr_id row \<notin> pending (x_Name ` set (ps @ [pr])) prev"
    if "q \<in> set (ps @ [pr])" for q
  proof (cases "q \<in> set ps")
    case True
    then show ?thesis using inv unfolding names pend(1) synced_def by blast
  next
    case False
    then have "q = pr" using that by simp
    moreover have "nr_id r0 \<notin> pending (x_Name ` set (ps @ [pr])) prev" unfolding names pend(1) using r0(2) by auto
    ultimately show ?thesis using good r0(1) by blast
  qed
  moreover have "nr_id row \<in> pending (x_Name ` set (ps @ [pr])) prev \<or> (\<exists>q \<in> set (ps @ [pr]). carries E sc modes q row)"
    if "row \<in> set (nodes d)" "nr_source row = sc" for row
  proof (cases "nr_id row = n_ID cur")
    case True
    then show ?thesis using only [OF that(1)] good by auto
  next
    case False
    then show ?thesis using inv that unfolding names pend(1) synced_def by (auto 0 3)
  qed
  ultimately show ?thesis using dist unfolding synced_def by blast
qed

lemma synced_create:
  assumes unknown: "map_of prev (x_Name pr) = None" and inv: "synced E sc modes prev ps d"
    and opens: "decrypt E sealed = Inr (x_Outbound pr)" and sc: "sc = nodeSource (n_ID anchor)"
    and crt: "CreateNode now (child_node uid anchor (uniqueNodeName (x_Name pr) d) sealed (child_mode modes (x_Name pr))) d = Inr (n', d')"
  shows "synced E sc modes prev (ps @ [pr]) d'"
proof -
  have names: "x_Name ` set (ps @ [pr]) = insert (x_Name pr) (x_Name ` set ps)" by simp
  note pend = pending_unknown [OF unknown, of "x_Name ` set ps"]
  obtain row' where rows: "nodes d' = nodes d @ [row']" and row': "nr_id row' = uid" "carries E sc modes pr row'"
    using CreateNode_rows(1) [OF crt] opens sc uniqueNodeName_fresh(2) [of "x_Name pr" d]
    by (auto simp: carries_def node_columns_def)
  have fresh: "uid \<notin> nr_id ` set (nodes d)" using CreateNode_rows(2) [OF crt] by simp
  have "distinct (map nr_id (nodes d'))" using inv fresh row'(1) by (auto simp: synced_def rows)
  moreover have "\<exists>row \<in> set (nodes d'). scanNode row = c" if "(name, c) \<in> set prev" "name \<notin> x_Name ` set (ps @ [pr])" for name c
    using synced_prev [OF inv that(1)] that(2) by (auto simp: rows)
  moreover have "uid \<notin> pending (x_Name ` set ps) prev"
  proof
    assume "uid \<in> pending (x_Name ` set ps) prev"
    then obtain name c where "(name, c) \<in> set prev" "name \<notin> x_Name ` set ps" "uid = n_ID c" by (auto simp: pending_def)
    with synced_prev [OF inv this(1,2)] fresh show False by auto
  qed
  moreover have "\<exists>row \<in> set (nodes d'). carries E sc modes q row \<and> nr_id row \<notin> pending (x_Name ` set ps) prev" if "q \<in> set ps" for q
    using inv that by (auto simp: synced_def rows)
  moreover have "nr_id row \<in> pending (x_Name ` set ps) prev \<or> (\<exists>q \<in> set (ps @ [pr]). carries E sc modes q row)"
    if "row \<in> set (nodes d')" "nr_source row = sc" for row
    using inv that row'(2) by (auto simp: synced_def rows)
  moreover have "row' \<in> set (nodes d')" by (simp add: rows)
  ultimately show ?thesis using row' unfolding synced_def pend [symmetric] names [symmetric] by (simp only: set_append) fastforce
qed

text \<open>The sealing the import relies on: the process key opens a cipher that keeps its promise, and nonces have its length.\<close>

definition sealing :: "env \<Rightarrow> (nat \<Rightarrow> string option) \<Rightarrow> bool" where
  "sealing E nonce \<longleftrightarrow> (\<exists>g. ev_newGCM E (ev_cryptoKey E) = Some g \<and> aead_ok g \<and> (\<forall>i n. nonce i = Some n \<longrightarrow> length n = NonceSize g))"

lemma sealing_opens: "sealing E nonce \<Longrightarrow> encrypt E (nonce i) text = Inr sealed \<Longrightarrow> decrypt E sealed = Inr text"
  unfolding sealing_def by (elim exE conjE, rule decrypt_encrypt) auto

lemma sync_proxy_synced:
  assumes "sealing E nonce" and "known_children sc prev" and "sc = nodeSource (n_ID anchor)"
    and "x_Name pr \<notin> x_Name ` set ps" and "synced E sc modes prev ps (sy_db s)"
    and "sync_proxy E nonce uid now anchor modes prev (i, pr) s = Inr s'"
  shows "synced E sc modes prev (ps @ [pr]) (sy_db s')"
proof -
  from assms(6) obtain sealed where sealed: "encrypt E (nonce i) (x_Outbound pr) = Inr sealed"
    by (auto simp: sync_proxy_def split: sum.splits)
  note opens = sealing_opens [OF assms(1) sealed]
  show ?thesis
  proof (cases "map_of prev (x_Name pr)")
    case None
    with assms(6) sealed obtain n' where
      "CreateNode (Unix now) (child_node (newUUID (uid i)) anchor (uniqueNodeName (x_Name pr) (sy_db s)) sealed
         (child_mode modes (x_Name pr))) (sy_db s) = Inr (n', sy_db s')"
      by (auto simp: sync_proxy_def Let_def split: sum.splits)
    from synced_create [OF None assms(5) opens assms(3) this] show ?thesis .
  next
    case (Some cur)
    show ?thesis
    proof (cases "outdated E cur (x_Outbound pr) (child_mode modes (x_Name pr))")
      case True
      with Some assms(6) sealed obtain n' where
        "UpdateNode (Unix now) (cur\<lparr>n_OutboundEnc := sealed, n_Mode := child_mode modes (x_Name pr)\<rparr>) (sy_db s) = Inr (n', sy_db s')"
        by (auto simp: sync_proxy_def Let_def split: sum.splits)
      from synced_update [OF assms(2) Some assms(4,5) opens this] show ?thesis .
    next
      case False
      with Some assms(6) sealed have "s' = s" by (auto simp: sync_proxy_def Let_def)
      with synced_kept [OF assms(2) Some assms(4,5) False] show ?thesis by simp
    qed
  qed
qed

lemma sync_proxies_synced:
  assumes "sealing E nonce" and "known_children sc prev" and "sc = nodeSource (n_ID anchor)"
    and "distinct (map x_Name (ps @ map snd todo))" and "synced E sc modes prev ps (sy_db s)"
    and "sync_proxies (sync_proxy E nonce uid now anchor modes prev) todo s = Inr s'"
  shows "synced E sc modes prev (ps @ map snd todo) (sy_db s')"
  using assms(4-6)
proof (induction todo arbitrary: ps s)
  case (Cons x todo)
  obtain i pr where x: "x = (i, pr)" by force
  from Cons.prems(3) obtain s1 where s1: "sync_proxy E nonce uid now anchor modes prev (i, pr) s = Inr s1"
    and rest: "sync_proxies (sync_proxy E nonce uid now anchor modes prev) todo s1 = Inr s'"
    by (auto simp: x split: sum.splits)
  have "x_Name pr \<notin> x_Name ` set ps" using Cons.prems(1) by (auto simp: x)
  from sync_proxy_synced [OF assms(1-3) this Cons.prems(2) s1] Cons.IH [OF _ _ rest, of "ps @ [pr]"] Cons.prems(1)
  show ?case by (simp add: x)
qed simp

lemma remove_gone_rows:
  "remove_gone seen prev s = Inr s' \<Longrightarrow> nodes (sy_db s') = filter (\<lambda>row. nr_id row \<notin> pending (set seen) prev) (nodes (sy_db s))"
proof (induction prev arbitrary: s)
  case (Cons nc prev)
  obtain name cur where nc: "nc = (name, cur)" by force
  have "pending (set seen) (nc # prev) = (if name \<in> set seen then {} else {n_ID cur}) \<union> pending (set seen) prev"
    by (auto simp: pending_def nc)
  with Cons show ?case by (auto simp: nc DeleteNode_rows intro!: filter_cong split: if_splits sum.splits)
qed (simp add: pending_def)

lemma known_children_listed:
  assumes "db_ok d"
  shows "known_children sc (map (\<lambda>n. (n_Name n, n)) (ListNodesBySource sc d))"
proof -
  have inj: "inj_on nr_id (set (nodes d))" and dist: "distinct (map nr_name (nodes d))"
    using assms by (auto simp: db_ok_simps distinct_map)
  have "inj_on n_ID (set (ListNodesBySource sc d))"
    by (rule inj_onI) (use inj in \<open>auto simp: ListNodesBySource_in dest: inj_onD\<close>)
  moreover have "distinct (map n_Name (ListNodesBySource sc d))"
    using dist by (auto simp: ListNodesBySource_def comp_def distinct_map intro: inj_on_subset)
  ultimately show ?thesis
    by (auto simp: known_children_def comp_def inj_on_def ListNodesBySource_in)
qed

lemma synced_start:
  assumes "db_ok d"
  shows "synced E sc modes (map (\<lambda>n. (n_Name n, n)) (ListNodesBySource sc d)) [] d"
proof -
  have "nr_id row \<in> pending {} (map (\<lambda>n. (n_Name n, n)) (ListNodesBySource sc d))" if "row \<in> set (nodes d)" "nr_source row = sc" for row
    unfolding pending_def by (auto intro!: exI [of _ "scanNode row"] simp: image_iff ListNodesBySource_in bexI [OF _ that(1)] that(2))
  moreover have "distinct (map nr_id (nodes d))" using assms by (simp add: db_ok_simps)
  ultimately show ?thesis by (auto simp: synced_def ListNodesBySource_in)
qed

lemma sync_children_exact:
  assumes "db_ok d" and "sealing E nonce" and "distinct (map x_Name (ps_Nodes parsed))"
    and "sync_children E nonce uid now anchor parsed takeFirst d = (Inr st, d')"
  defines "proxies \<equiv> (if takeFirst then tl else id) (ps_Nodes parsed)" and "sc \<equiv> nodeSource (n_ID anchor)"
  shows "\<forall>pr \<in> set proxies. \<exists>row \<in> set (nodes d'). carries E sc (ps_Modes parsed) pr row"
    and "\<forall>row \<in> set (nodes d'). nr_source row = sc \<longrightarrow> (\<exists>pr \<in> set proxies. carries E sc (ps_Modes parsed) pr row)"
proof -
  define prev where "prev = map (\<lambda>n. (n_Name n, n)) (ListNodesBySource sc d)"
  define todo where "todo = (if takeFirst then drop 1 else id) (enumerate 0 (ps_Nodes parsed))"
  have todo: "map snd todo = proxies" by (simp add: todo_def proxies_def drop_Suc map_tl)
  define s0 where "s0 = \<lparr>sy_stats = \<lparr>im_Found = int (length (ps_Nodes parsed)), im_Imported = 0, im_Updated = 0, im_Removed = 0,
      im_Skipped = int (length (ps_Skipped parsed))\<rparr>, sy_created = [], sy_db = d\<rparr>"
  then have s0: "sy_db s0 = d" by simp
  from assms(4) obtain s s' where s: "sync_proxies (sync_proxy E nonce uid now anchor (ps_Modes parsed) prev) todo s0 = Inr s"
    and s': "remove_gone (map (x_Name \<circ> snd) todo) prev s = Inr s'" "sy_db s' = d'"
    unfolding sync_children_def Let_def prev_def [symmetric] todo_def [symmetric] sc_def [symmetric] s0_def [symmetric]
    by (auto split: sum.splits prod.splits)
  have dist: "distinct (map x_Name ([] @ map snd todo))"
    using assms(3) unfolding todo by (cases "ps_Nodes parsed") (auto simp: proxies_def)
  have "synced E sc (ps_Modes parsed) prev proxies (sy_db s)"
    using sync_proxies_synced [OF assms(2) known_children_listed [OF assms(1)] sc_def [THEN meta_eq_to_obj_eq] dist _ s [unfolded prev_def]]
      synced_start [OF assms(1)] s0 todo by (simp add: prev_def)
  moreover have "set (map (x_Name \<circ> snd) todo) = x_Name ` set proxies" unfolding todo [symmetric] by auto
  with remove_gone_rows [OF s'(1)] s'(2)
  have "nodes d' = filter (\<lambda>row. nr_id row \<notin> pending (x_Name ` set proxies) prev) (nodes (sy_db s))" by simp
  ultimately show "\<forall>pr \<in> set proxies. \<exists>row \<in> set (nodes d'). carries E sc (ps_Modes parsed) pr row"
    and "\<forall>row \<in> set (nodes d'). nr_source row = sc \<longrightarrow> (\<exists>pr \<in> set proxies. carries E sc (ps_Modes parsed) pr row)"
    by (auto simp: synced_def)
qed

lemma parsed_names_distinct:
  assumes "ParseClashConfig y m raw = Inr parsed"
  shows "distinct (map x_Name (ps_Nodes parsed))"
proof -
  from assms obtain out seen qs where "ps_Nodes out = []" "ps_Skipped out = []"
    "(parsed, seen) = fold (import_proxy m) qs (out, [])"
    by (auto simp: ParseClashConfig_def Let_def split: option.splits if_splits) (metis parsed_source.select_convs(1,2) prod.collapse)
  with fold_imported [of m "[]" "(out, [])" qs] show ?thesis by (simp add: imported_def split: prod.splits)
qed

lemma import_succeeded:
  assumes "importProxiesForNode E nonce uid now anchor kceKey takeFirst d = (Inr st, a, d')"
  obtains parsed where "downloaded E (n_ConfigURL anchor) kceKey = Inr parsed" and "distinct (map x_Name (ps_Nodes parsed))"
    and "ps_Nodes parsed = [] \<Longrightarrow> d' = d"
    and "ps_Nodes parsed \<noteq> [] \<Longrightarrow> \<exists>d1.
       (if takeFirst then take_first E (nonce (length (ps_Nodes parsed))) now anchor (x_Outbound (hd (ps_Nodes parsed))) d = (Inr d1, a)
        else d1 = d \<and> a = anchor) \<and>
       sync_children E nonce uid now a parsed takeFirst d1 = (Inr st, d')"
  using assms
  by (auto simp: importProxiesForNode_def downloaded_def dest: parsed_names_distinct split: sum.splits if_splits prod.splits)

text \<open>The row of the anchor: kept by the loops, which only touch its children.\<close>

lemma sync_children_keeps:
  assumes "db_ok d" and "sync_children E nonce uid now anchor parsed takeFirst d = (res, d')"
    and "row \<in> set (nodes d)" and "nr_source row \<noteq> nodeSource (n_ID anchor)"
  shows "row \<in> set (nodes d')"
proof -
  let ?u = "unrelated (CHR ''x'' # nr_id row) (nodeSource (n_ID anchor))"
  have "row \<in> set (filter ?u (nodes d))" using assms(3,4) by (simp add: unrelated_def)
  with sync_children_ok [OF assms(1,2), of "CHR ''x'' # nr_id row"] have "row \<in> set (filter ?u (nodes d'))"
    by (simp add: anchored_edit_def)
  then show ?thesis by simp
qed

lemma take_first_row:
  assumes "sealing E nonce" and "take_first E (nonce i) now anchor ob d = (Inr d', a)"
    and "n_Source anchor = s"
  shows "\<exists>row \<in> set (nodes d'). nr_id row = n_ID anchor \<and> nr_source row = s \<and> decrypt E (nr_outbound_enc row) = Inr ob"
proof -
  from assms(2) obtain sealed where seal: "encrypt E (nonce i) ob = Inr sealed"
    and u: "UpdateNode (Unix now) (anchor\<lparr>n_OutboundEnc := sealed\<rparr>) d = Inr (a, d')"
    by (auto simp: take_first_def Let_def split: sum.splits)
  have "n_ID anchor \<in> nr_id ` set (nodes d')"
    unfolding UpdateNode_ids [OF u]
    using u by (auto simp: UpdateNode_def Let_def requireAffected_def affected_0 intro: rev_image_eqI split: if_splits)
  then obtain row where row: "row \<in> set (nodes d')" "nr_id row = n_ID anchor" by auto
  have "nr_source row = n_Source anchor \<and> nr_outbound_enc row = sealed"
    using row UpdateNode_rows(1) [OF u] by (auto simp: set_update_where split: if_splits)
  with row sealing_opens [OF assms(1) seal] assms(3) show ?thesis by auto
qed

text \<open>
  C5: An import that reports success leaves exactly the profile. Every proxy of the downloaded
  profile (past the first one, when the anchor takes it) is carried by a child of the anchor,
  named after the proxy, with the proxy's outbound under the seal and its mode; every child of
  the anchor carries a proxy of the profile; the anchor itself carries the first proxy when it
  takes it; and no node other than the anchor and its children has changed. A profile without
  usable proxies changes nothing.
\<close>

theorem import_mirrors_profile:
  assumes "db_ok d" and "sealing E nonce" and "n_Source anchor \<noteq> nodeSource (n_ID anchor)"
    and "importProxiesForNode E nonce uid now anchor kceKey takeFirst d = (Inr st, a, d')"
  shows "\<exists>parsed. downloaded E (n_ConfigURL anchor) kceKey = Inr parsed \<and>
    (let sc = nodeSource (n_ID anchor); proxies = (if takeFirst then tl else id) (ps_Nodes parsed) in
      if ps_Nodes parsed = [] then d' = d
      else (\<forall>pr \<in> set proxies. \<exists>row \<in> set (nodes d'). carries E sc (ps_Modes parsed) pr row) \<and>
           (\<forall>row \<in> set (nodes d'). nr_source row = sc \<longrightarrow> (\<exists>pr \<in> set proxies. carries E sc (ps_Modes parsed) pr row)) \<and>
           (takeFirst \<longrightarrow> (\<exists>row \<in> set (nodes d'). nr_id row = n_ID anchor \<and>
              decrypt E (nr_outbound_enc row) = Inr (x_Outbound (hd (ps_Nodes parsed))))) \<and>
           filter (unrelated (n_ID anchor) sc) (nodes d') = filter (unrelated (n_ID anchor) sc) (nodes d))"
proof -
  let ?sc = "nodeSource (n_ID anchor)"
  from import_succeeded [OF assms(4)] obtain parsed where parsed: "downloaded E (n_ConfigURL anchor) kceKey = Inr parsed"
    "distinct (map x_Name (ps_Nodes parsed))" "ps_Nodes parsed = [] \<Longrightarrow> d' = d"
    "ps_Nodes parsed \<noteq> [] \<Longrightarrow> \<exists>d1.
       (if takeFirst then take_first E (nonce (length (ps_Nodes parsed))) now anchor (x_Outbound (hd (ps_Nodes parsed))) d = (Inr d1, a)
        else d1 = d \<and> a = anchor) \<and> sync_children E nonce uid now a parsed takeFirst d1 = (Inr st, d')"
    by metis
  show ?thesis
  proof (cases "ps_Nodes parsed = []")
    case True
    with parsed show ?thesis by auto
  next
    case False
    from parsed(4) [OF False] obtain d1 where
      first: "if takeFirst then take_first E (nonce (length (ps_Nodes parsed))) now anchor (x_Outbound (hd (ps_Nodes parsed))) d = (Inr d1, a)
        else d1 = d \<and> a = anchor"
      and sync: "sync_children E nonce uid now a parsed takeFirst d1 = (Inr st, d')" by auto
    have d1: "store_steps d d1" "n_ID a = n_ID anchor" using first take_first_ok by (auto split: if_splits)
    note ok = store_steps_ok [OF d1(1) assms(1)]
    note exact = sync_children_exact [OF ok assms(2) parsed(2) sync, unfolded d1(2)]
    have "\<exists>row \<in> set (nodes d'). nr_id row = n_ID anchor \<and> decrypt E (nr_outbound_enc row) = Inr (x_Outbound (hd (ps_Nodes parsed)))"
      if takeFirst
    proof -
      from take_first_row [OF assms(2) _ refl] first that obtain row where "row \<in> set (nodes d1)" "nr_id row = n_ID anchor"
        "nr_source row = n_Source anchor" "decrypt E (nr_outbound_enc row) = Inr (x_Outbound (hd (ps_Nodes parsed)))" by fastforce
      with sync_children_keeps [OF ok sync, of row] assms(3) d1(2) show ?thesis by auto
    qed
    with parsed(1) False exact import_ok [OF assms(1,4)] show ?thesis by (intro exI [of _ parsed]) (simp add: Let_def)
  qed
qed

definition demo_anchor :: node where
  "demo_anchor = demo_node\<lparr>n_ConfigURL := ''https://example.org:443''\<rparr>"

lemma demo_download:
  "downloaded demo_server url key = Inr \<lparr>ps_Nodes = [\<lparr>x_Name = ''hk'', x_Outbound = ''{}''\<rparr>], ps_Skipped = [''hk''], ps_Modes = Map.empty\<rparr>"
  "ValidateOutboundURL (\<lambda>_. Some demo_url) (\<lambda>_. None) (\<lambda>_. Some [[8, 8, 8, 8]]) url = Inr ()"
proof -
  show v: "ValidateOutboundURL (\<lambda>_. Some demo_url) (\<lambda>_. None) (\<lambda>_. Some [[8, 8, 8, 8]]) url = Inr ()"
    by code_simp
  have tr: "clashToOutbound (hd (cd_Proxies demo_doc)) ''hk'' = Inr demo_trojan"
    by (simp add: clashToOutbound_def demo_doc_def demo_trojan_def asString_def asInt_def type_fields_def singboxType_def
        applyClashTLS_def applyClashTransport_def getMapVal_def asBool_def put_def)
  have sn: "clashToOutbound (cd_Proxies demo_doc ! 1) t = Inl (UnsupportedError ''snell'')" for t
    by (simp add: clashToOutbound_def demo_doc_def asString_def asInt_def type_fields_def)
  have "ParseClashConfig (\<lambda>_. Some demo_doc) (\<lambda>_. Some ''{}'') ''doc'' =
      Inr \<lparr>ps_Nodes = [\<lparr>x_Name = ''hk'', x_Outbound = ''{}''\<rparr>], ps_Skipped = [''hk''], ps_Modes = Map.empty\<rparr>"
    using tr sn by (simp add: ParseClashConfig_def demo_doc_def import_proxy_def uniqueName_def asString_def extractModes_def Let_def)
  moreover have "\<not> IsBlob ''doc''" by code_simp
  ultimately show "downloaded demo_server url key =
      Inr \<lparr>ps_Nodes = [\<lparr>x_Name = ''hk'', x_Outbound = ''{}''\<rparr>], ps_Skipped = [''hk''], ps_Modes = Map.empty\<rparr>"
    using v by (simp add: downloaded_def FetchConfigSource_def SafeDo_def SafeHTTPClient_def demo_server_def fetchSizeLimit_def)
qed

theorem import_mirrors_profile_witness:
  "\<exists>st a d'. importProxiesForNode demo_server (\<lambda>_. Some ''n'') (\<lambda>_. replicate 16 CHR ''u'') 0 demo_anchor [] False demo_nodes_db
       = (Inr st, a, d') \<and>
     (\<exists>row \<in> set (nodes d'). nr_source row = ''node:n1'' \<and> HasPrefix (nr_name row) ''hk'' \<and>
        decrypt demo_server (nr_outbound_enc row) = Inr ''{}'')"
proof -
  let ?nonce = "\<lambda>_. Some ''n''" and ?uid = "\<lambda>_. replicate 16 CHR ''u''"
  let ?parsed = "\<lparr>ps_Nodes = [\<lparr>x_Name = ''hk'', x_Outbound = ''{}''\<rparr>], ps_Skipped = [''hk''], ps_Modes = Map.empty\<rparr>"
  have "\<not> isl (fst (sync_children demo_server ?nonce ?uid 0 demo_anchor ?parsed False demo_nodes_db))" by code_simp
  then obtain st d' where "sync_children demo_server ?nonce ?uid 0 demo_anchor ?parsed False demo_nodes_db = (Inr st, d')"
    by (metis prod.collapse sum.collapse(2))
  then have imp: "importProxiesForNode demo_server ?nonce ?uid 0 demo_anchor [] False demo_nodes_db = (Inr st, demo_anchor, d')"
    using demo_download(1) [of "n_ConfigURL demo_anchor" "[]"] demo_download(2) [of "n_ConfigURL demo_anchor"]
    by (auto simp: importProxiesForNode_def downloaded_def demo_server_def split: sum.splits)
  have seal: "sealing demo_server ?nonce" using demo_gcm_ok by (simp add: sealing_def demo_gcm_def)
  have ok: "db_ok demo_nodes_db" by (simp add: demo_nodes_db_def db_ok_simps empty_db_def)
  have src: "n_Source demo_anchor \<noteq> nodeSource (n_ID demo_anchor)" by code_simp
  from import_mirrors_profile [OF ok seal src imp] demo_download(1) [of "n_ConfigURL demo_anchor" "[]"] imp
  show ?thesis by (auto simp: Let_def carries_def nodeSource_def demo_anchor_def demo_node_def)
qed

end
