(* ===== verification/Api_Node_Routes.thy ===== *)
theory Api_Node_Routes
  imports Api_Import
begin

text \<open>
  Correctness of the node routes as a client sees them: the filtered listing page by page,
  the retried creation, the guarded patch, the deletion with its children, and what a view of
  a node reveals.
\<close>

subsection \<open>The listing\<close>

text \<open>The loop collects the selected nodes after the cursor up to the page size.\<close>

definition past_name :: "string \<Rightarrow> node \<Rightarrow> bool" where
  "past_name after x \<longleftrightarrow> after = [] \<or> after < n_Name x"

lemma nodes_page_spec:
  "length items \<le> n \<Longrightarrow>
   nodes_page E h r (int n) after xs items lst =
     (let rest = filter (\<lambda>x. past_name after x \<and> node_selected E r x) xs; k = n - length items in
      (items @ map (summaryItem E h) (take k rest),
       if k < length rest then (if k = 0 then lst else n_Name (last (take k rest))) else []))"
proof (induction xs arbitrary: items lst)
  case (Cons x xs)
  show ?case
  proof (cases "past_name after x \<and> node_selected E r x")
    case False
    with Cons.IH [OF Cons.prems, of lst] show ?thesis by (auto simp: past_name_def not_less)
  next
    case True
    then have t: "\<not> (after \<noteq> [] \<and> n_Name x \<le> after)" "node_selected E r x" by (auto simp: past_name_def not_less)
    show ?thesis
    proof (cases "length items = n")
      case eq: True
      with t True show ?thesis by auto
    next
      case neq: False
      then obtain k where k: "n - length items = Suc k" using Cons.prems by (cases "n - length items") auto
      then have k': "n - Suc (length items) = k" by simp
      from Cons.IH [of "items @ [summaryItem E h x]" "n_Name x"] neq Cons.prems k k' t True show ?thesis
        by (cases k) (auto simp: Let_def)
    qed
  qed
qed simp

definition nodes_cursor :: "node \<Rightarrow> string" where
  "nodes_cursor n = encodeCursor [n_Name n]"

definition listed_nodes :: "env \<times> request \<times> panel \<Rightarrow> node list" where
  "listed_nodes = (\<lambda>(E, r, p). filter (node_selected E r) (ListNodes (p_db p)))"

definition nodes_listing_inv :: "env \<times> request \<times> panel \<Rightarrow> bool" where
  "nodes_listing_inv = (\<lambda>(E, r, p). db_ok (p_db p) \<and>
     (\<forall>row \<in> set (nodes (p_db p)). nr_name row \<noteq> [] \<and> CHR 0x1F \<notin> set (nr_name row)) \<and>
     parsePositiveInt (Get (rq_Query r) ''page_size'') 20 100 \<noteq> None)"

definition get_nodes :: "env \<times> request \<times> panel \<Rightarrow> string \<Rightarrow> json_map" where
  "get_nodes = (\<lambda>(E, r, p) c. body_fields (fst (handleListNodes E (r\<lparr>rq_Query := (''cursor'', c) # rq_Query r\<rparr>) p)))"

definition nodes_page_size :: "env \<times> request \<times> panel \<Rightarrow> nat" where
  "nodes_page_size = (\<lambda>(E, r, p). nat (the (parsePositiveInt (Get (rq_Query r) ''page_size'') 20 100)))"

lemma node_selected_cursor: "node_selected E (r\<lparr>rq_Query := (''cursor'', c) # rq_Query r\<rparr>) = node_selected E r"
  by (simp add: fun_eq_iff node_selected_def Get_def)

lemma get_nodes_page:
  assumes "nodes_listing_inv (E, r, p)"
    and "c = [] \<and> after = [] \<or> c = encodeCursor [after] \<and> after \<noteq> [] \<and> CHR 0x1F \<notin> set after"
  shows "is_page (nodes_page_size (E, r, p)) (summaryItem E (p_hub p)) nodes_cursor
           (filter (past_name after) (listed_nodes (E, r, p))) (get_nodes (E, r, p) c)"
proof -
  from assms(1) obtain m where m: "parsePositiveInt (Get (rq_Query r) ''page_size'') 20 100 = Some m"
    by (auto simp: nodes_listing_inv_def)
  then have pos: "1 \<le> m" using parsePositiveInt_range by force
  define n where "n = nat m"
  have n: "m = int n" "0 < n" "nodes_page_size (E, r, p) = n" using pos m by (simp_all add: n_def nodes_page_size_def)
  let ?r = "r\<lparr>rq_Query := (''cursor'', c) # rq_Query r\<rparr>"
  define rest where "rest = filter (past_name after) (listed_nodes (E, r, p))"
  have rest: "rest = filter (\<lambda>x. past_name after x \<and> node_selected E ?r x) (ListNodes (p_db p))"
    by (auto simp: rest_def listed_nodes_def node_selected_cursor intro: filter_cong)
  have c: "(if c = [] then Some [] else case decodeCursor c of Some [x] \<Rightarrow> Some x | _ \<Rightarrow> None) = Some after"
    using assms(2) cursor_roundtrip [of "[after]"] by auto
  define nm where "nm = (if n < length rest then n_Name (last (take n rest)) else [])"
  have page: "nodes_page E (p_hub p) ?r (int n) after (ListNodes (p_db p)) [] [] = (map (summaryItem E (p_hub p)) (take n rest), nm)"
    using nodes_page_spec [of "[]" n E "p_hub p" ?r after "ListNodes (p_db p)" "[]"] n(2)
    unfolding rest [symmetric] by (simp add: nm_def)
  have "nm \<noteq> []" if "n < length rest"
  proof -
    have "last (take n rest) \<in> set rest" using that n(2) by (metis in_set_takeD last_in_set length_0_conv length_take less_irrefl min.absorb4)
    then have "last (take n rest) \<in> set (ListNodes (p_db p))" by (simp add: rest)
    then show ?thesis using that assms(1) by (auto simp: nm_def nodes_listing_inv_def ListNodes_def)
  qed
  then have "map_of (get_nodes (E, r, p) c) ''next_cursor'' = (if n < length rest then Some (JStr (encodeCursor [nm])) else None)"
    "map_of (get_nodes (E, r, p) c) ''items'' = Some (JArr (map (summaryItem E (p_hub p)) (take n rest)))"
    using m n(1) c page by (auto simp: get_nodes_def handleListNodes_def Get_def body_fields_def page_links_def Let_def nm_def)
  then show ?thesis unfolding rest_def [symmetric] by (simp add: is_page_def n(3) nodes_cursor_def nm_def)
qed

interpretation names_order: keyset_order "(<) :: string \<Rightarrow> string \<Rightarrow> bool" n_Name
  by unfold_locales auto

lemma last_listed:
  assumes "listed_nodes (E, r, p) = xs @ ys" and "xs \<noteq> []"
  shows "\<exists>row \<in> set (nodes (p_db p)). n_Name (last xs) = nr_name row"
proof -
  have "last xs \<in> set (listed_nodes (E, r, p))" using assms by simp
  then show ?thesis by (auto simp: listed_nodes_def ListNodes_def)
qed

interpretation nodes_listing: paged_listing nodes_listing_inv get_nodes listed_nodes nodes_page_size
  "\<lambda>(E, r, p). summaryItem E (p_hub p)" nodes_cursor
proof (unfold_locales, goal_cases)
  case (1 q)
  then obtain E r p m where "q = (E, r, p)" "parsePositiveInt (Get (rq_Query r) ''page_size'') 20 100 = Some m"
    by (cases q) (auto simp: nodes_listing_inv_def)
  then show ?case using parsePositiveInt_range [of _ 20 100 m] by (force simp: nodes_page_size_def)
next
  case (2 q)
  obtain E r p where q: "q = (E, r, p)" by (cases q)
  have "filter (past_name []) (listed_nodes (E, r, p)) = listed_nodes (E, r, p)" by (simp add: past_name_def)
  with get_nodes_page [of E r p "[]" "[]"] 2 q show ?case by simp
next
  case (3 q xs ys)
  obtain E r p where q: "q = (E, r, p)" by (cases q)
  from 3 q have l: "listed_nodes (E, r, p) = xs @ ys" by simp
  obtain row where row: "row \<in> set (nodes (p_db p))" "n_Name (last xs) = nr_name row" using last_listed [OF l 3(3)] by auto
  then have nm: "n_Name (last xs) \<noteq> []" "CHR 0x1F \<notin> set (n_Name (last xs))" using 3(1) q by (auto simp: nodes_listing_inv_def)
  have ok: "distinct (map nr_name (nodes (p_db p)))" using 3(1) q by (simp add: nodes_listing_inv_def db_ok_simps)
  have "sorted_wrt (\<lambda>a b. n_Name a < n_Name b) (ListNodes (p_db p))"
    using strictly_sorted [OF ok] by (simp add: ListNodes_def sorted_wrt_map)
  then have "sorted_wrt (\<lambda>a b. n_Name a < n_Name b) (xs @ ys)"
    unfolding l [symmetric] by (simp add: listed_nodes_def sorted_wrt_filter)
  from names_order.rest_after [OF this 3(3)] have "filter (past_name (n_Name (last xs))) (listed_nodes (E, r, p)) = ys"
    using nm(1) by (simp add: l past_name_def [abs_def])
  with get_nodes_page [of E r p "encodeCursor [n_Name (last xs)]" "n_Name (last xs)"] 3(1) q nm show ?case
    by (simp add: nodes_cursor_def)
qed

text \<open>
  A client that follows the cursors of the node listing, with any filters and any page
  size, receives every node the filters select exactly once, in the order of the names, and
  then no further cursor. Names are unique, so no row is skipped between pages.
\<close>

theorem node_listing_complete:
  assumes "db_ok (p_db p)" and "\<forall>row \<in> set (nodes (p_db p)). nr_name row \<noteq> [] \<and> CHR 0x1F \<notin> set (nr_name row)"
    and "parsePositiveInt (Get (rq_Query r) ''page_size'') 20 100 \<noteq> None" and "length (nodes (p_db p)) < fuel"
  shows "follow_pages (\<lambda>c. body_fields (fst (handleListNodes E (r\<lparr>rq_Query := (''cursor'', c) # rq_Query r\<rparr>) p))) fuel [] =
      map (summaryItem E (p_hub p)) (filter (node_selected E r) (ListNodes (p_db p))) \<and>
    sorted_wrt (\<lambda>a b. n_Name a < n_Name b) (ListNodes (p_db p))"
proof
  have inv: "nodes_listing_inv (E, r, p)" using assms by (simp add: nodes_listing_inv_def)
  have "length (listed_nodes (E, r, p)) \<le> length (nodes (p_db p))"
    using length_filter_le [of "node_selected E r" "ListNodes (p_db p)"] by (simp add: listed_nodes_def ListNodes_def)
  with nodes_listing.follow_all [OF inv, of fuel] assms(4)
  show "follow_pages (\<lambda>c. body_fields (fst (handleListNodes E (r\<lparr>rq_Query := (''cursor'', c) # rq_Query r\<rparr>) p))) fuel [] =
      map (summaryItem E (p_hub p)) (filter (node_selected E r) (ListNodes (p_db p)))"
    by (simp add: get_nodes_def listed_nodes_def)
  have "distinct (map nr_name (nodes (p_db p)))" using assms(1) by (simp add: db_ok_simps)
  from strictly_sorted [OF this] show "sorted_wrt (\<lambda>a b. n_Name a < n_Name b) (ListNodes (p_db p))"
    by (simp add: ListNodes_def sorted_wrt_map)
qed

definition demo_nodes_panel :: panel where
  "demo_nodes_panel = demo_panel\<lparr>p_db := demo_nodes_db\<rparr>"

theorem node_listing_complete_witness:
  "follow_pages (\<lambda>c. body_fields (fst (handleListNodes demo_server (demo_request\<lparr>rq_Query := [(''cursor'', c)]\<rparr>) demo_nodes_panel))) 2 [] =
   map (summaryItem demo_server (p_hub demo_nodes_panel)) (filter (node_selected demo_server demo_request) (ListNodes demo_nodes_db))"
proof -
  have "parsePositiveInt (Get (rq_Query demo_request) ''page_size'') 20 100 \<noteq> None" by code_simp
  with node_listing_complete [of demo_nodes_panel demo_request 2 demo_server] demo_nodes_db_ok show ?thesis
    by (simp add: demo_nodes_panel_def demo_nodes_db_def demo_node_def node_columns_def demo_request_def)
qed

subsection \<open>Creation\<close>

lemma reload_hub_idem [simp]: "p_idem (reload_hub E now p) = p_idem p"
  by (simp add: reload_hub_def split: prod.splits sum.splits)

text \<open>The key under which a reply is kept names the account and the client's own key.\<close>

definition ctx_user :: "request \<Rightarrow> int" where
  "ctx_user r = (case rq_ctxUserID r of None \<Rightarrow> 0 | Some u \<Rightarrow> u)"

lemma idem_key_inj:
  assumes "idem_key r = Some k" and "idem_key r' = Some k" and "in_i64 (ctx_user r)" and "in_i64 (ctx_user r')"
  shows "ctx_user r = ctx_user r'" and "Get (rq_Header r) ''Idempotency-Key'' = Get (rq_Header r') ''Idempotency-Key''"
proof -
  have k: "k = ''create-node:'' @ Itoa (ctx_user x) @ CHR '':'' # Get (rq_Header x) ''Idempotency-Key''" if "idem_key x = Some k" for x
    using that by (simp add: idem_key_def ctx_user_def Let_def split: if_splits)
  have e: "Itoa (ctx_user r) @ CHR '':'' # Get (rq_Header r) ''Idempotency-Key'' =
      Itoa (ctx_user r') @ CHR '':'' # Get (rq_Header r') ''Idempotency-Key''"
    using k [OF assms(1)] k [OF assms(2)] by (metis same_append_eq)
  have no: "CHR '':'' \<notin> set (Itoa i)" for i by (auto dest!: Itoa_chars simp: is_digit_def)
  have t: "takeWhile (\<lambda>c. c \<noteq> CHR '':'') (Itoa i @ CHR '':'' # x) = Itoa i" for i x
    using no [of i] by (subst takeWhile_append2) auto
  from e t have "Itoa (ctx_user r) = Itoa (ctx_user r')" by metis
  with assms(3,4) show "ctx_user r = ctx_user r'" by (blast intro: Itoa_inj)
  with e show "Get (rq_Header r) ''Idempotency-Key'' = Get (rq_Header r') ''Idempotency-Key''" by simp
qed

lemma handleCreateNode_201:
  assumes "handleCreateNode E dec nonce uid now r p = (resp, p1)" and "rp_Status resp = 201"
    and "idem_key r = Some k" and "idem_get now k (p_idem p) = None"
  shows "\<exists>e. p_idem p1 = idem_put now k e (p_idem p) \<and> ie_created e = now \<and>
     resp = setHeader ''Location'' (ie_location e) (WriteRawJSON (ie_status e) (ie_body e))"
  using assms
  by (auto simp: handleCreateNode_def finish_create_def Let_def rp_Status_simps DecodeJSON_error
      split: option.splits sum.splits if_splits prod.splits dest: DecodeJSON_error)

text \<open>
  C7: a retried creation creates once. When POST /nodes with an Idempotency-Key has answered
  201, then for as long as the reply is kept every request of the same account under the same
  key gets the same response, whatever its body and whatever happened to the panel since, and
  changes nothing. The reply is kept for the account and the key alone: a request that finds
  it has both in common with the first.
\<close>

theorem create_node_replayed:
  assumes "handleCreateNode E dec nonce uid now r p = (resp, p1)" and "rp_Status resp = 201"
    and "idem_key r = Some k" and "idem_get now k (p_idem p) = None"
    and "TimeSub t now \<le> is_ttl (p_idem p1)"
    and "is_ttl (p_idem q) = is_ttl (p_idem p1)" and "is_entries (p_idem q) k = is_entries (p_idem p1) k"
    and "in_i64 (ctx_user r)" and "in_i64 (ctx_user r')"
  shows "(idem_key r' = Some k \<longrightarrow> handleCreateNode E dec' nonce' uid' t r' q = (resp, q)) \<and>
    (idem_key r' = Some k \<longleftrightarrow> Get (rq_Header r') ''Idempotency-Key'' \<noteq> [] \<and> ctx_user r = ctx_user r' \<and>
      Get (rq_Header r) ''Idempotency-Key'' = Get (rq_Header r') ''Idempotency-Key'')"
proof
  from handleCreateNode_201 [OF assms(1-4)] obtain e where e: "p_idem p1 = idem_put now k e (p_idem p)" "ie_created e = now"
    "resp = setHeader ''Location'' (ie_location e) (WriteRawJSON (ie_status e) (ie_body e))" by auto
  then have "is_entries (p_idem q) k = Some e" using assms(7) by (simp add: idem_put_def Let_def)
  then have "idem_get t k (p_idem q) = Some e" using e(2) assms(5,6) by (simp add: idem_get_def)
  then show "idem_key r' = Some k \<longrightarrow> handleCreateNode E dec' nonce' uid' t r' q = (resp, q)"
    by (simp add: handleCreateNode_def e(3))
next
  show "idem_key r' = Some k \<longleftrightarrow> Get (rq_Header r') ''Idempotency-Key'' \<noteq> [] \<and> ctx_user r = ctx_user r' \<and>
      Get (rq_Header r) ''Idempotency-Key'' = Get (rq_Header r') ''Idempotency-Key''"
  proof
    assume k': "idem_key r' = Some k"
    then have "Get (rq_Header r') ''Idempotency-Key'' \<noteq> []" by (simp add: idem_key_def Let_def split: if_splits)
    with idem_key_inj [OF assms(3) k' assms(8,9)]
    show "Get (rq_Header r') ''Idempotency-Key'' \<noteq> [] \<and> ctx_user r = ctx_user r' \<and>
      Get (rq_Header r) ''Idempotency-Key'' = Get (rq_Header r') ''Idempotency-Key''" by simp
  next
    assume "Get (rq_Header r') ''Idempotency-Key'' \<noteq> [] \<and> ctx_user r = ctx_user r' \<and>
      Get (rq_Header r) ''Idempotency-Key'' = Get (rq_Header r') ''Idempotency-Key''"
    with assms(3) show "idem_key r' = Some k" by (simp add: idem_key_def ctx_user_def Let_def split: if_splits)
  qed
qed

definition demo_input :: node_input where
  "demo_input = \<lparr>in_Name = ''osaka'', in_APIURL = ''http://h2:9090/'', in_APISecret = ''s3'', in_OutboundJSON = None, in_ConfigURL = [],
     in_KCEKey = [], in_Tags = None, in_Enabled = None, in_Remark = []\<rparr>"

definition demo_create :: request where
  "demo_create = demo_request\<lparr>rq_Header := [(''Content-Type'', ''application/json''), (''Idempotency-Key'', ''once'')], rq_ctxUserID := Some 7\<rparr>"

definition demo_created :: "response \<times> panel" where
  "demo_created = handleCreateNode demo_server (\<lambda>_ _. Decoded demo_input True) (\<lambda>_. Some ''n'') (\<lambda>_. replicate 16 CHR ''u'') 5000000000
     demo_create demo_nodes_panel"

lemma demo_created_status: "rp_Status (fst demo_created) = 201" "idem_key demo_create = Some ''create-node:7:once''"
  by code_simp+

lemma demo_created_ttl: "is_ttl (p_idem (snd demo_created)) = 86400000000000"
  by code_simp

theorem create_node_replayed_witness:
  "rp_Status (fst demo_created) = 201 \<and>
   handleCreateNode demo_server (\<lambda>_ _. Decoded demo_input True) (\<lambda>_. None) (\<lambda>_. []) 6000000000 demo_create (snd demo_created) = demo_created"
proof -
  have "idem_get 5000000000 ''create-node:7:once'' (p_idem demo_nodes_panel) = None" by code_simp
  moreover have "in_i64 (ctx_user demo_create)" by (simp add: ctx_user_def demo_create_def in_i64_def)
  moreover have "TimeSub 6000000000 5000000000 \<le> is_ttl (p_idem (snd demo_created))" unfolding demo_created_ttl by code_simp
  ultimately show ?thesis
    using create_node_replayed [of demo_server "\<lambda>_ _. Decoded demo_input True" "\<lambda>_. Some ''n''" "\<lambda>_. replicate 16 CHR ''u''" 5000000000
        demo_create demo_nodes_panel "fst demo_created" "snd demo_created" "''create-node:7:once''" 6000000000 "snd demo_created" demo_create
        "\<lambda>_ _. Decoded demo_input True" "\<lambda>_. None" "\<lambda>_. []"] demo_created_status
    by (simp add: demo_created_def)
qed

lemma input_node_fields:
  assumes "sealing E nonce" and "input_node E nonce uid inp = Inr n"
  shows "n_ID n = newUUID uid" and "n_Name n = in_Name inp" and "n_APIURL n = TrimRight (in_APIURL inp) ''/''"
    and "n_ConfigURL n = TrimRight (TrimSpace (in_ConfigURL inp)) ''/''" and "n_Tags n = orEmpty (in_Tags inp)"
    and "n_Enabled n = (in_Enabled inp \<noteq> Some False)" and "n_Remark n = in_Remark inp" and "n_Source n = []"
    and "decrypt E (n_APISecretEnc n) = Inr (in_APISecret inp)"
    and "decrypt E (n_OutboundEnc n) = Inr (case in_OutboundJSON inp of None \<Rightarrow> [] | Some ob \<Rightarrow> TrimSpace ob)"
proof -
  have e: "decrypt E [] = Inr []" by (simp add: decrypt_def Decrypt_def)
  show "n_ID n = newUUID uid" and "n_Name n = in_Name inp" and "n_APIURL n = TrimRight (in_APIURL inp) ''/''"
    and "n_ConfigURL n = TrimRight (TrimSpace (in_ConfigURL inp)) ''/''" and "n_Tags n = orEmpty (in_Tags inp)"
    and "n_Enabled n = (in_Enabled inp \<noteq> Some False)" and "n_Remark n = in_Remark inp" and "n_Source n = []"
    and "decrypt E (n_APISecretEnc n) = Inr (in_APISecret inp)"
    and "decrypt E (n_OutboundEnc n) = Inr (case in_OutboundJSON inp of None \<Rightarrow> [] | Some ob \<Rightarrow> TrimSpace ob)"
    using assms(2) e by (auto simp: input_node_def Let_def sealing_opens [OF assms(1)] split: sum.splits option.splits if_splits)
qed

lemma handleCreateNode_fresh:
  assumes "case idem_key r of None \<Rightarrow> True | Some k \<Rightarrow> idem_get now k (p_idem p) = None"
    and "DecodeJSON (ev_ParseMediaType E) dec r = Inr inp" and "TrimRight (TrimSpace (in_ConfigURL inp)) ''/'' = []"
    and "sealing E nonce"
  shows "handleCreateNode E dec nonce uid now r p =
    (if validateNodeInput E inp True \<noteq> []
     then (Validation r ''node input failed validation'' (validateNodeInput E inp True), p)
     else case input_node E nonce (uid 0) inp of Inl _ \<Rightarrow> (Internal r, p)
     | Inr n0 \<Rightarrow> (case CreateNode (Unix now) n0 (p_db p) of
          Inl e \<Rightarrow> (if isUniqueViolation e then Conflict r ''a node with this name already exists'' else Internal r, p)
        | Inr (n, d) \<Rightarrow> finish_create E now r n None (p\<lparr>p_db := d\<rparr>)))"
proof -
  have idem: "(case idem_key r of None \<Rightarrow> None | Some k \<Rightarrow> idem_get now k (p_idem p)) = None"
    using assms(1) by (simp split: option.splits)
  show ?thesis
  proof (cases "input_node E nonce (uid 0) inp")
    case (Inl e)
    with idem assms(2) show ?thesis by (simp add: handleCreateNode_def)
  next
    case n0: (Inr n0)
    show ?thesis
    proof (cases "CreateNode (Unix now) n0 (p_db p)")
      case (Inl e)
      with idem assms(2) n0 show ?thesis by (simp add: handleCreateNode_def)
    next
      case (Inr nd)
      obtain n d where nd: "nd = (n, d)" by force
      have "n_ConfigURL n = []"
        using input_node_fields(4) [OF assms(4) n0] CreateNode_rows(3) [OF Inr [unfolded nd]] assms(3) by simp
      with idem assms(2) n0 Inr nd show ?thesis by (simp add: handleCreateNode_def)
    qed
  qed
qed

lemma finish_create_db: "p_db (snd (finish_create E now r n imp p)) = p_db (reload_hub E now p)"
  "rp_Status (fst (finish_create E now r n imp p)) = 201"
  by (simp_all add: finish_create_def Let_def split: option.split)

text \<open>
  What a creation without a profile stores. A 201 appends exactly one node, under a fresh id
  and a name no node had, with the address, tags and remark given, enabled unless the client
  says otherwise, and with the secret and the outbound under the seal; the Location header
  names it. A name that is taken is refused with 409 and nothing changes.
\<close>


theorem create_node_stored:
  assumes "DecodeJSON (ev_ParseMediaType E) dec r = Inr inp" and "TrimRight (TrimSpace (in_ConfigURL inp)) ''/'' = []"
    and "sealing E nonce" and "case idem_key r of None \<Rightarrow> True | Some k \<Rightarrow> idem_get now k (p_idem p) = None"
  shows "let (resp, p1) = handleCreateNode E dec nonce uid now r p in
    (rp_Status resp = 201 \<longrightarrow>
      (\<exists>row. map offline_row (nodes (p_db p1)) = map offline_row (nodes (p_db p)) @ [offline_row row] \<and>
        nr_id row = newUUID (uid 0) \<and> nr_id row \<notin> nr_id ` set (nodes (p_db p)) \<and>
        nr_name row = in_Name inp \<and> nr_name row \<notin> nr_name ` set (nodes (p_db p)) \<and> TrimSpace (in_Name inp) \<noteq> [] \<and>
        nr_api_url row = TrimRight (in_APIURL inp) ''/'' \<and> nr_source row = [] \<and> nr_remark row = in_Remark inp \<and>
        nr_enabled row = (if in_Enabled inp = Some False then 0 else 1) \<and>
        decrypt E (nr_api_secret_enc row) = Inr (in_APISecret inp) \<and>
        decrypt E (nr_outbound_enc row) = Inr (case in_OutboundJSON inp of None \<Rightarrow> [] | Some ob \<Rightarrow> TrimSpace ob) \<and>
        map_of (rp_Header resp) ''Location'' = Some (''/nodes/'' @ nr_id row))) \<and>
    (rp_Status resp \<noteq> 201 \<longrightarrow> p1 = p) \<and>
    (validateNodeInput E inp True = [] \<and> in_Name inp \<in> nr_name ` set (nodes (p_db p)) \<and> nonce 0 \<noteq> None \<and> nonce 1 \<noteq> None \<longrightarrow>
      rp_Status resp = 409)"
proof -
  have fresh: "handleCreateNode E dec nonce uid now r p =
    (if validateNodeInput E inp True \<noteq> []
     then (Validation r ''node input failed validation'' (validateNodeInput E inp True), p)
     else case input_node E nonce (uid 0) inp of Inl _ \<Rightarrow> (Internal r, p)
     | Inr n0 \<Rightarrow> (case CreateNode (Unix now) n0 (p_db p) of
          Inl e \<Rightarrow> (if isUniqueViolation e then Conflict r ''a node with this name already exists'' else Internal r, p)
        | Inr (n, d) \<Rightarrow> finish_create E now r n None (p\<lparr>p_db := d\<rparr>)))"
    using handleCreateNode_fresh [OF assms(4,1,2,3)] .
  show ?thesis
  proof (cases "validateNodeInput E inp True = []")
    case False
    with fresh show ?thesis by simp
  next
    case valid: True
    then have name: "TrimSpace (in_Name inp) \<noteq> []" by (auto simp: validateNodeInput_def split: if_splits)
    show ?thesis
    proof (cases "input_node E nonce (uid 0) inp")
      case (Inl e)
      then have "nonce 0 = None \<or> nonce 1 = None"
        using assms(2,3) by (auto simp: input_node_def Let_def encrypt_def Encrypt_def sealing_def split: option.splits if_splits sum.splits)
      with fresh valid Inl show ?thesis by auto
    next
      case n0: (Inr n0)
      note f = input_node_fields [OF assms(3) n0]
      show ?thesis
      proof (cases "CreateNode (Unix now) n0 (p_db p)")
        case (Inl e)
        then have "e = UniqueViolation" by (auto simp: CreateNode_def Let_def split: if_splits)
        with fresh valid n0 Inl show ?thesis by (simp add: isUniqueViolation_def)
      next
        case (Inr nd)
        obtain n d where nd: "nd = (n, d)" by force
        note c = CreateNode_rows [OF Inr [unfolded nd]]
        have nm: "in_Name inp \<notin> nr_name ` set (nodes (p_db p))"
          using Inr f(2) by (auto simp: CreateNode_def Let_def list_ex_iff split: if_splits)
        define row where "row = node_columns (n0\<lparr>n_CreatedAt := Unix now, n_UpdatedAt := Unix now\<rparr>) (Unix now) (Unix now) 0"
        obtain resp p1 where fin: "finish_create E now r n None (p\<lparr>p_db := d\<rparr>) = (resp, p1)" by force
        have "map offline_row (nodes (p_db p1)) = map offline_row (nodes d)"
          using reload_hub_config [of "p\<lparr>p_db := d\<rparr>" E now] finish_create_db(1) [of E now r n None "p\<lparr>p_db := d\<rparr>"] fin
          by (simp add: same_config_def)
        then have "map offline_row (nodes (p_db p1)) = map offline_row (nodes (p_db p)) @ [offline_row row]"
          by (simp add: c(1) row_def)
        moreover have "map_of (rp_Header resp) ''Location'' = Some (''/nodes/'' @ nr_id row)" "rp_Status resp = 201"
          using fin c(3) by (auto simp: finish_create_def Let_def setHeader_def update_conv' WriteRawJSON_def row_def node_columns_def)
        moreover have "nr_id row = newUUID (uid 0)" "nr_name row = in_Name inp" "nr_api_url row = TrimRight (in_APIURL inp) ''/''"
          "nr_source row = []" "nr_remark row = in_Remark inp" "nr_enabled row = (if in_Enabled inp = Some False then 0 else 1)"
          "nr_api_secret_enc row = n_APISecretEnc n0" "nr_outbound_enc row = n_OutboundEnc n0"
          using f by (simp_all add: row_def node_columns_def boolInt_def)
        moreover have hc: "handleCreateNode E dec nonce uid now r p = (resp, p1)" using fresh valid n0 Inr nd fin by simp
        ultimately show ?thesis
          unfolding hc Let_def prod.case using nm name c(2) f(1,9,10) by (intro conjI impI exI [of _ row]) simp_all
      qed
    qed
  qed
qed

theorem create_node_stored_witness:
  "\<exists>row. map offline_row (nodes (p_db (snd demo_created))) = map offline_row (nodes demo_nodes_db) @ [offline_row row] \<and>
     nr_name row = ''osaka'' \<and> nr_api_url row = ''http://h2:9090'' \<and> decrypt demo_server (nr_api_secret_enc row) = Inr ''s3''"
proof -
  have d: "DecodeJSON (ev_ParseMediaType demo_server) (\<lambda>_ _. Decoded demo_input True) demo_create = Inr demo_input"
    by (simp add: DecodeJSON_def demo_create_def demo_request_def Get_def)
  have c: "TrimRight (TrimSpace (in_ConfigURL demo_input)) ''/'' = []" by code_simp
  have u: "TrimRight ''http://h2:9090/'' ''/'' = ''http://h2:9090''" by code_simp
  have i: "idem_get 5000000000 ''create-node:7:once'' (p_idem demo_nodes_panel) = None" by code_simp
  have s: "sealing demo_server (\<lambda>_. Some ''n'')" using demo_gcm_ok by (simp add: sealing_def demo_gcm_def)
  have db: "p_db demo_nodes_panel = demo_nodes_db" by (simp add: demo_nodes_panel_def)
  have inp: "in_Name demo_input = ''osaka''" "in_APIURL demo_input = ''http://h2:9090/''" "in_APISecret demo_input = ''s3''"
    by (simp_all add: demo_input_def)
  from create_node_stored [OF d c s, of 5000000000 demo_nodes_panel "\<lambda>_. replicate 16 CHR ''u''"] i demo_created_status
  show ?thesis
    unfolding demo_created_def [symmetric] inp u by (simp add: split_beta db) blast
qed

subsection \<open>Deletion\<close>

lemma GetNode_ID: "GetNode i d = Inr n \<Longrightarrow> n_ID n = i"
  by (auto simp: GetNode_def split: option.splits dest: row_with_Some)

lemma delete_children_rows:
  "nodes (delete_children cs d) = filter (\<lambda>row. nr_id row \<notin> n_ID ` set cs) (nodes d) \<and> store_steps d (delete_children cs d)"
proof (induction cs arbitrary: d)
  case (Cons c cs)
  define d1 where "d1 = (case DeleteNode (n_ID c) d of Inl _ \<Rightarrow> d | Inr d' \<Rightarrow> d')"
  have "nodes d1 = filter (\<lambda>row. nr_id row \<noteq> n_ID c) (nodes d) \<and> store_steps d d1"
  proof (cases "DeleteNode (n_ID c) d")
    case (Inl e)
    then have "\<not> node_exists (n_ID c) d" using DeleteNode_exists by auto
    then have "filter (\<lambda>row. nr_id row \<noteq> n_ID c) (nodes d) = nodes d" by (force simp: node_exists_iff filter_id_conv)
    with Inl show ?thesis by (simp add: d1_def)
  next
    case (Inr d')
    with then_step [OF st_delete_node [OF Inr] rtranclp.rtrancl_refl] show ?thesis by (simp add: d1_def DeleteNode_rows)
  qed
  with Cons.IH [of d1] show ?case by (auto simp: d1_def conj_commute intro: rtranclp_trans filter_cong)
qed simp

lemma disjoint_subset: "A \<subseteq> B \<Longrightarrow> B \<inter> C = {} \<Longrightarrow> A \<inter> C = {}"
  by blast



subsection \<open>Patching\<close>

text \<open>What each member of an accepted patch does to the node: the other fields stay.\<close>

lemma patch_name_ok:
  "patch_name E patch n = Inr n' \<Longrightarrow>
   \<exists>v. n' = n\<lparr>n_Name := v\<rparr> \<and> (given patch ''name'' = None \<longrightarrow> v = n_Name n) \<and> (\<forall>s. given patch ''name'' = Some (JStr s) \<longrightarrow> v = TrimSpace s)"
  by (auto simp: patch_name_def into_string_def Let_def split: option.splits if_splits json.splits)

lemma patch_api_url_ok:
  "patch_api_url E patch n = Inr n' \<Longrightarrow>
   \<exists>v. n' = n\<lparr>n_APIURL := v\<rparr> \<and> (given patch ''api_url'' = None \<longrightarrow> v = n_APIURL n) \<and> (\<forall>s. given patch ''api_url'' = Some (JStr s) \<longrightarrow> v = TrimRight s ''/'')"
  by (auto simp: patch_api_url_def into_string_def split: option.splits if_splits json.splits)

lemma patch_api_secret_ok:
  "patch_api_secret E rnd patch n = Inr n' \<Longrightarrow>
   \<exists>v. n' = n\<lparr>n_APISecretEnc := v\<rparr> \<and> (given patch ''api_secret'' = None \<longrightarrow> v = n_APISecretEnc n) \<and> (\<forall>s. given patch ''api_secret'' = Some (JStr s) \<longrightarrow> encrypt E rnd s = Inr v)"
  by (auto simp: patch_api_secret_def into_string_def split: option.splits sum.splits json.splits)

lemma patch_outbound_ok:
  "patch_outbound E rnd patch n = Inr n' \<Longrightarrow>
   \<exists>v. n' = n\<lparr>n_OutboundEnc := v\<rparr> \<and> (map_of patch ''outbound_json'' = None \<longrightarrow> v = n_OutboundEnc n) \<and> (map_of patch ''outbound_json'' = Some JNull \<longrightarrow> v = []) \<and>
     (\<forall>s. map_of patch ''outbound_json'' = Some (JStr s) \<longrightarrow> encrypt E rnd (TrimSpace s) = Inr v)"
  by (auto simp: patch_outbound_def into_string_def split: option.splits sum.splits json.splits)

lemma patch_tags_ok:
  "patch_tags E patch n = Inr n' \<Longrightarrow>
   \<exists>v. n' = n\<lparr>n_Tags := v\<rparr> \<and> (given patch ''tags'' = None \<longrightarrow> v = n_Tags n)"
  by (auto simp: patch_tags_def split: option.splits)

lemma patch_enabled_ok:
  "patch_enabled E patch n = Inr n' \<Longrightarrow>
   \<exists>v. n' = n\<lparr>n_Enabled := v\<rparr> \<and> (given patch ''enabled'' = None \<longrightarrow> v = n_Enabled n) \<and> (\<forall>b. given patch ''enabled'' = Some (JBool b) \<longrightarrow> v = b)"
  by (auto simp: patch_enabled_def into_bool_def split: option.splits json.splits)

lemma patch_remark_ok:
  "patch_remark E patch n = Inr n' \<Longrightarrow>
   \<exists>v. n' = n\<lparr>n_Remark := v\<rparr> \<and> (given patch ''remark'' = None \<longrightarrow> v = n_Remark n) \<and> (\<forall>s. given patch ''remark'' = Some (JStr s) \<longrightarrow> v = s)"
  by (auto simp: patch_remark_def into_string_def split: option.splits json.splits)

text \<open>The fields a node keeps when the patch does not name them, and the values it takes when it does.\<close>

definition patch_effect :: "env \<Rightarrow> json_map \<Rightarrow> node \<Rightarrow> node \<Rightarrow> bool" where
  "patch_effect E patch n n' \<longleftrightarrow>
     (given patch ''name'' = None \<longrightarrow> n_Name n' = n_Name n) \<and>
     (\<forall>s. given patch ''name'' = Some (JStr s) \<longrightarrow> n_Name n' = TrimSpace s) \<and>
     (given patch ''api_url'' = None \<longrightarrow> n_APIURL n' = n_APIURL n) \<and>
     (\<forall>s. given patch ''api_url'' = Some (JStr s) \<longrightarrow> n_APIURL n' = TrimRight s ''/'') \<and>
     (given patch ''api_secret'' = None \<longrightarrow> n_APISecretEnc n' = n_APISecretEnc n) \<and>
     (\<forall>s. given patch ''api_secret'' = Some (JStr s) \<longrightarrow> decrypt E (n_APISecretEnc n') = Inr s) \<and>
     (map_of patch ''outbound_json'' = None \<longrightarrow> n_OutboundEnc n' = n_OutboundEnc n) \<and>
     (map_of patch ''outbound_json'' = Some JNull \<longrightarrow> n_OutboundEnc n' = []) \<and>
     (\<forall>s. map_of patch ''outbound_json'' = Some (JStr s) \<longrightarrow> decrypt E (n_OutboundEnc n') = Inr (TrimSpace s)) \<and>
     (given patch ''tags'' = None \<longrightarrow> n_Tags n' = n_Tags n) \<and>
     (given patch ''enabled'' = None \<longrightarrow> n_Enabled n' = n_Enabled n) \<and>
     (\<forall>b. given patch ''enabled'' = Some (JBool b) \<longrightarrow> n_Enabled n' = b) \<and>
     (given patch ''remark'' = None \<longrightarrow> n_Remark n' = n_Remark n) \<and>
     (\<forall>s. given patch ''remark'' = Some (JStr s) \<longrightarrow> n_Remark n' = s) \<and>
     n_ID n' = n_ID n \<and> n_Source n' = n_Source n \<and> n_Mode n' = n_Mode n \<and> n_ConfigURL n' = n_ConfigURL n \<and>
     n_KCEKeyEnc n' = n_KCEKeyEnc n \<and> n_LatencyMs n' = n_LatencyMs n \<and> n_LatencyFailCount n' = n_LatencyFailCount n"

lemma applyNodePatch_effect:
  assumes "sealing E nonce" and "applyNodePatch E nonce patch n = Inr n'"
  shows "patch_effect E patch n n'"
proof -
  from assms(2) obtain n1 n2 n3 n4 n5 n6 where
    p: "patch_name E patch n = Inr n1" "patch_api_url E patch n1 = Inr n2" "patch_api_secret E (nonce 0) patch n2 = Inr n3"
    "patch_outbound E (nonce 1) patch n3 = Inr n4" "patch_tags E patch n4 = Inr n5" "patch_enabled E patch n5 = Inr n6"
    "patch_remark E patch n6 = Inr n'"
    by (auto simp: applyNodePatch_def split: sum.splits)
  obtain v1 where n1: "n1 = n\<lparr>n_Name := v1\<rparr>" and v1: "given patch ''name'' = None \<longrightarrow> v1 = n_Name n"
    "\<forall>s. given patch ''name'' = Some (JStr s) \<longrightarrow> v1 = TrimSpace s"
    using patch_name_ok [OF p(1)] by (elim exE conjE) (rule that)
  obtain v2 where n2: "n2 = n1\<lparr>n_APIURL := v2\<rparr>" and v2: "given patch ''api_url'' = None \<longrightarrow> v2 = n_APIURL n1"
    "\<forall>s. given patch ''api_url'' = Some (JStr s) \<longrightarrow> v2 = TrimRight s ''/''"
    using patch_api_url_ok [OF p(2)] by (elim exE conjE) (rule that)
  obtain v3 where n3: "n3 = n2\<lparr>n_APISecretEnc := v3\<rparr>" and v3: "given patch ''api_secret'' = None \<longrightarrow> v3 = n_APISecretEnc n2"
    "\<forall>s. given patch ''api_secret'' = Some (JStr s) \<longrightarrow> decrypt E v3 = Inr s"
    using patch_api_secret_ok [OF p(3)] by (elim exE conjE, intro that) (auto intro: sealing_opens [OF assms(1)])
  obtain v4 where n4: "n4 = n3\<lparr>n_OutboundEnc := v4\<rparr>" and v4: "map_of patch ''outbound_json'' = None \<longrightarrow> v4 = n_OutboundEnc n3"
    "map_of patch ''outbound_json'' = Some JNull \<longrightarrow> v4 = []"
    "\<forall>s. map_of patch ''outbound_json'' = Some (JStr s) \<longrightarrow> decrypt E v4 = Inr (TrimSpace s)"
    using patch_outbound_ok [OF p(4)] by (elim exE conjE, intro that) (auto intro: sealing_opens [OF assms(1)])
  obtain v5 where n5: "n5 = n4\<lparr>n_Tags := v5\<rparr>" and v5: "given patch ''tags'' = None \<longrightarrow> v5 = n_Tags n4"
    using patch_tags_ok [OF p(5)] by (elim exE conjE) (rule that)
  obtain v6 where n6: "n6 = n5\<lparr>n_Enabled := v6\<rparr>" and v6: "given patch ''enabled'' = None \<longrightarrow> v6 = n_Enabled n5"
    "\<forall>b. given patch ''enabled'' = Some (JBool b) \<longrightarrow> v6 = b"
    using patch_enabled_ok [OF p(6)] by (elim exE conjE) (rule that)
  obtain v7 where n7: "n' = n6\<lparr>n_Remark := v7\<rparr>" and v7: "given patch ''remark'' = None \<longrightarrow> v7 = n_Remark n6"
    "\<forall>s. given patch ''remark'' = Some (JStr s) \<longrightarrow> v7 = s"
    using patch_remark_ok [OF p(7)] by (elim exE conjE) (rule that)
  show ?thesis
    unfolding patch_effect_def using v1 v2 v3 v4 v5 v6 v7 by (intro conjI) (simp_all add: n1 n2 n3 n4 n5 n6 n7)
qed

lemma patched_node_Inl: "patched_node E nonce r patch n = Inl resp \<Longrightarrow> rp_Status resp \<in> {422, 500}"
proof -
  assume p: "patched_node E nonce r patch n = Inl resp"
  have "patch_config_url E r patch n = Inl x \<Longrightarrow> rp_Status x = 422" for x
    by (auto simp: patch_config_url_def Let_def split: option.splits if_splits json.splits)
  moreover have "patch_kce_key E w r patch m = Inl x \<Longrightarrow> rp_Status x \<in> {422, 500}" for w m x
    by (auto simp: patch_kce_key_def split: option.splits sum.splits)
  ultimately show ?thesis using p by (auto simp: patched_node_def split: sum.splits)
qed

lemma finish_update_status: "rp_Status (fst (finish_update E now r i imp p)) \<in> {200, 500}"
  by (auto simp: finish_update_def Let_def split: sum.splits)

lemma node_patch_answers:
  assumes n: "nodeOr404 r (p_db p) = Inr n" and pre: "node_precondition r n = None"
  shows "rp_Status (fst (handleUpdateNode E dec nonce uid now r p)) \<in> {200, 500, 502} \<or>
    rp_Status (fst (handleUpdateNode E dec nonce uid now r p)) \<in> {400, 404, 409, 412, 413, 415, 422, 428} \<and>
    snd (handleUpdateNode E dec nonce uid now r p) = p"
proof (cases "DecodeJSON (ev_ParseMediaType E) dec r")
  case (Inl resp)
  with DecodeJSON_error [OF Inl] n pre show ?thesis by (auto simp: handleUpdateNode_def)
next
  case patch: (Inr patch)
  show ?thesis
  proof (cases "patched_node E nonce r patch n")
    case (Inl resp)
    with patched_node_Inl [OF Inl] n pre patch show ?thesis by (auto simp: handleUpdateNode_def)
  next
    case kn: (Inr kn)
    obtain k n1 where kn': "kn = (k, n1)" by force
    show ?thesis
    proof (cases "UpdateNode (Unix now) n1 (p_db p)")
      case (Inl e)
      with n pre patch kn kn' show ?thesis by (simp add: handleUpdateNode_def)
    next
      case (Inr nd)
      obtain n2 d where nd: "nd = (n2, d)" by force
      define run where "run = importProxiesForNode E (\<lambda>i. nonce (i + 3)) uid now n2 k (map_of patch ''outbound_json'' = None) d"
      obtain res a d' where run': "run = (res, a, d')" by (cases run) auto
      have "handleUpdateNode E dec nonce uid now r p =
        (if (map_of patch ''config_url'' \<noteq> None \<or> map_of patch ''kce_key'' \<noteq> None) \<and> n_ConfigURL n2 \<noteq> []
         then case res of Inl e \<Rightarrow> (WriteProblem r 502 (prob ''upstream-unavailable'') (import_detail E e) [], p\<lparr>p_db := d'\<rparr>)
           | Inr st \<Rightarrow> finish_update E now r (n_ID n2) (Some st) (p\<lparr>p_db := d'\<rparr>)
         else finish_update E now r (n_ID n2) None (p\<lparr>p_db := d\<rparr>))"
        using n pre patch kn kn' Inr nd run' unfolding run_def by (simp add: handleUpdateNode_def Let_def split: sum.split)
      then show ?thesis
        using finish_update_status [of E now r "n_ID n2" None "p\<lparr>p_db := d\<rparr>"]
          finish_update_status [of E now r "n_ID n2" "Some (projr res)" "p\<lparr>p_db := d'\<rparr>"]
        by (cases res) auto
    qed
  qed
qed

text \<open>
  A refused PATCH changes nothing. An answer in the 400s leaves the whole panel as it was;
  an unknown node is answered with 404, a request without If-Match with 428, and one whose tag
  is not that of the stored version with 412, so that of two clients that edit the same version
  of a node the second is refused once the first one's second has passed.
\<close>

theorem node_patch_refused:
  "let (resp, p') = handleUpdateNode E dec nonce uid now r p; i = Get (rq_PathValue r) ''node_id''; m = Get (rq_Header r) ''If-Match'' in
    (rp_Status resp \<in> {200, 500, 502} \<or> rp_Status resp \<in> {400, 404, 409, 412, 413, 415, 422, 428} \<and> p' = p) \<and>
    (\<not> node_exists i (p_db p) \<longrightarrow> rp_Status resp = 404) \<and>
    (\<forall>n. GetNode i (p_db p) = Inr n \<and> m = [] \<longrightarrow> rp_Status resp = 428) \<and>
    (\<forall>n. GetNode i (p_db p) = Inr n \<and> m \<noteq> [] \<and> m \<noteq> nodeETag (n_UpdatedAt n) \<longrightarrow> rp_Status resp = 412)"
proof (cases "nodeOr404 r (p_db p)")
  case (Inl e)
  with nodeOr404_Inl [of r "p_db p" e] nodeOr404_Inr [of r "p_db p"] have "e = NotFound r ''node not found''"
    "\<And>n. GetNode (Get (rq_PathValue r) ''node_id'') (p_db p) \<noteq> Inr n" by auto
  with Inl show ?thesis by (simp add: handleUpdateNode_def Let_def)
next
  case n: (Inr n)
  then have g: "GetNode (Get (rq_PathValue r) ''node_id'') (p_db p) = Inr n" "node_exists (Get (rq_PathValue r) ''node_id'') (p_db p)"
    using nodeOr404_Inr [of r "p_db p"] GetNode_node_exists by auto
  show ?thesis
  proof (cases "node_precondition r n")
    case (Some resp)
    with n g show ?thesis by (auto simp: handleUpdateNode_def node_precondition_def Let_def split: if_splits)
  next
    case pre: None
    then have m: "Get (rq_Header r) ''If-Match'' = nodeETag (n_UpdatedAt n)" "Get (rq_Header r) ''If-Match'' \<noteq> []"
      by (auto simp: node_precondition_def Let_def split: if_splits)
    have "let (resp, p') = handleUpdateNode E dec nonce uid now r p in
      rp_Status resp \<in> {200, 500, 502} \<or> rp_Status resp \<in> {400, 404, 409, 412, 413, 415, 422, 428} \<and> p' = p"
      using node_patch_answers [OF n pre] by (simp add: split_beta)
    with m g show ?thesis by (auto simp: Let_def)
  qed
qed

theorem node_patch_refused_witness:
  "rp_Status (fst (handleUpdateNode demo_server (\<lambda>_ _. Decoded [] True) (\<lambda>_. Some ''n'') (\<lambda>_. []) 5
      (demo_request\<lparr>rq_PathValue := [(''node_id'', ''n1'')]\<rparr>) demo_nodes_panel)) = 428"
proof -
  have "\<exists>n. GetNode ''n1'' (p_db demo_nodes_panel) = Inr n"
    by (simp add: GetNode_node_exists demo_nodes_panel_def demo_nodes_db_def node_exists_iff demo_node_def node_columns_def)
  then show ?thesis
    using node_patch_refused [of demo_server "\<lambda>_ _. Decoded [] True" "\<lambda>_. Some ''n''" "\<lambda>_. []" 5
        "demo_request\<lparr>rq_PathValue := [(''node_id'', ''n1'')]\<rparr>" demo_nodes_panel]
    by (auto simp: Let_def split_beta Get_def demo_request_def)
qed

text \<open>The branch of the handler that stores a patch without an import.\<close>

lemma handleUpdateNode_plain:
  assumes "handleUpdateNode E dec nonce uid now r p = (resp, p')" and "rp_Status resp = 200"
    and "DecodeJSON (ev_ParseMediaType E) dec r = Inr patch" and "map_of patch ''config_url'' = None" and "map_of patch ''kce_key'' = None"
    and "GetNode (Get (rq_PathValue r) ''node_id'') (p_db p) = Inr n"
  shows "\<exists>n1 n2 d. applyNodePatch E nonce patch n = Inr n1 \<and> UpdateNode (Unix now) n1 (p_db p) = Inr (n2, d) \<and>
    p' = reload_hub E now (p\<lparr>p_db := d\<rparr>) \<and> Get (rq_Header r) ''If-Match'' = nodeETag (n_UpdatedAt n)"
proof -
  have n: "nodeOr404 r (p_db p) = Inr n" using assms(6) nodeOr404_Inr by simp
  have pre: "node_precondition r n = None"
  proof (rule ccontr)
    assume "node_precondition r n \<noteq> None"
    then show False using assms(1,2) n by (auto simp: handleUpdateNode_def node_precondition_def Let_def split: if_splits)
  qed
  have pn: "patched_node E nonce r patch n = (case applyNodePatch E nonce patch n of Inl e \<Rightarrow> Inl (Validation r e []) | Inr n3 \<Rightarrow> Inr ([], n3))"
    using assms(4,5) by (simp add: patched_node_def patch_config_url_def patch_kce_key_def)
  obtain n1 where n1: "applyNodePatch E nonce patch n = Inr n1"
    using assms(1-3) n pre pn by (cases "applyNodePatch E nonce patch n") (auto simp: handleUpdateNode_def)
  obtain n2 d where u: "UpdateNode (Unix now) n1 (p_db p) = Inr (n2, d)"
    using assms(1-3) n pre pn n1 by (cases "UpdateNode (Unix now) n1 (p_db p)") (auto simp: handleUpdateNode_def split: if_splits)
  have "p' = reload_hub E now (p\<lparr>p_db := d\<rparr>)"
    using assms(1-5) n pre pn n1 u by (auto simp: handleUpdateNode_def finish_update_def Let_def split: sum.splits)
  with n1 u pre show ?thesis by (auto simp: node_precondition_def Let_def split: if_splits)
qed


definition demo_node_patch :: request where
  "demo_node_patch = demo_request\<lparr>rq_PathValue := [(''node_id'', ''n1'')],
     rq_Header := [(''Content-Type'', ''application/json''), (''If-Match'', nodeETag 1)]\<rparr>"


subsection \<open>Failed imports\<close>

text \<open>
  C6: a failed import does no harm outside its anchor. Whatever refuses it and wherever (the
  address, the download, the parser, the seal or the store, in the middle of the list), it
  leaves a consistent database, no node that was not there before, and every node that is
  neither the anchor nor one of its children exactly as it was.
\<close>

theorem import_failure_contained:
  assumes "db_ok d" and "importProxiesForNode E nonce uid now anchor kceKey takeFirst d = (Inl e, a, d')"
  shows "db_ok d' \<and> nr_id ` set (nodes d') \<subseteq> nr_id ` set (nodes d) \<and>
    filter (unrelated (n_ID anchor) (nodeSource (n_ID anchor))) (nodes d') =
      filter (unrelated (n_ID anchor) (nodeSource (n_ID anchor))) (nodes d)"
  using import_ok [OF assms] store_steps_ok assms(1) by auto

theorem import_failure_contained_witness:
  "\<exists>e a d'. importProxiesForNode demo_server (\<lambda>_. None) (\<lambda>_. []) 0 demo_anchor [] False demo_nodes_db = (Inl e, a, d') \<and>
     nr_id ` set (nodes d') \<subseteq> {''n1''}"
proof -
  let ?parsed = "\<lparr>ps_Nodes = [\<lparr>x_Name = ''hk'', x_Outbound = ''{}''\<rparr>], ps_Skipped = [''hk''], ps_Modes = Map.empty\<rparr>"
  have "isl (fst (sync_children demo_server (\<lambda>_. None) (\<lambda>_. []) 0 demo_anchor ?parsed False demo_nodes_db))" by code_simp
  then obtain e d' where "sync_children demo_server (\<lambda>_. None) (\<lambda>_. []) 0 demo_anchor ?parsed False demo_nodes_db = (Inl e, d')"
    by (metis prod.collapse sum.collapse(1))
  then have imp: "importProxiesForNode demo_server (\<lambda>_. None) (\<lambda>_. []) 0 demo_anchor [] False demo_nodes_db = (Inl e, demo_anchor, d')"
    using demo_download(1) [of "n_ConfigURL demo_anchor" "[]"] demo_download(2) [of "n_ConfigURL demo_anchor"]
    by (auto simp: importProxiesForNode_def downloaded_def demo_server_def split: sum.splits)
  from import_failure_contained [OF demo_nodes_db_ok(1) imp] have "nr_id ` set (nodes d') \<subseteq> {''n1''}"
    by (simp add: demo_nodes_db_def node_columns_def demo_node_def)
  with imp show ?thesis by blast
qed

subsection \<open>Fresh names\<close>

lemma next_free_first:
  "\<exists>k \<ge> i. next_free name i seen = candidate name k \<and> candidate name k \<notin> set seen \<and> candidate name ` {i..<k} \<subseteq> set seen"
proof (induction name i seen rule: next_free.induct)
  case (1 name i seen)
  show ?case
  proof (cases "candidate name i \<notin> set seen")
    case True
    then show ?thesis by (intro exI [of _ i]) (simp add: next_free.simps [of name i])
  next
    case False
    from 1 [OF False] obtain k where k: "Suc i \<le> k" "next_free name (Suc i) seen = candidate name k" "candidate name k \<notin> set seen"
      "candidate name ` {Suc i..<k} \<subseteq> set seen" by auto
    moreover have "{i..<k} = insert i {Suc i..<k}" using k(1) by auto
    ultimately show ?thesis using False by (intro exI [of _ k]) (simp add: next_free.simps [of name i])
  qed
qed

text \<open>
  C10: the search for a free name always ends, and soon. The name is the base itself when no
  node has it; otherwise it is the first free candidate, found within as many tries as there
  are nodes, and no node has it.
\<close>

theorem unique_name_found:
  "uniqueNodeName base d \<notin> nr_name ` set (nodes d) \<and>
   (if base \<notin> nr_name ` set (nodes d) then uniqueNodeName base d = base
    else \<exists>k. 2 \<le> k \<and> k \<le> length (nodes d) + 1 \<and> uniqueNodeName base d = candidate base k \<and>
      candidate base ` {2..<k} \<subseteq> nr_name ` set (nodes d))"
proof -
  have g: "GetNodeByName base d = Inl ErrNotFound \<longleftrightarrow> base \<notin> nr_name ` set (nodes d)"
    by (auto simp: GetNodeByName_def row_with_None [symmetric] split: option.splits)
  show ?thesis
  proof (cases "base \<in> nr_name ` set (nodes d)")
    case False
    with g show ?thesis by (simp add: uniqueNodeName_def)
  next
    case True
    obtain k where k: "2 \<le> k" "next_free base 2 (map nr_name (nodes d)) = candidate base k"
      "candidate base k \<notin> nr_name ` set (nodes d)" "candidate base ` {2..<k} \<subseteq> nr_name ` set (nodes d)"
      using next_free_first [of 2 base "map nr_name (nodes d)"] by auto
    have "inj_on (candidate base) {2..<k}" by (auto intro: inj_onI candidate_inj)
    then have "k - 2 = card (candidate base ` {2..<k})" by (simp add: card_image)
    also have "\<dots> \<le> card (nr_name ` set (nodes d) - {base})"
      using k(4) by (intro card_mono) (auto simp: candidate_def)
    also have "\<dots> \<le> length (nodes d) - 1"
      using True card_image_le [of "set (nodes d)" nr_name] card_length [of "nodes d"] by (simp add: card_Diff_singleton)
    finally have "k \<le> length (nodes d) + 1" using True k(1) by (cases "nodes d") auto
    with k True g show ?thesis by (auto simp: uniqueNodeName_def)
  qed
qed

subsection \<open>What a view reveals\<close>

text \<open>Two panels whose nodes differ in their secrets alone; whether a secret is set is visible.\<close>

definition reseal :: "(node_row \<Rightarrow> string) \<Rightarrow> (node_row \<Rightarrow> string) \<Rightarrow> node_row \<Rightarrow> node_row" where
  "reseal f k row = row\<lparr>nr_api_secret_enc := (if nr_api_secret_enc row = [] then [] else CHR ''x'' # f row),
     nr_kce_key_enc := (if nr_kce_key_enc row = [] then [] else CHR ''x'' # k row)\<rparr>"

lemma reseal_keeps [simp]: "nr_id (reseal f k row) = nr_id row" "nr_name (reseal f k row) = nr_name row"
  by (simp_all add: reseal_def)

lemma sort_key_map: "(\<And>x. key (g x) = key x) \<Longrightarrow> sort_key key (map g xs) = map g (sort_key key xs)"
proof (induction xs)
  case (Cons x xs)
  have "insort_key key (g x) (map g ys) = map g (insort_key key x ys)" for ys
    by (induction ys) (simp_all add: Cons.prems)
  with Cons show ?case by simp
qed simp

lemma viewNode_reseal: "viewNode E (scanNode (reseal f k row)) w = viewNode E (scanNode row) w"
  by (simp add: viewNode_def scanNode_def reseal_def)

lemma summaryItem_reseal: "summaryItem E h (scanNode (reseal f k row)) = summaryItem E h (scanNode row)"
  by (simp add: summaryItem_def scanNode_def reseal_def parsedOutboundSummary_def Let_def)

lemma nodes_page_cong:
  assumes "\<And>x. n_Name (g x) = n_Name (f x)" and "\<And>x. summaryItem E h (g x) = summaryItem E h (f x)"
    and "\<And>x. node_selected E r (g x) = node_selected E r (f x)"
  shows "nodes_page E h r n after (map g xs) items lst = nodes_page E h r n after (map f xs) items lst"
  using assms by (induction xs arbitrary: after items lst) auto

lemma nodeETag_reseal: "n_UpdatedAt (scanNode (reseal f k row)) = n_UpdatedAt (scanNode row)"
  by (simp add: scanNode_def reseal_def)

lemma row_with_map: "(\<And>x. key (g x) = key x) \<Longrightarrow> row_with key i (map g xs) = map_option g (row_with key i xs)"
  by (induction xs) (simp_all add: row_with_def)

text \<open>
  C11: reading nodes never reveals a secret. Two panels that differ only in the sealed API
  secrets and profile keys of their nodes (with the same ones set) answer every listing and
  every GET alike, so nothing about a secret but its presence can be learnt from them.
\<close>

theorem node_views_hide_secrets:
  "fst (handleGetNode E r (p\<lparr>p_db := (p_db p)\<lparr>nodes := map (reseal f k) (nodes (p_db p))\<rparr>\<rparr>)) = fst (handleGetNode E r p) \<and>
   fst (handleListNodes E r (p\<lparr>p_db := (p_db p)\<lparr>nodes := map (reseal f k) (nodes (p_db p))\<rparr>\<rparr>)) = fst (handleListNodes E r p)"
proof
  let ?d = "(p_db p)\<lparr>nodes := map (reseal f k) (nodes (p_db p))\<rparr>"
  show "fst (handleGetNode E r (p\<lparr>p_db := ?d\<rparr>)) = fst (handleGetNode E r p)"
    by (simp add: handleGetNode_def nodeOr404_def GetNode_def row_with_map viewNode_reseal nodeETag_reseal split: option.split)
  have "ListNodes ?d = map (\<lambda>row. scanNode (reseal f k row)) (sort_key nr_name (nodes (p_db p)))"
    by (simp add: ListNodes_def sort_key_map)
  moreover have "node_selected E r (scanNode (reseal f k row)) = node_selected E r (scanNode row)" for row
    by (simp add: node_selected_def scanNode_def reseal_def)
  moreover have "n_Name (scanNode (reseal f k row)) = n_Name (scanNode row)" for row by simp
  ultimately have "nodes_page E (p_hub p) r n after (ListNodes ?d) [] [] = nodes_page E (p_hub p) r n after (ListNodes (p_db p)) [] []" for n after
    using nodes_page_cong [of "\<lambda>row. scanNode (reseal f k row)" scanNode E "p_hub p" r n after "sort_key nr_name (nodes (p_db p))" "[]" "[]"]
    by (simp add: ListNodes_def summaryItem_reseal)
  then show "fst (handleListNodes E r (p\<lparr>p_db := ?d\<rparr>)) = fst (handleListNodes E r p)"
    by (simp add: handleListNodes_def Let_def split_beta split: option.split)
qed

subsection \<open>The node routes as one service\<close>

datatype node_call =
    ListNodePages
  | AddNode "node_input decoder" "nat \<Rightarrow> string option" "nat \<Rightarrow> string" int
  | ReadNode
  | PatchNode "json_map decoder" "nat \<Rightarrow> string option" "nat \<Rightarrow> string" int
  | RemoveNode int

fun node_api :: "env \<Rightarrow> node_call \<Rightarrow> handler" where
  "node_api E ListNodePages = handleListNodes E"
| "node_api E (AddNode dec nonce uid now) = handleCreateNode E dec nonce uid now"
| "node_api E ReadNode = handleGetNode E"
| "node_api E (PatchNode dec nonce uid now) = handleUpdateNode E dec nonce uid now"
| "node_api E (RemoveNode now) = handleDeleteNode E now"

lemma import_steps:
  assumes "importProxiesForNode E nonce uid now anchor kceKey takeFirst d = (res, a, d')" and "db_ok d"
  shows "store_steps d d'"
  using import_ok [OF assms(2,1)] by simp

lemma reload_hub_ok: "db_ok (p_db p) \<Longrightarrow> db_ok (p_db (reload_hub E now p))"
  using reload_hub_steps [of "p_db p" p] store_steps_ok by blast

lemma finish_ok:
  "db_ok (p_db p) \<Longrightarrow> db_ok (p_db (snd (finish_create E now r n imp p)))"
  "db_ok (p_db p) \<Longrightarrow> db_ok (p_db (snd (finish_update E now r i imp p)))"
  by (simp_all add: finish_create_db finish_update_def Let_def reload_hub_ok split: sum.split)

lemma handleCreateNode_ok: "db_ok (p_db p) \<Longrightarrow> db_ok (p_db (snd (handleCreateNode E dec nonce uid now r p)))"
proof -
  assume ok: "db_ok (p_db p)"
  have c: "db_ok d" if "CreateNode (Unix now) n0 (p_db p) = Inr (n, d)" for n0 n d
    using store_step_ok [OF st_create_node [OF that] ok] .
  have i: "db_ok d'" if "CreateNode (Unix now) n0 (p_db p) = Inr (n, d)"
    "importProxiesForNode E nc ui now n key tf d = (res, a, d')" for n0 n d nc ui key tf res a d'
    using store_steps_ok [OF import_steps [OF that(2) c [OF that(1)]] c [OF that(1)]] .
  show ?thesis
    by (auto simp: handleCreateNode_def ok intro!: finish_ok dest: c i split: option.split sum.split prod.split)
qed

lemma handleUpdateNode_ok: "db_ok (p_db p) \<Longrightarrow> db_ok (p_db (snd (handleUpdateNode E dec nonce uid now r p)))"
proof -
  assume ok: "db_ok (p_db p)"
  have c: "db_ok d" if "UpdateNode (Unix now) n0 (p_db p) = Inr (n, d)" for n0 n d
    using store_step_ok [OF st_update_node [OF that] ok] .
  have i: "db_ok d'" if "UpdateNode (Unix now) n0 (p_db p) = Inr (n, d)"
    "importProxiesForNode E nc ui now n key tf d = (res, a, d')" for n0 n d nc ui key tf res a d'
    using store_steps_ok [OF import_steps [OF that(2) c [OF that(1)]] c [OF that(1)]] .
  show ?thesis
    by (auto simp: handleUpdateNode_def ok Let_def intro!: finish_ok dest: c i split: option.split sum.split prod.split)
qed

lemma handleDeleteNode_ok: "db_ok (p_db p) \<Longrightarrow> db_ok (p_db (snd (handleDeleteNode E now r p)))"
proof -
  assume ok: "db_ok (p_db p)"
  have d1: "db_ok (delete_children cs (p_db p))" for cs
    using store_steps_ok [OF conjunct2 [OF delete_children_rows] ok] .
  have "db_ok d" if "DeleteNode i (delete_children cs (p_db p)) = Inr d" for i cs d
    using store_step_ok [OF st_delete_node [OF that] d1] .
  then show ?thesis by (auto simp: handleDeleteNode_def ok d1 Let_def intro!: reload_hub_ok split: sum.split)
qed

lemma node_api_ok: "db_ok (p_db p) \<Longrightarrow> db_ok (p_db (snd (node_api E c r p)))"
proof (cases c)
  case ListNodePages
  assume "db_ok (p_db p)"
  with ListNodePages show ?thesis by (simp add: handleListNodes_def Let_def split: option.split prod.split)
next
  case ReadNode
  assume "db_ok (p_db p)"
  with ReadNode show ?thesis by (simp add: handleGetNode_def split: sum.split)
qed (simp_all add: handleCreateNode_ok handleUpdateNode_ok handleDeleteNode_ok)

end
