(* ===== verification/Api_Control.thy ===== *)
theory Api_Control
  imports Clash_Client Api_Nodes
begin

text \<open>
  The routes that act on a node: \<^verbatim>\<open>api/control.go\<close> (connections, proxies, rules, the runtime
  mode), the reachability check of \<^verbatim>\<open>api/nodes_util.go\<close> and the latency probe of
  \<^verbatim>\<open>api/latency.go\<close>. The network is the argument \<open>N\<close>, the record \<open>node_net\<close> of the client.
\<close>

subsection \<open>The client of a node\<close>

definition resolveClient :: "env \<Rightarrow> node_net \<Rightarrow> request \<Rightarrow> db \<Rightarrow> response + clash_client" where
  "resolveClient E N r d =
     (case nodeOr404 r d of
        Inl resp \<Rightarrow> Inl resp
      | Inr n \<Rightarrow>
          (case decrypt E (n_APISecretEnc n) of
             Inl _ \<Rightarrow> Inl (Internal r)
           | Inr secret \<Rightarrow>
               (case clash_New N (n_APIURL n) secret of
                  Inl e \<Rightarrow> Inl (NodeUnreachable r e)
                | Inr c \<Rightarrow> Inr c)))"

fun nodeErrDetail :: "clash_error \<Rightarrow> string" where
  "nodeErrDetail (ClashError status detail) =
     (if status = 0 then ''node unreachable'' else ''node returned non-success status'')"
| "nodeErrDetail (OtherError e) = ''node unreachable''"

definition mapNodeErr :: "request \<Rightarrow> clash_error \<Rightarrow> response" where
  "mapNodeErr r e = NodeUnreachable r (nodeErrDetail e)"

subsection \<open>Connections\<close>

definition metadata_json :: "metadata \<Rightarrow> string \<Rightarrow> json" where
  "metadata_json m sourceIP = JObj
     [(''network'', JStr (md_Network m)), (''type'', JStr (md_Type m)), (''source_ip'', JStr sourceIP),
      (''source_port'', JStr (md_SourcePort m)), (''destination_ip'', JStr (md_DestinationIP m)),
      (''destination_port'', JStr (md_DestinationPort m)), (''host'', JStr (md_Host m)),
      (''inbound_type'', JStr (md_InboundType m))]"

text \<open>The source address is an argument: the handler overwrites it in the item it has built.\<close>

definition connectionItem :: "connection \<Rightarrow> string \<Rightarrow> json" where
  "connectionItem c sourceIP = JObj
     [(''id'', JStr (c_ID c)), (''upload_bytes'', JInt (c_Upload c)), (''download_bytes'', JInt (c_Download c)),
      (''start'', JStr (c_Start c)), (''chains'', JArr (map JStr (c_Chains c))), (''rule'', JStr (c_Rule c)),
      (''rule_payload'', JStr (c_RulePay c)),
      (''outbound'', JStr (case c_Chains c of [] \<Rightarrow> [] | x # _ \<Rightarrow> x)),
      (''metadata'', metadata_json (c_Metadata c) sourceIP)]"

definition real_source :: "(string \<times> string) list \<Rightarrow> connection \<Rightarrow> string" where
  "real_source portMap c =
     (case map_of portMap (md_SourcePort (c_Metadata c)) of None \<Rightarrow> md_SourceIP (c_Metadata c) | Some ip \<Rightarrow> ip)"

definition items_response :: "json list \<Rightarrow> response" where
  "items_response xs = WriteJSON 200 (JObj [(''items'', JArr xs)])"

definition handleListConnections :: "env \<Rightarrow> node_net \<Rightarrow> handler" where
  "handleListConnections E N r p =
     (case resolveClient E N r (p_db p) of
        Inl resp \<Rightarrow> (resp, p)
      | Inr c \<Rightarrow>
          (case ConnectionsSnapshot N c of
             Inl e \<Rightarrow> (mapNodeErr r e, p)
           | Inr conns \<Rightarrow>
               let portMap = (case FetchClientPortMap N c of Inl _ \<Rightarrow> [] | Inr m \<Rightarrow> m)
               in (items_response (map (\<lambda>x. connectionItem x (real_source portMap x)) conns), p)))"

definition handleCloseAllConnections :: "env \<Rightarrow> node_net \<Rightarrow> handler" where
  "handleCloseAllConnections E N r p =
     (case resolveClient E N r (p_db p) of
        Inl resp \<Rightarrow> (resp, p)
      | Inr c \<Rightarrow> (case client_CloseAllConnections N c of Inl e \<Rightarrow> (mapNodeErr r e, p) | Inr _ \<Rightarrow> (NoContent, p)))"

definition handleCloseConnection :: "env \<Rightarrow> node_net \<Rightarrow> handler" where
  "handleCloseConnection E N r p =
     (case resolveClient E N r (p_db p) of
        Inl resp \<Rightarrow> (resp, p)
      | Inr c \<Rightarrow>
          (case client_CloseConnection N c (Get (rq_PathValue r) ''connection_id'') of
             Inl (ClashError status detail) \<Rightarrow>
               (if status = 404 then (NotFound r ''connection not found on node'', p)
                else (mapNodeErr r (ClashError status detail), p))
           | Inl e \<Rightarrow> (mapNodeErr r e, p)
           | Inr _ \<Rightarrow> (NoContent, p)))"

subsection \<open>Proxies and rules\<close>

definition proxyItem :: "proxy_entry \<Rightarrow> json" where
  "proxyItem x = JObj
     [(''name'', JStr (px_Name x)), (''type'', JStr (px_Type x)), (''now'', JStr (px_Now x)),
      (''all'', case px_All x of None \<Rightarrow> JNull | Some xs \<Rightarrow> JArr (map JStr xs))]"

text \<open>The items are in the order of the map's iteration: \<open>nn_proxies\<close> lists the entries in it.\<close>

definition handleListProxies :: "env \<Rightarrow> node_net \<Rightarrow> handler" where
  "handleListProxies E N r p =
     (case resolveClient E N r (p_db p) of
        Inl resp \<Rightarrow> (resp, p)
      | Inr c \<Rightarrow>
          (case client_Proxies N c of
             Inl e \<Rightarrow> (mapNodeErr r e, p)
           | Inr m \<Rightarrow> (items_response (map (\<lambda>(_, x). proxyItem x) m), p)))"

definition handleSelectProxy :: "env \<Rightarrow> node_net \<Rightarrow> string decoder \<Rightarrow> handler" where
  "handleSelectProxy E N decode r p =
     (case resolveClient E N r (p_db p) of
        Inl resp \<Rightarrow> (resp, p)
      | Inr c \<Rightarrow>
          (case DecodeJSON (ev_ParseMediaType E) decode r of
             Inl resp \<Rightarrow> (resp, p)
           | Inr name \<Rightarrow>
               if name = [] then (Validation r ''name is required'' [FieldErr ''#/name'' ''must not be empty''], p)
               else (case client_SelectProxy N c (Get (rq_PathValue r) ''proxy_name'') name of
                       Inl e \<Rightarrow> (mapNodeErr r e, p)
                     | Inr _ \<Rightarrow> (NoContent, p))))"

definition ruleItem :: "rule_entry \<Rightarrow> json" where
  "ruleItem x = JObj [(''type'', JStr (ru_Type x)), (''payload'', JStr (ru_Payload x)), (''proxy'', JStr (ru_Proxy x))]"

definition handleListRules :: "env \<Rightarrow> node_net \<Rightarrow> handler" where
  "handleListRules E N r p =
     (case resolveClient E N r (p_db p) of
        Inl resp \<Rightarrow> (resp, p)
      | Inr c \<Rightarrow>
          (case client_Rules N c of
             Inl e \<Rightarrow> (mapNodeErr r e, p)
           | Inr rules \<Rightarrow> (items_response (map ruleItem rules), p)))"

subsection \<open>The runtime mode\<close>

definition runtime_json :: "string \<Rightarrow> live_status \<Rightarrow> json" where
  "runtime_json nodeID st = JObj
     [(''node_id'', JStr nodeID), (''online'', JBool (ls_Online st)), (''mode'', JStr (ls_Mode st)),
      (''up_bps'', JInt (ls_UpBPS st)), (''down_bps'', JInt (ls_DownBPS st)),
      (''active_connections'', JInt (ls_ActiveConnections st))]"

definition handlePatchRuntime :: "env \<Rightarrow> node_net \<Rightarrow> string decoder \<Rightarrow> handler" where
  "handlePatchRuntime E N decode r p =
     (let nodeID = Get (rq_PathValue r) ''node_id'' in
      case resolveClient E N r (p_db p) of
        Inl resp \<Rightarrow> (resp, p)
      | Inr c \<Rightarrow>
          (case DecodeJSON (ev_ParseMediaType E) decode r of
             Inl resp \<Rightarrow> (resp, p)
           | Inr mode \<Rightarrow>
               if mode \<noteq> ''rule'' \<and> mode \<noteq> ''global'' \<and> mode \<noteq> ''direct''
               then (Validation r ''mode must be rule|global|direct'' [FieldErr ''#/mode'' ''one of rule, global, direct''], p)
               else (case client_PatchMode N c mode of
                       Inl e \<Rightarrow> (mapNodeErr r e, p)
                     | Inr _ \<Rightarrow>
                         let p1 = p\<lparr>p_hub := SetNodeMode nodeID mode (p_hub p)\<rparr>;
                             (status, known) = hub_Status nodeID (p_hub p1);
                             status = (if known then status else status\<lparr>ls_Mode := mode\<rparr>)
                         in (WriteJSON 200 (runtime_json nodeID status), p1))))"

subsection \<open>Reachability and latency\<close>

definition stringPtr :: "string option \<Rightarrow> json" where
  "stringPtr x = (case x of None \<Rightarrow> JNull | Some s \<Rightarrow> JStr s)"

definition checkResult :: "env \<Rightarrow> string \<Rightarrow> bool \<Rightarrow> int option \<Rightarrow> string option \<Rightarrow> string \<Rightarrow> int \<Rightarrow> json" where
  "checkResult E i online latency version detail at = JObj
     [(''node_id'', JStr i), (''online'', JBool online), (''checked_at'', rfc E at),
      (''latency_ms'', case latency of None \<Rightarrow> JNull | Some ms \<Rightarrow> JInt ms),
      (''version'', stringPtr version), (''detail'', JStr detail)]"

definition checkNodeNow :: "env \<Rightarrow> node_net \<Rightarrow> int \<Rightarrow> int \<Rightarrow> node \<Rightarrow> json" where
  "checkNodeNow E N elapsed now n =
     (case decrypt E (n_APISecretEnc n) of
        Inl _ \<Rightarrow> checkResult E (n_ID n) False None None ''internal decryption failure'' (Unix now)
      | Inr secret \<Rightarrow>
          (case clash_New N (n_APIURL n) secret of
             Inl e \<Rightarrow> checkResult E (n_ID n) False None None e (Unix now)
           | Inr c \<Rightarrow>
               (case client_Version N c elapsed of
                  Inl e \<Rightarrow> checkResult E (n_ID n) False None None (nodeErrDetail e) (Unix now)
                | Inr (v, ms) \<Rightarrow> checkResult E (n_ID n) True (Some ms) (Some v) [] (Unix now))))"

definition handleCheckNode :: "env \<Rightarrow> node_net \<Rightarrow> int \<Rightarrow> int \<Rightarrow> handler" where
  "handleCheckNode E N elapsed now r p =
     (case nodeOr404 r (p_db p) of
        Inl resp \<Rightarrow> (resp, p)
      | Inr n \<Rightarrow> (WriteJSON 200 (checkNodeNow E N elapsed now n), p))"

text \<open>\<^verbatim>\<open>net.JoinHostPort\<close> puts a host with a colon in brackets.\<close>

definition JoinHostPort :: "string \<Rightarrow> string \<Rightarrow> string" where
  "JoinHostPort host port =
     (if CHR '':'' \<in> set host then ''['' @ host @ '']:'' @ port else host @ '':'' @ port)"

text \<open>
  \<open>dial\<close> is the TCP dialer: \<open>Some\<close> is the text of its error. \<open>textOf\<close> is the text of an error of the
  outbound parser.
\<close>

definition handleNodeLatency :: "env \<Rightarrow> (sub_error \<Rightarrow> string) \<Rightarrow> (string \<Rightarrow> string option) \<Rightarrow> int \<Rightarrow> int \<Rightarrow> handler" where
  "handleNodeLatency E textOf dial elapsed now r p =
     (case nodeOr404 r (p_db p) of
        Inl resp \<Rightarrow> (resp, p)
      | Inr n \<Rightarrow>
          if n_OutboundEnc n = [] then (Validation r ''node has no outbound to probe'' [], p)
          else (case decrypt E (n_OutboundEnc n) of
             Inl _ \<Rightarrow> (Internal r, p)
           | Inr text \<Rightarrow>
               (case ParseOutboundServer (ev_unmarshal E) text of
                  Inl e \<Rightarrow> (Validation r (textOf e) [], p)
                | Inr (server, port) \<Rightarrow>
                    let address = JoinHostPort server (Itoa port) in
                    (case ValidateOutboundURL (ev_url_Parse E) (ev_ParseIP E) (ev_LookupIP E) (''http://'' @ address) of
                       Inl _ \<Rightarrow> (Validation r ''server address failed SSRF validation'' [], p)
                     | Inr _ \<Rightarrow>
                         (WriteJSON 200 (JObj ([(''node_id'', JStr (n_ID n)), (''checked_at'', rfc E (Unix now))] @
                            (case dial address of
                               Some e \<Rightarrow> [(''ok'', JBool False), (''latency_ms'', JNull), (''detail'', JStr (take 200 e))]
                             | None \<Rightarrow> [(''ok'', JBool True), (''latency_ms'', JInt elapsed)]))), p)))))"

subsection \<open>The control routes as one service\<close>

datatype control_call =
    ListConnections | CloseAllConnections | CloseConnection | ListProxies | SelectProxy "string decoder"
  | ListRules | PatchRuntime "string decoder" | CheckNode int int
  | NodeLatency "sub_error \<Rightarrow> string" "string \<Rightarrow> string option" int int

fun control_api :: "env \<Rightarrow> node_net \<Rightarrow> control_call \<Rightarrow> handler" where
  "control_api E N ListConnections = handleListConnections E N"
| "control_api E N CloseAllConnections = handleCloseAllConnections E N"
| "control_api E N CloseConnection = handleCloseConnection E N"
| "control_api E N ListProxies = handleListProxies E N"
| "control_api E N (SelectProxy dec) = handleSelectProxy E N dec"
| "control_api E N ListRules = handleListRules E N"
| "control_api E N (PatchRuntime dec) = handlePatchRuntime E N dec"
| "control_api E N (CheckNode elapsed now) = handleCheckNode E N elapsed now"
| "control_api E N (NodeLatency textOf dial elapsed now) = handleNodeLatency E textOf dial elapsed now"

subsection \<open>The client of a node, resolved\<close>

definition client_of :: "env \<Rightarrow> node_net \<Rightarrow> node \<Rightarrow> clash_client option" where
  "client_of E N n =
     (case decrypt E (n_APISecretEnc n) of Inl _ \<Rightarrow> None
      | Inr secret \<Rightarrow> (case clash_New N (n_APIURL n) secret of Inl _ \<Rightarrow> None | Inr c \<Rightarrow> Some c))"

definition requested_node :: "request \<Rightarrow> db \<Rightarrow> node option" where
  "requested_node r d = (case GetNode (Get (rq_PathValue r) ''node_id'') d of Inl _ \<Rightarrow> None | Inr n \<Rightarrow> Some n)"

lemma resolveClient_Inr:
  "resolveClient E N r d = Inr c \<longleftrightarrow> (\<exists>n. requested_node r d = Some n \<and> client_of E N n = Some c)"
  by (auto simp: resolveClient_def nodeOr404_def requested_node_def client_of_def split: sum.splits)

lemma resolveClient_status: "resolveClient E N r d = Inl resp \<Longrightarrow> rp_Status resp \<in> {404, 500, 502}"
  by (auto simp: resolveClient_def nodeOr404_def split: sum.splits if_splits)

lemma DecodeJSON_status: "DecodeJSON pm dec r = Inl resp \<Longrightarrow> rp_Status resp \<in> {400, 413, 415, 422}"
  by (auto simp: DecodeJSON_def Let_def split: option.splits decoded.splits if_splits)

subsection \<open>Requests stay with the node\<close>

text \<open>What a client sends: to its own base or root address, with its own secret.\<close>

definition to_node :: "node_net \<Rightarrow> clash_client \<Rightarrow> clash_request \<Rightarrow> bool" where
  "to_node N c req \<longleftrightarrow>
     (HasPrefix (cr_URL req) (cu_String (cl_baseURL c)) \<or>
      cr_URL req = nn_rootURL N (cu_Scheme (cl_baseURL c)) (cu_Host (cl_baseURL c)) ''/connections'') \<and>
     map_of (cr_Header req) ''Authorization'' = Some (''Bearer '' @ cl_secret c)"

text \<open>
  Two networks that differ in how anybody else answers. \<open>rewire\<close> replaces the answers of the
  network; \<open>agree\<close> says that the answers of the client's node are the same.
\<close>

definition rewire ::
  "(clash_request \<Rightarrow> string + http_response) \<Rightarrow> (string \<Rightarrow> (string \<times> string) list \<Rightarrow> connection list ws_answer) \<Rightarrow> node_net \<Rightarrow> node_net" where
  "rewire f g N = N\<lparr>nn_Do := f, nn_DialConnections := g\<rparr>"

definition agree :: "node_net \<Rightarrow> clash_client \<Rightarrow> (clash_request \<Rightarrow> string + http_response) \<Rightarrow>
    (string \<Rightarrow> (string \<times> string) list \<Rightarrow> connection list ws_answer) \<Rightarrow> bool" where
  "agree N c f g \<longleftrightarrow> (\<forall>req. to_node N c req \<longrightarrow> f req = nn_Do N req) \<and>
     (\<forall>path. g (wsURL c path) (auth_header c) = nn_DialConnections N (wsURL c path) (auth_header c))"

lemma rewire_simps [simp]:
  "nn_Do (rewire f g N) = f" "nn_DialConnections (rewire f g N) = g" "nn_NewRequest (rewire f g N) = nn_NewRequest N"
  "nn_Parse (rewire f g N) = nn_Parse N" "nn_parse_error (rewire f g N) = nn_parse_error N" "nn_rootURL (rewire f g N) = nn_rootURL N"
  "nn_version (rewire f g N) = nn_version N" "nn_mode (rewire f g N) = nn_mode N" "nn_proxies (rewire f g N) = nn_proxies N"
  "nn_rules (rewire f g N) = nn_rules N" "nn_connections (rewire f g N) = nn_connections N"
  "nn_decode_portmap (rewire f g N) = nn_decode_portmap N" "nn_marshal (rewire f g N) = nn_marshal N"
  by (simp_all add: rewire_def)

lemma rewire_clients [simp]: "clash_New (rewire f g N) = clash_New N" "client_of E (rewire f g N) = client_of E N"
  "resolveClient E (rewire f g N) = resolveClient E N"
  by (simp_all add: clash_New_def client_of_def resolveClient_def fun_eq_iff cong: sum.case_cong option.case_cong)

lemma client_request_to_node: "to_node N c (client_request c verb path body)"
  by (simp add: to_node_def client_request_def auth_header_def HasPrefix_def)

lemma portmap_to_node: "to_node N c (portmap_request N c)"
  by (simp add: to_node_def portmap_request_def auth_header_def)

lemma agree_do:
  assumes "agree N c f g"
  shows "client_do (rewire f g N) c verb path body = client_do N c verb path body"
proof -
  have "f (client_request c verb path body) = nn_Do N (client_request c verb path body)"
    using assms client_request_to_node by (simp add: agree_def)
  then show ?thesis by (simp add: client_do_def Let_def cong: option.case_cong)
qed

lemma agree_methods:
  assumes "agree N c f g"
  shows "client_get (rewire f g N) c path decode = client_get N c path decode"
    and "client_command (rewire f g N) c verb path body = client_command N c verb path body"
  by (simp_all add: client_get_def client_command_def agree_do [OF assms])

lemma agree_calls:
  assumes "agree N c f g"
  shows "client_Version (rewire f g N) c ms = client_Version N c ms"
    and "client_PatchMode (rewire f g N) c mode = client_PatchMode N c mode"
    and "client_Proxies (rewire f g N) c = client_Proxies N c"
    and "client_SelectProxy (rewire f g N) c sel name = client_SelectProxy N c sel name"
    and "client_Rules (rewire f g N) c = client_Rules N c"
    and "client_CloseConnection (rewire f g N) c i = client_CloseConnection N c i"
    and "client_CloseAllConnections (rewire f g N) c = client_CloseAllConnections N c"
  by (simp_all add: client_Version_def client_PatchMode_def client_Proxies_def client_SelectProxy_def client_Rules_def
      client_CloseConnection_def client_CloseAllConnections_def agree_methods [OF assms])

lemma agree_dial: "agree N c f g \<Longrightarrow> g (wsURL c path) (auth_header c) = nn_DialConnections N (wsURL c path) (auth_header c)"
  by (simp add: agree_def)

lemma agree_snapshot:
  assumes "agree N c f g"
  shows "ConnectionsSnapshot (rewire f g N) c = ConnectionsSnapshot N c"
    and "FetchClientPortMap (rewire f g N) c = FetchClientPortMap N c"
proof -
  show "ConnectionsSnapshot (rewire f g N) c = ConnectionsSnapshot N c"
    using assms by (simp add: ConnectionsSnapshot_def agree_methods [OF assms] DialWS_def agree_dial [OF assms] cong: sum.case_cong)
  have "portmap_request (rewire f g N) c = portmap_request N c" by (simp add: portmap_request_def)
  moreover have "f (portmap_request N c) = nn_Do N (portmap_request N c)"
    using assms portmap_to_node by (simp add: agree_def)
  ultimately show "FetchClientPortMap (rewire f g N) c = FetchClientPortMap N c" by (simp add: FetchClientPortMap_def cong: option.case_cong sum.case_cong if_cong)
qed

text \<open>
  A node's routes talk to that node only. Whatever a control route answers and whatever it
  leaves behind depends only on requests that go to the base or root address of the node named
  in the path, signed with that node's own secret: replacing the answers of every other host,
  and of the same host to any other secret, changes nothing.
\<close>

theorem control_contacts_own_node:
  assumes "\<And>n c. requested_node r (p_db p) = Some n \<Longrightarrow> client_of E N n = Some c \<Longrightarrow> agree N c f g"
  shows "control_api E (rewire f g N) call r p = control_api E N call r p"
proof -
  have r: "agree N c f g" if "resolveClient E N r (p_db p) = Inr c" for c
    using that assms by (auto simp: resolveClient_Inr)
  have check: "checkNodeNow E (rewire f g N) ms now n = checkNodeNow E N ms now n"
    if "requested_node r (p_db p) = Some n" for n ms now
    using assms [OF that] by (auto simp: checkNodeNow_def client_of_def agree_calls split: sum.split)
  show ?thesis
  proof (cases call)
    case (CheckNode ms now)
    then show ?thesis using check by (auto simp: handleCheckNode_def nodeOr404_def requested_node_def split: sum.split)
  qed (auto simp: handleListConnections_def handleCloseAllConnections_def handleCloseConnection_def handleListProxies_def
      handleSelectProxy_def handleListRules_def handlePatchRuntime_def Let_def r agree_calls agree_snapshot
      split: sum.split)
qed

subsection \<open>What a control call changes\<close>

lemma handlePatchRuntime_panel:
  assumes "snd (handlePatchRuntime E N dec r p) \<noteq> p"
  obtains mode c where "resolveClient E N r (p_db p) = Inr c" "DecodeJSON (ev_ParseMediaType E) dec r = Inr mode"
    "mode \<in> {''rule'', ''global'', ''direct''}" "client_PatchMode N c mode = Inr ()"
    "rp_Status (fst (handlePatchRuntime E N dec r p)) = 200"
    "snd (handlePatchRuntime E N dec r p) = p\<lparr>p_hub := SetNodeMode (Get (rq_PathValue r) ''node_id'') mode (p_hub p)\<rparr>"
proof (cases "resolveClient E N r (p_db p)")
  case (Inl resp)
  with assms show ?thesis by (simp add: handlePatchRuntime_def)
next
  case c: (Inr c)
  show ?thesis
  proof (cases "DecodeJSON (ev_ParseMediaType E) dec r")
    case (Inl resp)
    with assms c show ?thesis by (simp add: handlePatchRuntime_def)
  next
    case m: (Inr mode)
    show ?thesis
    proof (cases "mode \<noteq> ''rule'' \<and> mode \<noteq> ''global'' \<and> mode \<noteq> ''direct''")
      case True
      with assms c m show ?thesis by (simp add: handlePatchRuntime_def)
    next
      case ok: False
      show ?thesis
      proof (cases "client_PatchMode N c mode")
        case (Inl e)
        with assms c m ok show ?thesis by (simp only: handlePatchRuntime_def Let_def sum.case if_False snd_conv simp_thms)
      next
        case (Inr u)
        have "mode \<in> {''rule'', ''global'', ''direct''}" using ok by blast
        moreover have "rp_Status (fst (handlePatchRuntime E N dec r p)) = 200"
          "snd (handlePatchRuntime E N dec r p) = p\<lparr>p_hub := SetNodeMode (Get (rq_PathValue r) ''node_id'') mode (p_hub p)\<rparr>"
          using c m ok Inr
          by (simp_all only: handlePatchRuntime_def Let_def sum.case if_False split_beta fst_conv snd_conv rp_Status_simps)
        ultimately show ?thesis using that c m Inr by simp
      qed
    qed
  qed
qed

lemma control_panel:
  "snd (control_api E N call r p) = p \<or>
   (\<exists>dec mode c. call = PatchRuntime dec \<and> mode \<in> {''rule'', ''global'', ''direct''} \<and>
      rp_Status (fst (control_api E N call r p)) = 200 \<and>
      DecodeJSON (ev_ParseMediaType E) dec r = Inr mode \<and>
      resolveClient E N r (p_db p) = Inr c \<and> client_PatchMode N c mode = Inr () \<and>
      snd (control_api E N call r p) = p\<lparr>p_hub := SetNodeMode (Get (rq_PathValue r) ''node_id'') mode (p_hub p)\<rparr>)"
proof (cases call)
  case ListConnections
  then show ?thesis by (intro disjI1) (simp add: handleListConnections_def Let_def split: sum.split)
next
  case CloseAllConnections
  then show ?thesis by (intro disjI1) (simp add: handleCloseAllConnections_def split: sum.split)
next
  case CloseConnection
  then show ?thesis by (intro disjI1) (simp add: handleCloseConnection_def split: sum.split clash_error.split)
next
  case ListProxies
  then show ?thesis by (intro disjI1) (simp add: handleListProxies_def split: sum.split)
next
  case (SelectProxy dec)
  then show ?thesis by (intro disjI1) (simp add: handleSelectProxy_def split: sum.split)
next
  case ListRules
  then show ?thesis by (intro disjI1) (simp add: handleListRules_def split: sum.split)
next
  case (PatchRuntime dec)
  show ?thesis
  proof (cases "snd (handlePatchRuntime E N dec r p) = p")
    case True
    with PatchRuntime show ?thesis by (intro disjI1) simp
  next
    case False
    from handlePatchRuntime_panel [OF this] obtain mode c where
      "resolveClient E N r (p_db p) = Inr c" "DecodeJSON (ev_ParseMediaType E) dec r = Inr mode"
      "mode \<in> {''rule'', ''global'', ''direct''}" "client_PatchMode N c mode = Inr ()"
      "rp_Status (fst (handlePatchRuntime E N dec r p)) = 200"
      "snd (handlePatchRuntime E N dec r p) = p\<lparr>p_hub := SetNodeMode (Get (rq_PathValue r) ''node_id'') mode (p_hub p)\<rparr>" .
    then show ?thesis unfolding PatchRuntime control_api.simps by (intro disjI2 exI [of _ dec] exI [of _ mode] exI [of _ c] conjI refl)
  qed
next
  case (CheckNode ms now)
  then show ?thesis by (intro disjI1) (simp add: handleCheckNode_def split: sum.split)
next
  case (NodeLatency textOf dial ms now)
  then show ?thesis by (intro disjI1) (simp add: handleNodeLatency_def Let_def split: sum.split)
qed

lemma hub_Status_SetNodeMode:
  "hub_Status i (SetNodeMode j mode h) =
     (if i = j \<and> snd (hub_Status i h) then (fst (hub_Status i h)\<lparr>ls_Mode := mode\<rparr>, True) else hub_Status i h)"
proof -
  have "map_of (map (\<lambda>(k, w). (k, if k = j then SetMode mode w else w)) ws) i =
      map_option (\<lambda>w. if i = j then SetMode mode w else w) (map_of ws i)" for ws
    by (induction ws) auto
  then show ?thesis
    by (auto simp: hub_Status_def SetNodeMode_def Snapshot_def SetMode_def activeConnections_def split: option.split)
qed

text \<open>
  Acting on a node leaves the panel's records alone. No control call touches the database,
  the rate limiter or the idempotency store. The only state one can change is the displayed
  mode of the node named in the path, only to rule, global or direct, and only after that node
  has acknowledged the switch; the status of every other node stays what it was, and the
  node's own status shows the new mode.
\<close>

theorem control_changes_mode_only:
  "let p' = snd (control_api E N call r p); i = Get (rq_PathValue r) ''node_id'' in
   p_db p' = p_db p \<and> p_limiter p' = p_limiter p \<and> p_idem p' = p_idem p \<and>
   (p' = p \<or>
    (\<exists>mode \<in> {''rule'', ''global'', ''direct''}. \<exists>c. resolveClient E N r (p_db p) = Inr c \<and> client_PatchMode N c mode = Inr () \<and>
       rp_Status (fst (control_api E N call r p)) = 200 \<and>
       (\<forall>j. hub_Status j (p_hub p') =
          (if j = i \<and> snd (hub_Status j (p_hub p)) then (fst (hub_Status j (p_hub p))\<lparr>ls_Mode := mode\<rparr>, True)
           else hub_Status j (p_hub p)))))"
  using control_panel [of E N call r p]
proof
  assume "snd (control_api E N call r p) = p"
  then show ?thesis by (simp add: Let_def)
next
  assume "\<exists>dec mode c. call = PatchRuntime dec \<and> mode \<in> {''rule'', ''global'', ''direct''} \<and>
      rp_Status (fst (control_api E N call r p)) = 200 \<and>
      DecodeJSON (ev_ParseMediaType E) dec r = Inr mode \<and>
      resolveClient E N r (p_db p) = Inr c \<and> client_PatchMode N c mode = Inr () \<and>
      snd (control_api E N call r p) = p\<lparr>p_hub := SetNodeMode (Get (rq_PathValue r) ''node_id'') mode (p_hub p)\<rparr>"
  then obtain dec mode c where m: "mode \<in> {''rule'', ''global'', ''direct''}" "resolveClient E N r (p_db p) = Inr c"
    "client_PatchMode N c mode = Inr ()" "rp_Status (fst (control_api E N call r p)) = 200"
    "snd (control_api E N call r p) = p\<lparr>p_hub := SetNodeMode (Get (rq_PathValue r) ''node_id'') mode (p_hub p)\<rparr>"
    by (elim exE conjE)
  have h: "\<forall>j. hub_Status j (SetNodeMode i mode h) =
      (if j = i \<and> snd (hub_Status j h) then (fst (hub_Status j h)\<lparr>ls_Mode := mode\<rparr>, True) else hub_Status j h)" for i h
    using hub_Status_SetNodeMode by blast
  show ?thesis unfolding Let_def m(5) using m(1,2,3,4) h by auto
qed

text \<open>
  How the answer of a node becomes the answer of the panel. Closing all connections, closing
  one and selecting a proxy answer 204 exactly when the node has acknowledged with 200 or 204
  and its answer could be read; the node's refusals are 502 with a fixed text, except that a
  connection the node does not know is 404. Nothing a node answers is taken for a failure of
  the panel (500).
\<close>

theorem control_errors_mapped:
  assumes "resolveClient E N r (p_db p) = Inr c"
  shows "(let resp = fst (handleCloseAllConnections E N r p) in
       (case client_CloseAllConnections N c of Inr _ \<Rightarrow> resp = NoContent | Inl e \<Rightarrow> resp = NodeUnreachable r (nodeErrDetail e))) \<and>
     (let resp = fst (handleCloseConnection E N r p) in
       (case client_CloseConnection N c (Get (rq_PathValue r) ''connection_id'') of Inr _ \<Rightarrow> resp = NoContent
        | Inl e \<Rightarrow> resp = (if \<exists>d. e = ClashError 404 d then NotFound r ''connection not found on node'' else NodeUnreachable r (nodeErrDetail e)))) \<and>
     nodeErrDetail e' \<in> {''node unreachable'', ''node returned non-success status''} \<and>
     (client_CloseAllConnections N c = Inr () \<longleftrightarrow>
        nn_NewRequest N (client_request c ''DELETE'' ''/connections'' None) = None \<and>
        (\<exists>resp. nn_Do N (client_request c ''DELETE'' ''/connections'' None) = Inr resp \<and> resp_StatusCode resp \<in> {200, 204} \<and>
           resp_Read resp responseLimit \<noteq> None))"
proof -
  have a: "nodeErrDetail e' \<in> {''node unreachable'', ''node returned non-success status''}" by (cases e') simp_all
  have b: "let resp = fst (handleCloseConnection E N r p) in
       (case client_CloseConnection N c (Get (rq_PathValue r) ''connection_id'') of Inr _ \<Rightarrow> resp = NoContent
        | Inl e \<Rightarrow> resp = (if \<exists>d. e = ClashError 404 d then NotFound r ''connection not found on node'' else NodeUnreachable r (nodeErrDetail e)))"
    using assms by (auto simp: handleCloseConnection_def mapNodeErr_def split: sum.split clash_error.split)
  have c: "let resp = fst (handleCloseAllConnections E N r p) in
       (case client_CloseAllConnections N c of Inr _ \<Rightarrow> resp = NoContent | Inl e \<Rightarrow> resp = NodeUnreachable r (nodeErrDetail e))"
    using assms by (auto simp: handleCloseAllConnections_def mapNodeErr_def split: sum.split)
  have d: "client_CloseAllConnections N c = client_command N c ''DELETE'' ''/connections'' None"
    by (simp add: client_CloseAllConnections_def)
  show ?thesis by (intro conjI a b c) (unfold d, rule client_command_ok)
qed

text \<open>
  The latency probe opens no connection that the request policy forbids. What the route
  answers depends on the dialer only at addresses whose URL has passed the check against
  private and internal targets.
\<close>

theorem latency_dials_validated:
  assumes "\<And>a. ValidateOutboundURL (ev_url_Parse E) (ev_ParseIP E) (ev_LookupIP E) (''http://'' @ a) = Inr () \<Longrightarrow> dial a = dial' a"
  shows "handleNodeLatency E textOf dial elapsed now r p = handleNodeLatency E textOf dial' elapsed now r p"
  by (auto simp: handleNodeLatency_def Let_def assms split: sum.split)

subsection \<open>Examples\<close>

definition demo_net :: node_net where
  "demo_net = \<lparr>nn_Parse = (\<lambda>s. Some \<lparr>cu_Scheme = ''http'', cu_Host = ''h:9090'', cu_Path = [], cu_String = s\<rparr>),
     nn_parse_error = (\<lambda>_. ''bad''), nn_rootURL = (\<lambda>s h p. s @ ''://'' @ h @ p), nn_NewRequest = (\<lambda>_. None),
     nn_Do = (\<lambda>req. if HasPrefix (cr_URL req) ''http://h:9090'' then Inr \<lparr>resp_StatusCode = 204, resp_Read = (\<lambda>_. Some [])\<rparr>
        else Inl ''refused''),
     nn_DialConnections = (\<lambda>_ _. WSFrame []), nn_DialMemory = (\<lambda>_ _. WSReadError True []), nn_version = Some, nn_mode = Some,
     nn_proxies = (\<lambda>_. Some []), nn_rules = (\<lambda>_. Some []), nn_connections = (\<lambda>_. Some []), nn_decode_portmap = (\<lambda>_. Inr []),
     nn_marshal = snd\<rparr>"

definition demo_client :: clash_client where
  "demo_client = \<lparr>cl_baseURL = \<lparr>cu_Scheme = ''http'', cu_Host = ''h:9090'', cu_Path = [], cu_String = ''http://h:9090''\<rparr>, cl_secret = []\<rparr>"

definition demo_control :: request where
  "demo_control = demo_request\<lparr>rq_PathValue := [(''node_id'', ''n1'')]\<rparr>"

definition demo_control_panel :: panel where
  "demo_control_panel = demo_panel\<lparr>p_db := demo_nodes_db\<rparr>"

lemma demo_trim: "TrimRight ''http://h:9090'' ''/'' = ''http://h:9090''"
  by code_simp

lemma demo_requested:
  "requested_node demo_control (p_db demo_control_panel) = Some (scanNode (node_columns demo_node 1 1 0))"
  by (simp add: requested_node_def demo_control_def demo_control_panel_def Get_def GetNode_def demo_nodes_db_def row_with_def
      node_columns_def demo_node_def)

lemma demo_client_of: "client_of demo_server demo_net (scanNode (node_columns demo_node 1 1 0)) = Some demo_client"
  by (simp add: client_of_def decrypt_def Decrypt_def scanNode_def node_columns_def demo_node_def clash_New_def demo_trim
      demo_net_def demo_client_def)

lemma demo_resolved: "resolveClient demo_server demo_net demo_control (p_db demo_control_panel) = Inr demo_client"
  using demo_requested demo_client_of by (simp add: resolveClient_Inr)

theorem control_contacts_own_node_witness:
  "control_api demo_server (rewire (\<lambda>req. if HasPrefix (cr_URL req) ''http://h:9090'' then nn_Do demo_net req else Inl ''evil'')
     (nn_DialConnections demo_net) demo_net) CloseAllConnections demo_control demo_control_panel =
   control_api demo_server demo_net CloseAllConnections demo_control demo_control_panel"
proof (rule control_contacts_own_node)
  fix n c
  assume "requested_node demo_control (p_db demo_control_panel) = Some n" "client_of demo_server demo_net n = Some c"
  then have "c = demo_client" using demo_requested demo_client_of by simp
  moreover have "HasPrefix (cr_URL req) ''http://h:9090''" if "to_node demo_net demo_client req" for req
    using that by (auto simp: to_node_def demo_client_def demo_net_def HasPrefix_def)
  ultimately show "agree demo_net c (\<lambda>req. if HasPrefix (cr_URL req) ''http://h:9090'' then nn_Do demo_net req else Inl ''evil'')
     (nn_DialConnections demo_net)"
    by (simp add: agree_def)
qed

theorem control_errors_mapped_witness:
  "fst (handleCloseAllConnections demo_server demo_net demo_control demo_control_panel) = NoContent"
proof -
  have "client_CloseAllConnections demo_net demo_client = Inr ()"
    by (simp add: client_CloseAllConnections_def client_command_def client_do_def client_request_def demo_net_def demo_client_def
        HasPrefix_def Let_def)
  with control_errors_mapped [OF demo_resolved] show ?thesis by (simp add: Let_def)
qed

theorem latency_dials_validated_witness:
  "handleNodeLatency (demo_server\<lparr>ev_LookupIP := \<lambda>_. None\<rparr>) (\<lambda>_. []) (\<lambda>_. None) 5 5000000000 demo_control demo_control_panel =
   handleNodeLatency (demo_server\<lparr>ev_LookupIP := \<lambda>_. None\<rparr>) (\<lambda>_. []) (\<lambda>_. Some ''refused'') 5 5000000000 demo_control demo_control_panel"
  by (rule latency_dials_validated)
    (simp add: ValidateOutboundURL_def validateResolvedIPs_def demo_server_def demo_url_def split: if_splits)

end
