(* ===== verification/Geo_Service.thy ===== *)
theory Geo_Service
  imports Clash_Client Api_Http
begin

text \<open>
  Geolocation of source addresses: \<^verbatim>\<open>geo/geo.go\<close>. An address is looked up in the cache of the
  store first; a miss costs one of forty lookups a minute and asks the configured provider
  through the guarded client. Concurrent misses of one address share a request: the sections
  between \<^verbatim>\<open>mu.Lock\<close> and \<^verbatim>\<open>mu.Unlock\<close> are functions of their own, and a step relation
  interleaves any number of callers.
\<close>

subsection \<open>The service\<close>

definition cacheTTL :: int where
  "cacheTTL = 30 * 24 * 3600 * 1000000000"

definition maxLookupsPerMinute :: int where
  "maxLookupsPerMinute = 40"

text \<open>\<open>gs_inflight\<close> maps an address to the call that looks it up. The zero time opens the first window.\<close>

record geo_service =
  gs_inflight :: "string \<rightharpoonup> nat"
  gs_window :: int
  gs_count :: int

definition zeroTime :: int where
  "zeroTime = - 62135596800 * 1000000000"

definition geo_New :: geo_service where
  "geo_New = \<lparr>gs_inflight = Map.empty, gs_window = zeroTime, gs_count = 0\<rparr>"

definition geo_allow :: "int \<Rightarrow> geo_service \<Rightarrow> bool \<times> geo_service" where
  "geo_allow now s =
     (let s1 = (if TimeSub now (gs_window s) \<ge> 60 * 1000000000 then s\<lparr>gs_window := now, gs_count := 0\<rparr> else s)
      in if gs_count s1 \<ge> maxLookupsPerMinute then (False, s1)
         else (True, s1\<lparr>gs_count := gs_count s1 + 1\<rparr>))"

text \<open>A cached answer counts for thirty days.\<close>

definition geo_cached :: "int \<Rightarrow> string \<Rightarrow> db \<Rightarrow> geo option" where
  "geo_cached now ip d =
     (case GetGeo ip d of Inl _ \<Rightarrow> None
      | Inr g \<Rightarrow> if TimeSub now (g_checked_at g * 1000000000) < cacheTTL then Some g else None)"

subsection \<open>The provider\<close>

datatype geo_error = GeoUnsafe ssrf_error | GeoParse | GeoRequest | GeoRefused ssrf_error | GeoExchange | GeoRead
  | GeoStatus int | GeoFormat

record geo_payload =
  gp_Country :: string
  gp_City :: string
  gp_AS :: string

text \<open>
  \<open>gn_with_path u f\<close> parses \<open>u\<close>, applies \<open>f\<close> to its path and prints it again; \<open>gn_decode\<close> decodes a body
  into the payload struct.
\<close>

record geo_net =
  gn_with_path :: "string \<Rightarrow> (string \<Rightarrow> string) \<Rightarrow> string option"
  gn_decode :: "string \<Rightarrow> geo_payload option"

definition geo_provider :: "settings \<Rightarrow> string" where
  "geo_provider st =
     (if st_ip_lookup_provider_url st \<noteq> [] then st_ip_lookup_provider_url st
      else ''http://ip-api.com/json/?fields=query,country,city,as'')"

definition geo_path :: "string \<Rightarrow> string \<Rightarrow> string" where
  "geo_path ip path = TrimRight path ''/'' @ ''/'' @ PathEscape ip"

definition geo_request :: "env \<Rightarrow> geo_net \<Rightarrow> string \<Rightarrow> string \<Rightarrow> geo_error + geo_payload" where
  "geo_request E G provider ip =
     (case ValidateOutboundURL (ev_url_Parse E) (ev_ParseIP E) (ev_LookupIP E) provider of Inl e \<Rightarrow> Inl (GeoUnsafe e)
      | Inr _ \<Rightarrow>
     (case gn_with_path G provider (geo_path ip) of None \<Rightarrow> Inl GeoParse
      | Some u \<Rightarrow>
     (if \<not> ev_NewRequest E u then Inl GeoRequest
      else case SafeDo (ev_url_Parse E) (ev_ParseIP E) (ev_LookupIP E) (Some SafeHTTPClient) u of Inl e \<Rightarrow> Inl (GeoRefused e)
      | Inr c \<Rightarrow>
     (case ev_exchange E c u of None \<Rightarrow> Inl GeoExchange
      | Some resp \<Rightarrow>
     (case resp_Read resp 16384 of None \<Rightarrow> Inl GeoRead
      | Some body \<Rightarrow>
          if resp_StatusCode resp \<noteq> 200 then Inl (GeoStatus (resp_StatusCode resp))
          else case gn_decode G body of None \<Rightarrow> Inl GeoFormat | Some pl \<Rightarrow> Inr pl)))))"

definition geo_fetch :: "env \<Rightarrow> geo_net \<Rightarrow> int \<Rightarrow> string \<Rightarrow> db \<Rightarrow> (geo_error + geo) \<times> db" where
  "geo_fetch E G now ip d =
     (case currentSettings E now d of (st, d1) \<Rightarrow>
        (case geo_request E G (geo_provider st) ip of
           Inl e \<Rightarrow> (Inl e, d1)
         | Inr pl \<Rightarrow>
             let g = \<lparr>g_ip = ip, g_country = gp_Country pl, g_region = [], g_city = gp_City pl, g_as_org = gp_AS pl,
                      g_checked_at = Unix now\<rparr>
             in (Inr g, PutGeo g d1)))"

subsection \<open>Lookup\<close>

text \<open>
  What a caller meets: an answer (from the cache, or none because the minute's lookups are
  spent), a call in flight to wait for, or a call of its own, number \<open>k\<close>, to make.
\<close>

datatype geo_entry = GeoAnswered "geo option" | GeoJoined nat | GeoStarted

definition geo_join :: "nat \<Rightarrow> string \<Rightarrow> geo_service \<Rightarrow> geo_entry \<times> geo_service" where
  "geo_join k ip s =
     (case gs_inflight s ip of
        Some c \<Rightarrow> (GeoJoined c, s)
      | None \<Rightarrow> (GeoStarted, s\<lparr>gs_inflight := (gs_inflight s)(ip \<mapsto> k)\<rparr>))"

definition geo_enter :: "nat \<Rightarrow> int \<Rightarrow> string \<Rightarrow> geo_service \<Rightarrow> db \<Rightarrow> geo_entry \<times> geo_service" where
  "geo_enter k now ip s d =
     (case geo_cached now ip d of
        Some g \<Rightarrow> (GeoAnswered (Some g), s)
      | None \<Rightarrow> (case geo_allow now s of (ok, s1) \<Rightarrow> if \<not> ok then (GeoAnswered None, s1) else geo_join k ip s1))"

definition geo_leave :: "string \<Rightarrow> geo_service \<Rightarrow> geo_service" where
  "geo_leave ip s = s\<lparr>gs_inflight := (gs_inflight s)(ip := None)\<rparr>"

text \<open>
  A lookup without others beside it. \<open>other\<close> is what a call in flight would deliver to a caller that joins
  it; with no other caller there is none.
\<close>

definition Lookup ::
  "env \<Rightarrow> geo_net \<Rightarrow> (nat \<Rightarrow> geo_error + geo) \<Rightarrow> int \<Rightarrow> string \<Rightarrow> geo_service \<times> db \<Rightarrow> (geo_error + geo option) \<times> geo_service \<times> db" where
  "Lookup E G other now ip sd =
     (case sd of (s, d) \<Rightarrow>
        (case geo_enter 0 now ip s d of
           (GeoAnswered g, s1) \<Rightarrow> (Inr g, s1, d)
         | (GeoJoined c, s1) \<Rightarrow> (map_sum id Some (other c), s1, d)
         | (GeoStarted, s1) \<Rightarrow>
             (case geo_fetch E G now ip d of (res, d1) \<Rightarrow> (map_sum id Some res, geo_leave ip s1, d1))))"

subsection \<open>Lemmas\<close>

lemma geo_fetch_steps: "store_steps d0 d \<Longrightarrow> store_steps d0 (snd (geo_fetch E G now ip d))"
  using currentSettings_steps [of d0 d E now]
  by (auto simp: geo_fetch_def Let_def intro!: then_step [OF st_geo] split: prod.split sum.split)

lemma Lookup_steps: "store_steps d0 d \<Longrightarrow> store_steps d0 (snd (snd (Lookup E G other now ip (s, d))))"
  using geo_fetch_steps [of d0 d E G now ip]
  by (auto simp: Lookup_def split: prod.split geo_entry.split)

lemma geo_allow_inflight: "geo_allow now s = (ok, s1) \<Longrightarrow> gs_inflight s1 = gs_inflight s"
  by (auto simp: geo_allow_def Let_def split: if_splits)

lemma geo_join_cases:
  "geo_join k ip s = (e, s1) \<Longrightarrow>
     (\<exists>c. e = GeoJoined c \<and> gs_inflight s ip = Some c \<and> s1 = s) \<or>
     (e = GeoStarted \<and> gs_inflight s ip = None \<and> s1 = s\<lparr>gs_inflight := (gs_inflight s)(ip \<mapsto> k)\<rparr>)"
  by (auto simp: geo_join_def split: option.splits)

text \<open>With nobody beside it a lookup leaves nothing in flight, and never joins.\<close>

lemma Lookup_alone: "gs_inflight s = Map.empty \<Longrightarrow> gs_inflight (fst (snd (Lookup E G other now ip (s, d)))) = Map.empty"
  by (auto simp: Lookup_def geo_enter_def geo_leave_def split: prod.split geo_entry.split option.split
      dest!: geo_join_cases dest: geo_allow_inflight)

subsection \<open>Concurrent callers\<close>

text \<open>
  The machine: the service, the calls made so far (their address, and their result once \<^verbatim>\<open>done\<close> is
  closed), the callers between two sections (those who missed the cache, those who were admitted,
  those who wait on a call, its owner among them) and the answers given. Every critical section is
  a step, and the clock never runs backwards. \<open>gm_admissions\<close> records when lookups were admitted.
\<close>

record geo_machine =
  gm_service :: geo_service
  gm_db :: db
  gm_now :: int
  gm_calls :: "(string \<times> (geo_error + geo) option) list"
  gm_missed :: "(nat \<times> string) list"
  gm_admitted :: "(nat \<times> string) list"
  gm_waiting :: "(nat \<times> string \<times> nat) list"
  gm_answers :: "(nat \<times> string \<times> (geo_error + geo option)) list"
  gm_admissions :: "int list"

definition geo_start :: "db \<Rightarrow> int \<Rightarrow> geo_machine" where
  "geo_start d now = \<lparr>gm_service = geo_New, gm_db = d, gm_now = now, gm_calls = [], gm_missed = [], gm_admitted = [],
     gm_waiting = [], gm_answers = [], gm_admissions = []\<rparr>"

inductive geo_step :: "env \<Rightarrow> geo_net \<Rightarrow> geo_machine \<Rightarrow> geo_machine \<Rightarrow> bool" for E G where
  geo_hit:
    "gm_now m \<le> now \<Longrightarrow> geo_cached now ip (gm_db m) = Some g \<Longrightarrow>
     geo_step E G m (m\<lparr>gm_now := now, gm_answers := (who, ip, Inr (Some g)) # gm_answers m\<rparr>)"
| geo_miss:
    "gm_now m \<le> now \<Longrightarrow> geo_cached now ip (gm_db m) = None \<Longrightarrow>
     geo_step E G m (m\<lparr>gm_now := now, gm_missed := (who, ip) # gm_missed m\<rparr>)"
| geo_denied:
    "gm_now m \<le> now \<Longrightarrow> gm_missed m = ws @ (who, ip) # ws' \<Longrightarrow> geo_allow now (gm_service m) = (False, s) \<Longrightarrow>
     geo_step E G m (m\<lparr>gm_service := s, gm_now := now, gm_missed := ws @ ws', gm_answers := (who, ip, Inr None) # gm_answers m\<rparr>)"
| geo_admitted:
    "gm_now m \<le> now \<Longrightarrow> gm_missed m = ws @ (who, ip) # ws' \<Longrightarrow> geo_allow now (gm_service m) = (True, s) \<Longrightarrow>
     geo_step E G m (m\<lparr>gm_service := s, gm_now := now, gm_missed := ws @ ws', gm_admitted := (who, ip) # gm_admitted m,
       gm_admissions := now # gm_admissions m\<rparr>)"
| geo_joined:
    "gm_admitted m = ws @ (who, ip) # ws' \<Longrightarrow> geo_join (length (gm_calls m)) ip (gm_service m) = (GeoJoined c, s) \<Longrightarrow>
     geo_step E G m (m\<lparr>gm_service := s, gm_admitted := ws @ ws', gm_waiting := (who, ip, c) # gm_waiting m\<rparr>)"
| geo_started:
    "gm_admitted m = ws @ (who, ip) # ws' \<Longrightarrow> geo_join (length (gm_calls m)) ip (gm_service m) = (GeoStarted, s) \<Longrightarrow>
     geo_step E G m (m\<lparr>gm_service := s, gm_admitted := ws @ ws', gm_calls := gm_calls m @ [(ip, None)],
       gm_waiting := (who, ip, length (gm_calls m)) # gm_waiting m\<rparr>)"
| geo_done:
    "gm_now m \<le> now \<Longrightarrow> c < length (gm_calls m) \<Longrightarrow> gm_calls m ! c = (ip, None) \<Longrightarrow> geo_fetch E G now ip (gm_db m) = (res, d) \<Longrightarrow>
     geo_step E G m (m\<lparr>gm_db := d, gm_now := now, gm_calls := (gm_calls m)[c := (ip, Some res)]\<rparr>)"
| geo_left:
    "c < length (gm_calls m) \<Longrightarrow> gm_calls m ! c = (ip, Some res) \<Longrightarrow> gs_inflight (gm_service m) ip = Some c \<Longrightarrow>
     geo_step E G m (m\<lparr>gm_service := geo_leave ip (gm_service m)\<rparr>)"
| geo_woken:
    "gm_waiting m = ws @ (who, ip, c) # ws' \<Longrightarrow> c < length (gm_calls m) \<Longrightarrow> snd (gm_calls m ! c) = Some res \<Longrightarrow>
     geo_step E G m (m\<lparr>gm_waiting := ws @ ws', gm_answers := (who, ip, map_sum id Some res) # gm_answers m\<rparr>)"

text \<open>Calls, waiters and answers belong together.\<close>

type_synonym geo_calls = "(string \<times> (geo_error + geo) option) list"

definition inflight_ok :: "(string \<rightharpoonup> nat) \<Rightarrow> geo_calls \<Rightarrow> bool" where
  "inflight_ok infl calls \<longleftrightarrow>
     (\<forall>ip c. infl ip = Some c \<longrightarrow> c < length calls \<and> fst (calls ! c) = ip) \<and>
     (\<forall>c < length calls. snd (calls ! c) = None \<longrightarrow> infl (fst (calls ! c)) = Some c)"

definition results_ok :: "geo_calls \<Rightarrow> bool" where
  "results_ok calls \<longleftrightarrow> (\<forall>ip g. (ip, Some (Inr g)) \<in> set calls \<longrightarrow> g_ip g = ip)"

definition waiting_ok :: "geo_calls \<Rightarrow> (nat \<times> string \<times> nat) list \<Rightarrow> bool" where
  "waiting_ok calls ws \<longleftrightarrow> (\<forall>(who, ip, c) \<in> set ws. c < length calls \<and> fst (calls ! c) = ip)"

definition answers_ok :: "(nat \<times> string \<times> (geo_error + geo option)) list \<Rightarrow> bool" where
  "answers_ok as \<longleftrightarrow> (\<forall>who ip g. (who, ip, Inr (Some g)) \<in> set as \<longrightarrow> g_ip g = ip)"

definition geo_ok :: "geo_machine \<Rightarrow> bool" where
  "geo_ok m \<longleftrightarrow> inflight_ok (gs_inflight (gm_service m)) (gm_calls m) \<and> results_ok (gm_calls m) \<and>
     waiting_ok (gm_calls m) (gm_waiting m) \<and> answers_ok (gm_answers m)"

lemma inflight_okI:
  assumes "\<And>ip c. infl ip = Some c \<Longrightarrow> c < length calls \<and> fst (calls ! c) = ip"
    and "\<And>c ip. c < length calls \<Longrightarrow> calls ! c = (ip, None) \<Longrightarrow> infl ip = Some c"
  shows "inflight_ok infl calls"
  unfolding inflight_ok_def
proof (intro conjI allI impI)
  fix ip c
  assume "infl ip = Some c"
  then show "c < length calls" "fst (calls ! c) = ip" using assms(1) by blast+
next
  fix c
  assume "c < length calls" "snd (calls ! c) = None"
  then show "infl (fst (calls ! c)) = Some c" using assms(2) [of c "fst (calls ! c)"] by (metis prod.collapse)
qed

lemma inflight_okD:
  assumes "inflight_ok infl calls"
  shows "infl ip = Some c \<Longrightarrow> c < length calls \<and> fst (calls ! c) = ip"
    and "c < length calls \<Longrightarrow> calls ! c = (ip, None) \<Longrightarrow> infl ip = Some c"
  using assms unfolding inflight_ok_def by (blast, metis fst_conv snd_conv)

lemma inflight_ok_append:
  assumes "inflight_ok infl calls" and "infl ip = None"
  shows "inflight_ok (infl(ip \<mapsto> length calls)) (calls @ [(ip, None)])"
proof (rule inflight_okI)
  fix ip' c
  assume "(infl(ip \<mapsto> length calls)) ip' = Some c"
  then show "c < length (calls @ [(ip, None)]) \<and> fst ((calls @ [(ip, None)]) ! c) = ip'"
    using inflight_okD(1) [OF assms(1), of ip' c] by (auto simp: nth_append split: if_splits)
next
  fix c ip'
  assume c: "c < length (calls @ [(ip, None)])" "(calls @ [(ip, None)]) ! c = (ip', None)"
  show "(infl(ip \<mapsto> length calls)) ip' = Some c"
  proof (cases "c < length calls")
    case True
    with c(2) have "infl ip' = Some c" by (intro inflight_okD(2) [OF assms(1)]) (simp_all add: nth_append)
    with assms(2) show ?thesis by auto
  next
    case False
    with c show ?thesis by (simp add: less_Suc_eq)
  qed
qed

lemma inflight_ok_done:
  assumes "inflight_ok infl calls" and "c < length calls" and "fst (calls ! c) = ip"
  shows "inflight_ok infl (calls[c := (ip, Some res)])"
proof (rule inflight_okI)
  fix ip' c'
  assume "infl ip' = Some c'"
  from inflight_okD(1) [OF assms(1) this] assms(3)
  show "c' < length (calls[c := (ip, Some res)]) \<and> fst (calls[c := (ip, Some res)] ! c') = ip'"
    by (cases "c' = c") auto
next
  fix c' ip'
  assume c': "c' < length (calls[c := (ip, Some res)])" "calls[c := (ip, Some res)] ! c' = (ip', None)"
  with assms(2) have "c' \<noteq> c" by auto
  with c' show "infl ip' = Some c'" by (intro inflight_okD(2) [OF assms(1)]) simp_all
qed

lemma inflight_ok_leave:
  assumes "inflight_ok infl calls" and "calls ! c = (ip, Some res)" and "infl ip = Some c"
  shows "inflight_ok (infl(ip := None)) calls"
proof (rule inflight_okI)
  fix ip' c'
  assume "(infl(ip := None)) ip' = Some c'"
  then show "c' < length calls \<and> fst (calls ! c') = ip'"
    using inflight_okD(1) [OF assms(1), of ip' c'] by (simp split: if_splits)
next
  fix c' ip'
  assume "c' < length calls" "calls ! c' = (ip', None)"
  with inflight_okD(2) [OF assms(1) this] assms(2,3) show "(infl(ip := None)) ip' = Some c'" by auto
qed

lemma results_ok_append: "results_ok calls \<Longrightarrow> results_ok (calls @ [(ip, None)])"
  by (simp add: results_ok_def)

lemma results_ok_done:
  "results_ok calls \<Longrightarrow> (\<And>g. res = Inr g \<Longrightarrow> g_ip g = ip) \<Longrightarrow> results_ok (calls[c := (ip, Some res)])"
  by (auto simp: results_ok_def dest!: set_update_subset_insert [THEN subsetD])

lemma waiting_ok_append: "waiting_ok calls ws \<Longrightarrow> waiting_ok (calls @ [x]) ws"
  by (auto simp: waiting_ok_def nth_append)

lemma waiting_ok_start: "waiting_ok calls ws \<Longrightarrow> waiting_ok (calls @ [(ip, r)]) ((who, ip, length calls) # ws)"
  by (auto simp: waiting_ok_def nth_append)

lemma waiting_ok_done: "waiting_ok calls ws \<Longrightarrow> fst (calls ! c) = ip \<Longrightarrow> waiting_ok (calls[c := (ip, r)]) ws"
proof -
  assume "fst (calls ! c) = ip"
  then have same: "fst (calls[c := (ip, r)] ! b) = fst (calls ! b)" if "b < length calls" for b
    using that by (cases "b = c") auto
  assume "waiting_ok calls ws"
  then show ?thesis unfolding waiting_ok_def using same by fastforce
qed

lemma geo_cached_ip: "geo_cached now ip d = Some g \<Longrightarrow> g_ip g = ip"
  by (auto simp: geo_cached_def GetGeo_def split: sum.splits option.splits if_splits dest: row_with_Some)

lemma geo_fetch_ip: "geo_fetch E G now ip d = (Inr g, d1) \<Longrightarrow> g_ip g = ip"
  by (auto simp: geo_fetch_def Let_def split: prod.splits sum.splits)

lemma geo_step_ok: "geo_step E G m m' \<Longrightarrow> geo_ok m \<Longrightarrow> geo_ok m'"
proof (induction rule: geo_step.induct)
  case (geo_hit m now ip g who)
  then show ?case using geo_cached_ip by (auto simp: geo_ok_def answers_ok_def)
next
  case (geo_miss m now ip who)
  then show ?case by (simp add: geo_ok_def)
next
  case (geo_denied m now ws who ip ws' s)
  then show ?case using geo_allow_inflight [OF geo_denied(3)] by (simp add: geo_ok_def answers_ok_def)
next
  case (geo_admitted m now ws who ip ws' s)
  then show ?case using geo_allow_inflight [OF geo_admitted(3)] by (simp add: geo_ok_def)
next
  case (geo_joined m ws who ip ws' c s)
  from geo_join_cases [OF geo_joined(2)] have "s = gm_service m" "gs_inflight (gm_service m) ip = Some c" by simp_all
  with geo_joined(3) show ?case by (simp add: geo_ok_def inflight_ok_def waiting_ok_def)
next
  case (geo_started m ws who ip ws' s)
  from geo_join_cases [OF geo_started(2)] have "gs_inflight (gm_service m) ip = None"
    "gs_inflight s = (gs_inflight (gm_service m))(ip \<mapsto> length (gm_calls m))" by simp_all
  with geo_started(3) show ?case by (simp add: geo_ok_def inflight_ok_append results_ok_append waiting_ok_start)
next
  case (geo_done m now c ip res d)
  then have "fst (gm_calls m ! c) = ip" by simp
  moreover have "g_ip g = ip" if "res = Inr g" for g using geo_fetch_ip geo_done(4) that by simp
  ultimately show ?case using geo_done by (simp add: geo_ok_def inflight_ok_done waiting_ok_done results_ok_done)
next
  case (geo_left c m ip res)
  then show ?case by (simp add: geo_ok_def geo_leave_def inflight_ok_leave)
next
  case (geo_woken m ws who ip c ws' res)
  then have c: "fst (gm_calls m ! c) = ip" "waiting_ok (gm_calls m) (ws @ ws')" by (auto simp: geo_ok_def waiting_ok_def)
  have "gm_calls m ! c = (ip, Some res)" using c(1) geo_woken(3) by (metis prod.collapse)
  then have "(ip, Some res) \<in> set (gm_calls m)" using geo_woken(2) nth_mem by metis
  with geo_woken(4) have "g_ip g = ip" if "res = Inr g" for g using that by (auto simp: geo_ok_def results_ok_def)
  with geo_woken(4) c(2) show ?case by (cases res) (auto simp: geo_ok_def answers_ok_def)
qed

lemma geo_reach_ok: "(geo_step E G)\<^sup>*\<^sup>* m m' \<Longrightarrow> geo_ok m \<Longrightarrow> geo_ok m'"
  by (induction rule: rtranclp_induct) (auto intro: geo_step_ok)

lemma geo_start_ok: "geo_ok (geo_start d now)"
  by (simp add: geo_ok_def geo_start_def geo_New_def inflight_ok_def results_ok_def waiting_ok_def answers_ok_def)


subsection \<open>The rate of lookups\<close>

text \<open>How many of the times \<open>ts\<close> lie in \<open>[a, b)\<close>.\<close>

definition in_span :: "int \<Rightarrow> int \<Rightarrow> int list \<Rightarrow> nat" where
  "in_span a b ts = length (filter (\<lambda>t. a \<le> t \<and> t < b) ts)"

lemma in_span_Cons: "in_span a b (t # ts) = (if a \<le> t \<and> t < b then 1 else 0) + in_span a b ts"
  by (simp add: in_span_def)

lemma in_span_mono: "a \<le> a' \<Longrightarrow> b' \<le> b \<Longrightarrow> in_span a' b' ts \<le> in_span a b ts"
  by (induction ts) (auto simp: in_span_Cons in_span_def)

lemma in_span_split: "a \<le> c \<Longrightarrow> c \<le> b \<Longrightarrow> in_span a b ts = in_span a c ts + in_span c b ts"
  by (induction ts) (auto simp: in_span_Cons in_span_def)

text \<open>
  The quota with windows of length \<open>M\<close>: the current window began at \<open>W\<close> and has admitted at most \<open>n\<close>
  lookups; no span as long as a window that ends before it has more than forty, no span at all
  more than eighty.
\<close>

definition quota_ok :: "int \<Rightarrow> int \<Rightarrow> int \<Rightarrow> int list \<Rightarrow> bool" where
  "quota_ok M W n ts \<longleftrightarrow>
     n \<le> 40 \<and> (\<forall>t \<in> set ts. t < W + M) \<and> int (in_span W (W + M) ts) \<le> n \<and>
     (\<forall>a > W - M. in_span a W ts \<le> 40) \<and> (\<forall>a. in_span a (a + M) ts \<le> 80)"

lemma quota_ok_renew:
  assumes "quota_ok M W n ts" and "W + M \<le> t" and "0 \<le> M"
  shows "quota_ok M t 0 ts"
proof -
  have late: "\<forall>u \<in> set ts. u < t" using assms by (auto simp: quota_ok_def)
  then have "in_span t (t + M) ts = 0" by (auto simp: in_span_def filter_empty_conv)
  moreover have "in_span a t ts \<le> 40" if "t - M < a" for a
  proof -
    have "in_span a t ts = in_span a (W + M) ts"
      using assms(1) assms(2) unfolding in_span_def quota_ok_def
      by (intro arg_cong [where f = length] filter_cong) auto
    also have "\<dots> \<le> in_span W (W + M) ts" using that assms(2) by (intro in_span_mono) simp_all
    finally show ?thesis using assms(1) by (simp add: quota_ok_def)
  qed
  moreover have "\<forall>u \<in> set ts. u < t + M" using late assms(3) by fastforce
  moreover have "\<forall>a. in_span a (a + M) ts \<le> 80" using assms(1) by (simp add: quota_ok_def)
  ultimately show ?thesis by (simp add: quota_ok_def)
qed

lemma quota_ok_admit:
  assumes "quota_ok M W n ts" and "n < 40" and "W \<le> t" and "t < W + M"
  shows "quota_ok M W (n + 1) (t # ts)"
proof -
  have w: "int (in_span W (W + M) ts) \<le> n" using assms(1) by (simp add: quota_ok_def)
  have "in_span a (a + M) (t # ts) \<le> 80" for a
  proof (cases "a \<le> t \<and> t < a + M")
    case False
    have "in_span a (a + M) ts \<le> 80" using assms(1) by (simp add: quota_ok_def)
    with False show ?thesis by (auto simp: in_span_Cons)
  next
    case True
    have "in_span a (a + M) ts \<le> 79"
    proof (cases "W \<le> a")
      case True
      have "in_span a (a + M) ts = in_span a (W + M) ts" if "W \<le> a"
        using assms(1) that unfolding in_span_def quota_ok_def
        by (intro arg_cong [where f = length] filter_cong) auto
      also have "in_span a (W + M) ts \<le> in_span W (W + M) ts" using True by (intro in_span_mono) simp_all
      finally show ?thesis using True w assms(2) by simp
    next
      case False
      with \<open>a \<le> t \<and> t < a + M\<close> assms(3) have "W - M < a" "a \<le> W" "W \<le> a + M" by simp_all
      moreover from this have "in_span a W ts \<le> 40" using assms(1) by (simp add: quota_ok_def)
      moreover have "in_span W (a + M) ts \<le> in_span W (W + M) ts" using False by (intro in_span_mono) simp_all
      ultimately show ?thesis using in_span_split [of a W "a + M" ts] w assms(2) by simp
    qed
    then show ?thesis by (simp add: in_span_Cons)
  qed
  moreover have "\<forall>a > W - M. in_span a W (t # ts) \<le> 40" using assms(1,3) by (simp add: quota_ok_def in_span_Cons)
  moreover have "int (in_span W (W + M) (t # ts)) \<le> n + 1" using w by (simp add: in_span_Cons)
  moreover have "\<forall>u \<in> set (t # ts). u < W + M" using assms(1,4) by (simp add: quota_ok_def)
  ultimately show ?thesis using assms(2) by (simp add: quota_ok_def)
qed

definition geo_quota_ok :: "geo_machine \<Rightarrow> bool" where
  "geo_quota_ok m \<longleftrightarrow> gs_window (gm_service m) \<le> gm_now m \<and>
     quota_ok 60000000000 (gs_window (gm_service m)) (gs_count (gm_service m)) (gm_admissions m) \<and>
     length (gm_calls m) + length (gm_admitted m) \<le> length (gm_admissions m)"

lemma geo_allow_quota:
  assumes "quota_ok 60000000000 (gs_window s) (gs_count s) ts" and "gs_window s \<le> now" and "geo_allow now s = (ok, s1)"
  shows "quota_ok 60000000000 (gs_window s1) (gs_count s1) (if ok then now # ts else ts) \<and> gs_window s1 \<le> now"
proof -
  define s' where "s' = (if TimeSub now (gs_window s) \<ge> 60 * 1000000000 then s\<lparr>gs_window := now, gs_count := 0\<rparr> else s)"
  have ge: "TimeSub now (gs_window s) \<ge> 60000000000 \<longleftrightarrow> gs_window s + 60000000000 \<le> now"
    using TimeSub_ge [of 60000000000 now "gs_window s"] by (auto simp: in_i64_def)
  have q: "quota_ok 60000000000 (gs_window s') (gs_count s') ts" "gs_window s' \<le> now" "now < gs_window s' + 60000000000"
    using assms(1,2) quota_ok_renew [OF assms(1), of now] by (auto simp: s'_def ge [simplified] ge)
  have r: "geo_allow now s = (if gs_count s' \<ge> 40 then (False, s') else (True, s'\<lparr>gs_count := gs_count s' + 1\<rparr>))"
    by (simp add: geo_allow_def s'_def maxLookupsPerMinute_def Let_def)
  show ?thesis
  proof (cases "40 \<le> gs_count s'")
    case True
    with r assms(3) q show ?thesis by auto
  next
    case False
    then have "quota_ok 60000000000 (gs_window s') (gs_count s' + 1) (now # ts)"
      using quota_ok_admit [OF q(1)] q(2,3) by simp
    with False r assms(3) q show ?thesis by auto
  qed
qed

lemma geo_step_quota: "geo_step E G m m' \<Longrightarrow> geo_quota_ok m \<Longrightarrow> geo_quota_ok m'"
proof (induction rule: geo_step.induct)
  case (geo_denied m now ws who ip ws' s)
  then show ?case using geo_allow_quota [OF _ _ geo_denied(3), of "gm_admissions m"] by (simp add: geo_quota_ok_def)
next
  case (geo_admitted m now ws who ip ws' s)
  then show ?case using geo_allow_quota [OF _ _ geo_admitted(3), of "gm_admissions m"] by (simp add: geo_quota_ok_def)
next
  case (geo_joined m ws who ip ws' c s)
  then show ?case using geo_join_cases [OF geo_joined(2)] by (simp add: geo_quota_ok_def)
next
  case (geo_started m ws who ip ws' s)
  then show ?case using geo_join_cases [OF geo_started(2)] by (simp add: geo_quota_ok_def)
qed (simp_all add: geo_quota_ok_def geo_leave_def)

lemma geo_reach_quota: "(geo_step E G)\<^sup>*\<^sup>* m m' \<Longrightarrow> geo_quota_ok m \<Longrightarrow> geo_quota_ok m'"
  by (induction rule: rtranclp_induct) (auto intro: geo_step_quota)

text \<open>
  The provider is not flooded. Whatever callers do, in no minute more than eighty lookups
  pass the guard (twice the forty of a window, as two windows can touch one minute), and no
  more requests are started than lookups were admitted.
\<close>

theorem geo_rate_bounded:
  assumes "(geo_step E G)\<^sup>*\<^sup>* (geo_start d now) m" and "0 \<le> now"
  shows "in_span a (a + 60000000000) (gm_admissions m) \<le> 80 \<and> length (gm_calls m) \<le> length (gm_admissions m)"
proof -
  have "geo_quota_ok (geo_start d now)"
    using assms(2) by (simp add: geo_quota_ok_def geo_start_def geo_New_def quota_ok_def in_span_def zeroTime_def)
  from geo_reach_quota [OF assms(1) this] show ?thesis by (simp add: geo_quota_ok_def quota_ok_def)
qed

definition demo_geo_net :: geo_net where
  "demo_geo_net = \<lparr>gn_with_path = (\<lambda>u f. Some (u @ f [])), gn_decode = (\<lambda>_. Some \<lparr>gp_Country = ''US'', gp_City = [], gp_AS = []\<rparr>)\<rparr>"

theorem geo_rate_bounded_witness:
  "in_span 5 (5 + 60000000000) (gm_admissions (geo_start empty_db 5)) \<le> 80"
  using geo_rate_bounded [of demo_server demo_geo_net "empty_db" 5 "geo_start empty_db 5" 5] by simp


end
