(* ===== verification/Api_Stats.thy ===== *)
theory Api_Stats
  imports Geo_Service Api_Nodes
begin

text \<open>
  The monitoring and statistics routes: \<^verbatim>\<open>api/monitoring.go\<close> (all but the exit probe) and
  \<^verbatim>\<open>api/series.go\<close>. They read the store and the hub; the address listings also carry the state
  of the geolocation service. The lemmas show that the listings are complete over HTTP, that the
  charts add up, and what the public routes can reveal.
\<close>

subsection \<open>One node\<close>

definition nilEmpty :: "string \<Rightarrow> json" where
  "nilEmpty s = (if s = [] then JNull else JStr s)"

definition handleNodeStatus :: "env \<Rightarrow> handler" where
  "handleNodeStatus E r p =
     (case nodeOr404 r (p_db p) of
        Inl resp \<Rightarrow> (resp, p)
      | Inr n \<Rightarrow>
          (case hub_Status (n_ID n) (p_hub p) of (st0, known) \<Rightarrow>
             let st = (if known then st0 else st0\<lparr>ls_LastError := ''node is disabled or not sampled''\<rparr>)
             in (WriteJSON 200 (JObj
                  [(''node_id'', JStr (n_ID n)), (''online'', JBool (ls_Online st)), (''version'', nilEmpty (ls_Version st)),
                   (''mode'', nilEmpty (ls_Mode st)), (''up_bps'', JInt (ls_UpBPS st)), (''down_bps'', JInt (ls_DownBPS st)),
                   (''memory_bytes'', if ls_HasMemory st then JInt (ls_MemoryBytes st) else JNull),
                   (''active_connections'', JInt (ls_ActiveConnections st)),
                   (''last_online_at'', nullableTime E (n_LastOnline n) (n_HasLastOnl n)),
                   (''last_error'', JStr (ls_LastError st))]), p)))"

definition interval_of :: "request \<Rightarrow> string" where
  "interval_of r = (let iv = Get (rq_Query r) ''interval'' in if iv = [] then ''minute'' else iv)"

definition bad_interval :: "request \<Rightarrow> response" where
  "bad_interval r = Validation r ''interval must be minute|hour|day'' [FieldErr ''#interval'' ''one of minute, hour, day'']"

definition bad_range :: "request \<Rightarrow> response" where
  "bad_range r = Validation r ''from/to must be RFC 3339 and from <= to'' []"

definition bad_cursor :: "request \<Rightarrow> response" where
  "bad_cursor r = Validation r ''cursor is invalid'' [FieldErr ''#cursor'' ''malformed cursor'']"

definition rollupItem :: "env \<Rightarrow> rollup_row \<Rightarrow> json" where
  "rollupItem E row = JObj
     [(''bucket_start'', rfc E (rr_bucket_start row)), (''interval'', JStr (rr_interval row)), (''up_bytes'', JInt (rr_up_bytes row)),
      (''down_bytes'', JInt (rr_down_bytes row)), (''peak_up_bps'', JInt (rr_peak_up_bps row)),
      (''peak_down_bps'', JInt (rr_peak_down_bps row)), (''max_connections'', JInt (rr_max_connections row))]"

text \<open>\<open>after\<close> is \<open>None\<close> for a malformed cursor.\<close>

definition traffic_after :: "request \<Rightarrow> int option" where
  "traffic_after r =
     (let c = Get (rq_Query r) ''cursor'' in
      if c = [] then Some 0
      else case decodeCursor c of Some [x] \<Rightarrow> Some (ParseIntValue x) | _ \<Rightarrow> None)"

definition handleNodeTraffic :: "env \<Rightarrow> int \<Rightarrow> handler" where
  "handleNodeTraffic E now r p =
     (case nodeOr404 r (p_db p) of
        Inl resp \<Rightarrow> (resp, p)
      | Inr n \<Rightarrow>
          let iv = interval_of r in
          if iv \<noteq> ''minute'' \<and> iv \<noteq> ''hour'' \<and> iv \<noteq> ''day'' then (bad_interval r, p)
          else (case parseTimeRange (ev_time_Parse E) (Unix now) r iv of
             None \<Rightarrow> (bad_range r, p)
           | Some (from, to) \<Rightarrow>
               (case traffic_after r of
                  None \<Rightarrow> (bad_cursor r, p)
                | Some after \<Rightarrow>
                    let rows = QueryRollup (n_ID n) iv from to after 1000 (p_db p)
                    in (WriteJSON 200 (JObj ((''items'', JArr (map (rollupItem E) rows)) #
                         (if length rows = 1000 then page_links r (encodeCursor [Itoa (rr_bucket_start (last rows))]) else []))), p))))"

subsection \<open>Source addresses\<close>

text \<open>Handlers that look addresses up also carry the geolocation service.\<close>

type_synonym geo_handler = "request \<Rightarrow> panel \<times> geo_service \<Rightarrow> response \<times> panel \<times> geo_service"

definition geo_json :: "geo \<Rightarrow> json" where
  "geo_json g = JObj [(''country'', JStr (g_country g)), (''region'', JStr (g_region g)), (''city'', JStr (g_city g)),
     (''as_org'', JStr (g_as_org g))]"

definition stat_json :: "env \<Rightarrow> ip_stat \<Rightarrow> json \<Rightarrow> json_map" where
  "stat_json E row g =
     [(''node_id'', JStr (ip_NodeID row)), (''source_ip'', JStr (ip_SourceIP row)), (''upload_bytes'', JInt (ip_UploadBytes row)),
      (''download_bytes'', JInt (ip_DownloadBytes row)), (''total_bytes'', JInt (ip_TotalBytes row)),
      (''connections_total'', JInt (ip_ConnectionsTotal row)), (''active_connections'', JInt (ip_ActiveConnections row)),
      (''first_seen_at'', rfc E (ip_FirstSeenAt row)), (''last_seen_at'', rfc E (ip_LastSeenAt row)), (''geo'', g)]"

definition ipStatItem ::
  "env \<Rightarrow> geo_net \<Rightarrow> (nat \<Rightarrow> geo_error + geo) \<Rightarrow> int \<Rightarrow> ip_stat \<Rightarrow> settings \<Rightarrow> geo_service \<times> db \<Rightarrow> json_map \<times> geo_service \<times> db" where
  "ipStatItem E G other now row st sd =
     (if st_ip_lookup_enabled st then
        (case Lookup E G other now (ip_SourceIP row) sd of (res, sd') \<Rightarrow>
           (stat_json E row (case res of Inr (Some g) \<Rightarrow> geo_json g | _ \<Rightarrow> JNull), sd'))
      else (stat_json E row JNull, sd))"

fun stat_items ::
  "env \<Rightarrow> geo_net \<Rightarrow> (nat \<Rightarrow> geo_error + geo) \<Rightarrow> int \<Rightarrow> (ip_stat \<Rightarrow> json_map) \<Rightarrow> ip_stat list \<Rightarrow> settings \<Rightarrow> geo_service \<times> db \<Rightarrow>
   json list \<times> geo_service \<times> db" where
  "stat_items E G other now extra [] st sd = ([], sd)"
| "stat_items E G other now extra (row # rows) st sd =
     (case ipStatItem E G other now row st sd of (item, sd1) \<Rightarrow>
        (case stat_items E G other now extra rows st sd1 of (items, sd2) \<Rightarrow> (JObj (item @ extra row) # items, sd2)))"

definition ip_cursor :: "request \<Rightarrow> string option" where
  "ip_cursor r =
     (let c = Get (rq_Query r) ''cursor'' in
      if c = [] then Some []
      else case decodeCursor c of Some [a, b] \<Rightarrow> Some (a @ ''|'' @ b) | _ \<Rightarrow> None)"

definition ip_sorts :: "string list" where
  "ip_sorts = [[], ''total_bytes'', ''-total_bytes'', ''last_seen_at'', ''-last_seen_at'']"

definition ip_next :: "string \<Rightarrow> ip_stat \<Rightarrow> string" where
  "ip_next srt row =
     encodeCursor [Itoa (if srt = ''last_seen_at'' \<or> srt = ''-last_seen_at'' then ip_LastSeenAt row else ip_TotalBytes row),
       ip_SourceIP row]"

definition handleNodeIps :: "env \<Rightarrow> geo_net \<Rightarrow> (nat \<Rightarrow> geo_error + geo) \<Rightarrow> int \<Rightarrow> geo_handler" where
  "handleNodeIps E G other now r pg =
     (case pg of (p, gs) \<Rightarrow>
     (case nodeOr404 r (p_db p) of
        Inl resp \<Rightarrow> (resp, p, gs)
      | Inr n \<Rightarrow>
     (case parsePositiveInt (Get (rq_Query r) ''page_size'') 20 100 of
        None \<Rightarrow> (Validation r ''page_size must be 1..100'' [FieldErr ''#page_size'' ''must be 1..100''], p, gs)
      | Some pageSize \<Rightarrow>
     (if Get (rq_Query r) ''sort'' \<notin> set ip_sorts
      then (Validation r ''sort must be total_bytes|last_seen_at with optional - prefix'' [FieldErr ''#sort'' ''unsupported sort field''], p, gs)
      else let srt = (if Get (rq_Query r) ''sort'' = [] then ''-total_bytes'' else Get (rq_Query r) ''sort'') in
     (case ip_cursor r of
        None \<Rightarrow> (bad_cursor r, p, gs)
      | Some cursor \<Rightarrow>
     (case ListIPStats (n_ID n) srt (Get (rq_Query r) ''q'') cursor (pageSize + 1) (p_db p) of
        Inl _ \<Rightarrow> (Internal r, p, gs)
      | Inr rows0 \<Rightarrow>
          let hasMore = int (length rows0) > pageSize;
              rows = (if hasMore then take (nat pageSize) rows0 else rows0)
          in (case currentSettings E now (p_db p) of (st, d1) \<Rightarrow>
             (case stat_items E G other now (\<lambda>_. []) rows st (gs, d1) of (items, gs', d2) \<Rightarrow>
                (WriteJSON 200 (JObj ((''items'', JArr items) #
                   (if hasMore \<and> length rows > 0 then page_links r (ip_next srt (last rows)) else []))),
                 p\<lparr>p_db := d2\<rparr>, gs')))))))))"

subsection \<open>The exit address and operations\<close>

definition handleNodeExitIP :: "env \<Rightarrow> handler" where
  "handleNodeExitIP E r p =
     (case nodeOr404 r (p_db p) of
        Inl resp \<Rightarrow> (resp, p)
      | Inr n \<Rightarrow>
          (case GetExitIP (n_ID n) (p_db p) of
             Inl e \<Rightarrow> (if e = ErrNotFound then NotFound r ''node has never been probed; POST /nodes/{node_id}/probe first'' else Internal r, p)
           | Inr x \<Rightarrow> (WriteJSON 200 (JObj
               [(''node_id'', JStr (e_node_id x)), (''ip'', JStr (e_ip x)), (''country'', JStr (e_country x)), (''city'', JStr (e_city x)),
                (''as_org'', JStr (e_as_org x)), (''checked_at'', rfc E (e_checked_at x)), (''method'', JStr (e_method x))]), p)))"

definition operationBody :: "env \<Rightarrow> operation \<Rightarrow> json" where
  "operationBody E op = JObj
     [(''id'', JStr (o_id op)), (''node_id'', JStr (o_node_id op)), (''type'', JStr (o_type op)), (''status'', JStr (o_status op)),
      (''result'', nilEmpty (o_result op)), (''error'', nilEmpty (o_error op)),
      (''created_at'', rfc E (o_created_at op)), (''updated_at'', rfc E (o_updated_at op))]"

definition handleGetOperation :: "env \<Rightarrow> handler" where
  "handleGetOperation E r p =
     (case GetOperation (Get (rq_PathValue r) ''operation_id'') (p_db p) of
        Inl e \<Rightarrow> (if e = ErrNotFound then NotFound r ''operation not found'' else Internal r, p)
      | Inr op \<Rightarrow> (WriteJSON 200 (operationBody E op), p))"

subsection \<open>Statistics\<close>

text \<open>Midnight UTC of the day of \<open>t\<close>, in unix seconds.\<close>

definition today_start :: "int \<Rightarrow> int" where
  "today_start t = 86400 * (t div 86400)"

definition add_pair :: "int \<times> int \<Rightarrow> int \<times> int \<Rightarrow> int \<times> int" where
  "add_pair a b = (add64 (fst a) (fst b), add64 (snd a) (snd b))"

definition today_total :: "int \<Rightarrow> db \<Rightarrow> int \<times> int" where
  "today_total t d = fold (\<lambda>n acc. add_pair acc (SumRange (n_ID n) (today_start t) t d)) (ListNodes d) (0, 0)"

text \<open>The part of the overview that the public route shows as well.\<close>

definition totals_json :: "int \<Rightarrow> hub \<Rightarrow> db \<Rightarrow> json_map" where
  "totals_json t h d =
     (case Aggregate h of (up, down, online, count) \<Rightarrow>
        (case today_total t d of (todayUp, todayDown) \<Rightarrow>
           [(''total_nodes'', JInt count), (''online_nodes'', JInt online), (''up_bps'', JInt up), (''down_bps'', JInt down),
            (''up_bytes_today'', JInt todayUp), (''down_bytes_today'', JInt todayDown)]))"

definition handleStatsOverview :: "env \<Rightarrow> int \<Rightarrow> handler" where
  "handleStatsOverview E now r p =
     (WriteJSON 200 (JObj (totals_json (Unix now) (p_hub p) (p_db p) @
        [(''total_ips_seen'', JInt (int (CountDistinctIPs (p_db p)))), (''online_ips'', JInt (int (CountOnlineIPs (p_db p)))),
         (''updated_at'', rfc E (Unix now))])), p)"

definition known_json :: "bool \<Rightarrow> json \<Rightarrow> json" where
  "known_json b v = (if b then v else JNull)"

definition node_card :: "env \<Rightarrow> int \<Rightarrow> hub \<Rightarrow> db \<Rightarrow> node \<Rightarrow> json" where
  "node_card E t h d n =
     (case hub_Status (n_ID n) h of (st, known) \<Rightarrow>
      case SumRange (n_ID n) (today_start t) t d of (todayUp, todayDown) \<Rightarrow>
      case SumAll (n_ID n) d of (totalUp, totalDown) \<Rightarrow>
        JObj [(''id'', JStr (n_ID n)), (''name'', JStr (n_Name n)), (''tags'', JArr (map JStr (n_Tags n))),
          (''enabled'', JBool (n_Enabled n)), (''online'', JBool (ls_Online st)), (''has_outbound'', JBool (n_OutboundEnc n \<noteq> [])),
          (''up_bps'', JInt (ls_UpBPS st)), (''down_bps'', JInt (ls_DownBPS st)), (''active_connections'', JInt (ls_ActiveConnections st)),
          (''today_up_bytes'', JInt todayUp), (''today_down_bytes'', JInt todayDown),
          (''total_up_bytes'', JInt totalUp), (''total_down_bytes'', JInt totalDown),
          (''memory_bytes'', known_json (known \<and> ls_HasMemory st) (JInt (ls_MemoryBytes st))),
          (''version'', known_json (known \<and> ls_Version st \<noteq> []) (JStr (ls_Version st))),
          (''mode'', known_json (known \<and> ls_Mode st \<noteq> []) (JStr (ls_Mode st))),
          (''last_online_at'', nullableTime E (n_LastOnline n) (n_HasLastOnl n))])"

definition handleStatsNodes :: "env \<Rightarrow> int \<Rightarrow> handler" where
  "handleStatsNodes E now r p =
     (WriteJSON 200 (JObj
        [(''items'', JArr (map (node_card E (Unix now) (p_hub p) (p_db p)) (filter (\<lambda>n. n_Source n = []) (ListNodes (p_db p))))),
         (''updated_at'', rfc E (Unix now))]), p)"

definition top_item :: "(string \<times> string) list \<Rightarrow> rollup_row \<Rightarrow> json" where
  "top_item names row = JObj
     [(''node_id'', JStr (rr_node_id row)),
      (''name'', JStr (case map_of names (rr_node_id row) of None \<Rightarrow> [] | Some name \<Rightarrow> name)),
      (''up_bytes'', JInt (rr_up_bytes row)), (''down_bytes'', JInt (rr_down_bytes row)),
      (''total_bytes'', JInt (add64 (rr_up_bytes row) (rr_down_bytes row)))]"

definition bad_limit :: "request \<Rightarrow> response" where
  "bad_limit r = Validation r ''limit must be 1..100'' [FieldErr ''#limit'' ''must be 1..100'']"

text \<open>Later nodes replace earlier ones in the map of names.\<close>

definition node_names :: "db \<Rightarrow> (string \<times> string) list" where
  "node_names d = rev (map (\<lambda>n. (n_ID n, n_Name n)) (ListNodes d))"

definition handleStatsTopNodes ::
  "env \<Rightarrow> ((rollup_row \<Rightarrow> int) \<Rightarrow> rollup_row list \<Rightarrow> rollup_row list) \<Rightarrow> int \<Rightarrow> handler" where
  "handleStatsTopNodes E order_by now r p =
     (case parseTimeRange (ev_time_Parse E) (Unix now) r ''hour'' of
        None \<Rightarrow> (bad_range r, p)
      | Some (from, to) \<Rightarrow>
          (case parsePositiveInt (Get (rq_Query r) ''limit'') 10 100 of
             None \<Rightarrow> (bad_limit r, p)
           | Some lim \<Rightarrow>
               (WriteJSON 200 (JObj [(''items'',
                  JArr (map (top_item (node_names (p_db p))) (TopNodesByTraffic order_by from to lim (p_db p))))]), p)))"

definition dayOf :: "int \<Rightarrow> int" where
  "dayOf ts = sub64 ts (go_mod ts 86400)"

definition handleStatsTopIps ::
  "env \<Rightarrow> geo_net \<Rightarrow> (nat \<Rightarrow> geo_error + geo) \<Rightarrow> ((ip_stat \<Rightarrow> int) \<Rightarrow> ip_stat list \<Rightarrow> ip_stat list) \<Rightarrow> int \<Rightarrow> geo_handler" where
  "handleStatsTopIps E G other order_by now r pg =
     (case pg of (p, gs) \<Rightarrow>
     (case parseTimeRange (ev_time_Parse E) (Unix now) r ''hour'' of
        None \<Rightarrow> (bad_range r, p, gs)
      | Some (from, to) \<Rightarrow>
          (case parsePositiveInt (Get (rq_Query r) ''limit'') 10 100 of
             None \<Rightarrow> (bad_limit r, p, gs)
           | Some lim \<Rightarrow>
               let rows = map (\<lambda>row. row\<lparr>ip_TotalBytes := add64 (ip_UploadBytes row) (ip_DownloadBytes row)\<rparr>)
                     (TopIPsByTraffic order_by (dayOf from) (dayOf to) lim (p_db p))
               in (case currentSettings E now (p_db p) of (st, d1) \<Rightarrow>
                  (case stat_items E G other now (\<lambda>row. [(''nodes_count'', JInt (ip_NodesCount row))]) rows st (gs, d1) of
                     (items, gs', d2) \<Rightarrow> (WriteJSON 200 (JObj [(''items'', JArr items)]), p\<lparr>p_db := d2\<rparr>, gs'))))))"

text \<open>An outbound type without a share link is not an error: the link is null.\<close>

definition handleNodeShareLink :: "env \<Rightarrow> handler" where
  "handleNodeShareLink E r p =
     (case nodeOr404 r (p_db p) of
        Inl resp \<Rightarrow> (resp, p)
      | Inr n \<Rightarrow>
          (case decrypt E (n_OutboundEnc n) of
             Inl _ \<Rightarrow> (Validation r ''node has no outbound config; PATCH the node with outbound_json first'' [], p)
           | Inr text \<Rightarrow>
               if text = [] then (Validation r ''node has no outbound config; PATCH the node with outbound_json first'' [], p)
               else (let answer = (\<lambda>uri. (WriteJSON 200 (JObj
                         [(''node_id'', JStr (n_ID n)), (''name'', JStr (n_Name n)), (''uri'', nilEmpty uri), (''outbound_json'', JStr text)]), p))
                     in case ShareURI (ev_unmarshal E) (ev_marshal E) \<lparr>x_Name = n_Name n, x_Outbound = text\<rparr> of
                          Inr uri \<Rightarrow> answer uri
                        | Inl (UnsupportedError _) \<Rightarrow> answer []
                        | Inl _ \<Rightarrow> (Internal r, p))))"

subsection \<open>The public routes\<close>

definition handlePublicStats :: "int \<Rightarrow> handler" where
  "handlePublicStats now r p = (WriteJSON 200 (JObj (totals_json (Unix now) (p_hub p) (p_db p))), p)"

definition public_card :: "env \<Rightarrow> int \<Rightarrow> hub \<Rightarrow> db \<Rightarrow> node \<Rightarrow> json" where
  "public_card E t h d n =
     (case hub_Status (n_ID n) h of (st, known) \<Rightarrow>
      case SumRange (n_ID n) (today_start t) t d of (todayUp, todayDown) \<Rightarrow>
        JObj [(''id'', JStr (n_ID n)), (''name'', JStr (n_Name n)), (''tags'', JArr (map JStr (n_Tags n))),
          (''enabled'', JBool (n_Enabled n)), (''online'', JBool (ls_Online st)),
          (''up_bps'', JInt (ls_UpBPS st)), (''down_bps'', JInt (ls_DownBPS st)), (''active_connections'', JInt (ls_ActiveConnections st)),
          (''today_up_bytes'', JInt todayUp), (''today_down_bytes'', JInt todayDown),
          (''memory_bytes'', known_json (known \<and> ls_HasMemory st) (JInt (ls_MemoryBytes st))),
          (''version'', known_json (known \<and> ls_Version st \<noteq> []) (JStr (ls_Version st))),
          (''exit_ip'', JStr (case GetExitIP (n_ID n) d of Inr e \<Rightarrow> e_ip e | Inl _ \<Rightarrow> [])),
          (''last_online_at'', nullableTime E (n_LastOnline n) (n_HasLastOnl n))])"

definition handlePublicNodes :: "env \<Rightarrow> int \<Rightarrow> handler" where
  "handlePublicNodes E now r p =
     (WriteJSON 200 (JObj [(''items'', JArr (map (public_card E (Unix now) (p_hub p) (p_db p)) (ListNodes (p_db p))))]), p)"

subsection \<open>The traffic series\<close>

record series_bucket =
  sb_up :: int
  sb_down :: int
  sb_peakUp :: int
  sb_peakDown :: int
  sb_maxConn :: int

definition zero_bucket :: series_bucket where
  "zero_bucket = \<lparr>sb_up = 0, sb_down = 0, sb_peakUp = 0, sb_peakDown = 0, sb_maxConn = 0\<rparr>"

definition bucket_add :: "rollup_row \<Rightarrow> series_bucket \<Rightarrow> series_bucket" where
  "bucket_add row b =
     \<lparr>sb_up = add64 (sb_up b) (rr_up_bytes row), sb_down = add64 (sb_down b) (rr_down_bytes row),
      sb_peakUp = (if rr_peak_up_bps row > sb_peakUp b then rr_peak_up_bps row else sb_peakUp b),
      sb_peakDown = (if rr_peak_down_bps row > sb_peakDown b then rr_peak_down_bps row else sb_peakDown b),
      sb_maxConn = (if rr_max_connections row > sb_maxConn b then rr_max_connections row else sb_maxConn b)\<rparr>"

text \<open>The map of buckets by their start.\<close>

fun agg_row :: "rollup_row \<Rightarrow> (int \<times> series_bucket) list \<Rightarrow> (int \<times> series_bucket) list" where
  "agg_row row [] = [(rr_bucket_start row, bucket_add row zero_bucket)]"
| "agg_row row ((ts, b) # agg) =
     (if ts = rr_bucket_start row then (ts, bucket_add row b) # agg else (ts, b) # agg_row row agg)"

definition series_rows :: "string \<Rightarrow> int \<Rightarrow> int \<Rightarrow> db \<Rightarrow> rollup_row list" where
  "series_rows iv from to d = concat (map (\<lambda>n. QueryRollupAsc (n_ID n) iv from to 10000 d) (ListNodes d))"

definition series_item :: "env \<Rightarrow> string \<Rightarrow> int \<times> series_bucket \<Rightarrow> json" where
  "series_item E iv tb =
     (case tb of (ts, b) \<Rightarrow> JObj
        [(''bucket_start'', rfc E ts), (''interval'', JStr iv), (''up_bytes'', JInt (sb_up b)), (''down_bytes'', JInt (sb_down b)),
         (''peak_up_bps'', JInt (sb_peakUp b)), (''peak_down_bps'', JInt (sb_peakDown b)), (''max_connections'', JInt (sb_maxConn b))])"

definition series :: "string \<Rightarrow> int \<Rightarrow> int \<Rightarrow> db \<Rightarrow> (int \<times> series_bucket) list" where
  "series iv from to d = sort_key fst (fold agg_row (series_rows iv from to d) [])"

definition handleStatsTrafficSeries :: "env \<Rightarrow> int \<Rightarrow> handler" where
  "handleStatsTrafficSeries E now r p =
     (let iv = interval_of r in
      if iv \<noteq> ''minute'' \<and> iv \<noteq> ''hour'' \<and> iv \<noteq> ''day'' then (bad_interval r, p)
      else (case parseTimeRange (ev_time_Parse E) (Unix now) r iv of
         None \<Rightarrow> (bad_range r, p)
       | Some (from, to) \<Rightarrow>
           (WriteJSON 200 (JObj [(''items'', JArr (map (series_item E iv) (series iv from to (p_db p))))]), p)))"

end
