(* ===== verification/Api_Stats_Routes.thy ===== *)
theory Api_Stats_Routes
  imports Api_Stats Api_Accounts "HOL-Library.Multiset"
begin

text \<open>
  The properties of the statistics routes: the traffic series against the sums it stands for, the
  address listing as it is followed over HTTP, and what the public routes depend on.
\<close>

subsection \<open>The traffic series\<close>

definition at_start :: "int \<Rightarrow> rollup_row list \<Rightarrow> rollup_row list" where
  "at_start ts rows = filter (\<lambda>r. rr_bucket_start r = ts) rows"

lemma agg_row_keys: "fst ` set (agg_row row agg) = insert (rr_bucket_start row) (fst ` set agg)"
  by (induction row agg rule: agg_row.induct) auto

lemma agg_row_distinct: "distinct (map fst agg) \<Longrightarrow> distinct (map fst (agg_row row agg))"
proof (induction row agg rule: agg_row.induct)
  case (2 row ts b agg)
  have "ts \<notin> fst ` set (agg_row row agg)" if "ts \<noteq> rr_bucket_start row"
    using 2(2) that agg_row_keys [of row agg] by auto
  with 2 show ?case by (auto simp: image_iff)
qed simp

lemma agg_row_lookup:
  "map_of (agg_row row agg) ts =
     (if ts = rr_bucket_start row then Some (bucket_add row (case map_of agg ts of None \<Rightarrow> zero_bucket | Some b \<Rightarrow> b))
      else map_of agg ts)"
  by (induction row agg rule: agg_row.induct) auto

lemma agg_rows:
  "distinct (map fst agg) \<Longrightarrow> distinct (map fst (fold agg_row rows agg)) \<and>
   map_of (fold agg_row rows agg) ts =
     (if at_start ts rows = [] then map_of agg ts
      else Some (fold bucket_add (at_start ts rows) (case map_of agg ts of None \<Rightarrow> zero_bucket | Some b \<Rightarrow> b)))"
proof (induction rows arbitrary: agg)
  case (Cons row rows)
  from Cons.IH [OF agg_row_distinct [OF Cons.prems]] show ?case
    by (simp add: agg_row_lookup at_start_def)
qed (simp add: at_start_def)

text \<open>What a bucket stands for: wrapped sums of the bytes, and peaks that start from zero.\<close>

definition bucket_of :: "rollup_row list \<Rightarrow> series_bucket" where
  "bucket_of rows =
     \<lparr>sb_up = i64 (sum_list (map rr_up_bytes rows)), sb_down = i64 (sum_list (map rr_down_bytes rows)),
      sb_peakUp = Max (insert 0 (rr_peak_up_bps ` set rows)), sb_peakDown = Max (insert 0 (rr_peak_down_bps ` set rows)),
      sb_maxConn = Max (insert 0 (rr_max_connections ` set rows))\<rparr>"

lemma bucket_fold:
  "fold bucket_add rows \<lparr>sb_up = i64 u, sb_down = i64 d, sb_peakUp = Max (insert 0 A), sb_peakDown = Max (insert 0 B), sb_maxConn = Max (insert 0 C)\<rparr> =
   \<lparr>sb_up = i64 (u + sum_list (map rr_up_bytes rows)), sb_down = i64 (d + sum_list (map rr_down_bytes rows)),
    sb_peakUp = Max (insert 0 (A \<union> rr_peak_up_bps ` set rows)), sb_peakDown = Max (insert 0 (B \<union> rr_peak_down_bps ` set rows)),
    sb_maxConn = Max (insert 0 (C \<union> rr_max_connections ` set rows))\<rparr>"
  if "finite A" "finite B" "finite C"
  using that
proof (induction rows arbitrary: u d A B C)
  case (Cons row rows)
  have m: "(if Max (insert 0 S) < x then x else Max (insert 0 S)) = Max (insert 0 (insert x S))" if "finite S" for x :: int and S
  proof -
    have "Max (insert 0 (insert x S)) = max x (Max (insert 0 S))"
      using Max_insert [of "insert 0 S" x] that by (simp only: insert_commute [of 0 x]) simp
    then show ?thesis by (simp only: max_def not_less [symmetric] if_not_P split: if_split) linarith
  qed
  have "bucket_add row \<lparr>sb_up = i64 u, sb_down = i64 d, sb_peakUp = Max (insert 0 A), sb_peakDown = Max (insert 0 B), sb_maxConn = Max (insert 0 C)\<rparr> =
      \<lparr>sb_up = i64 (u + rr_up_bytes row), sb_down = i64 (d + rr_down_bytes row), sb_peakUp = Max (insert 0 (insert (rr_peak_up_bps row) A)),
       sb_peakDown = Max (insert 0 (insert (rr_peak_down_bps row) B)), sb_maxConn = Max (insert 0 (insert (rr_max_connections row) C))\<rparr>"
    unfolding bucket_add_def using Cons.prems by (simp only: series_bucket.simps add64_def i64_add_left m)
  with Cons.IH [of "insert (rr_peak_up_bps row) A" "insert (rr_peak_down_bps row) B" "insert (rr_max_connections row) C"
      "u + rr_up_bytes row" "d + rr_down_bytes row"] Cons.prems
  show ?case by (simp add: add.assoc)
qed simp

lemma bucket_fold_zero: "fold bucket_add rows zero_bucket = bucket_of rows"
  using bucket_fold [of "{}" "{}" "{}" rows 0 0] by (simp add: zero_bucket_def bucket_of_def i64_def)

lemma bucket_of_mset: "mset rows = mset rows' \<Longrightarrow> bucket_of rows = bucket_of rows'"
proof -
  assume m: "mset rows = mset rows'"
  then have "sum_list (map f rows) = sum_list (map f rows')" for f :: "rollup_row \<Rightarrow> int"
    by (metis mset_map sum_mset_sum_list)
  then show ?thesis using m by (simp add: bucket_of_def mset_eq_setD [OF m])
qed

text \<open>The rows the series is made of are those of the interval and the range, in some order.\<close>

definition ranged :: "string \<Rightarrow> int \<Rightarrow> int \<Rightarrow> db \<Rightarrow> rollup_row list" where
  "ranged iv from to d =
     filter (\<lambda>r. rr_interval r = iv \<and> from \<le> rr_bucket_start r \<and> rr_bucket_start r \<le> to) (traffic_rollup d)"

lemma mset_concat_filter:
  assumes "distinct ks" and "\<forall>x \<in> set xs. key x \<in> set ks"
  shows "mset (concat (map (\<lambda>k. filter (\<lambda>x. key x = k) xs) ks)) = mset xs"
  using assms
proof (induction ks arbitrary: xs)
  case (Cons k ks)
  let ?rest = "filter (\<lambda>x. key x \<noteq> k) xs"
  have "filter (\<lambda>x. key x = j) xs = filter (\<lambda>x. key x = j) ?rest" if "j \<in> set ks" for j
    using that Cons.prems(1) by (auto intro: filter_cong)
  then have "map (\<lambda>j. filter (\<lambda>x. key x = j) xs) ks = map (\<lambda>j. filter (\<lambda>x. key x = j) ?rest) ks" by simp
  moreover have "mset (concat (map (\<lambda>j. filter (\<lambda>x. key x = j) ?rest) ks)) = mset ?rest"
    using Cons.prems by (intro Cons.IH) auto
  ultimately have rest: "mset (concat (map (\<lambda>j. filter (\<lambda>x. key x = j) xs) ks)) = mset ?rest" by (simp only:)
  have "mset (concat (map (\<lambda>j. filter (\<lambda>x. key x = j) xs) (k # ks))) = mset (filter (\<lambda>x. key x = k) xs) + mset ?rest"
    by (simp only: list.map concat.simps mset_append rest)
  also have "\<dots> = mset xs" by (simp only: mset_filter flip: multiset_partition)
  finally show ?case .
qed simp

lemma series_rows_mset:
  assumes "db_ok d" and "\<forall>n. length (filter (\<lambda>r. rr_node_id r = n) (ranged iv from to d)) \<le> 10000"
  shows "mset (series_rows iv from to d) = mset (ranged iv from to d)"
proof -
  have asc: "QueryRollupAsc n iv from to 10000 d = sort_key rr_bucket_start (filter (\<lambda>r. rr_node_id r = n) (ranged iv from to d))" for n
  proof -
    have "filter (rollup_in n iv from to) (traffic_rollup d) = filter (\<lambda>r. rr_node_id r = n) (ranged iv from to d)"
      by (auto simp: ranged_def rollup_in_def conj_ac intro: filter_cong)
    with assms(2) show ?thesis by (simp add: QueryRollupAsc_def sql_limit_def)
  qed
  have "mset (series_rows iv from to d) = mset (concat (map (\<lambda>k. filter (\<lambda>r. rr_node_id r = k) (ranged iv from to d)) (map n_ID (ListNodes d))))"
    by (simp add: series_rows_def asc mset_concat comp_def)
  also have "\<dots> = mset (ranged iv from to d)"
  proof (rule mset_concat_filter)
    have "map n_ID (ListNodes d) = map nr_id (sort_key nr_name (nodes d))" by (simp add: ListNodes_def scanNode_def)
    moreover have "distinct (map nr_id (sort_key nr_name (nodes d)))" "set (map nr_id (sort_key nr_name (nodes d))) = nr_id ` set (nodes d)"
      using assms(1) by (simp_all add: db_ok_simps distinct_map)
    ultimately show "distinct (map n_ID (ListNodes d))"
      "\<forall>x \<in> set (ranged iv from to d). rr_node_id x \<in> set (map n_ID (ListNodes d))"
      using assms(1) by (auto simp: db_ok_simps ranged_def)
  qed
  finally show ?thesis .
qed

text \<open>
  C37: the traffic chart is exact. Over a consistent database with at most ten thousand buckets
  of the range per node, the series lists the bucket starts of the range in strictly ascending
  order, each once and none missing, and every entry carries the sums of the bytes over all
  nodes (in 64-bit arithmetic) and the largest peak of any node, whatever order the aggregating
  map is read in.
\<close>

theorem traffic_series_exact:
  assumes "db_ok d" and "\<forall>n. length (filter (\<lambda>r. rr_node_id r = n) (ranged iv from to d)) \<le> 10000"
  shows "sorted_wrt (<) (map fst (series iv from to d)) \<and>
    fst ` set (series iv from to d) = rr_bucket_start ` set (ranged iv from to d) \<and>
    (\<forall>(ts, b) \<in> set (series iv from to d). b = bucket_of (at_start ts (ranged iv from to d)))"
proof -
  let ?agg = "fold agg_row (series_rows iv from to d) []"
  let ?rows = "ranged iv from to d"
  have m: "mset (series_rows iv from to d) = mset ?rows" using series_rows_mset [OF assms] .
  then have at: "mset (at_start ts (series_rows iv from to d)) = mset (at_start ts ?rows)" for ts
    by (simp add: at_start_def)
  have agg: "distinct (map fst ?agg)"
    "map_of ?agg ts = (if at_start ts ?rows = [] then None else Some (bucket_of (at_start ts ?rows)))" for ts
    using agg_rows [of "[]" "series_rows iv from to d" ts] bucket_of_mset [OF at] at [of ts]
    by (auto simp: bucket_fold_zero)
  have "sorted_wrt (<) (map fst (series iv from to d))"
    using agg(1) by (simp add: series_def strict_sorted_iff distinct_map)
  moreover have "fst ` set (series iv from to d) = rr_bucket_start ` set ?rows"
  proof -
    have "fst ` set (series iv from to d) = dom (map_of ?agg)" by (simp add: series_def dom_map_of_conv_image_fst)
    also have "\<dots> = {ts. at_start ts ?rows \<noteq> []}" using agg(2) by (auto simp: dom_def)
    finally show ?thesis by (auto simp: at_start_def filter_empty_conv)
  qed
  moreover have "b = bucket_of (at_start ts ?rows)" if "(ts, b) \<in> set (series iv from to d)" for ts b
  proof -
    have "map_of ?agg ts = Some b" using that agg(1) by (simp add: series_def)
    then show ?thesis using agg(2) [of ts] by (simp split: if_splits)
  qed
  ultimately show ?thesis by blast
qed

theorem traffic_series_exact_witness:
  "let d = demo_nodes_db\<lparr>traffic_rollup := [demo_rollup ''minute'' 120 1 2, demo_rollup ''minute'' 60 5 7, demo_rollup ''hour'' 0 5 7]\<rparr>
   in sorted_wrt (<) (map fst (series ''minute'' 0 600 d)) \<and> fst ` set (series ''minute'' 0 600 d) = {60, 120}"
proof -
  let ?d = "demo_nodes_db\<lparr>traffic_rollup := [demo_rollup ''minute'' 120 1 2, demo_rollup ''minute'' 60 5 7, demo_rollup ''hour'' 0 5 7]\<rparr>"
  have ok: "db_ok ?d" using demo_nodes_db_ok by (simp add: db_ok_simps demo_rollup_def)
  have r: "ranged ''minute'' 0 600 ?d = [demo_rollup ''minute'' 120 1 2, demo_rollup ''minute'' 60 5 7]"
    by (simp add: ranged_def demo_rollup_def)
  have "\<forall>n. length (filter (\<lambda>r. rr_node_id r = n) (ranged ''minute'' 0 600 ?d)) \<le> 10000" by (simp add: r)
  from traffic_series_exact [OF ok this] show ?thesis unfolding Let_def r by (simp add: demo_rollup_def insert_commute)
qed

subsection \<open>The address listing over HTTP\<close>

text \<open>What a client sees of an item besides the geolocation, which depends on the provider.\<close>

fun without_geo :: "json \<Rightarrow> json" where
  "without_geo (JObj m) = JObj (filter (\<lambda>(k, _). k \<noteq> ''geo'') m)"
| "without_geo j = j"

fun strip_items :: "json \<Rightarrow> json" where
  "strip_items (JArr xs) = JArr (map without_geo xs)"
| "strip_items j = j"

definition ip_view :: "env \<Rightarrow> ip_stat \<Rightarrow> json" where
  "ip_view E row = without_geo (JObj (stat_json E row JNull))"

lemma stat_items_view:
  "map without_geo (fst (stat_items E G other now (\<lambda>_. []) rows st sd)) = map (ip_view E) rows"
proof (induction rows arbitrary: sd)
  case (Cons row rows)
  have "without_geo (JObj (fst (ipStatItem E G other now row st sd))) = ip_view E row"
    by (simp add: ipStatItem_def ip_view_def stat_json_def split: prod.split)
  with Cons.IH show ?case by (simp add: split_beta)
qed simp

record ip_listing =
  il_env :: env
  il_geo :: geo_net
  il_other :: "nat \<Rightarrow> geo_error + geo"
  il_now :: int
  il_request :: request
  il_panel :: panel
  il_service :: geo_service
  il_node :: node

definition il_sort :: "ip_listing \<Rightarrow> string" where
  "il_sort q = (let s = Get (rq_Query (il_request q)) ''sort'' in if s = [] then ''-total_bytes'' else s)"

definition il_rows :: "ip_listing \<Rightarrow> ip_stat list" where
  "il_rows q = map (scan_stat (n_ID (il_node q)))
     (ip_order (il_sort q) (ip_rows (n_ID (il_node q)) (Get (rq_Query (il_request q)) ''q'') (p_db (il_panel q))))"

definition plain_stats :: "db \<Rightarrow> bool" where
  "plain_stats d \<longleftrightarrow> (\<forall>r \<in> set (ip_stats d). in_i64 (is_upload_bytes r + is_download_bytes r) \<and> in_i64 (is_last_seen_at r) \<and>
     CHR ''|'' \<notin> set (is_source_ip r) \<and> CHR 0x1F \<notin> set (is_source_ip r))"

definition il_inv :: "ip_listing \<Rightarrow> bool" where
  "il_inv q \<longleftrightarrow> db_ok (p_db (il_panel q)) \<and> plain_stats (p_db (il_panel q)) \<and>
     GetNode (Get (rq_PathValue (il_request q)) ''node_id'') (p_db (il_panel q)) = Inr (il_node q) \<and>
     parsePositiveInt (Get (rq_Query (il_request q)) ''page_size'') 20 100 \<noteq> None \<and>
     Get (rq_Query (il_request q)) ''sort'' \<in> set ip_sorts"

definition il_get :: "ip_listing \<Rightarrow> string \<Rightarrow> json_map" where
  "il_get q c = map (\<lambda>(k, v). (k, if k = ''items'' then strip_items v else v))
     (body_fields (fst (handleNodeIps (il_env q) (il_geo q) (il_other q) (il_now q)
        ((il_request q)\<lparr>rq_Query := (''cursor'', c) # rq_Query (il_request q)\<rparr>) (il_panel q, il_service q))))"

definition il_size :: "ip_listing \<Rightarrow> nat" where
  "il_size q = nat (the (parsePositiveInt (Get (rq_Query (il_request q)) ''page_size'') 20 100))"

lemma handleNodeIps_page:
  assumes "nodeOr404 r (p_db p) = Inr n" and "parsePositiveInt (Get (rq_Query r) ''page_size'') 20 100 = Some (int k)"
    and "Get (rq_Query r) ''sort'' \<in> set ip_sorts" and "ip_cursor r = Some cur"
    and "srt = (if Get (rq_Query r) ''sort'' = [] then ''-total_bytes'' else Get (rq_Query r) ''sort'')"
    and "ListIPStats (n_ID n) srt (Get (rq_Query r) ''q'') cur (int k + 1) (p_db p) = Inr (take (Suc k) rest)"
    and "currentSettings E now (p_db p) = (st, d1)"
    and "stat_items E G other now (\<lambda>_. []) (take k rest) st (gs, d1) = (items, gs', d2)"
  shows "fst (handleNodeIps E G other now r (p, gs)) = WriteJSON 200 (JObj ((''items'', JArr items) #
     (if k < length rest \<and> 0 < length (take k rest) then page_links r (ip_next srt (last (take k rest))) else [])))"
proof -
  let ?rows0 = "take (Suc k) rest"
  have more: "int k < int (length ?rows0) \<longleftrightarrow> k < length rest" by auto
  have rows: "(if k < length rest then take (nat (int k)) ?rows0 else ?rows0) = take k rest"
    by (simp add: min_def)
  have srt: "(Get (rq_Query r) ''sort'' \<notin> set ip_sorts) = False" using assms(3) by simp
  show ?thesis
    unfolding handleNodeIps_def prod.case assms(1) sum.case assms(2) option.case srt if_False
      assms(4) assms(5) [symmetric] Let_def assms(6) more rows assms(7) prod.case assms(8) fst_conv by (rule refl)
qed

text \<open>A page, given what the store lists for its cursor.\<close>

lemma il_get_page:
  assumes "il_inv q" and "ip_cursor ((il_request q)\<lparr>rq_Query := (''cursor'', c) # rq_Query (il_request q)\<rparr>) = Some cur"
    and "ListIPStats (n_ID (il_node q)) (il_sort q) (Get (rq_Query (il_request q)) ''q'') cur (int (il_size q) + 1) (p_db (il_panel q)) =
      Inr (take (Suc (il_size q)) rest)"
  shows "is_page (il_size q) (ip_view (il_env q)) (ip_next (il_sort q)) rest (il_get q c)"
proof -
  from assms(1) obtain m where m: "parsePositiveInt (Get (rq_Query (il_request q)) ''page_size'') 20 100 = Some m"
    by (auto simp: il_inv_def)
  then have pos: "1 \<le> m" using parsePositiveInt_range by force
  then have s: "m = int (il_size q)" "0 < il_size q" using m by (simp_all add: il_size_def)
  let ?r = "(il_request q)\<lparr>rq_Query := (''cursor'', c) # rq_Query (il_request q)\<rparr>"
  let ?rows = "take (il_size q) rest"
  have g: "Get (rq_Query ?r) k = Get (rq_Query (il_request q)) k" if "k \<noteq> ''cursor''" for k
    using that by (simp add: Get_def)
  obtain st d1 where cs: "currentSettings (il_env q) (il_now q) (p_db (il_panel q)) = (st, d1)" by force
  obtain items gs d2 where it: "stat_items (il_env q) (il_geo q) (il_other q) (il_now q) (\<lambda>_. []) ?rows st (il_service q, d1) = (items, gs, d2)"
    by (metis prod.collapse)
  have "fst (handleNodeIps (il_env q) (il_geo q) (il_other q) (il_now q) ?r (il_panel q, il_service q)) = WriteJSON 200 (JObj
      ((''items'', JArr items) # (if il_size q < length rest \<and> 0 < length ?rows then page_links ?r (ip_next (il_sort q) (last ?rows)) else [])))"
    using assms m s(1) cs it
    by (intro handleNodeIps_page [where n = "il_node q" and cur = cur])
      (simp_all only: g [of "''page_size''"] g [of "''sort''"] g [of "''q''"] list.inject char.inject il_inv_def il_sort_def Let_def
        nodeOr404_def request.simps sum.case simp_thms if_P if_not_P refl split: if_split, auto)
  then have body: "body_fields (fst (handleNodeIps (il_env q) (il_geo q) (il_other q) (il_now q) ?r (il_panel q, il_service q))) =
      (''items'', JArr items) # (if il_size q < length rest \<and> 0 < length ?rows then page_links ?r (ip_next (il_sort q) (last ?rows)) else [])"
    by (simp add: body_fields_def)
  have "map without_geo items = map (ip_view (il_env q)) ?rows"
    using stat_items_view [of "il_env q" "il_geo q" "il_other q" "il_now q" ?rows st "(il_service q, d1)"] it by simp
  moreover have "rest \<noteq> []" if "il_size q < length rest" using that by auto
  ultimately show ?thesis
    using s(2) unfolding is_page_def il_get_def body
    by (cases "il_size q < length rest") (simp_all add: page_links_def)
qed

lemma il_sorted:
  "il_inv q \<Longrightarrow> sorted_wrt (\<lambda>a b. stat_before (il_sort q) (scanned_key (il_sort q) a) (scanned_key (il_sort q) b)) (il_rows q)"
  unfolding il_rows_def by (intro ip_order_sorted) (simp add: il_inv_def)

lemma il_row_plain:
  assumes "il_inv q" and "row \<in> set (il_rows q)"
  shows "in_i64 (fst (scanned_key srt row))" "CHR ''|'' \<notin> set (ip_SourceIP row)" "CHR 0x1F \<notin> set (ip_SourceIP row)"
    "snd (scanned_key srt row) = ip_SourceIP row"
proof -
  from assms(2) obtain x where "x \<in> set (ip_stats (p_db (il_panel q)))" "row = scan_stat (n_ID (il_node q)) x"
    by (auto simp: il_rows_def ip_order_def ip_rows_def split: if_splits)
  with assms(1) show "in_i64 (fst (scanned_key srt row))" "CHR ''|'' \<notin> set (ip_SourceIP row)" "CHR 0x1F \<notin> set (ip_SourceIP row)"
    "snd (scanned_key srt row) = ip_SourceIP row"
    by (auto simp: il_inv_def plain_stats_def scan_stat_def scanned_key_def)
qed

lemma ip_next_text: "ip_next srt row = encodeCursor [Itoa (fst (scanned_key srt row)), ip_SourceIP row]"
  by (simp add: ip_next_def scanned_key_def)

interpretation address_listing: paged_listing "\<lambda>q. il_inv q \<and> il_sort q = srt" il_get il_rows il_size
  "\<lambda>q. ip_view (il_env q)" "ip_next srt" for srt
proof (unfold_locales, goal_cases)
  case (1 q)
  then obtain m where "parsePositiveInt (Get (rq_Query (il_request q)) ''page_size'') 20 100 = Some m"
    by (auto simp: il_inv_def)
  then show ?case using parsePositiveInt_range [of _ 20 100 m] by (force simp: il_size_def)
next
  case (2 q)
  have "ip_cursor ((il_request q)\<lparr>rq_Query := (''cursor'', []) # rq_Query (il_request q)\<rparr>) = Some []"
    by (simp add: ip_cursor_def Get_def)
  moreover have "ListIPStats (n_ID (il_node q)) (il_sort q) (Get (rq_Query (il_request q)) ''q'') [] (int (il_size q) + 1) (p_db (il_panel q)) =
      Inr (take (Suc (il_size q)) (il_rows q))"
    by (simp add: ListIPStats_first sql_limit_def il_rows_def take_map nat_add_distrib)
  ultimately show ?case using il_get_page [of q "[]" "[]" "il_rows q"] 2 by simp
next
  case (3 q xs ys)
  then have inv: "il_inv q" and s: "il_sort q = srt" by simp_all
  let ?row = "last xs" and ?k = "scanned_key srt (last xs)"
  have "?row \<in> set (il_rows q)" using 3 by simp
  note p = il_row_plain(1,4) [OF inv this, of srt] il_row_plain(2,3) [OF inv this]
  have dec: "decodeCursor (ip_next srt ?row) = Some [Itoa (fst ?k), ip_SourceIP ?row]" "ip_next srt ?row \<noteq> []"
    using cursor_roundtrip [of "[Itoa (fst ?k), ip_SourceIP ?row]"] p Itoa_no_sep by (simp_all add: ip_next_text)
  then have c: "ip_cursor ((il_request q)\<lparr>rq_Query := (''cursor'', ip_next srt ?row) # rq_Query (il_request q)\<rparr>) = Some (cursor_text ?k)"
    using p by (simp add: ip_cursor_def Get_def cursor_text_def)
  have sorted: "sorted_wrt (\<lambda>a b. stat_before srt (scanned_key srt a) (scanned_key srt b)) (xs @ ys)"
    using il_sorted [OF inv] 3(2) s by simp
  have "map (scan_stat (n_ID (il_node q))) (ip_order srt (filter (\<lambda>r. stat_before srt ?k (stat_sort_key srt r))
      (ip_rows (n_ID (il_node q)) (Get (rq_Query (il_request q)) ''q'') (p_db (il_panel q))))) =
    filter (\<lambda>r. stat_before srt ?k (scanned_key srt r)) (il_rows q)"
    by (simp add: il_rows_def s ip_order_filter [symmetric] filter_map comp_def scanned_key_scan)
  also have "\<dots> = ys" using stat_pages.rest_after [OF sorted 3(3)] 3(2) by simp
  finally have "ListIPStats (n_ID (il_node q)) srt (Get (rq_Query (il_request q)) ''q'') (cursor_text ?k) (int (il_size q) + 1) (p_db (il_panel q)) =
      Inr (take (Suc (il_size q)) ys)"
    using ListIPStats_next [of ?k] p by (simp add: sql_limit_def take_map [symmetric] nat_add_distrib)
  from il_get_page [OF inv c, of ys] this s show ?case by simp
qed

text \<open>
  C38: the address listing of a node is complete over HTTP. A client that follows the cursors, for
  every sort order, filter and page size and whatever the geolocation service answers or how much of its
  quota is left, receives every matching address of the node exactly once, in the order asked for,
  and then no further cursor.
\<close>

theorem address_listing_complete:
  assumes "db_ok (p_db p)" and "plain_stats (p_db p)"
    and "GetNode (Get (rq_PathValue r) ''node_id'') (p_db p) = Inr n"
    and "parsePositiveInt (Get (rq_Query r) ''page_size'') 20 100 \<noteq> None" and "Get (rq_Query r) ''sort'' \<in> set ip_sorts"
    and "srt = (if Get (rq_Query r) ''sort'' = [] then ''-total_bytes'' else Get (rq_Query r) ''sort'')"
    and "length (ip_stats (p_db p)) < fuel"
  shows "follow_pages (\<lambda>c. map (\<lambda>(k, v). (k, if k = ''items'' then strip_items v else v))
       (body_fields (fst (handleNodeIps E G other now (r\<lparr>rq_Query := (''cursor'', c) # rq_Query r\<rparr>) (p, gs))))) fuel [] =
    map (\<lambda>row. ip_view E (scan_stat (n_ID n) row)) (ip_order srt (ip_rows (n_ID n) (Get (rq_Query r) ''q'') (p_db p))) \<and>
    sorted_wrt (\<lambda>a b. stat_before srt (stat_sort_key srt a) (stat_sort_key srt b)) (ip_order srt (ip_rows (n_ID n) (Get (rq_Query r) ''q'') (p_db p)))"
proof
  define q where "q = \<lparr>il_env = E, il_geo = G, il_other = other, il_now = now, il_request = r, il_panel = p, il_service = gs, il_node = n\<rparr>"
  have inv: "il_inv q \<and> il_sort q = srt" using assms by (simp add: il_inv_def q_def il_sort_def Let_def)
  have len: "length (il_rows q) < fuel"
    using ip_order_length [of srt "n_ID n" "Get (rq_Query r) ''q''" "p_db p"] assms(7) conjunct2 [OF inv] by (simp add: il_rows_def q_def)
  have rows: "il_rows q = map (scan_stat (n_ID n)) (ip_order srt (ip_rows (n_ID n) (Get (rq_Query r) ''q'') (p_db p)))"
    using conjunct2 [OF inv] by (simp add: il_rows_def q_def)
  have get: "il_get q = (\<lambda>c. map (\<lambda>(k, v). (k, if k = ''items'' then strip_items v else v))
       (body_fields (fst (handleNodeIps E G other now (r\<lparr>rq_Query := (''cursor'', c) # rq_Query r\<rparr>) (p, gs)))))"
    by (simp add: il_get_def q_def fun_eq_iff)
  from address_listing.follow_all [OF inv len]
  show "follow_pages (\<lambda>c. map (\<lambda>(k, v). (k, if k = ''items'' then strip_items v else v))
       (body_fields (fst (handleNodeIps E G other now (r\<lparr>rq_Query := (''cursor'', c) # rq_Query r\<rparr>) (p, gs))))) fuel [] =
    map (\<lambda>row. ip_view E (scan_stat (n_ID n) row)) (ip_order srt (ip_rows (n_ID n) (Get (rq_Query r) ''q'') (p_db p)))"
    unfolding get rows by (simp add: q_def comp_def)
  show "sorted_wrt (\<lambda>a b. stat_before srt (stat_sort_key srt a) (stat_sort_key srt b)) (ip_order srt (ip_rows (n_ID n) (Get (rq_Query r) ''q'') (p_db p)))"
    using ip_order_sorted [OF assms(1), of srt "n_ID n"] by (simp add: sorted_wrt_map scanned_key_scan)
qed

definition demo_ips_request :: request where
  "demo_ips_request = demo_request\<lparr>rq_PathValue := [(''node_id'', ''n1'')], rq_Query := [(''page_size'', ''1'')]\<rparr>"

theorem address_listing_complete_witness:
  "length (follow_pages (\<lambda>c. map (\<lambda>(k, v). (k, if k = ''items'' then strip_items v else v))
       (body_fields (fst (handleNodeIps demo_server demo_geo_net (\<lambda>_. Inl GeoRead) 5000000000
          (demo_ips_request\<lparr>rq_Query := (''cursor'', c) # rq_Query demo_ips_request\<rparr>) (demo_panel\<lparr>p_db := demo_ip_db\<rparr>, geo_New))))) 3 []) = 2"
proof -
  let ?p = "demo_panel\<lparr>p_db := demo_ip_db\<rparr>"
  have a: "db_ok (p_db ?p)" "plain_stats (p_db ?p)" "length (ip_stats (p_db ?p)) < 3"
    using demo_ip_db_ok by (simp_all add: plain_stats_def demo_ip_db_def delta_stat_def demo_delta_def in_i64_def)
  have b: "GetNode (Get (rq_PathValue demo_ips_request) ''node_id'') (p_db ?p) = Inr (scanNode (node_columns demo_node 1 1 0))"
    by (simp add: demo_ips_request_def demo_ip_db_def demo_nodes_db_def GetNode_def Get_def row_with_def node_columns_def demo_node_def)
  have pp: "parsePositiveInt ''1'' 20 100 = Some 1" by code_simp
  have c: "parsePositiveInt (Get (rq_Query demo_ips_request) ''page_size'') 20 100 \<noteq> None"
    "Get (rq_Query demo_ips_request) ''sort'' \<in> set ip_sorts" "Get (rq_Query demo_ips_request) ''q'' = []"
    using pp by (simp_all add: demo_ips_request_def demo_request_def Get_def ip_sorts_def)
  have "n_ID (scanNode (node_columns demo_node 1 1 0)) = ''n1''" by (simp add: scanNode_def node_columns_def demo_node_def)
  then have l: "length (ip_order srt (ip_rows (n_ID (scanNode (node_columns demo_node 1 1 0))) [] (p_db ?p))) = 2" for srt
    by (simp add: ip_order_def ip_rows_def demo_ip_db_def delta_stat_def demo_delta_def)
  from address_listing_complete [OF a(1,2) b c(1,2) refl a(3), of demo_server demo_geo_net "\<lambda>_. Inl GeoRead" 5000000000 geo_New]
  show ?thesis using l c(3) by simp
qed

subsection \<open>What the public routes reveal\<close>

text \<open>The columns of a node that the routes without a login may depend on, and the rest of the
  public part of the database: traffic totals and the addresses of exits.\<close>

definition public_row :: "node_row \<Rightarrow> node_row" where
  "public_row r = r\<lparr>nr_api_url := [], nr_api_secret_enc := [], nr_outbound_enc := [], nr_source := [], nr_config_url := [],
     nr_kce_key_enc := [], nr_remark := [], nr_mode := [], nr_latency_ms := 0, nr_latency_checked_at := 0,
     nr_latency_fail_count := 0, nr_created_at := 0, nr_updated_at := 0\<rparr>"

definition same_public :: "db \<Rightarrow> db \<Rightarrow> bool" where
  "same_public d d' \<longleftrightarrow> map public_row (nodes d) = map public_row (nodes d') \<and> traffic_rollup d = traffic_rollup d' \<and>
     map (\<lambda>e. (e_node_id e, e_ip e)) (exit_ip_checks d) = map (\<lambda>e. (e_node_id e, e_ip e)) (exit_ip_checks d')"

lemma sort_key_of_map: "sort_key key (map g xs) = map g (sort_key (\<lambda>x. key (g x)) xs)"
proof -
  have "insort_key key (g x) (map g ys) = map g (insort_key (\<lambda>x. key (g x)) x ys)" for x ys by (induction ys) auto
  then show ?thesis by (induction xs) simp_all
qed

lemma ListNodes_public:
  assumes "\<And>r. f (scanNode (public_row r)) = f (scanNode r)" and "map public_row (nodes d) = map public_row (nodes d')"
  shows "map f (ListNodes d) = map f (ListNodes d')"
proof -
  have name: "nr_name (public_row r) = nr_name r" for r by (simp add: public_row_def)
  have "map f (ListNodes d) = map (\<lambda>r. f (scanNode r)) (sort_key nr_name (map public_row (nodes d)))" for d
    by (simp add: ListNodes_def sort_key_of_map name assms(1) comp_def)
  then show ?thesis using assms(2) by simp
qed

lemma SumRange_cong: "traffic_rollup d = traffic_rollup d' \<Longrightarrow> SumRange n a b d = SumRange n a b d'"
  by (simp add: SumRange_def)

lemma exit_ip_public:
  assumes "map (\<lambda>e. (e_node_id e, e_ip e)) xs = map (\<lambda>e. (e_node_id e, e_ip e)) ys"
  shows "map_option e_ip (row_with e_node_id i xs) = map_option e_ip (row_with e_node_id i ys)"
  using assms
proof (induction xs arbitrary: ys)
  case (Cons x xs)
  then show ?case by (cases ys) (auto simp: row_with_def)
qed (simp add: row_with_def)

lemma today_total_fold: "today_total t d = fold (\<lambda>i acc. add_pair acc (SumRange i (today_start t) t d)) (map n_ID (ListNodes d)) (0, 0)"
  by (simp add: today_total_def fold_map comp_def)

text \<open>
  C39: the routes without a login reveal only what the public page shows. Two panels with the same
  hub that agree on the public columns of their nodes, the traffic buckets and the exit addresses
  get the same answers from both public routes, whatever else differs: accounts, sessions,
  settings, subscription links, source addresses, the nodes' API and profile addresses, their
  secrets, their outbounds and their remarks.
\<close>

theorem public_routes_noninterference:
  assumes "same_public (p_db p) (p_db p')" and "p_hub p = p_hub p'"
  shows "fst (handlePublicStats now r p) = fst (handlePublicStats now r p') \<and>
    fst (handlePublicNodes E now r p) = fst (handlePublicNodes E now r p')"
proof
  have ids: "map n_ID (ListNodes (p_db p)) = map n_ID (ListNodes (p_db p'))"
    using assms(1) by (intro ListNodes_public) (simp_all add: scanNode_def public_row_def same_public_def)
  have sums: "SumRange n a b (p_db p) = SumRange n a b (p_db p')" for n a b
    using assms(1) by (intro SumRange_cong) (simp add: same_public_def)
  then have "today_total t (p_db p) = today_total t (p_db p')" for t
    by (simp add: today_total_fold ids)
  then show "fst (handlePublicStats now r p) = fst (handlePublicStats now r p')"
    by (simp add: handlePublicStats_def totals_json_def assms(2))
  have "(case GetExitIP i (p_db p) of Inr e \<Rightarrow> e_ip e | Inl _ \<Rightarrow> []) = (case GetExitIP i (p_db p') of Inr e \<Rightarrow> e_ip e | Inl _ \<Rightarrow> [])" for i
    using exit_ip_public [of "exit_ip_checks (p_db p)" "exit_ip_checks (p_db p')" i] assms(1)
    by (auto simp: same_public_def GetExitIP_def split: option.split)
  then have card: "public_card E t (p_hub p) (p_db p) = public_card E t (p_hub p') (p_db p')" for t
    by (intro ext) (simp add: public_card_def assms(2) sums)
  have "map (public_card E t (p_hub p') (p_db p')) (ListNodes (p_db p)) = map (public_card E t (p_hub p') (p_db p')) (ListNodes (p_db p'))" for t
    using assms(1)
    by (intro ListNodes_public) (simp_all add: public_card_def scanNode_def public_row_def same_public_def)
  then show "fst (handlePublicNodes E now r p) = fst (handlePublicNodes E now r p')"
    by (simp add: handlePublicNodes_def card [of "Unix now"])
qed

theorem public_routes_noninterference_witness:
  "let d = demo_nodes_db; d' = demo_nodes_db\<lparr>nodes := [node_columns (demo_node\<lparr>n_APISecretEnc := ''s'', n_OutboundEnc := ''o''\<rparr>) 1 1 0]\<rparr>
   in fst (handlePublicNodes demo_server 5000000000 demo_request (demo_panel\<lparr>p_db := d\<rparr>)) =
      fst (handlePublicNodes demo_server 5000000000 demo_request (demo_panel\<lparr>p_db := d'\<rparr>))"
proof -
  let ?d' = "demo_nodes_db\<lparr>nodes := [node_columns (demo_node\<lparr>n_APISecretEnc := ''s'', n_OutboundEnc := ''o''\<rparr>) 1 1 0]\<rparr>"
  have "same_public (p_db (demo_panel\<lparr>p_db := demo_nodes_db\<rparr>)) (p_db (demo_panel\<lparr>p_db := ?d'\<rparr>))"
    by (simp add: same_public_def demo_nodes_db_def public_row_def node_columns_def demo_node_def)
  from public_routes_noninterference [OF this] show ?thesis by (simp add: Let_def)
qed

subsection \<open>The monitoring routes as one service\<close>

datatype stats_call =
    NodeStatus | NodeTraffic int | NodeIps geo_net "nat \<Rightarrow> geo_error + geo" int geo_service | NodeExitIP | ReadOperation
  | StatsOverview int | StatsNodes int | StatsTopNodes "(rollup_row \<Rightarrow> int) \<Rightarrow> rollup_row list \<Rightarrow> rollup_row list" int
  | StatsTopIps geo_net "nat \<Rightarrow> geo_error + geo" "(ip_stat \<Rightarrow> int) \<Rightarrow> ip_stat list \<Rightarrow> ip_stat list" int geo_service
  | TrafficSeries int | ShareLink | PublicStats int | PublicNodes int

definition with_geo :: "geo_service \<Rightarrow> geo_handler \<Rightarrow> handler" where
  "with_geo gs h r p = (case h r (p, gs) of (resp, p', _) \<Rightarrow> (resp, p'))"

fun stats_api :: "env \<Rightarrow> stats_call \<Rightarrow> handler" where
  "stats_api E NodeStatus = handleNodeStatus E"
| "stats_api E (NodeTraffic now) = handleNodeTraffic E now"
| "stats_api E (NodeIps G other now gs) = with_geo gs (handleNodeIps E G other now)"
| "stats_api E NodeExitIP = handleNodeExitIP E"
| "stats_api E ReadOperation = handleGetOperation E"
| "stats_api E (StatsOverview now) = handleStatsOverview E now"
| "stats_api E (StatsNodes now) = handleStatsNodes E now"
| "stats_api E (StatsTopNodes ob now) = handleStatsTopNodes E ob now"
| "stats_api E (StatsTopIps G other ob now gs) = with_geo gs (handleStatsTopIps E G other ob now)"
| "stats_api E (TrafficSeries now) = handleStatsTrafficSeries E now"
| "stats_api E ShareLink = handleNodeShareLink E"
| "stats_api E (PublicStats now) = handlePublicStats now"
| "stats_api E (PublicNodes now) = handlePublicNodes E now"

lemma stat_items_steps:
  "store_steps d0 d \<Longrightarrow> store_steps d0 (snd (snd (stat_items E G other now extra rows st (gs, d))))"
proof (induction rows arbitrary: gs d)
  case (Cons row rows)
  have "store_steps d0 (snd (snd (ipStatItem E G other now row st (gs, d))))"
    using Lookup_steps [OF Cons.prems, of E G other now "ip_SourceIP row" gs] Cons.prems
    by (simp add: ipStatItem_def split_beta)
  with Cons.IH show ?case by (simp add: split_beta) (metis prod.collapse)
qed simp

lemma handleNodeIps_steps: "store_steps (p_db p) (p_db (snd (with_geo gs (handleNodeIps E G other now) r p)))"
  using stat_items_steps [OF currentSettings_steps [of "p_db p" "p_db p" E now]]
  by (auto simp: with_geo_def handleNodeIps_def Let_def split_beta split: sum.split option.split)

lemma handleStatsTopIps_steps: "store_steps (p_db p) (p_db (snd (with_geo gs (handleStatsTopIps E G other ob now) r p)))"
  using stat_items_steps [OF currentSettings_steps [of "p_db p" "p_db p" E now]]
  by (auto simp: with_geo_def handleStatsTopIps_def Let_def split_beta split: sum.split option.split)

interpretation stats_api: store_client "stats_api E" for E
proof
  fix p q r
  show "store_steps (p_db p) (p_db (snd (stats_api E q r p)))"
  proof (cases q)
    case (NodeIps G other now gs)
    then show ?thesis using handleNodeIps_steps by simp
  next
    case (StatsTopIps G other ob now gs)
    then show ?thesis using handleStatsTopIps_steps by simp
  next
    case (NodeTraffic now)
    then show ?thesis by (simp add: handleNodeTraffic_def Let_def split: sum.split option.split)
  next
    case ShareLink
    then show ?thesis by (simp add: handleNodeShareLink_def Let_def split: sum.split sub_error.split)
  next
    case (TrafficSeries now)
    then show ?thesis by (simp add: handleStatsTrafficSeries_def Let_def split: option.split)
  qed (simp_all add: handleNodeStatus_def handleNodeExitIP_def handleGetOperation_def handleStatsOverview_def handleStatsNodes_def
      handleStatsTopNodes_def handlePublicStats_def handlePublicNodes_def Let_def split: sum.split option.split prod.split)
qed

end
