(* ===== verification/Probe_Run.thy ===== *)
theory Probe_Run
  imports Api_Stats
begin

text \<open>
  The exit address probe: \<^verbatim>\<open>probe/probe.go\<close> runs a sing-box process with one inbound in front of
  the node's outbound and asks an address service through it; \<^verbatim>\<open>api/monitoring.go\<close> starts probes
  in the background, at most five at a time, and records their outcome as operations. Files,
  processes, sockets and the service are parameters.
\<close>

subsection \<open>The runner\<close>

record probe_runner =
  pr_BinPath :: string
  pr_ProviderURL :: string
  pr_Timeout :: int

record probe_config =
  pc_SingboxBinPath :: string
  pc_IPProviderURL :: string
  pc_ProbeTimeoutSeconds :: int

definition probeRunner :: "probe_config \<Rightarrow> settings \<Rightarrow> probe_runner" where
  "probeRunner cfg st =
     (let binPath = (if st_singbox_bin_path st = [] then pc_SingboxBinPath cfg else st_singbox_bin_path st);
          provider = (if st_ip_lookup_provider_url st = [] then pc_IPProviderURL cfg else st_ip_lookup_provider_url st);
          timeout = i64 (pc_ProbeTimeoutSeconds cfg * 1000000000);
          timeout = (if timeout \<le> 0 then 15 * 1000000000 else timeout)
      in \<lparr>pr_BinPath = binPath, pr_ProviderURL = provider, pr_Timeout = timeout\<rparr>)"

record probe_result =
  pb_IP :: string
  pb_Country :: string
  pb_City :: string
  pb_ASOrg :: string

record provider_payload =
  pp_Query :: string
  pp_Country :: string
  pp_City :: string
  pp_AS :: string
  pp_IP :: string

text \<open>
  What one turn of the wait for the inbound meets: the connection opens, or else the context ends,
  the process has exited, or 200 ms pass and the clock shows the given time.
\<close>

datatype wait_turn = Opened | CtxDone | ProcExited | Ticked int

text \<open>
  The world of a run: each step of it fails with the text of an error or gives its result.
  \<open>pn_decode_tag\<close> and \<open>pn_decode_payload\<close> decode JSON into the structs of the source.
\<close>

record probe_net =
  pn_Stat :: "string \<Rightarrow> string option"
  pn_MkdirTemp :: "string + string"
  pn_freePort :: "string + int"
  pn_MarshalError :: string
  pn_WriteFile :: "string \<Rightarrow> string option"
  pn_Start :: "string \<Rightarrow> string option"
  pn_turns :: "wait_turn list"
  pn_deadline :: int
  pn_NewRequest :: "string \<Rightarrow> string option"
  pn_Do :: "int \<Rightarrow> string \<Rightarrow> string + http_response"
  pn_ReadError :: string
  pn_decode_tag :: "string \<Rightarrow> string option"
  pn_decode_payload :: "string \<Rightarrow> provider_payload option"

definition outboundTag :: "probe_net \<Rightarrow> string \<Rightarrow> string + string" where
  "outboundTag P outboundJSON =
     (case pn_decode_tag P outboundJSON of
        None \<Rightarrow> Inl ''outbound_json is not a valid sing-box outbound object''
      | Some t \<Rightarrow> if t = [] then Inl ''outbound_json has no tag field'' else Inr t)"

definition probeConfig :: "env \<Rightarrow> probe_net \<Rightarrow> int \<Rightarrow> string \<Rightarrow> string \<Rightarrow> string + string" where
  "probeConfig E P port outTag outboundJSON =
     (if \<not> ev_json_Valid E outboundJSON then Inl ''outbound_json is not valid JSON''
      else case ev_marshal E (JObj
          [(''log'', JObj [(''level'', JStr ''silent'')]),
           (''inbounds'', JArr [JObj [(''type'', JStr ''mixed''), (''tag'', JStr ''probe-in''), (''listen'', JStr ''127.0.0.1''),
              (''listen_port'', JInt port)]]),
           (''outbounds'', JArr [JRaw outboundJSON]),
           (''route'', JObj [(''final'', JStr outTag)])]) of
        None \<Rightarrow> Inl (pn_MarshalError P) | Some cfg \<Rightarrow> Inr cfg)"

text \<open>\<open>None\<close> when the turns at hand end before the loop does.\<close>

fun waitReachable :: "int \<Rightarrow> wait_turn list \<Rightarrow> (string + unit) option" where
  "waitReachable deadline [] = None"
| "waitReachable deadline (Opened # ts) = Some (Inr ())"
| "waitReachable deadline (CtxDone # ts) = Some (Inl ''sing-box inbound did not open in time'')"
| "waitReachable deadline (ProcExited # ts) = Some (Inl ''sing-box exited immediately (check outbound config and binary)'')"
| "waitReachable deadline (Ticked now # ts) =
     (if now > deadline then Some (Inl ''timeout waiting for sing-box inbound'') else waitReachable deadline ts)"

definition parseProviderBody :: "probe_net \<Rightarrow> string \<Rightarrow> string + probe_result" where
  "parseProviderBody P body =
     (let text = TrimSpace body in
      case pn_decode_payload P body of
        Some pl \<Rightarrow>
          (let ip = (if pp_Query pl = [] then pp_IP pl else pp_Query pl) in
           if ip = [] then Inl ''ip provider response has no IP field''
           else Inr \<lparr>pb_IP = ip, pb_Country = pp_Country pl, pb_City = pp_City pl, pb_ASOrg = pp_AS pl\<rparr>)
      | None \<Rightarrow>
          if text \<noteq> [] \<and> \<not> ContainsAny text ''{}'' then Inr \<lparr>pb_IP = text, pb_Country = [], pb_City = [], pb_ASOrg = []\<rparr>
          else Inl ''unrecognized ip provider response'')"

definition probe_fetch :: "probe_net \<Rightarrow> probe_runner \<Rightarrow> int \<Rightarrow> string + probe_result" where
  "probe_fetch P rn port =
     (case pn_NewRequest P (pr_ProviderURL rn) of Some e \<Rightarrow> Inl e
      | None \<Rightarrow>
     (case pn_Do P port (pr_ProviderURL rn) of Inl e \<Rightarrow> Inl (''query ip provider through node: '' @ e)
      | Inr resp \<Rightarrow>
     (case resp_Read resp 65536 of None \<Rightarrow> Inl (pn_ReadError P)
      | Some body \<Rightarrow>
          if resp_StatusCode resp \<noteq> 200 then Inl (''ip provider returned '' @ Itoa (resp_StatusCode resp))
          else parseProviderBody P body)))"

text \<open>What a run does to the host, in order.\<close>

datatype probe_act = MadeDir string | RemovedDir string | WroteConfig string | StartedProc | KilledProc

text \<open>
  A run gives its result and its traces on the host; the deferred removal of the directory comes
  last. \<open>None\<close> as the result: still waiting for the inbound.
\<close>

definition Probe :: "env \<Rightarrow> probe_net \<Rightarrow> probe_runner \<Rightarrow> string \<Rightarrow> (string + probe_result) option \<times> probe_act list" where
  "Probe E P rn outboundJSON =
     (case ValidateOutboundURL (ev_url_Parse E) (ev_ParseIP E) (ev_LookupIP E) (pr_ProviderURL rn) of
        Inl _ \<Rightarrow> (Some (Inl ''IP provider URL failed safety validation''), [])
      | Inr _ \<Rightarrow>
     (if pr_BinPath rn = [] then (Some (Inl ''sing-box binary path is not configured''), [])
      else case outboundTag P outboundJSON of Inl e \<Rightarrow> (Some (Inl e), [])
      | Inr outTag \<Rightarrow>
     (case pn_Stat P (pr_BinPath rn) of Some e \<Rightarrow> (Some (Inl (''sing-box binary not found: '' @ e)), [])
      | None \<Rightarrow>
     (case pn_MkdirTemp P of Inl e \<Rightarrow> (Some (Inl e), [])
      | Inr dir \<Rightarrow>
     (case pn_freePort P of Inl e \<Rightarrow> (Some (Inl e), [MadeDir dir, RemovedDir dir])
      | Inr port \<Rightarrow>
     (case probeConfig E P port outTag outboundJSON of
        Inl e \<Rightarrow> (Some (Inl e), [MadeDir dir, RemovedDir dir])
      | Inr cfg \<Rightarrow>
     (case pn_WriteFile P cfg of Some e \<Rightarrow> (Some (Inl e), [MadeDir dir, RemovedDir dir])
      | None \<Rightarrow>
     (case pn_Start P cfg of Some e \<Rightarrow> (Some (Inl (''start sing-box: '' @ e)), [MadeDir dir, WroteConfig cfg, RemovedDir dir])
      | None \<Rightarrow>
     (case waitReachable (pn_deadline P) (pn_turns P) of
        None \<Rightarrow> (None, [MadeDir dir, WroteConfig cfg, StartedProc])
      | Some (Inl e) \<Rightarrow> (Some (Inl e), [MadeDir dir, WroteConfig cfg, StartedProc, KilledProc, RemovedDir dir])
      | Some (Inr _) \<Rightarrow>
          (Some (probe_fetch P rn port), [MadeDir dir, WroteConfig cfg, StartedProc, KilledProc, RemovedDir dir]))))))))))"

subsection \<open>Starting a probe\<close>

definition maxProbes :: nat where "maxProbes = 5"

text \<open>A background run: the goroutine with its operation, and whether it has begun.\<close>

record probe_job =
  pj_op :: string
  pj_node :: string
  pj_outbound :: string
  pj_runner :: probe_runner
  pj_begun :: bool

text \<open>The panel with the probes in flight; the tokens in the channel are the jobs.\<close>

record probe_panel =
  pl_panel :: panel
  pl_sem :: nat
  pl_jobs :: "probe_job list"

definition probe_operation :: "string \<Rightarrow> string \<Rightarrow> operation" where
  "probe_operation i nodeID = \<lparr>o_id = i, o_node_id = nodeID, o_type = ''probe_exit_ip'', o_status = ''PENDING'', o_result = [],
     o_error = [], o_created_at = 0, o_updated_at = 0\<rparr>"

definition handleProbeNode :: "env \<Rightarrow> probe_config \<Rightarrow> string \<Rightarrow> int \<Rightarrow> request \<Rightarrow> probe_panel \<Rightarrow> response \<times> probe_panel" where
  "handleProbeNode E cfg uid now r q =
     (let p = pl_panel q in
      case nodeOr404 r (p_db p) of
        Inl resp \<Rightarrow> (resp, q)
      | Inr n \<Rightarrow>
     (let refuse = (Validation r ''node has no outbound config; PATCH the node with outbound_json first'' [], q) in
      case decrypt E (n_OutboundEnc n) of Inl _ \<Rightarrow> refuse
      | Inr outbound \<Rightarrow>
     (if outbound = [] then refuse
      else case CreateOperation (Unix now) (probe_operation (newUUID uid) (n_ID n)) (p_db p) of
        Inl _ \<Rightarrow> (Internal r, q)
      | Inr (op, d1) \<Rightarrow>
     (case currentSettings E now d1 of (st, d2) \<Rightarrow>
      let q1 = (if pl_sem q < maxProbes
          then q\<lparr>pl_panel := p\<lparr>p_db := d2\<rparr>, pl_sem := pl_sem q + 1,
                 pl_jobs := \<lparr>pj_op = o_id op, pj_node = n_ID n, pj_outbound = outbound, pj_runner = probeRunner cfg st, pj_begun = False\<rparr> # pl_jobs q\<rparr>
          else q\<lparr>pl_panel := p\<lparr>p_db := UpdateOperation (Unix now) (o_id op) ''FAILED'' [] ''too many concurrent probes'' d2\<rparr>\<rparr>)
      in (setHeader ''Location'' (''/operations/'' @ o_id op) (WriteJSON 202 (operationBody E op)), q1)))))"

text \<open>The goroutine \<^verbatim>\<open>runProbe\<close>: its two halves, before and after the run.\<close>

definition probe_begin :: "int \<Rightarrow> probe_job \<Rightarrow> db \<Rightarrow> db" where
  "probe_begin now j d = UpdateOperation now (pj_op j) ''RUNNING'' [] [] d"

definition probe_end :: "(db_error \<Rightarrow> string) \<Rightarrow> int \<Rightarrow> probe_job \<Rightarrow> string + probe_result \<Rightarrow> db \<Rightarrow> db" where
  "probe_end textOf now j res d =
     (case res of
        Inl e \<Rightarrow> UpdateOperation now (pj_op j) ''FAILED'' [] e d
      | Inr x \<Rightarrow>
          (case UpsertExitIP \<lparr>e_node_id = pj_node j, e_ip = pb_IP x, e_country = pb_Country x, e_city = pb_City x, e_as_org = pb_ASOrg x,
                  e_method = ''singbox-probe'', e_checked_at = now\<rparr> d of
             Inl e \<Rightarrow> UpdateOperation now (pj_op j) ''FAILED'' [] (''persist result: '' @ textOf e) d
           | Inr d1 \<Rightarrow> UpdateOperation now (pj_op j) ''SUCCEEDED'' (pb_IP x) [] d1))"

subsection \<open>Probes beside other requests\<close>

text \<open>
  Requests, the two halves of the background runs and everything else interleave. Other handlers
  write no operation: they can only remove some, when a node is deleted. A new operation has an id
  that no running probe has.
\<close>

inductive probe_step :: "env \<Rightarrow> (db_error \<Rightarrow> string) \<Rightarrow> probe_panel \<Rightarrow> probe_panel \<Rightarrow> bool" for E textOf where
  probe_requested:
    "newUUID uid \<notin> pj_op ` set (pl_jobs q) \<Longrightarrow> probe_step E textOf q (snd (handleProbeNode E cfg uid now r q))"
| probe_begun:
    "pl_jobs q = js @ j # js' \<Longrightarrow> \<not> pj_begun j \<Longrightarrow>
     probe_step E textOf q (q\<lparr>pl_panel := (pl_panel q)\<lparr>p_db := probe_begin now j (p_db (pl_panel q))\<rparr>,
       pl_jobs := js @ j\<lparr>pj_begun := True\<rparr> # js'\<rparr>)"
| probe_ended:
    "pl_jobs q = js @ j # js' \<Longrightarrow> pj_begun j \<Longrightarrow> Probe E P (pj_runner j) (pj_outbound j) = (Some res, acts) \<Longrightarrow>
     probe_step E textOf q (q\<lparr>pl_panel := (pl_panel q)\<lparr>p_db := probe_end textOf now j res (p_db (pl_panel q))\<rparr>,
       pl_sem := pl_sem q - 1, pl_jobs := js @ js'\<rparr>)"
| probe_other:
    "operations (p_db p) = filter keep (operations (p_db (pl_panel q))) \<Longrightarrow> probe_step E textOf q (q\<lparr>pl_panel := p\<rparr>)"

definition job_phase :: "probe_job list \<Rightarrow> string \<Rightarrow> bool option" where
  "job_phase jobs = map_of (map (\<lambda>j. (pj_op j, pj_begun j)) jobs)"

definition op_ok :: "probe_job list \<Rightarrow> operation \<Rightarrow> bool" where
  "op_ok jobs op \<longleftrightarrow>
     (case job_phase jobs (o_id op) of
        None \<Rightarrow> o_status op = ''FAILED'' \<or> o_status op = ''SUCCEEDED''
      | Some b \<Rightarrow> o_status op = (if b then ''RUNNING'' else ''PENDING''))"

definition probe_ok :: "probe_panel \<Rightarrow> bool" where
  "probe_ok q \<longleftrightarrow> pl_sem q = length (pl_jobs q) \<and> length (pl_jobs q) \<le> maxProbes \<and> distinct (map pj_op (pl_jobs q)) \<and>
     (\<forall>op \<in> set (operations (p_db (pl_panel q))). op_ok (pl_jobs q) op)"

definition probe_start :: "panel \<Rightarrow> probe_panel" where
  "probe_start p = \<lparr>pl_panel = p, pl_sem = 0, pl_jobs = []\<rparr>"

subsection \<open>Lemmas\<close>

lemma operations_UpdateOperation:
  "operations (UpdateOperation now i s x e d) =
     map (\<lambda>r. if o_id r = i then r\<lparr>o_status := s, o_result := x, o_error := e, o_updated_at := now\<rparr> else r) (operations d)"
  by (simp add: UpdateOperation_def update_where_def)

lemma currentSettings_operations: "currentSettings E now d = (st, d1) \<Longrightarrow> operations d1 = operations d"
  by (auto simp: currentSettings_def GetSettings_def Let_def split: option.splits)

lemma job_phase_cut:
  assumes "distinct (map pj_op (js @ j # js'))"
  shows "job_phase (js @ j # js') (pj_op j) = Some (pj_begun j)" "job_phase (js @ js') (pj_op j) = None"
    and "i \<noteq> pj_op j \<Longrightarrow> job_phase (js @ j # js') i = job_phase (js @ js') i"
proof -
  have "map_of (map (\<lambda>j. (pj_op j, pj_begun j)) js) (pj_op j) = None" "map_of (map (\<lambda>j. (pj_op j, pj_begun j)) js') (pj_op j) = None"
    using assms by (auto simp: map_of_eq_None_iff image_image)
  then show "job_phase (js @ j # js') (pj_op j) = Some (pj_begun j)" "job_phase (js @ js') (pj_op j) = None"
    "i \<noteq> pj_op j \<Longrightarrow> job_phase (js @ j # js') i = job_phase (js @ js') i"
    by (simp_all add: job_phase_def map_add_def split: option.split)
qed

text \<open>Setting the status of a job's operation, with the job in another phase.\<close>

lemma ops_ok_update:
  assumes "\<forall>op \<in> set (operations d). op_ok jobs op" and "\<And>k. k \<noteq> i \<Longrightarrow> job_phase jobs' k = job_phase jobs k"
    and "case job_phase jobs' i of None \<Rightarrow> s = ''FAILED'' \<or> s = ''SUCCEEDED'' | Some b \<Rightarrow> s = (if b then ''RUNNING'' else ''PENDING'')"
  shows "\<forall>op \<in> set (operations (UpdateOperation now i s x e d)). op_ok jobs' op"
proof
  fix op
  assume "op \<in> set (operations (UpdateOperation now i s x e d))"
  then obtain r where r: "r \<in> set (operations d)"
    "op = (if o_id r = i then r\<lparr>o_status := s, o_result := x, o_error := e, o_updated_at := now\<rparr> else r)"
    by (auto simp: operations_UpdateOperation)
  show "op_ok jobs' op"
  proof (cases "o_id r = i")
    case True
    with r(2) assms(3) show ?thesis by (cases "job_phase jobs' i") (simp_all add: op_ok_def)
  next
    case False
    with r assms(1,2) show ?thesis by (simp add: op_ok_def)
  qed
qed

lemma probe_end_ops:
  "\<exists>s x e d1. probe_end textOf now j res d = UpdateOperation now (pj_op j) s x e d1 \<and> operations d1 = operations d \<and> (s = ''FAILED'' \<or> s = ''SUCCEEDED'')"
proof (cases res)
  case (Inl e)
  then show ?thesis by (auto simp: probe_end_def)
next
  case (Inr x)
  let ?e = "\<lparr>e_node_id = pj_node j, e_ip = pb_IP x, e_country = pb_Country x, e_city = pb_City x, e_as_org = pb_ASOrg x,
     e_method = ''singbox-probe'', e_checked_at = now\<rparr>"
  show ?thesis
  proof (cases "UpsertExitIP ?e d")
    case (Inl e)
    with Inr show ?thesis by (auto simp: probe_end_def)
  next
    case up: (Inr d1)
    then have "operations d1 = operations d" by (auto simp: UpsertExitIP_def split: if_splits)
    with Inr up show ?thesis by (auto simp: probe_end_def)
  qed
qed

lemma handleProbeNode_cases:
  "handleProbeNode E cfg uid now r q = (resp, q') \<Longrightarrow> q' = q \<or>
   (\<exists>op d1 d2 (n :: node) outbound st. CreateOperation (Unix now) (probe_operation (newUUID uid) (n_ID n)) (p_db (pl_panel q)) = Inr (op, d1) \<and>
      currentSettings E now d1 = (st, d2) \<and>
      q' = (if pl_sem q < maxProbes
          then q\<lparr>pl_panel := (pl_panel q)\<lparr>p_db := d2\<rparr>, pl_sem := pl_sem q + 1,
                 pl_jobs := \<lparr>pj_op = o_id op, pj_node = n_ID n, pj_outbound = outbound, pj_runner = probeRunner cfg st, pj_begun = False\<rparr> # pl_jobs q\<rparr>
          else q\<lparr>pl_panel := (pl_panel q)\<lparr>p_db := UpdateOperation (Unix now) (o_id op) ''FAILED'' [] ''too many concurrent probes'' d2\<rparr>\<rparr>))"
proof -
  assume h: "handleProbeNode E cfg uid now r q = (resp, q')"
  show ?thesis
  proof (cases "nodeOr404 r (p_db (pl_panel q))")
    case (Inl resp')
    with h show ?thesis by (simp add: handleProbeNode_def)
  next
    case n: (Inr n)
    show ?thesis
    proof (cases "decrypt E (n_OutboundEnc n)")
      case (Inl e)
      with h n show ?thesis by (simp add: handleProbeNode_def Let_def)
    next
      case o: (Inr outbound)
      show ?thesis
      proof (cases "CreateOperation (Unix now) (probe_operation (newUUID uid) (n_ID n)) (p_db (pl_panel q))")
        case (Inl e)
        with h n o show ?thesis by (cases "outbound = []") (simp_all add: handleProbeNode_def Let_def)
      next
        case (Inr x)
        obtain op d1 where x: "x = (op, d1)" by (cases x)
        obtain st d2 where s: "currentSettings E now d1 = (st, d2)" by force
        from h n o Inr x s have "outbound = [] \<and> q' = q \<or> q' = (if pl_sem q < maxProbes
          then q\<lparr>pl_panel := (pl_panel q)\<lparr>p_db := d2\<rparr>, pl_sem := pl_sem q + 1,
                 pl_jobs := \<lparr>pj_op = o_id op, pj_node = n_ID n, pj_outbound = outbound, pj_runner = probeRunner cfg st, pj_begun = False\<rparr> # pl_jobs q\<rparr>
          else q\<lparr>pl_panel := (pl_panel q)\<lparr>p_db := UpdateOperation (Unix now) (o_id op) ''FAILED'' [] ''too many concurrent probes'' d2\<rparr>\<rparr>)"
          by (cases "outbound = []") (simp_all add: handleProbeNode_def Let_def)
        then show ?thesis
        proof (elim disjE conjE)
          assume "q' = q"
          then show ?thesis by (rule disjI1)
        next
          assume q': "q' = (if pl_sem q < maxProbes
          then q\<lparr>pl_panel := (pl_panel q)\<lparr>p_db := d2\<rparr>, pl_sem := pl_sem q + 1,
                 pl_jobs := \<lparr>pj_op = o_id op, pj_node = n_ID n, pj_outbound = outbound, pj_runner = probeRunner cfg st, pj_begun = False\<rparr> # pl_jobs q\<rparr>
          else q\<lparr>pl_panel := (pl_panel q)\<lparr>p_db := UpdateOperation (Unix now) (o_id op) ''FAILED'' [] ''too many concurrent probes'' d2\<rparr>\<rparr>)"
          have c: "CreateOperation (Unix now) (probe_operation (newUUID uid) (n_ID n)) (p_db (pl_panel q)) = Inr (op, d1)"
            using Inr x by simp
          show ?thesis
            by (rule disjI2, rule exI [of _ op], rule exI [of _ d1], rule exI [of _ d2], rule exI [of _ n], rule exI [of _ outbound],
                rule exI [of _ st], intro conjI c s q')
        qed
      qed
    qed
  qed
qed

lemma CreateOperation_rows:
  "CreateOperation now op d = Inr (op', d') \<Longrightarrow> operations d' = operations d @ [op'] \<and> o_id op' = o_id op \<and> o_status op' = o_status op \<and>
     o_id op \<notin> o_id ` set (operations d)"
  by (auto simp: CreateOperation_def Let_def list_ex_iff split: if_splits)

lemma probe_requested_ok:
  assumes ok: "probe_ok q" and fresh: "newUUID uid \<notin> pj_op ` set (pl_jobs q)"
  shows "probe_ok (snd (handleProbeNode E cfg uid now r q))"
proof -
  obtain resp q' where h: "handleProbeNode E cfg uid now r q = (resp, q')" by force
  from handleProbeNode_cases [OF h] have "probe_ok q'"
  proof (elim disjE exE conjE)
    assume "q' = q"
    with ok show ?thesis by simp
  next
    fix op d1 d2 n outbound st
    assume c: "CreateOperation (Unix now) (probe_operation (newUUID uid) (n_ID n)) (p_db (pl_panel q)) = Inr (op, d1)"
      and s: "currentSettings E now d1 = (st, d2)"
      and q': "q' = (if pl_sem q < maxProbes
          then q\<lparr>pl_panel := (pl_panel q)\<lparr>p_db := d2\<rparr>, pl_sem := pl_sem q + 1,
                 pl_jobs := \<lparr>pj_op = o_id op, pj_node = n_ID n, pj_outbound = outbound, pj_runner = probeRunner cfg st, pj_begun = False\<rparr> # pl_jobs q\<rparr>
          else q\<lparr>pl_panel := (pl_panel q)\<lparr>p_db := UpdateOperation (Unix now) (o_id op) ''FAILED'' [] ''too many concurrent probes'' d2\<rparr>\<rparr>)"
    note rows = CreateOperation_rows [OF c]
    have i: "o_id op = newUUID uid" "o_status op = ''PENDING''" using rows by (simp_all add: probe_operation_def)
    have ops: "operations d2 = operations (p_db (pl_panel q)) @ [op]" using rows currentSettings_operations [OF s] by simp
    have no: "job_phase (pl_jobs q) (newUUID uid) = None"
      using fresh by (auto simp: job_phase_def map_of_eq_None_iff image_image)
    have "newUUID uid \<notin> o_id ` set (operations (p_db (pl_panel q)))" using rows by (simp add: probe_operation_def)
    then have old: "\<forall>x \<in> set (operations (p_db (pl_panel q))). o_id x \<noteq> newUUID uid \<and> op_ok (pl_jobs q) x"
      using ok unfolding probe_ok_def by (metis imageI)
    show ?thesis
    proof (cases "pl_sem q < maxProbes")
      case True
      have "job_phase (\<lparr>pj_op = newUUID uid, pj_node = n_ID n, pj_outbound = outbound, pj_runner = probeRunner cfg st, pj_begun = False\<rparr> # pl_jobs q) k =
          (if k = newUUID uid then Some False else job_phase (pl_jobs q) k)" for k
        by (simp add: job_phase_def)
      with True q' ok i ops old fresh show ?thesis by (auto simp: probe_ok_def op_ok_def)
    next
      case False
      have "operations (UpdateOperation (Unix now) (o_id op) ''FAILED'' [] ''too many concurrent probes'' d2) =
          operations (p_db (pl_panel q)) @ [op\<lparr>o_status := ''FAILED'', o_result := [], o_error := ''too many concurrent probes'', o_updated_at := Unix now\<rparr>]"
        using old i(1) by (simp add: operations_UpdateOperation ops map_idI)
      with False q' ok i old no show ?thesis by (auto simp: probe_ok_def op_ok_def)
    qed
  qed
  with h show ?thesis by simp
qed

lemma probe_step_ok: "probe_step E textOf q q' \<Longrightarrow> probe_ok q \<Longrightarrow> probe_ok q'"
proof (induction rule: probe_step.induct)
  case (probe_requested uid q cfg now r)
  then show ?case by (intro probe_requested_ok)
next
  case (probe_begun q js j js' now)
  let ?jobs = "js @ j\<lparr>pj_begun := True\<rparr> # js'"
  have d: "distinct (map pj_op (js @ j # js'))" and ops: "\<forall>op \<in> set (operations (p_db (pl_panel q))). op_ok (pl_jobs q) op"
    using probe_begun(1,3) by (simp_all add: probe_ok_def)
  then have d': "distinct (map pj_op ?jobs)" by simp
  have "job_phase ?jobs k = job_phase (pl_jobs q) k" if "k \<noteq> pj_op j" for k
    using job_phase_cut(3) [OF d that] job_phase_cut(3) [OF d', of k] that probe_begun(1) by simp
  from ops_ok_update [OF ops this] job_phase_cut(1) [OF d']
  have "\<forall>op \<in> set (operations (probe_begin now j (p_db (pl_panel q)))). op_ok ?jobs op" by (simp add: probe_begin_def)
  with d' probe_begun(1,3) show ?case by (simp add: probe_ok_def)
next
  case (probe_ended q js j js' P res acts now)
  let ?jobs = "js @ js'"
  have d: "distinct (map pj_op (js @ j # js'))" and ops: "\<forall>op \<in> set (operations (p_db (pl_panel q))). op_ok (pl_jobs q) op"
    using probe_ended(1,4) by (simp_all add: probe_ok_def)
  obtain s x e d1 where e: "probe_end textOf now j res (p_db (pl_panel q)) = UpdateOperation now (pj_op j) s x e d1"
    "operations d1 = operations (p_db (pl_panel q))" "s = ''FAILED'' \<or> s = ''SUCCEEDED''"
    using probe_end_ops [of textOf now j res "p_db (pl_panel q)"] by (elim exE conjE) (rule that)
  have "job_phase ?jobs k = job_phase (pl_jobs q) k" if "k \<noteq> pj_op j" for k
    using job_phase_cut(3) [OF d that] probe_ended(1) by simp
  from ops_ok_update [of d1, OF _ this] job_phase_cut(2) [OF d] ops e
  have "\<forall>op \<in> set (operations (probe_end textOf now j res (p_db (pl_panel q)))). op_ok ?jobs op" by simp
  with d probe_ended(1,4) show ?case by (simp add: probe_ok_def)
next
  case (probe_other p keep q)
  then show ?case by (simp add: probe_ok_def)
qed

lemma probe_reach_ok: "(probe_step E textOf)\<^sup>*\<^sup>* q q' \<Longrightarrow> probe_ok q \<Longrightarrow> probe_ok q'"
  by (induction rule: rtranclp_induct) (auto intro: probe_step_ok)

subsection \<open>Properties\<close>

lemma probe_start_ok: "\<forall>op \<in> set (operations (p_db p)). o_status op = ''FAILED'' \<or> o_status op = ''SUCCEEDED'' \<Longrightarrow> probe_ok (probe_start p)"
  by (simp add: probe_ok_def probe_start_def op_ok_def job_phase_def)


text \<open>
  Every probe comes to an end. From any reachable state, a probe in flight whose run returns,
  with whatever outcome, can finish on its own, without any other probe or request taking a
  step: its operation, if its node still exists, is then FAILED or SUCCEEDED and its token is
  back.
\<close>

theorem probe_finishes:
  assumes "(probe_step E textOf)\<^sup>*\<^sup>* (probe_start p) q"
    and "\<forall>op \<in> set (operations (p_db p)). o_status op = ''FAILED'' \<or> o_status op = ''SUCCEEDED''"
    and "pl_jobs q = js @ j # js'" and "Probe E P (pj_runner j) (pj_outbound j) = (Some res, acts)"
  shows "\<exists>q'. (probe_step E textOf)\<^sup>*\<^sup>* q q' \<and> pl_jobs q' = js @ js' \<and> pl_sem q' + 1 = pl_sem q \<and>
    map o_id (operations (p_db (pl_panel q'))) = map o_id (operations (p_db (pl_panel q))) \<and>
    (\<forall>op \<in> set (operations (p_db (pl_panel q'))). o_id op = pj_op j \<longrightarrow> o_status op = ''FAILED'' \<or> o_status op = ''SUCCEEDED'')"
proof -
  have ids: "map o_id (operations (UpdateOperation now i s x e d)) = map o_id (operations d)" for now i s x e d
    by (simp add: operations_UpdateOperation comp_def if_distrib cong: if_cong)
  have ids_end: "map o_id (operations (probe_end textOf 0 j0 res d)) = map o_id (operations d)" for j0 d
  proof -
    obtain s x e d1 where "probe_end textOf 0 j0 res d = UpdateOperation 0 (pj_op j0) s x e d1" "operations d1 = operations d"
      using probe_end_ops [of textOf 0 j0 res d] by (elim exE conjE) (rule that)
    then show ?thesis by (simp add: ids)
  qed
  have ok: "probe_ok q" using probe_reach_ok [OF assms(1) probe_start_ok [OF assms(2)]] .
  then have sem: "pl_sem q = Suc (length (js @ js'))" "distinct (map pj_op (js @ j # js'))" using assms(3) by (simp_all add: probe_ok_def)
  obtain q1 where q1: "(probe_step E textOf)\<^sup>*\<^sup>* q q1" "pl_jobs q1 = js @ j\<lparr>pj_begun := True\<rparr> # js'" "pl_sem q1 = pl_sem q"
    "map o_id (operations (p_db (pl_panel q1))) = map o_id (operations (p_db (pl_panel q)))"
  proof (cases "pj_begun j")
    case True
    then have "j\<lparr>pj_begun := True\<rparr> = j" by simp
    with assms(3) show ?thesis by (intro that [of q]) simp_all
  next
    case False
    let ?q1 = "q\<lparr>pl_panel := (pl_panel q)\<lparr>p_db := probe_begin 0 j (p_db (pl_panel q))\<rparr>, pl_jobs := js @ j\<lparr>pj_begun := True\<rparr> # js'\<rparr>"
    have "probe_step E textOf q ?q1" by (rule probe_begun [OF assms(3) False])
    then show ?thesis by (intro that [of ?q1]) (simp_all add: probe_begin_def ids)
  qed
  let ?q2 = "q1\<lparr>pl_panel := (pl_panel q1)\<lparr>p_db := probe_end textOf 0 (j\<lparr>pj_begun := True\<rparr>) res (p_db (pl_panel q1))\<rparr>,
     pl_sem := pl_sem q1 - 1, pl_jobs := js @ js'\<rparr>"
  have step: "probe_step E textOf q1 ?q2"
    using assms(4) by (intro probe_ended [OF q1(2), where P = P and acts = acts]) simp_all
  have r2: "(probe_step E textOf)\<^sup>*\<^sup>* q ?q2" using q1(1) step by (rule rtranclp.rtrancl_into_rtrancl)
  have "probe_ok ?q2" using probe_reach_ok [OF r2 ok] .
  then have "\<forall>op \<in> set (operations (p_db (pl_panel ?q2))). op_ok (js @ js') op" by (simp add: probe_ok_def)
  then have "\<forall>op \<in> set (operations (p_db (pl_panel ?q2))). o_id op = pj_op j \<longrightarrow> o_status op = ''FAILED'' \<or> o_status op = ''SUCCEEDED''"
    using job_phase_cut(2) [OF sem(2)] by (auto simp: op_ok_def)
  with r2 q1(3,4) sem(1) show ?thesis by (intro exI [of _ ?q2] conjI) (simp_all add: ids_end)
qed

lemma waitReachable_ends:
  "\<exists>t \<in> set ts. t \<in> {Opened, CtxDone, ProcExited} \<or> (\<exists>now. t = Ticked now \<and> deadline < now) \<Longrightarrow> waitReachable deadline ts \<noteq> None"
  by (induction deadline ts rule: waitReachable.induct) auto

text \<open>
  A probe leaves nothing behind. Whatever fails on the way, once a run has returned the
  directory it made is removed, last of all, and a process it started has been killed; and
  nothing is touched unless the address service's URL has passed the request policy, a binary is
  configured and the outbound has a tag. The run does return when one of the ends of its wait comes about.
\<close>

theorem probe_cleans_up:
  assumes "Probe E P rn ob = (res, acts)"
  shows "(acts \<noteq> [] \<longrightarrow> ValidateOutboundURL (ev_url_Parse E) (ev_ParseIP E) (ev_LookupIP E) (pr_ProviderURL rn) = Inr () \<and>
       pr_BinPath rn \<noteq> [] \<and> (\<exists>t. outboundTag P ob = Inr t)) \<and>
    (res \<noteq> None \<longrightarrow> acts = [] \<or> (\<exists>dir mid. acts = MadeDir dir # mid @ [RemovedDir dir] \<and>
       (StartedProc \<in> set mid \<longleftrightarrow> KilledProc \<in> set mid) \<and> (StartedProc \<in> set mid \<longrightarrow> last mid = KilledProc))) \<and>
    ((\<exists>t \<in> set (pn_turns P). t \<in> {Opened, CtxDone, ProcExited} \<or> (\<exists>now. t = Ticked now \<and> pn_deadline P < now)) \<longrightarrow> res \<noteq> None)"
proof (intro conjI)
  show "acts \<noteq> [] \<longrightarrow> ValidateOutboundURL (ev_url_Parse E) (ev_ParseIP E) (ev_LookupIP E) (pr_ProviderURL rn) = Inr () \<and>
       pr_BinPath rn \<noteq> [] \<and> (\<exists>t. outboundTag P ob = Inr t)"
    using assms by (auto simp: Probe_def split: sum.splits if_splits)
  show "(\<exists>t \<in> set (pn_turns P). t \<in> {Opened, CtxDone, ProcExited} \<or> (\<exists>now. t = Ticked now \<and> pn_deadline P < now)) \<longrightarrow> res \<noteq> None"
    using assms waitReachable_ends [of "pn_turns P" "pn_deadline P"]
    by (auto simp: Probe_def split: sum.splits option.splits if_splits)
  show "res \<noteq> None \<longrightarrow> acts = [] \<or> (\<exists>dir mid. acts = MadeDir dir # mid @ [RemovedDir dir] \<and>
       (StartedProc \<in> set mid \<longleftrightarrow> KilledProc \<in> set mid) \<and> (StartedProc \<in> set mid \<longrightarrow> last mid = KilledProc))"
  proof
    have shapes: "\<exists>mid. [MadeDir dir, RemovedDir dir] = MadeDir dir # mid @ [RemovedDir dir] \<and>
        (StartedProc \<in> set mid \<longleftrightarrow> KilledProc \<in> set mid) \<and> (StartedProc \<in> set mid \<longrightarrow> last mid = KilledProc)"
      "\<exists>mid. [MadeDir dir, WroteConfig cfg, RemovedDir dir] = MadeDir dir # mid @ [RemovedDir dir] \<and>
        (StartedProc \<in> set mid \<longleftrightarrow> KilledProc \<in> set mid) \<and> (StartedProc \<in> set mid \<longrightarrow> last mid = KilledProc)"
      "\<exists>mid. [MadeDir dir, WroteConfig cfg, StartedProc, KilledProc, RemovedDir dir] = MadeDir dir # mid @ [RemovedDir dir] \<and>
        (StartedProc \<in> set mid \<longleftrightarrow> KilledProc \<in> set mid) \<and> (StartedProc \<in> set mid \<longrightarrow> last mid = KilledProc)" for dir cfg
      by (rule exI [of _ "[]"], simp) (rule exI [of _ "[WroteConfig cfg]"], simp, rule exI [of _ "[WroteConfig cfg, StartedProc, KilledProc]"], simp)
    assume "res \<noteq> None"
    then have "acts = [] \<or> (\<exists>dir cfg. acts = [MadeDir dir, RemovedDir dir] \<or> acts = [MadeDir dir, WroteConfig cfg, RemovedDir dir] \<or>
        acts = [MadeDir dir, WroteConfig cfg, StartedProc, KilledProc, RemovedDir dir])"
      using assms by (auto simp: Probe_def split: sum.splits option.splits if_splits)
    then show "acts = [] \<or> (\<exists>dir mid. acts = MadeDir dir # mid @ [RemovedDir dir] \<and>
       (StartedProc \<in> set mid \<longleftrightarrow> KilledProc \<in> set mid) \<and> (StartedProc \<in> set mid \<longrightarrow> last mid = KilledProc))"
      using shapes by blast
  qed
qed

text \<open>
  The outcome of a run is recorded exactly. A result becomes the node's exit address, stamped
  with the time, and SUCCEEDED with that address, unless the node is gone, which fails the
  operation and stores nothing; an error fails the operation with its text and leaves the exit
  addresses alone. No other operation changes.
\<close>

theorem probe_outcome_recorded:
  "let d' = probe_end textOf now j res d;
       rest = (\<lambda>d. filter (\<lambda>op. o_id op \<noteq> pj_op j) (operations d));
       mine = filter (\<lambda>op. o_id op = pj_op j) (operations d')
   in rest d' = rest d \<and>
      (case res of
         Inl e \<Rightarrow> exit_ip_checks d' = exit_ip_checks d \<and> (\<forall>op \<in> set mine. o_status op = ''FAILED'' \<and> o_error op = e)
       | Inr x \<Rightarrow>
           if node_exists (pj_node j) d
           then (\<exists>e. GetExitIP (pj_node j) d' = Inr e \<and> e_ip e = pb_IP x \<and> e_country e = pb_Country x \<and> e_checked_at e = now) \<and>
             (\<forall>op \<in> set mine. o_status op = ''SUCCEEDED'' \<and> o_result op = pb_IP x)
           else exit_ip_checks d' = exit_ip_checks d \<and> (\<forall>op \<in> set mine. o_status op = ''FAILED''))"
proof -
  have "filter (\<lambda>op. o_id op \<noteq> i) (map (\<lambda>r. if o_id r = i then r\<lparr>o_status := s, o_result := x, o_error := e, o_updated_at := now\<rparr> else r) ops) =
      filter (\<lambda>op. o_id op \<noteq> i) ops" for i s x e ops
    by (induction ops) simp_all
  then have rest: "filter (\<lambda>op. o_id op \<noteq> i) (operations (UpdateOperation now i s x e d0)) = filter (\<lambda>op. o_id op \<noteq> i) (operations d0)" for i s x e d0
    unfolding operations_UpdateOperation .
  have mine: "\<forall>op \<in> set (filter (\<lambda>op. o_id op = i) (operations (UpdateOperation now i s x e d0))). o_status op = s \<and> o_result op = x \<and> o_error op = e" for i s x e d0
  proof
    fix op
    assume "op \<in> set (filter (\<lambda>op. o_id op = i) (operations (UpdateOperation now i s x e d0)))"
    then obtain r where "op = (if o_id r = i then r\<lparr>o_status := s, o_result := x, o_error := e, o_updated_at := now\<rparr> else r)" "o_id op = i"
      unfolding operations_UpdateOperation set_filter set_map by blast
    then show "o_status op = s \<and> o_result op = x \<and> o_error op = e" by (cases "o_id r = i") simp_all
  qed
  have exits: "exit_ip_checks (UpdateOperation now i s x e d0) = exit_ip_checks d0" for i s x e d0 by (simp add: UpdateOperation_def)
  have get: "GetExitIP n (UpdateOperation now i s x e d0) = GetExitIP n d0" for n i s x e d0 by (simp add: GetExitIP_def exits)
  show ?thesis
  proof (cases res)
    case (Inl e)
    then show ?thesis using mine [of "pj_op j" "''FAILED''" "[]" e d] by (simp add: probe_end_def Let_def rest exits)
  next
    case (Inr x)
    let ?e = "\<lparr>e_node_id = pj_node j, e_ip = pb_IP x, e_country = pb_Country x, e_city = pb_City x, e_as_org = pb_ASOrg x,
       e_method = ''singbox-probe'', e_checked_at = now\<rparr>"
    show ?thesis
    proof (cases "node_exists (pj_node j) d")
      case True
      then obtain d1 where u: "UpsertExitIP ?e d = Inr d1" "operations d1 = operations d" by (simp add: UpsertExitIP_def)
      have "GetExitIP (pj_node j) d1 = Inr ?e" using GetExitIP_Upsert [OF u(1), of "pj_node j"] by simp
      with Inr True u show ?thesis using mine [of "pj_op j" "''SUCCEEDED''" "pb_IP x" "[]" d1] by (simp add: probe_end_def Let_def rest get)
    next
      case False
      then have "UpsertExitIP ?e d = Inl ForeignKeyViolation" by (simp add: UpsertExitIP_def)
      with Inr False show ?thesis
        using mine [of "pj_op j" "''FAILED''" "[]" "''persist result: '' @ textOf ForeignKeyViolation" d] by (simp add: probe_end_def Let_def rest exits)
    qed
  qed
qed

subsection \<open>Examples\<close>

definition demo_probe :: probe_net where
  "demo_probe = \<lparr>pn_Stat = (\<lambda>_. None), pn_MkdirTemp = Inr ''/tmp/p'', pn_freePort = Inr 4000, pn_MarshalError = [],
     pn_WriteFile = (\<lambda>_. None), pn_Start = (\<lambda>_. None), pn_turns = [Ticked 1, Opened], pn_deadline = 9, pn_NewRequest = (\<lambda>_. None),
     pn_Do = (\<lambda>_ _. Inr \<lparr>resp_StatusCode = 200, resp_Read = (\<lambda>_. Some ''198.51.100.7'')\<rparr>), pn_ReadError = [],
     pn_decode_tag = (\<lambda>_. Some ''t''), pn_decode_payload = (\<lambda>_. None)\<rparr>"

definition demo_runner :: probe_runner where
  "demo_runner = \<lparr>pr_BinPath = ''sing-box'', pr_ProviderURL = ''http://ip.example'', pr_Timeout = 15000000000\<rparr>"

lemma demo_validated: "ValidateOutboundURL (ev_url_Parse demo_server) (ev_ParseIP demo_server) (ev_LookupIP demo_server) u = Inr ()"
proof -
  have "ValidateOutboundURL (\<lambda>_. Some demo_url) (\<lambda>_. None) (\<lambda>_. Some [[8, 8, 8, 8]]) [] = Inr ()" by code_simp
  then show ?thesis by (simp add: ValidateOutboundURL_def demo_server_def)
qed

lemma demo_body: "parseProviderBody demo_probe ''198.51.100.7'' =
   Inr \<lparr>pb_IP = ''198.51.100.7'', pb_Country = [], pb_City = [], pb_ASOrg = []\<rparr>"
proof -
  have "TrimSpace ''198.51.100.7'' = ''198.51.100.7''" "ContainsAny ''198.51.100.7'' ''{}'' = False" by code_simp+
  then show ?thesis by (simp add: parseProviderBody_def demo_probe_def)
qed

lemma demo_run: "Probe demo_server demo_probe demo_runner ob =
   (Some (Inr \<lparr>pb_IP = ''198.51.100.7'', pb_Country = [], pb_City = [], pb_ASOrg = []\<rparr>),
    [MadeDir ''/tmp/p'', WroteConfig ''{}'', StartedProc, KilledProc, RemovedDir ''/tmp/p''])"
  using demo_validated [of "''http://ip.example''"] demo_body
  by (simp add: Probe_def demo_runner_def outboundTag_def demo_probe_def probeConfig_def demo_server_def probe_fetch_def)

definition demo_probe_panel :: panel where
  "demo_probe_panel = demo_panel\<lparr>p_db := demo_nodes_db\<lparr>nodes := [node_columns (demo_node\<lparr>n_OutboundEnc := StdEncode ''n*{}''\<rparr>) 1 1 0]\<rparr>\<rparr>"

definition demo_probe_request :: request where
  "demo_probe_request = demo_request\<lparr>rq_PathValue := [(''node_id'', ''n1'')]\<rparr>"

definition demo_probe_config :: probe_config where
  "demo_probe_config = \<lparr>pc_SingboxBinPath = ''sing-box'', pc_IPProviderURL = ''http://ip.example'', pc_ProbeTimeoutSeconds = 15\<rparr>"

lemma demo_probe_job:
  "\<exists>j. pl_jobs (snd (handleProbeNode demo_server demo_probe_config u 5000000000 demo_probe_request (probe_start demo_probe_panel))) = [j] \<and>
     pj_op j = newUUID u \<and> pj_node j = ''n1''"
proof -
  have n: "nodeOr404 demo_probe_request (p_db demo_probe_panel) = Inr (scanNode (node_columns (demo_node\<lparr>n_OutboundEnc := StdEncode ''n*{}''\<rparr>) 1 1 0))"
    by (simp add: nodeOr404_def demo_probe_request_def demo_probe_panel_def GetNode_def row_with_def Get_def node_columns_def demo_node_def)
  have dc: "decrypt demo_server (StdEncode ''n*{}'') = Inr ''{}''"
    using StdEncode_Nil_iff [of "''n*{}''"] by (simp add: decrypt_def Decrypt_def Std_roundtrip demo_server_def demo_gcm_def HasPrefix_def)
  have ex: "node_exists ''n1'' (p_db demo_probe_panel)" "operations (p_db demo_probe_panel) = []"
    by (simp_all add: demo_probe_panel_def node_exists_def node_columns_def demo_node_def demo_nodes_db_def empty_db_def)
  show ?thesis
    using n dc ex
    by (simp add: handleProbeNode_def probe_start_def Let_def scanNode_def node_columns_def demo_node_def CreateOperation_def
        probe_operation_def maxProbes_def split: prod.split)
qed


theorem probe_finishes_witness:
  "\<exists>q'. (probe_step demo_server (\<lambda>_. []))\<^sup>*\<^sup>*
      (snd (handleProbeNode demo_server demo_probe_config [] 5000000000 demo_probe_request (probe_start demo_probe_panel))) q' \<and>
     pl_jobs q' = []"
proof -
  let ?q = "snd (handleProbeNode demo_server demo_probe_config [] 5000000000 demo_probe_request (probe_start demo_probe_panel))"
  have "probe_step demo_server (\<lambda>_. []) (probe_start demo_probe_panel) ?q"
    by (rule probe_requested) (simp add: probe_start_def)
  then have r: "(probe_step demo_server (\<lambda>_. []))\<^sup>*\<^sup>* (probe_start demo_probe_panel) ?q" by (rule r_into_rtranclp)
  have o: "\<forall>op \<in> set (operations (p_db demo_probe_panel)). o_status op = ''FAILED'' \<or> o_status op = ''SUCCEEDED''"
    by (simp add: demo_probe_panel_def demo_nodes_db_def empty_db_def)
  obtain j where j: "pl_jobs ?q = [] @ j # []" using demo_probe_job [of "[]"] by auto
  obtain e acts where "Probe demo_server (demo_probe\<lparr>pn_Stat := \<lambda>_. Some ''missing''\<rparr>) (pj_runner j) (pj_outbound j) = (Some e, acts)"
    by (cases "pr_BinPath (pj_runner j) = []") (auto simp: Probe_def demo_validated outboundTag_def demo_probe_def)
  from probe_finishes [OF r o j this] show ?thesis by auto
qed

theorem probe_cleans_up_witness:
  "Probe demo_server demo_probe demo_runner ''{}'' =
     (Some (Inr \<lparr>pb_IP = ''198.51.100.7'', pb_Country = [], pb_City = [], pb_ASOrg = []\<rparr>),
      [MadeDir ''/tmp/p'', WroteConfig ''{}'', StartedProc, KilledProc, RemovedDir ''/tmp/p'']) \<and>
   (\<exists>t. outboundTag demo_probe ''{}'' = Inr t)"
  using probe_cleans_up [OF demo_run [of "''{}''"]] demo_run by simp

end
