(* ===== verification/Api_Panel.thy ===== *)
theory Api_Panel
  imports Api_Accounts Api_Settings Api_Subscription Api_Node_Routes Api_Control Api_Stats_Routes Probe_Run
begin

text \<open>
  The panel as a whole: the routes of \<^verbatim>\<open>api/server.go\<close> as one service over one state. Accounts,
  settings, subscriptions, nodes, their controls, the statistics and the probes share the
  database, and the requests of their clients interleave in any order. A control call carries the
  network it meets, a probe request the number of probes in flight.
\<close>

datatype panel_call =
    AccountCall account_call
  | SettingsCall settings_call
  | SubscriptionCall subscription_call
  | NodeCall node_call
  | ControlCall node_net control_call
  | StatsCall stats_call
  | ProbeCall probe_config string int nat "probe_job list"

definition probe_route :: "env \<Rightarrow> probe_config \<Rightarrow> string \<Rightarrow> int \<Rightarrow> nat \<Rightarrow> probe_job list \<Rightarrow> handler" where
  "probe_route E cfg uid now sem jobs r p =
     (case handleProbeNode E cfg uid now r \<lparr>pl_panel = p, pl_sem = sem, pl_jobs = jobs\<rparr> of (resp, q) \<Rightarrow> (resp, pl_panel q))"

fun panel_api :: "env \<Rightarrow> panel_call \<Rightarrow> handler" where
  "panel_api E (AccountCall c) = account_api E c"
| "panel_api E (SettingsCall c) = settings_api E c"
| "panel_api E (SubscriptionCall c) = subscription_api E c"
| "panel_api E (NodeCall c) = node_api E c"
| "panel_api E (ControlCall N c) = control_api E N c"
| "panel_api E (StatsCall c) = stats_api E c"
| "panel_api E (ProbeCall cfg uid now sem jobs) = probe_route E cfg uid now sem jobs"

lemma probe_route_steps: "store_steps (p_db p) (p_db (snd (probe_route E cfg uid now sem jobs r p)))"
proof -
  obtain resp q' where h: "handleProbeNode E cfg uid now r \<lparr>pl_panel = p, pl_sem = sem, pl_jobs = jobs\<rparr> = (resp, q')" by force
  from handleProbeNode_cases [OF h] have "store_steps (p_db p) (p_db (pl_panel q'))"
  proof (elim disjE exE conjE)
    fix op d1 d2 and n :: node and outbound st
    assume c: "CreateOperation (Unix now) (probe_operation (newUUID uid) (n_ID n)) (p_db (pl_panel \<lparr>pl_panel = p, pl_sem = sem, pl_jobs = jobs\<rparr>)) = Inr (op, d1)"
      and s: "currentSettings E now d1 = (st, d2)"
    have "store_steps (p_db p) d1" using then_step [OF st_create_op [OF c]] by simp
    from currentSettings_steps [OF this, of E now] s have d2: "store_steps (p_db p) d2" by simp
    show "q' = (if pl_sem \<lparr>pl_panel = p, pl_sem = sem, pl_jobs = jobs\<rparr> < maxProbes
          then \<lparr>pl_panel = p, pl_sem = sem, pl_jobs = jobs\<rparr>\<lparr>pl_panel := (pl_panel \<lparr>pl_panel = p, pl_sem = sem, pl_jobs = jobs\<rparr>)\<lparr>p_db := d2\<rparr>,
                 pl_sem := pl_sem \<lparr>pl_panel = p, pl_sem = sem, pl_jobs = jobs\<rparr> + 1,
                 pl_jobs := \<lparr>pj_op = o_id op, pj_node = n_ID n, pj_outbound = outbound, pj_runner = probeRunner cfg st, pj_begun = False\<rparr> #
                   pl_jobs \<lparr>pl_panel = p, pl_sem = sem, pl_jobs = jobs\<rparr>\<rparr>
          else \<lparr>pl_panel = p, pl_sem = sem, pl_jobs = jobs\<rparr>\<lparr>pl_panel := (pl_panel \<lparr>pl_panel = p, pl_sem = sem, pl_jobs = jobs\<rparr>)\<lparr>p_db :=
            UpdateOperation (Unix now) (o_id op) ''FAILED'' [] ''too many concurrent probes'' d2\<rparr>\<rparr>) \<Longrightarrow>
      store_steps (p_db p) (p_db (pl_panel q'))"
      using d2 then_step [OF st_update_op d2] by simp
  qed simp
  with h show ?thesis by (simp add: probe_route_def)
qed

lemma control_api_db: "p_db (snd (control_api E N c r p)) = p_db p"
  using control_panel [of E N c r p] by (elim disjE exE conjE) simp_all

lemma panel_api_ok:
  assumes ok: "db_ok (p_db p)"
  shows "db_ok (p_db (snd (panel_api E c r p)))"
proof (cases c)
  case (AccountCall x)
  with store_steps_ok [OF account_api.steps ok] show ?thesis by simp
next
  case (SettingsCall x)
  with store_steps_ok [OF settings_api.steps ok] show ?thesis by simp
next
  case (SubscriptionCall x)
  with store_steps_ok [OF subscription_api.steps ok] show ?thesis by simp
next
  case (NodeCall x)
  with node_api_ok [OF ok] show ?thesis by simp
next
  case (ControlCall N x)
  with ok control_api_db show ?thesis by simp
next
  case (StatsCall x)
  with store_steps_ok [OF stats_api.steps ok] show ?thesis by simp
next
  case (ProbeCall cfg uid now sem jobs)
  with store_steps_ok [OF probe_route_steps ok] show ?thesis by simp
qed

text \<open>
  The database stays consistent under any traffic. From a consistent database, any
  sequence of requests to the account, settings, subscription, node, control, statistics and probe
  routes, valid or not, authorised or not, in any order and with any answers of the network, leaves every key
  unique and every row of every table attached to a row that exists.
\<close>

theorem panel_stays_consistent:
  assumes "db_ok (p_db p)"
  shows "db_ok (p_db (snd (serve (\<lambda>(c, now). requireAuth E now (panel_api E c)) rs p))) \<and>
    db_ok (p_db (snd (serve (panel_api E) rs' p)))"
proof
  have g: "db_ok (p_db (snd (requireAuth E now (panel_api E c) r q)))" if "db_ok (p_db q)" for now c r q
    using that panel_api_ok by (auto simp: requireAuth_def split: option.split sum.split)
  show "db_ok (p_db (snd (serve (\<lambda>(c, now). requireAuth E now (panel_api E c)) rs p)))"
    by (rule serve_invariant [where I = db_ok]) (auto intro: g assms split: prod.split)
  show "db_ok (p_db (snd (serve (panel_api E) rs' p)))"
    by (rule serve_invariant [where I = db_ok]) (auto intro: panel_api_ok assms)
qed

theorem panel_stays_consistent_witness:
  "db_ok (p_db (snd (serve (panel_api demo_server)
     [(NodeCall (AddNode (\<lambda>_ _. Decoded demo_input True) (\<lambda>_. Some ''n'') (\<lambda>_. []) 5), demo_create),
      (NodeCall (RemoveNode 6), demo_node_patch)] demo_nodes_panel)))"
proof -
  have "db_ok (p_db demo_nodes_panel)" using demo_nodes_db_ok by (simp add: demo_nodes_panel_def)
  from panel_stays_consistent [OF this, of demo_server "[]"] show ?thesis by blast
qed

end
