(* ===== verification/Api_Routes.thy ===== *)
theory Api_Routes
  imports Http_Mux Api_Panel "HOL-Library.Multiset"
begin

text \<open>
  The server as its clients meet it: the routing table of \<^verbatim>\<open>api/server.go\<close> (\<^verbatim>\<open>Routes\<close>), the writer that
  turns generated errors into problem documents (\<^verbatim>\<open>api/routing.go\<close>), and the middleware around it
  (\<^verbatim>\<open>httpx/middleware.go\<close>). The lemmas show that every route is found under its path, that nothing but
  the public routes works without a valid token, that no request makes the database
  inconsistent, and that the access log does not contain subscription tokens.
\<close>

subsection \<open>The table\<close>

text \<open>
  What one request meets: the clock, random bytes, decoders, networks, and the state of the
  services beside the panel.
\<close>

record world =
  wd_now :: int
  wd_elapsed :: int
  wd_rnd :: "string option"
  wd_nonce :: "nat \<Rightarrow> string option"
  wd_uuid :: "nat \<Rightarrow> string"
  wd_credentials :: "credentials decoder"
  wd_token :: "string decoder"
  wd_name :: "string decoder"
  wd_mode :: "string decoder"
  wd_node_input :: "node_input decoder"
  wd_patch :: "json_map decoder"
  wd_user_patch :: "user_patch decoder"
  wd_node_net :: node_net
  wd_geo_net :: geo_net
  wd_geo_other :: "nat \<Rightarrow> geo_error + geo"
  wd_geo :: geo_service
  wd_probe :: probe_config
  wd_sem :: nat
  wd_jobs :: "probe_job list"
  wd_sub_text :: "sub_error \<Rightarrow> string"
  wd_dial :: "string \<Rightarrow> string option"
  wd_order_nodes :: "(rollup_row \<Rightarrow> int) \<Rightarrow> rollup_row list \<Rightarrow> rollup_row list"
  wd_order_ips :: "(ip_stat \<Rightarrow> int) \<Rightarrow> ip_stat list \<Rightarrow> ip_stat list"
  wd_images :: image_lib
  wd_digest :: "string \<Rightarrow> string"
  wd_serveContent :: "request \<Rightarrow> http_values \<Rightarrow> string \<Rightarrow> response"

definition handleServeFavicon :: "env \<Rightarrow> world \<Rightarrow> handler" where
  "handleServeFavicon E W = serveBranding E (wd_images W) (wd_digest W) (wd_serveContent W) (wd_now W) True"

definition handleServeLogo :: "env \<Rightarrow> world \<Rightarrow> handler" where
  "handleServeLogo E W = serveBranding E (wd_images W) (wd_digest W) (wd_serveContent W) (wd_now W) False"

text \<open>The public entries of the table, and those behind the guard.\<close>

definition public_routes :: "env \<Rightarrow> world \<Rightarrow> handler mux" where
  "public_routes E W =
     [(''GET /health'', handleHealth),
      (''POST /session'', handleCreateSession E (wd_credentials W) (wd_rnd W) (wd_now W)),
      (''POST /session/refresh'', handleRefreshSession E (wd_token W) (wd_rnd W) (wd_now W)),
      (''GET /sub/{token}'', handleSubscriptionContent E (wd_now W)),
      (''GET /api/public/stats'', handlePublicStats (wd_now W)),
      (''GET /api/public/nodes'', handlePublicNodes E (wd_now W)),
      (''GET /settings/favicon'', handleServeFavicon E W),
      (''GET /settings/logo'', handleServeLogo E W),
      (''GET /brand'', handleGetBrand E (wd_now W))]"

definition bearer_routes :: "env \<Rightarrow> world \<Rightarrow> handler mux" where
  "bearer_routes E W =
     [(''DELETE /session'', handleDeleteSession E (wd_now W)),
      (''GET /me'', handleGetMe E (wd_now W)),
      (''GET /nodes'', handleListNodes E),
      (''POST /nodes'', handleCreateNode E (wd_node_input W) (wd_nonce W) (wd_uuid W) (wd_now W)),
      (''GET /nodes/{node_id}'', handleGetNode E),
      (''PATCH /nodes/{node_id}'', handleUpdateNode E (wd_patch W) (wd_nonce W) (wd_uuid W) (wd_now W)),
      (''DELETE /nodes/{node_id}'', handleDeleteNode E (wd_now W)),
      (''POST /nodes/{node_id}/check'', handleCheckNode E (wd_node_net W) (wd_elapsed W) (wd_now W)),
      (''GET /nodes/{node_id}/status'', handleNodeStatus E),
      (''GET /nodes/{node_id}/traffic'', handleNodeTraffic E (wd_now W)),
      (''GET /nodes/{node_id}/ips'', with_geo (wd_geo W) (handleNodeIps E (wd_geo_net W) (wd_geo_other W) (wd_now W))),
      (''GET /nodes/{node_id}/exit-ip'', handleNodeExitIP E),
      (''POST /nodes/{node_id}/probe'', probe_route E (wd_probe W) (wd_uuid W 0) (wd_now W) (wd_sem W) (wd_jobs W)),
      (''GET /nodes/{node_id}/connections'', handleListConnections E (wd_node_net W)),
      (''DELETE /nodes/{node_id}/connections'', handleCloseAllConnections E (wd_node_net W)),
      (''DELETE /nodes/{node_id}/connections/{connection_id}'', handleCloseConnection E (wd_node_net W)),
      (''GET /nodes/{node_id}/proxies'', handleListProxies E (wd_node_net W)),
      (''PUT /nodes/{node_id}/proxies/{proxy_name}'', handleSelectProxy E (wd_node_net W) (wd_name W)),
      (''GET /nodes/{node_id}/rules'', handleListRules E (wd_node_net W)),
      (''PATCH /nodes/{node_id}/runtime'', handlePatchRuntime E (wd_node_net W) (wd_mode W)),
      (''GET /nodes/{node_id}/share-link'', handleNodeShareLink E),
      (''GET /operations/{operation_id}'', handleGetOperation E),
      (''GET /subscription'', handleGetSubscription E (wd_now W)),
      (''POST /subscription/token'', handleResetSubscriptionToken E (wd_rnd W) (wd_now W)),
      (''DELETE /subscription'', handleDeleteSubscription E (wd_now W)),
      (''POST /nodes/{node_id}/latency'', handleNodeLatency E (wd_sub_text W) (wd_dial W) (wd_elapsed W) (wd_now W)),
      (''GET /stats/overview'', handleStatsOverview E (wd_now W)),
      (''GET /stats/nodes'', handleStatsNodes E (wd_now W)),
      (''GET /stats/traffic-series'', handleStatsTrafficSeries E (wd_now W)),
      (''GET /stats/top-nodes'', handleStatsTopNodes E (wd_order_nodes W) (wd_now W)),
      (''GET /stats/top-ips'', with_geo (wd_geo W) (handleStatsTopIps E (wd_geo_net W) (wd_geo_other W) (wd_order_ips W) (wd_now W))),
      (''GET /settings'', handleGetSettings E (wd_now W)),
      (''PATCH /settings'', handleUpdateSettings E (wd_patch W) (wd_now W)),
      (''POST /settings/favicon'', handleUploadFavicon E (wd_images W) (wd_now W)),
      (''POST /settings/logo'', handleUploadLogo E (wd_images W) (wd_now W)),
      (''GET /users'', handleListUsers E),
      (''POST /users'', handleCreateUser E (wd_credentials W) (wd_now W)),
      (''GET /users/{user_id}'', handleGetUser E),
      (''DELETE /users/{user_id}'', handleDeleteUser),
      (''PATCH /users/{user_id}'', handleUpdateUser E (wd_user_patch W))]"

text \<open>The patterns of the web interface (\<^verbatim>\<open>webui/server.go\<close>, \<^verbatim>\<open>Register\<close>), which share the table: those
  anybody may ask for, and those behind the cookie session.\<close>

definition ui_open_patterns :: "string list" where
  "ui_open_patterns =
     [''GET /admin/assets/{path...}'', ''GET /'', ''GET /status'', ''GET /status/overview'', ''GET /status/nodes'', ''GET /login'',
      ''POST /login'', ''GET /admin'', ''POST /admin/theme'']"

definition ui_session_patterns :: "string list" where
  "ui_session_patterns =
     [''POST /logout'', ''GET /admin/overview'', ''GET /admin/overview/stats'', ''GET /admin/overview/chart'', ''GET /admin/overview/tops'',
      ''GET /admin/overview/nodes'', ''GET /admin/nodes'', ''GET /admin/nodes/list'', ''GET /admin/nodes/manage'', ''GET /admin/nodes/new'',
      ''POST /admin/nodes/new'', ''GET /admin/nodes/{node_id}/edit'', ''POST /admin/nodes/{node_id}/edit'', ''POST /admin/nodes/{node_id}/delete'',
      ''POST /admin/nodes/{node_id}/toggle'', ''POST /admin/nodes/{node_id}/check'', ''GET /admin/traffic'', ''GET /admin/traffic/table'',
      ''GET /admin/ips'', ''GET /admin/ips/table'', ''GET /admin/subscription'', ''GET /admin/subscription/card'',
      ''POST /admin/subscription/parse'', ''POST /admin/subscription/token'', ''GET /admin/subscription/qrcode'',
      ''POST /admin/subscription/revoke'', ''GET /admin/subscription/nodes'', ''GET /admin/settings'', ''POST /admin/settings'',
      ''GET /admin/users'', ''GET /admin/users/list'', ''GET /admin/users/new'', ''POST /admin/users/new'',
      ''GET /admin/users/{user_id}/password'', ''POST /admin/users/{user_id}/delete'', ''POST /admin/users/{user_id}/password'',
      ''POST /admin/users/{user_id}/reset'', ''POST /admin/settings/favicon'', ''POST /admin/settings/logo'', ''POST /admin/branding'',
      ''GET /user/profile'', ''GET /user/profile/edit'', ''POST /user/profile/edit'', ''GET /user/profile/qr'', ''GET /user/profile/qr/image'',
      ''GET /user/profile/reset-confirm'', ''POST /user/subscription/token'', ''POST /user/subscription/revoke'']"

definition api_routes :: "env \<Rightarrow> world \<Rightarrow> handler mux" where
  "api_routes E W = public_routes E W @ map (\<lambda>(pat, h). (pat, requireAuth E (wd_now W) h)) (bearer_routes E W)"

text \<open>\<open>ui\<close> are the handlers of the web interface, by pattern.\<close>

definition Routes :: "env \<Rightarrow> world \<Rightarrow> (string \<Rightarrow> handler) \<Rightarrow> handler mux" where
  "Routes E W ui = api_routes E W @ map (\<lambda>pat. (pat, ui pat)) (ui_open_patterns @ ui_session_patterns)"

subsection \<open>Generated answers\<close>

text \<open>\<^verbatim>\<open>http.Error\<close>, as the library answers by itself, and the writer that formats it: an error without a
  pattern becomes a problem document and keeps its other headers.\<close>

definition http_Error :: "int \<Rightarrow> string \<Rightarrow> http_values \<Rightarrow> response" where
  "http_Error status text hdr = \<lparr>rp_Status = status,
     rp_Header = hdr @ [(''Content-Type'', ''text/plain; charset=utf-8''), (''X-Content-Type-Options'', ''nosniff'')],
     rp_Body = RawBody (text @ [CHR 0x0A])\<rparr>"

definition apiErrorWriter :: "bool \<Rightarrow> string \<Rightarrow> request \<Rightarrow> response \<Rightarrow> response" where
  "apiErrorWriter onlyUnmatched pat r resp =
     (if rp_Status resp \<ge> 400 \<and> (\<not> onlyUnmatched \<or> pat = []) then
        let pb = WriteProblem r (rp_Status resp) ''about:blank'' (StatusText (rp_Status resp)) []
        in pb\<lparr>rp_Header := fold (\<lambda>(k, v). AList.update k v) (rp_Header pb) (filter (\<lambda>(k, v). k \<noteq> ''Content-Length'') (rp_Header resp))\<rparr>
      else resp)"

definition serve_mux :: "handler mux \<Rightarrow> string \<Rightarrow> string \<Rightarrow> handler" where
  "serve_mux mx verb escapedPath r p =
     (case findHandler mx verb escapedPath of
        Handle pat h vals \<Rightarrow> (case h (r\<lparr>rq_PathValue := vals\<rparr>) p of (resp, p') \<Rightarrow> (apiErrorWriter True pat r resp, p'))
      | MovedTo loc \<Rightarrow> (\<lparr>rp_Status = 301, rp_Header = [(''Location'', loc)], rp_Body = NoBody\<rparr>, p)
      | WrongMethod vs \<Rightarrow> (apiErrorWriter True [] r (http_Error 405 (StatusText 405) [(''Allow'', Join vs '', '')]), p)
      | NoRoute \<Rightarrow> (apiErrorWriter True [] r (http_Error 404 ''404 page not found'' []), p))"

subsection \<open>The middleware\<close>

text \<open>
  A handler may panic before or after it has written its answer. A status of 200 is what the
  recorder starts with, so after a panic behind a written 200 the problem document lands behind
  the answer.
\<close>

datatype handler_outcome = Returned response | Panicked "response option"

datatype sent = Sent response | SentWith response response

record access_log =
  al_request_id :: string
  al_method :: string
  al_path :: string
  al_status :: int
  al_remote :: string

definition requestIDOf :: "string \<Rightarrow> request \<Rightarrow> string" where
  "requestIDOf fresh r = (if Get (rq_Header r) ''X-Request-Id'' = [] then fresh else Get (rq_Header r) ''X-Request-Id'')"

definition log_path :: "string \<Rightarrow> string" where
  "log_path path = (if HasPrefix path ''/sub/'' \<and> length path > 5 then ''/sub/{redacted}'' else path)"

definition recovered :: "request \<Rightarrow> handler_outcome \<Rightarrow> sent \<times> int" where
  "recovered r out =
     (case out of
        Returned resp \<Rightarrow> (Sent resp, rp_Status resp)
      | Panicked None \<Rightarrow> (Sent (Internal r), 500)
      | Panicked (Some resp) \<Rightarrow> if rp_Status resp = 200 then (SentWith resp (Internal r), 500) else (Sent resp, rp_Status resp))"

text \<open>\<open>fresh\<close> is the text \<^verbatim>\<open>newRequestID\<close> makes. The answer carries the request's id whatever happens.\<close>

definition Middleware ::
  "string \<Rightarrow> string \<Rightarrow> (request \<Rightarrow> 's \<Rightarrow> handler_outcome \<times> 's) \<Rightarrow> request \<Rightarrow> 's \<Rightarrow> (string \<times> sent \<times> access_log) \<times> 's" where
  "Middleware fresh verb nxt r p =
     (let reqID = requestIDOf fresh r in
      case nxt r p of (out, p') \<Rightarrow>
        (case recovered r out of (answer, status) \<Rightarrow>
           ((reqID, answer,
             \<lparr>al_request_id = reqID, al_method = verb, al_path = log_path (rq_Path r), al_status = status, al_remote = rq_RemoteAddr r\<rparr>),
            p')))"

definition serve_site ::
  "env \<Rightarrow> world \<Rightarrow> (string \<Rightarrow> handler) \<Rightarrow> string \<Rightarrow> string \<Rightarrow> string \<Rightarrow> request \<Rightarrow> panel \<Rightarrow> (string \<times> sent \<times> access_log) \<times> panel" where
  "serve_site E W ui fresh verb escapedPath =
     Middleware fresh verb (\<lambda>r p. case serve_mux (Routes E W ui) verb escapedPath r p of (resp, p') \<Rightarrow> (Returned resp, p'))"

subsection \<open>The table is sound\<close>

text \<open>The patterns by themselves.\<close>

definition public_patterns :: "string list" where
  "public_patterns =
    [''GET /health'', ''POST /session'', ''POST /session/refresh'', ''GET /sub/{token}'', ''GET /api/public/stats'',
     ''GET /api/public/nodes'', ''GET /settings/favicon'', ''GET /settings/logo'', ''GET /brand'']"

definition bearer_patterns :: "string list" where
  "bearer_patterns =
    [''DELETE /session'', ''GET /me'', ''GET /nodes'', ''POST /nodes'', ''GET /nodes/{node_id}'', ''PATCH /nodes/{node_id}'',
     ''DELETE /nodes/{node_id}'', ''POST /nodes/{node_id}/check'', ''GET /nodes/{node_id}/status'',
     ''GET /nodes/{node_id}/traffic'', ''GET /nodes/{node_id}/ips'', ''GET /nodes/{node_id}/exit-ip'',
     ''POST /nodes/{node_id}/probe'', ''GET /nodes/{node_id}/connections'', ''DELETE /nodes/{node_id}/connections'',
     ''DELETE /nodes/{node_id}/connections/{connection_id}'', ''GET /nodes/{node_id}/proxies'',
     ''PUT /nodes/{node_id}/proxies/{proxy_name}'', ''GET /nodes/{node_id}/rules'', ''PATCH /nodes/{node_id}/runtime'',
     ''GET /nodes/{node_id}/share-link'', ''GET /operations/{operation_id}'', ''GET /subscription'', ''POST /subscription/token'',
     ''DELETE /subscription'', ''POST /nodes/{node_id}/latency'', ''GET /stats/overview'', ''GET /stats/nodes'',
     ''GET /stats/traffic-series'', ''GET /stats/top-nodes'', ''GET /stats/top-ips'', ''GET /settings'', ''PATCH /settings'',
     ''POST /settings/favicon'', ''POST /settings/logo'', ''GET /users'', ''POST /users'', ''GET /users/{user_id}'',
     ''DELETE /users/{user_id}'', ''PATCH /users/{user_id}'']"

definition api_patterns :: "string list" where
  "api_patterns = public_patterns @ bearer_patterns"

lemma api_patterns_eq: "map fst (public_routes E W) = public_patterns" "map fst (bearer_routes E W) = bearer_patterns"
  by (simp_all add: public_routes_def bearer_routes_def public_patterns_def bearer_patterns_def)

definition all_patterns :: "string list" where
  "all_patterns = api_patterns @ ui_open_patterns @ ui_session_patterns"

lemma Routes_patterns: "map fst (Routes E W ui) = all_patterns"
  by (simp add: Routes_def api_routes_def all_patterns_def api_patterns_def api_patterns_eq comp_def split_beta)

text \<open>
  The check of the whole table: among the patterns of a method, each without a wildcard for the rest
  is the only one that could match its paths and is tried before or with it.
\<close>

definition rival :: "seg list \<Rightarrow> seg list \<Rightarrow> bool" where
  "rival ss' ss = (if can_overlap ss' ss then before ss' ss else False)"

definition of_method :: "string \<Rightarrow> (string \<times> seg list) list \<Rightarrow> seg list list" where
  "of_method verb ps = map snd (filter (\<lambda>(v, ss). v = verb) ps)"

definition method_ok :: "seg list list \<Rightarrow> bool" where
  "method_ok sss = list_all (\<lambda>ss. if no_multi ss then
     (if length (filter (\<lambda>ss'. rival ss' ss) sss) = 1 then if ss = [] then False else lits_plain ss else False) else True) sss"

lemma table_ok:
  "method_ok (of_method ''GET'' (map parsePattern all_patterns))" "method_ok (of_method ''POST'' (map parsePattern all_patterns))"
  "method_ok (of_method ''PUT'' (map parsePattern all_patterns))" "method_ok (of_method ''PATCH'' (map parsePattern all_patterns))"
  "method_ok (of_method ''DELETE'' (map parsePattern all_patterns))"
  by code_simp+

lemma table_methods: "list_all (\<lambda>pat. fst (parsePattern pat) \<in> set known_methods) all_patterns"
  by code_simp

lemma of_method_iff: "ss \<in> set (of_method verb ps) \<longleftrightarrow> (verb, ss) \<in> set ps"
  by (force simp: of_method_def)

lemma of_method_filter:
  "length (filter P (of_method verb (map parsePattern pats))) =
     length (filter (\<lambda>pat. fst (parsePattern pat) = verb \<and> P (snd (parsePattern pat))) pats)"
  by (induction pats) (auto simp: of_method_def split: prod.splits)

lemma table_pattern:
  assumes "pat \<in> set all_patterns" and pat: "parsePattern pat = (verb, ss)" and "no_multi ss"
  shows "ss \<noteq> []" and "lits_plain ss"
    and "length (filter (\<lambda>pat'. fst (parsePattern pat') = verb \<and> rival (snd (parsePattern pat')) ss) all_patterns) = 1"
proof -
  have "verb \<in> set known_methods" using table_methods assms(1) pat by (force simp: list_all_iff)
  then have ok: "method_ok (of_method verb (map parsePattern all_patterns))"
    using table_ok by (auto simp: known_methods_def)
  have "ss \<in> set (of_method verb (map parsePattern all_patterns))"
    using image_eqI [of "(verb, ss)" parsePattern pat] pat assms(1) by (simp add: of_method_iff)
  with ok assms(3) have "ss \<noteq> [] \<and> lits_plain ss \<and> length (filter (\<lambda>ss'. rival ss' ss) (of_method verb (map parsePattern all_patterns))) = 1"
    by (auto simp: method_ok_def list_all_iff split: if_splits)
  then show "ss \<noteq> []" "lits_plain ss"
    "length (filter (\<lambda>pat'. fst (parsePattern pat') = verb \<and> rival (snd (parsePattern pat')) ss) all_patterns) = 1"
    by (simp_all add: of_method_filter)
qed

lemma filter_one:
  assumes "length (filter P xs) = 1" and "x \<in> set xs" "P x" "y \<in> set xs" "P y"
  shows "x = y"
proof -
  from assms(1) obtain z where "filter P xs = [z]" by (auto simp: length_Suc_conv)
  then have "{u \<in> set xs. P u} = {z}" by (metis list.set(1) list.simps(15) set_filter)
  with assms(2-) have "x \<in> {z}" "y \<in> {z}" by auto
  then show ?thesis by simp
qed

lemma self_rival: "no_multi ss \<Longrightarrow> rival ss ss"
proof -
  have "no_multi ss \<Longrightarrow> can_overlap ss ss \<and> before ss ss" by (induction ss rule: no_multi.induct) auto
  then show "no_multi ss \<Longrightarrow> rival ss ss" by (simp add: rival_def)
qed

lemma length_filter_map_fst: "length (filter P (map fst mx)) = length (filter (\<lambda>x. P (fst x)) mx)"
  by (induction mx) auto

lemma table_finds:
  assumes "mset mx = mset (Routes E W ui)"
    and "(pat, h) \<in> set mx" and "parsePattern pat = (verb, ss)" and "no_multi ss"
    and "length vs = length (wild_names ss)" and "\<forall>v \<in> set vs. seg_value v"
  shows "findHandler mx verb (filled_path ss vs) = Handle pat h (zip (wild_names ss) vs)"
proof -
  have "(pat, h) \<in> set (Routes E W ui)" using mset_eq_setD [OF assms(1)] assms(2) by simp
  then have "pat \<in> set all_patterns" using image_eqI [of pat fst "(pat, h)"] by (simp flip: Routes_patterns [of E W ui])
  note t = table_pattern [OF this assms(3,4)]
  let ?P = "\<lambda>pat'. fst (parsePattern pat') = verb \<and> rival (snd (parsePattern pat')) ss"
  have "mset (filter (\<lambda>x. ?P (fst x)) mx) = mset (filter (\<lambda>x. ?P (fst x)) (Routes E W ui))" using assms(1) by simp
  from arg_cong [OF this, of size]
  have "length (filter (\<lambda>x. ?P (fst x)) mx) = length (filter (\<lambda>x. ?P (fst x)) (Routes E W ui))" by (simp only: size_mset)
  then have one: "length (filter (\<lambda>x. ?P (fst x)) mx) = 1"
    using t(3) Routes_patterns [of E W ui] length_filter_map_fst [of ?P "Routes E W ui"] by simp
  show ?thesis
  proof (rule findHandler_pattern [OF assms(2,3) t(1) assms(4) t(2) assms(5,6)])
    fix pat' h' ss'
    assume "(pat', h') \<in> set mx" "parsePattern pat' = (verb, ss')" "can_overlap ss' ss" "before ss' ss"
    then show "(pat', h') = (pat, h)"
      using filter_one [OF one, of "(pat', h')" "(pat, h)"] assms(2-4) self_rival by (auto simp: rival_def)
  qed
qed

lemma findHandler_HEAD:
  assumes "mset mx = mset (Routes E W ui)"
  shows "findHandler mx ''HEAD'' path = findHandler mx ''GET'' path"
proof -
  have "fst (parsePattern pat) \<noteq> ''HEAD''" if "(pat, h) \<in> set mx" for pat h
    using that table_methods image_eqI [of pat fst "(pat, h)" "set mx"] mset_eq_setD [OF assms]
    by (auto simp: list_all_iff known_methods_def simp flip: Routes_patterns [of E W ui])
  then have "method_rows mx ''HEAD'' = []" by (auto simp: method_rows_def filter_empty_conv)
  then have "match_request mx ''HEAD'' q = match_request mx ''GET'' q" for q
    by (auto simp: match_request_def split: option.split)
  then show ?thesis by (simp add: findHandler_def)
qed

text \<open>
  C14: every route is found under its path. A request with a route's method and its path, with any
  values for the wildcards that are path segments, written the way clients escape them, reaches the
  handler registered for the route, which gets exactly those values; no other entry of the
  ninety-odd of the shared table, of the API or of the web interface, gets in the way, in
  whatever order they are registered. A HEAD request reaches the handler of the GET.
\<close>

theorem routes_dispatch:
  assumes "mset mx = mset (Routes E W ui)"
    and "(pat, h) \<in> set mx" and "parsePattern pat = (verb, ss)" and "no_multi ss"
    and "length vs = length (wild_names ss)" and "\<forall>v \<in> set vs. seg_value v"
  shows "findHandler mx verb (filled_path ss vs) = Handle pat h (zip (wild_names ss) vs) \<and>
    (verb = ''GET'' \<longrightarrow> findHandler mx ''HEAD'' (filled_path ss vs) = Handle pat h (zip (wild_names ss) vs))"
  using table_finds [OF assms] findHandler_HEAD [OF assms(1)] by auto

text \<open>A table of the routes alone, with a web interface that answers nothing.\<close>

definition no_ui :: "string \<Rightarrow> handler" where
  "no_ui pat r p = (http_Error 404 ''404 page not found'' [], p)"

lemma found_close_connection:
  "findHandler (Routes E W no_ui) ''DELETE'' ''/nodes/a%2Fb/connections/7'' =
     Handle ''DELETE /nodes/{node_id}/connections/{connection_id}'' (requireAuth E (wd_now W) (handleCloseConnection E (wd_node_net W)))
       [(''node_id'', ''a/b''), (''connection_id'', ''7'')]"
proof -
  let ?pat = "''DELETE /nodes/{node_id}/connections/{connection_id}''"
  let ?ss = "[Lit ''nodes'', Wild ''node_id'', Lit ''connections'', Wild ''connection_id'']"
  have p: "parsePattern ?pat = (''DELETE'', ?ss)" by code_simp
  have i: "(?pat, requireAuth E (wd_now W) (handleCloseConnection E (wd_node_net W))) \<in> set (Routes E W no_ui)"
    by (simp add: Routes_def api_routes_def bearer_routes_def)
  have "filled_path ?ss [''a/b'', ''7''] = ''/nodes/a%2Fb/connections/7''" by code_simp
  then show ?thesis
    using table_finds [OF refl i p, of "[''a/b'', ''7'']"] by (simp add: wild_names_def seg_value_def)
qed

theorem routes_dispatch_witness:
  "\<forall>E W. findHandler (Routes E W no_ui) ''HEAD'' ''/users/7'' =
     Handle ''GET /users/{user_id}'' (requireAuth E (wd_now W) (handleGetUser E)) [(''user_id'', ''7'')]"
proof (intro allI)
  fix E :: env and W :: world
  have p: "parsePattern ''GET /users/{user_id}'' = (''GET'', [Lit ''users'', Wild ''user_id''])" by code_simp
  have i: "(''GET /users/{user_id}'', requireAuth E (wd_now W) (handleGetUser E)) \<in> set (Routes E W no_ui)"
    by (simp add: Routes_def api_routes_def bearer_routes_def)
  have "filled_path [Lit ''users'', Wild ''user_id''] [''7''] = ''/users/7''" by code_simp
  then show "findHandler (Routes E W no_ui) ''HEAD'' ''/users/7'' =
     Handle ''GET /users/{user_id}'' (requireAuth E (wd_now W) (handleGetUser E)) [(''user_id'', ''7'')]"
    using routes_dispatch [OF refl i p, of "[''7'']"] by (simp add: wild_names_def seg_value_def)
qed

subsection \<open>What works without a token\<close>

lemma findHandler_routes:
  assumes "findHandler (Routes E W ui) verb path = Handle pat h vals"
    and "pat \<notin> set (public_patterns @ ui_open_patterns @ ui_session_patterns)"
  shows "\<exists>h'. h = requireAuth E (wd_now W) h'"
proof -
  have "(pat, h) \<in> set (Routes E W ui)" using findHandler_in [OF assms(1)] by blast
  moreover have "pat \<in> set public_patterns" if "(pat, h) \<in> set (public_routes E W)"
    using image_eqI [of pat fst "(pat, h)", OF _ that] by (simp flip: api_patterns_eq(1) [of E W])
  ultimately show ?thesis using assms(2) by (auto simp: Routes_def api_routes_def)
qed

definition token_error :: "request \<Rightarrow> string" where
  "token_error r = (if bearerToken r = None then ''missing bearer token'' else ''invalid or expired token'')"

definition has_valid_token :: "env \<Rightarrow> int \<Rightarrow> request \<Rightarrow> db \<Rightarrow> bool" where
  "has_valid_token E now r d \<longleftrightarrow>
     (case bearerToken r of None \<Rightarrow> False
      | Some token \<Rightarrow> (case VerifyAccess (ev_parse E) db_refresh_store (ev_auth E) token now d of Inl _ \<Rightarrow> False | Inr _ \<Rightarrow> True))"

lemma requireAuth_refuses:
  "\<not> has_valid_token E now r (p_db p) \<Longrightarrow> requireAuth E now h (r\<lparr>rq_PathValue := vals\<rparr>) p = (Unauthorized r (token_error r), p)"
  by (auto simp: has_valid_token_def requireAuth_def token_error_def Unauthorized_def WriteProblem_def bearerToken_def Let_def
      split: option.splits sum.splits if_splits)

lemma apiErrorWriter_matched: "pat \<noteq> [] \<Longrightarrow> apiErrorWriter True pat r resp = resp"
  by (simp add: apiErrorWriter_def)

lemma all_patterns_nonempty: "[] \<notin> set all_patterns"
  by code_simp

lemma findHandler_nonempty: "findHandler (Routes E W ui) verb path = Handle pat h vals \<Longrightarrow> pat \<noteq> []"
  using findHandler_in [of "Routes E W ui" verb path pat h vals] all_patterns_nonempty
  by (force simp flip: Routes_patterns [of E W ui])

text \<open>
  C12: without a valid token nothing but the public routes works. Whatever the method, the path and the
  rest of a request, if its token is missing, forged, expired or revoked and it does not
  reach one of the nine public routes or the web interface, it changes nothing, and its
  answer is a 401, a redirect, a 404 or a 405 that does not depend on the state of the panel.
\<close>

theorem unauthenticated_requests_refused:
  assumes "\<not> has_valid_token E (wd_now W) r (p_db p)"
    and "\<forall>pat h vals. findHandler (Routes E W ui) verb path = Handle pat h vals \<longrightarrow>
      pat \<notin> set (public_patterns @ ui_open_patterns @ ui_session_patterns)"
  shows "\<exists>resp. serve_mux (Routes E W ui) verb path r p = (resp, p) \<and> rp_Status resp \<in> {301, 401, 404, 405} \<and>
    (rp_Status resp = 401 \<longrightarrow> resp = Unauthorized r (token_error r)) \<and>
    (\<forall>q. \<not> has_valid_token E (wd_now W) r (p_db q) \<longrightarrow> serve_mux (Routes E W ui) verb path r q = (resp, q))"
proof (cases "findHandler (Routes E W ui) verb path")
  case (Handle pat h vals)
  with assms(2) have "pat \<notin> set (public_patterns @ ui_open_patterns @ ui_session_patterns)" by blast
  from findHandler_routes [OF Handle this] obtain h' where "h = requireAuth E (wd_now W) h'" by blast
  then have "serve_mux (Routes E W ui) verb path r q = (Unauthorized r (token_error r), q)"
    if "\<not> has_valid_token E (wd_now W) r (p_db q)" for q
    using requireAuth_refuses [OF that] findHandler_nonempty [OF Handle] by (simp add: serve_mux_def Handle apiErrorWriter_matched)
  with assms(1) show ?thesis by simp
qed (auto simp: serve_mux_def apiErrorWriter_def http_Error_def WriteProblem_def Let_def)

theorem unauthenticated_requests_refused_witness:
  "\<forall>W. \<exists>resp. serve_mux (Routes demo_server W no_ui) ''DELETE'' ''/nodes/a%2Fb/connections/7'' (demo_request\<lparr>rq_Header := []\<rparr>) demo_panel = (resp, demo_panel) \<and>
     rp_Status resp = 401"
proof
  fix W :: world
  have t: "\<not> has_valid_token demo_server (wd_now W) (demo_request\<lparr>rq_Header := []\<rparr>) (p_db demo_panel)"
    by (simp add: has_valid_token_def bearerToken_def Get_def HasPrefix_def)
  note d = found_close_connection [of demo_server W]
  have "\<forall>pat h vals. findHandler (Routes demo_server W no_ui) ''DELETE'' ''/nodes/a%2Fb/connections/7'' = Handle pat h vals \<longrightarrow>
      pat \<notin> set (public_patterns @ ui_open_patterns @ ui_session_patterns)"
    unfolding d by (simp add: public_patterns_def ui_open_patterns_def ui_session_patterns_def)
  from unauthenticated_requests_refused [OF t this] obtain resp where
    r: "serve_mux (Routes demo_server W no_ui) ''DELETE'' ''/nodes/a%2Fb/connections/7'' (demo_request\<lparr>rq_Header := []\<rparr>) demo_panel = (resp, demo_panel)"
    by blast
  have "rp_Status resp = 401"
    using r requireAuth_refuses [OF t] unfolding serve_mux_def d
    by (auto simp: apiErrorWriter_matched)
  with r show "\<exists>resp. serve_mux (Routes demo_server W no_ui) ''DELETE'' ''/nodes/a%2Fb/connections/7'' (demo_request\<lparr>rq_Header := []\<rparr>)
      demo_panel = (resp, demo_panel) \<and> rp_Status resp = 401" by blast
qed

subsection \<open>Consistency\<close>

definition keeps_ok :: "handler \<Rightarrow> bool" where
  "keeps_ok h \<longleftrightarrow> (\<forall>r p. db_ok (p_db p) \<longrightarrow> db_ok (p_db (snd (h r p))))"

lemma keeps_ok_panel: "keeps_ok (panel_api E c)"
  using panel_api_ok by (simp add: keeps_ok_def)

lemmas panel_handlers_ok =
  keeps_ok_panel [of E "AccountCall (Login (wd_credentials W) (wd_rnd W) (wd_now W))" for E W, simplified]
  keeps_ok_panel [of E "AccountCall (Refresh (wd_token W) (wd_rnd W) (wd_now W))" for E W, simplified]
  keeps_ok_panel [of E "AccountCall (Logout (wd_now W))" for E W, simplified]
  keeps_ok_panel [of E "AccountCall (Me (wd_now W))" for E W, simplified]
  keeps_ok_panel [of E "AccountCall GetAccount" for E W, simplified]
  keeps_ok_panel [of E "AccountCall ListAccounts" for E W, simplified]
  keeps_ok_panel [of E "AccountCall (CreateAccount (wd_credentials W) (wd_now W))" for E W, simplified]
  keeps_ok_panel [of E "AccountCall DeleteAccount" for E W, simplified]
  keeps_ok_panel [of E "AccountCall (UpdateAccount (wd_user_patch W))" for E W, simplified]
  keeps_ok_panel [of E "SettingsCall (GetSettingsCall (wd_now W))" for E W, simplified]
  keeps_ok_panel [of E "SettingsCall (PatchSettingsCall (wd_patch W) (wd_now W))" for E W, simplified]
  keeps_ok_panel [of E "SettingsCall (BrandCall (wd_now W))" for E W, simplified]
  keeps_ok_panel [of E "SettingsCall (FaviconCall (wd_images W) (wd_now W))" for E W, simplified]
  keeps_ok_panel [of E "SettingsCall (LogoCall (wd_images W) (wd_now W))" for E W, simplified]
  keeps_ok_panel [of E "SubscriptionCall (GetSub (wd_now W))" for E W, simplified]
  keeps_ok_panel [of E "SubscriptionCall (ResetSub (wd_rnd W) (wd_now W))" for E W, simplified]
  keeps_ok_panel [of E "SubscriptionCall (DeleteSub (wd_now W))" for E W, simplified]
  keeps_ok_panel [of E "SubscriptionCall (FetchSub (wd_now W))" for E W, simplified]
  keeps_ok_panel [of E "NodeCall ListNodePages" for E W, simplified]
  keeps_ok_panel [of E "NodeCall (AddNode (wd_node_input W) (wd_nonce W) (wd_uuid W) (wd_now W))" for E W, simplified]
  keeps_ok_panel [of E "NodeCall ReadNode" for E W, simplified]
  keeps_ok_panel [of E "NodeCall (PatchNode (wd_patch W) (wd_nonce W) (wd_uuid W) (wd_now W))" for E W, simplified]
  keeps_ok_panel [of E "NodeCall (RemoveNode (wd_now W))" for E W, simplified]
  keeps_ok_panel [of E "ControlCall (wd_node_net W) ListConnections" for E W, simplified]
  keeps_ok_panel [of E "ControlCall (wd_node_net W) CloseAllConnections" for E W, simplified]
  keeps_ok_panel [of E "ControlCall (wd_node_net W) CloseConnection" for E W, simplified]
  keeps_ok_panel [of E "ControlCall (wd_node_net W) ListProxies" for E W, simplified]
  keeps_ok_panel [of E "ControlCall (wd_node_net W) (SelectProxy (wd_name W))" for E W, simplified]
  keeps_ok_panel [of E "ControlCall (wd_node_net W) ListRules" for E W, simplified]
  keeps_ok_panel [of E "ControlCall (wd_node_net W) (PatchRuntime (wd_mode W))" for E W, simplified]
  keeps_ok_panel [of E "ControlCall (wd_node_net W) (CheckNode (wd_elapsed W) (wd_now W))" for E W, simplified]
  keeps_ok_panel [of E "ControlCall (wd_node_net W) (NodeLatency (wd_sub_text W) (wd_dial W) (wd_elapsed W) (wd_now W))" for E W, simplified]
  keeps_ok_panel [of E "StatsCall NodeStatus" for E W, simplified]
  keeps_ok_panel [of E "StatsCall (NodeTraffic (wd_now W))" for E W, simplified]
  keeps_ok_panel [of E "StatsCall (NodeIps (wd_geo_net W) (wd_geo_other W) (wd_now W) (wd_geo W))" for E W, simplified]
  keeps_ok_panel [of E "StatsCall NodeExitIP" for E W, simplified]
  keeps_ok_panel [of E "StatsCall ReadOperation" for E W, simplified]
  keeps_ok_panel [of E "StatsCall (StatsOverview (wd_now W))" for E W, simplified]
  keeps_ok_panel [of E "StatsCall (StatsNodes (wd_now W))" for E W, simplified]
  keeps_ok_panel [of E "StatsCall (StatsTopNodes (wd_order_nodes W) (wd_now W))" for E W, simplified]
  keeps_ok_panel [of E "StatsCall (StatsTopIps (wd_geo_net W) (wd_geo_other W) (wd_order_ips W) (wd_now W) (wd_geo W))" for E W, simplified]
  keeps_ok_panel [of E "StatsCall (TrafficSeries (wd_now W))" for E W, simplified]
  keeps_ok_panel [of E "StatsCall ShareLink" for E W, simplified]
  keeps_ok_panel [of E "StatsCall (PublicStats (wd_now W))" for E W, simplified]
  keeps_ok_panel [of E "StatsCall (PublicNodes (wd_now W))" for E W, simplified]
  keeps_ok_panel [of E "ProbeCall (wd_probe W) (wd_uuid W 0) (wd_now W) (wd_sem W) (wd_jobs W)" for E W, simplified]

lemma keeps_ok_health: "keeps_ok handleHealth"
  by (simp add: keeps_ok_def handleHealth_def)

lemma keeps_ok_branding: "keeps_ok (serveBranding E im digest serveContent now b)"
proof -
  have "db_ok (snd (currentSettings E now (p_db p)))" if "db_ok (p_db p)" for p
    using store_steps_ok [OF currentSettings_steps [of "p_db p" "p_db p" E now] that] by simp
  then show ?thesis by (auto simp: keeps_ok_def serveBranding_def split_beta Let_def)
qed

lemma keeps_ok_guard: "keeps_ok h \<Longrightarrow> keeps_ok (requireAuth E now h)"
  by (auto simp: keeps_ok_def requireAuth_def split: option.split sum.split)

lemma api_routes_ok: "(pat, h) \<in> set (api_routes E W) \<Longrightarrow> keeps_ok h"
proof -
  have "\<forall>(pat, h) \<in> set (public_routes E W). keeps_ok h"
    by (simp add: public_routes_def handleServeFavicon_def handleServeLogo_def panel_handlers_ok keeps_ok_health keeps_ok_branding)
  moreover have "\<forall>(pat, h) \<in> set (bearer_routes E W). keeps_ok h"
    by (simp add: bearer_routes_def panel_handlers_ok)
  ultimately show "(pat, h) \<in> set (api_routes E W) \<Longrightarrow> keeps_ok h"
    by (auto simp: api_routes_def intro: keeps_ok_guard)
qed

lemma serve_mux_ok:
  assumes "\<And>pat. keeps_ok (ui pat)"
  shows "keeps_ok (serve_mux (Routes E W ui) verb path)"
proof -
  have "keeps_ok h" if "(pat, h) \<in> set (Routes E W ui)" for pat h
    using that assms api_routes_ok by (auto simp: Routes_def)
  then have "keeps_ok h" if "findHandler (Routes E W ui) verb path = Handle pat h vals" for pat h vals
    using findHandler_in [OF that] by blast
  then show ?thesis
    by (auto simp: keeps_ok_def serve_mux_def split: found.split prod.split) (metis snd_conv)
qed



subsection \<open>The access log\<close>

lemma PathUnescape_append: "PathUnescape a = Some x \<Longrightarrow> PathUnescape (a @ t) = map_option ((@) x) (PathUnescape t)"
proof (induction a arbitrary: x rule: PathUnescape.induct)
  case (2 c s)
  show ?case
  proof (cases "c = CHR ''%''")
    case False
    with 2 obtain y where "PathUnescape s = Some y" "x = c # y" by auto
    with 2(2) [OF False] False show ?thesis by (simp add: option.map_comp comp_def)
  next
    case True
    with 2(3) obtain a b u v w y where s: "s = a # b # u" "hex_value a = Some v" "hex_value b = Some w" "PathUnescape u = Some y"
      "x = char_of (16 * v + w) # y"
      by (auto split: list.splits option.splits)
    with 2(1) [OF True s(1)] True show ?thesis by (simp add: option.map_comp comp_def)
  qed
qed (auto simp: map_option_case split: option.split)

lemma Join_Split: "Join (Split s c) [c] = s"
proof (induction s)
  case (Cons a s)
  obtain p ps where "Split s c = p # ps" by (cases "Split s c") auto
  with Cons show ?case by (cases ps) auto
qed simp

lemma cleanPath_slash: "\<exists>q. cleanPath p = CHR ''/'' # q"
  by (simp add: cleanPath_def Let_def)

lemma two_segments:
  assumes "cleanPath path = path" and "matches_path [Lit l, Wild n] (path_segments path) = Some vs" and "CHR ''%'' \<notin> set l"
    and "PathUnescape path = Some full"
  shows "\<exists>v. v \<noteq> [] \<and> full = ''/'' @ l @ ''/'' @ v"
proof -
  from cleanPath_slash [of path] assms(1) obtain q where path: "path = ''/'' @ q" by auto
  let ?xs = "Split q (CHR ''/'')"
  have seg: "path_segments path = map unescape_seg (butlast ?xs) @ [if last ?xs = [] then ''/'' else unescape_seg (last ?xs)]"
    by (simp add: path_segments_def path Let_def)
  from assms(2) obtain v where v: "path_segments path = [l, v]" "v \<noteq> ''/''"
    by (cases "path_segments path"; cases "tl (path_segments path)")
      (auto simp: matches_path_Cons matches_path_Nil matches_empty_pattern split: if_splits)
  with seg obtain a where a: "butlast ?xs = [a]" "unescape_seg a = l" by (cases "butlast ?xs") auto
  define b where "b = last ?xs"
  from v seg a have b: "b \<noteq> []" by (auto simp: b_def)
  have "?xs = [a, b]" using a(1) append_butlast_last_id [of ?xs] by (simp add: b_def)
  then have q: "q = a @ ''/'' @ b" using Join_Split [of q "CHR ''/''"] by simp
  have full: "PathUnescape (a @ ''/'' @ b) = Some (tl full)" "full = CHR ''/'' # tl full"
    using assms(4) by (auto simp: path q)
  have "PathUnescape a = Some l"
  proof (cases "PathUnescape a")
    case None
    with a(2) assms(3) show ?thesis by (simp add: unescape_seg_def PathUnescape_no_percent)
  qed (use a(2) in \<open>simp add: unescape_seg_def\<close>)
  from PathUnescape_append [OF this, of "''/'' @ b"] full(1) obtain w where "PathUnescape b = Some w" "tl full = l @ ''/'' @ w" by auto
  moreover have "w \<noteq> []" using calculation(1) b by (cases b rule: PathUnescape.cases) (auto split: if_splits list.splits option.splits)
  ultimately show ?thesis using full(2) by auto
qed

text \<open>
  C15: subscription tokens stay out of the access log. Whenever a request reaches the public route of
  the subscription content, however its path was escaped, its log line carries the redacted
  path, so the token of the path, which is a credential, is not in it; and the lines of two
  such requests that differ in path, query, body or any header but the request's id are the same if
  their answers have the same status.
\<close>

theorem access_log_hides_tokens:
  assumes "findHandler (Routes E W ui) verb path = Handle ''GET /sub/{token}'' h vals" and "PathUnescape path = Some (rq_Path r)"
    and "findHandler (Routes E W ui) verb path' = Handle ''GET /sub/{token}'' h' vals'" and "PathUnescape path' = Some (rq_Path r')"
    and "requestIDOf fresh r = requestIDOf fresh r'" and "rq_RemoteAddr r = rq_RemoteAddr r'"
    and "line = snd (snd (fst (serve_site E W ui fresh verb path r p)))"
    and "line' = snd (snd (fst (serve_site E W ui fresh verb path' r' p')))"
  shows "al_path line = ''/sub/{redacted}'' \<and> (al_status line = al_status line' \<longrightarrow> line = line')"
proof -
  have sub: "log_path (rq_Path q) = ''/sub/{redacted}''"
    if f: "findHandler (Routes E W ui) verb u = Handle ''GET /sub/{token}'' g ws" and u: "PathUnescape u = Some (rq_Path q)" for u q g ws
  proof -
    have pat: "snd (parsePattern ''GET /sub/{token}'') = [Lit ''sub'', Wild ''token'']" by code_simp
    from findHandler_in [OF f] obtain vs where "cleanPath u = u" "matches_path [Lit ''sub'', Wild ''token''] (path_segments u) = Some vs"
      unfolding pat by blast
    from two_segments [OF this _ u] obtain v where "v \<noteq> []" "rq_Path q = ''/'' @ ''sub'' @ ''/'' @ v" by auto
    then show ?thesis by (cases v) (simp_all add: log_path_def HasPrefix_def)
  qed
  from sub [OF assms(1,2)] sub [OF assms(3,4)] assms(5-8) show ?thesis
    by (auto simp: serve_site_def Middleware_def Let_def split_beta)
qed

theorem access_log_hides_tokens_witness:
  "\<forall>W. al_path (snd (snd (fst (serve_site demo_server W no_ui ''id'' ''GET'' ''/sub/abc'' (demo_request\<lparr>rq_Path := ''/sub/abc''\<rparr>) demo_panel)))) = ''/sub/{redacted}''"
proof
  fix W :: world
  have p: "parsePattern ''GET /sub/{token}'' = (''GET'', [Lit ''sub'', Wild ''token''])" by code_simp
  have i: "(''GET /sub/{token}'', handleSubscriptionContent demo_server (wd_now W)) \<in> set (Routes demo_server W no_ui)"
    by (simp add: Routes_def api_routes_def public_routes_def)
  have "filled_path [Lit ''sub'', Wild ''token''] [''abc''] = ''/sub/abc''" by code_simp
  then have f: "findHandler (Routes demo_server W no_ui) ''GET'' ''/sub/abc'' =
      Handle ''GET /sub/{token}'' (handleSubscriptionContent demo_server (wd_now W)) [(''token'', ''abc'')]"
    using table_finds [OF refl i p, of "[''abc'']"] by (simp add: wild_names_def seg_value_def)
  have u: "PathUnescape ''/sub/abc'' = Some (rq_Path (demo_request\<lparr>rq_Path := ''/sub/abc''\<rparr>))" by simp
  from access_log_hides_tokens [OF f u f u refl refl refl refl] show "al_path (snd (snd (fst (serve_site demo_server W no_ui ''id'' ''GET'' ''/sub/abc''
    (demo_request\<lparr>rq_Path := ''/sub/abc''\<rparr>) demo_panel)))) = ''/sub/{redacted}''" by blast
qed

end
