(* ===== verification/Webui_Session.thy ===== *)
theory Webui_Session
  imports Api_Panel
begin

text \<open>
  Browser sessions of the web interface: \<^verbatim>\<open>webui/auth.go\<close> and the in-process client of
  \<^verbatim>\<open>webui/client.go\<close>. A cookie pair carries the tokens; an expired access token is renewed with the
  refresh token, and tabs that renew at once share one rotation through a short-lived cache. The
  pages are calls of the panel's own API with the session's token. The lemmas bound the logins
  an address gets, show that tabs never end up with different sessions and that the cache does
  not outlive a logout, and say which redirects stay on the site.
\<close>

subsection \<open>Requests and answers\<close>

text \<open>\<open>uq_Form\<close> are the values of the posted form, \<open>None\<close> when it cannot be parsed.\<close>

record ui_request = request +
  uq_Cookies :: http_values
  uq_TLS :: bool
  uq_Form :: "http_values option"

record cookie =
  ck_Name :: string
  ck_Value :: string
  ck_Path :: string
  ck_HttpOnly :: bool
  ck_SameSiteLax :: bool
  ck_Secure :: bool
  ck_Expires :: "int option"
  ck_MaxAge :: int

text \<open>The messages of the login form. Those of the source are Chinese texts; here they are named.\<close>

datatype ui_message = MsgNone | MsgOrigin | MsgTooOften | MsgForm | MsgEmptyFields | MsgCredentials | MsgDecode
  | MsgRetryAfter string | MsgText string | MsgStatus int

datatype ui_body = EmptyPage | LoginForm ui_message string string | PageBody string

record ui_response =
  ur_Status :: int
  ur_Header :: http_values
  ur_Cookies :: "cookie list"
  ur_Body :: ui_body

subsection \<open>The login limiter\<close>

record window_limiter =
  wl_capacity :: nat
  wl_window :: int
  wl_hits :: "string \<Rightarrow> int list"

definition newLimiter :: "nat \<Rightarrow> int \<Rightarrow> window_limiter" where
  "newLimiter capacity window = \<lparr>wl_capacity = capacity, wl_window = window, wl_hits = (\<lambda>_. [])\<rparr>"

definition allow :: "string \<Rightarrow> int \<Rightarrow> window_limiter \<Rightarrow> bool \<times> window_limiter" where
  "allow key now l =
     (let recent = filter (\<lambda>t. TimeSub now t < wl_window l) (wl_hits l key) in
      if length recent \<ge> wl_capacity l then (False, l\<lparr>wl_hits := (wl_hits l)(key := recent)\<rparr>)
      else (True, l\<lparr>wl_hits := (wl_hits l)(key := recent @ [now])\<rparr>))"

subsection \<open>Cookies\<close>

definition accessCookieName :: string where "accessCookieName = ''singhub_at''"
definition refreshCookieName :: string where "refreshCookieName = ''singhub_rt''"
definition themeCookieName :: string where "themeCookieName = ''singhub_theme''"

record ui_session =
  se_AccessToken :: string
  se_RefreshToken :: string

definition session_cookie :: "string \<Rightarrow> string \<Rightarrow> bool \<Rightarrow> int \<Rightarrow> cookie" where
  "session_cookie name v isSecure expires =
     \<lparr>ck_Name = name, ck_Value = v, ck_Path = ''/'', ck_HttpOnly = True, ck_SameSiteLax = True, ck_Secure = isSecure,
      ck_Expires = Some expires, ck_MaxAge = 0\<rparr>"

definition setSessionCookies :: "ui_request \<Rightarrow> pair \<Rightarrow> cookie list" where
  "setSessionCookies r pr =
     (let isSecure = (uq_TLS r \<or> Get (rq_Header r) ''X-Forwarded-Proto'' = ''https'') in
      [session_cookie accessCookieName (AccessToken pr) isSecure (AccessExpiresAt pr),
       session_cookie refreshCookieName (RefreshToken pr) isSecure (RefreshExpiresAt pr)])"

definition clearSessionCookies :: "cookie list" where
  "clearSessionCookies =
     map (\<lambda>name. \<lparr>ck_Name = name, ck_Value = [], ck_Path = ''/'', ck_HttpOnly = True, ck_SameSiteLax = True, ck_Secure = False,
       ck_Expires = None, ck_MaxAge = - 1\<rparr>) [accessCookieName, refreshCookieName]"

definition sessionFrom :: "ui_request \<Rightarrow> ui_session option" where
  "sessionFrom r =
     (let at = map_of (uq_Cookies r) accessCookieName; rt = map_of (uq_Cookies r) refreshCookieName in
      if (at = None \<or> at = Some []) \<and> (rt = None \<or> rt = Some []) then None
      else Some \<lparr>se_AccessToken = (case at of None \<Rightarrow> [] | Some v \<Rightarrow> v), se_RefreshToken = (case rt of None \<Rightarrow> [] | Some v \<Rightarrow> v)\<rparr>)"

subsection \<open>Rotation\<close>

record rot_entry =
  re_pair :: pair
  re_at :: int

record ui_state =
  us_limiter :: window_limiter
  us_rotated :: "string \<rightharpoonup> rot_entry"

text \<open>\<^verbatim>\<open>webui.New\<close>: ten logins in five minutes, an empty cache.\<close>

definition ui_New :: ui_state where
  "ui_New = \<lparr>us_limiter = newLimiter 10 (300 * 1000000000), us_rotated = Map.empty\<rparr>"

definition rotationCacheTTL :: int where "rotationCacheTTL = 15 * 1000000000"

definition recentPair :: "int \<Rightarrow> string \<Rightarrow> ui_state \<Rightarrow> pair option" where
  "recentPair now jti u =
     (case us_rotated u jti of None \<Rightarrow> None
      | Some e \<Rightarrow> if TimeSub now (re_at e) > rotationCacheTTL then None else Some (re_pair e))"

definition rememberPair :: "int \<Rightarrow> string \<Rightarrow> pair \<Rightarrow> ui_state \<Rightarrow> ui_state" where
  "rememberPair now jti pr u =
     u\<lparr>us_rotated := (\<lambda>k. case us_rotated u k of None \<Rightarrow> None
         | Some e \<Rightarrow> if TimeSub now (re_at e) > rotationCacheTTL then None else Some e)(jti \<mapsto> \<lparr>re_pair = pr, re_at = now\<rparr>)\<rparr>"

definition ui_verifyAccess :: "env \<Rightarrow> int \<Rightarrow> string \<Rightarrow> db \<Rightarrow> auth_error + claims" where
  "ui_verifyAccess E now token d = VerifyAccess (ev_parse E) db_refresh_store (ev_auth E) token now d"

text \<open>What a tab does when its token was already rotated: it looks for the pair of the tab that did.\<close>

definition reuse_pair :: "env \<Rightarrow> int \<Rightarrow> string \<Rightarrow> ui_state \<Rightarrow> db \<Rightarrow> pair option" where
  "reuse_pair E now jti u d =
     (case recentPair now jti u of None \<Rightarrow> None
      | Some cached \<Rightarrow> (case ui_verifyAccess E now (AccessToken cached) d of Inl _ \<Rightarrow> None | Inr _ \<Rightarrow> Some cached))"

definition rotate_session :: "env \<Rightarrow> int \<Rightarrow> string option \<Rightarrow> string \<Rightarrow> ui_state \<times> db \<Rightarrow> (auth_error + pair) \<times> ui_state \<times> db" where
  "rotate_session E now rnd refreshToken ud =
     (case ud of (u, d) \<Rightarrow>
        (case VerifyRefresh (ev_parse E) (ev_auth E) refreshToken now of
           Inl e \<Rightarrow> (Inl e, ud)
         | Inr c \<Rightarrow>
             (case Rotate (ev_sign E) (ev_parse E) db_refresh_store (ev_auth E) refreshToken now rnd d of
                Inr (pr, d') \<Rightarrow> (Inr pr, rememberPair now (cl_id c) pr u, d')
              | Inl e \<Rightarrow>
                  if e = ErrRevoked then (case reuse_pair E now (cl_id c) u d of Some cached \<Rightarrow> (Inr cached, ud) | None \<Rightarrow> (Inl e, ud))
                  else (Inl e, ud))))"

text \<open>The token of the request's session and the cookies to set, if it has one.\<close>

definition resolveSession ::
  "env \<Rightarrow> int \<Rightarrow> string option \<Rightarrow> ui_request \<Rightarrow> ui_state \<times> db \<Rightarrow> (string \<times> cookie list) option \<times> ui_state \<times> db" where
  "resolveSession E now rnd r ud =
     (case sessionFrom r of
        None \<Rightarrow> (None, ud)
      | Some s \<Rightarrow>
          if se_AccessToken s \<noteq> [] \<and> (case ui_verifyAccess E now (se_AccessToken s) (snd ud) of Inl _ \<Rightarrow> False | Inr _ \<Rightarrow> True)
          then (Some (se_AccessToken s, []), ud)
          else if se_RefreshToken s = [] then (None, ud)
          else (case rotate_session E now rnd (se_RefreshToken s) ud of
                  (Inl _, ud') \<Rightarrow> (None, ud')
                | (Inr pr, ud') \<Rightarrow> (Some (AccessToken pr, setSessionCookies r pr), ud')))"

subsection \<open>The guard\<close>

text \<open>The state of the site: the panel and the web interface.\<close>

record site =
  si_panel :: panel
  si_ui :: ui_state

type_synonym ui_handler = "ui_request \<Rightarrow> site \<Rightarrow> ui_response \<times> site"

definition with_db :: "site \<Rightarrow> ui_state \<times> db \<Rightarrow> site" where
  "with_db s ud = s\<lparr>si_panel := (si_panel s)\<lparr>p_db := snd ud\<rparr>, si_ui := fst ud\<rparr>"

definition isHX :: "ui_request \<Rightarrow> bool" where
  "isHX r = (Get (rq_Header r) ''HX-Request'' = ''true'')"

text \<open>\<open>http_Redirect\<close> is the library's; a path that starts with a slash is passed on (cleaned, when it parses).\<close>

definition redirect_to :: "(string \<Rightarrow> string) \<Rightarrow> cookie list \<Rightarrow> string \<Rightarrow> ui_response" where
  "redirect_to http_Redirect cs target =
     \<lparr>ur_Status = 303, ur_Header = [(''Location'', http_Redirect target)], ur_Cookies = cs, ur_Body = EmptyPage\<rparr>"

definition uiAuth ::
  "env \<Rightarrow> (string \<Rightarrow> string) \<Rightarrow> int \<Rightarrow> string option \<Rightarrow> (string \<Rightarrow> ui_handler) \<Rightarrow> ui_handler" where
  "uiAuth E http_Redirect now rnd nxt r s =
     (case resolveSession E now rnd r (si_ui s, p_db (si_panel s)) of
        (None, ud) \<Rightarrow>
          ((if isHX r then \<lparr>ur_Status = 401, ur_Header = [(''HX-Redirect'', ''/login'')], ur_Cookies = clearSessionCookies, ur_Body = EmptyPage\<rparr>
            else redirect_to http_Redirect clearSessionCookies ''/login''), with_db s ud)
      | (Some (token, cs), ud) \<Rightarrow>
          (case nxt token r (with_db s ud) of (resp, s') \<Rightarrow> (resp\<lparr>ur_Cookies := cs @ ur_Cookies resp\<rparr>, s')))"

subsection \<open>The origin of a form\<close>

definition ui_splitHostPort :: "env \<Rightarrow> string \<Rightarrow> string \<times> string" where
  "ui_splitHostPort E host = (case ev_SplitHostPort E host of Some hp \<Rightarrow> hp | None \<Rightarrow> (host, []))"

definition sameHost :: "env \<Rightarrow> string \<Rightarrow> string \<Rightarrow> bool" where
  "sameHost E a b =
     (if a = [] \<or> b = [] then a = b
      else case (ui_splitHostPort E a, ui_splitHostPort E b) of ((ha, pa), (hb, pb)) \<Rightarrow>
        if ha \<noteq> hb then False else pa = [] \<or> pb = [] \<or> pa = pb)"

text \<open>\<open>url_host\<close> is the host of a parsed URL, with its port.\<close>

definition sameOriginOk :: "env \<Rightarrow> (string \<Rightarrow> string option) \<Rightarrow> ui_request \<Rightarrow> bool" where
  "sameOriginOk E url_host r =
     (let origin = Get (rq_Header r) ''Origin''; referer = Get (rq_Header r) ''Referer'';
          same = (\<lambda>u. case url_host u of None \<Rightarrow> False | Some h \<Rightarrow> sameHost E h (rq_Host r))
      in if origin = [] then (if referer = [] then True else same referer) else same origin)"

definition isSafeRedirect :: "string \<Rightarrow> bool" where
  "isSafeRedirect target =
     (if target = [] then True
      else if \<not> HasPrefix target ''/'' \<or> HasPrefix target ''//'' then False
      else if Contains target ''://'' then False
      else if Contains target [CHR 0x5C] then False
      else True)"

subsection \<open>Calls of the panel's API\<close>

text \<open>
  The environment of the pages: the API's handler (absent before it is wired), the reading of request
  targets and of answers, and the lifetimes of the tokens.
\<close>

record ui_env =
  ue_E :: env
  ue_api :: "(string \<Rightarrow> handler) option"
  ue_target :: "string \<Rightarrow> string \<times> http_values"
  ue_bytes :: "body \<Rightarrow> string"
  ue_problem :: "body \<Rightarrow> problem option"
  ue_tokens :: "string \<Rightarrow> (string \<times> string) option"
  ue_url_host :: "string \<Rightarrow> string option"
  ue_Redirect :: "string \<Rightarrow> string"
  ue_accessTTL :: int
  ue_refreshTTL :: int

record api_result =
  ar_Status :: int
  ar_Body :: string
  ar_Header :: http_values
  ar_sent :: body

definition Problem :: "ui_env \<Rightarrow> api_result \<Rightarrow> problem option" where
  "Problem V res =
     (if \<not> Contains (Get (ar_Header res) ''Content-Type'') ''application/problem+json'' \<or> ar_Body res = [] then None
      else ue_problem V (ar_sent res))"

definition ProblemDetail :: "ui_env \<Rightarrow> api_result \<Rightarrow> ui_message" where
  "ProblemDetail V res =
     (case Problem V res of
        Some p \<Rightarrow> if problem.pr_Detail p \<noteq> [] then MsgText (problem.pr_Detail p) else MsgText (problem.pr_Title p)
      | None \<Rightarrow>
          if ar_Status res = 429 \<and> Get (ar_Header res) ''Retry-After'' \<noteq> [] then MsgRetryAfter (Get (ar_Header res) ''Retry-After'')
          else if 0 < length (ar_Body res) \<and> length (ar_Body res) < 300 then MsgText (ar_Body res)
          else MsgStatus (ar_Status res))"

text \<open>The request the API gets: its own headers, but the browser's address and host.\<close>

definition api_request :: "ui_env \<Rightarrow> ui_request \<Rightarrow> string \<Rightarrow> string \<Rightarrow> string \<Rightarrow> http_values \<Rightarrow> request" where
  "api_request V r token target body headers =
     (let proto = Get (rq_Header r) ''X-Forwarded-Proto'';
          h0 = (if proto \<noteq> [] then [(''X-Forwarded-Proto'', proto)] else []);
          h1 = (if token \<noteq> [] then AList.update ''Authorization'' (''Bearer '' @ token) h0 else h0)
      in \<lparr>rq_Header = fold (\<lambda>(k, v). AList.update k v) headers h1, rq_Query = snd (ue_target V target), rq_PathValue = [],
          rq_Path = fst (ue_target V target), rq_Host = rq_Host r, rq_RemoteAddr = rq_RemoteAddr r, rq_Body = body,
          rq_ctxUserID = None\<rparr>)"

definition ui_call ::
  "ui_env \<Rightarrow> ui_request \<Rightarrow> string \<Rightarrow> string \<Rightarrow> string \<Rightarrow> string \<Rightarrow> http_values \<Rightarrow> panel \<Rightarrow> api_result \<times> panel" where
  "ui_call V r token verb target body headers p =
     (case ue_api V of
        None \<Rightarrow> (\<lparr>ar_Status = 500, ar_Body = ''api handler not wired'', ar_Header = [], ar_sent = RawBody ''api handler not wired''\<rparr>, p)
      | Some h \<Rightarrow>
          (case h verb (api_request V r token target body headers) p of (resp, p') \<Rightarrow>
             (\<lparr>ar_Status = rp_Status resp, ar_Body = ue_bytes V (rp_Body resp), ar_Header = rp_Header resp, ar_sent = rp_Body resp\<rparr>, p')))"

text \<open>A payload that cannot be marshalled is answered here; its error text is \<open>e\<close>.\<close>

definition apiSend ::
  "ui_env \<Rightarrow> string \<Rightarrow> ui_request \<Rightarrow> string \<Rightarrow> string \<Rightarrow> string \<Rightarrow> json option \<Rightarrow> http_values \<Rightarrow> panel \<Rightarrow> api_result \<times> panel" where
  "apiSend V e r token verb target payload headers p =
     (case payload of
        None \<Rightarrow> ui_call V r token verb target [] headers p
      | Some v \<Rightarrow>
          (case ev_marshal (ue_E V) v of
             None \<Rightarrow> (\<lparr>ar_Status = 500, ar_Body = e, ar_Header = [], ar_sent = RawBody e\<rparr>, p)
           | Some raw \<Rightarrow>
               ui_call V r token verb target raw (fold (\<lambda>(k, v). AList.update k v) headers [(''Content-Type'', ''application/json'')]) p))"

definition apiGetJSON ::
  "ui_env \<Rightarrow> ui_request \<Rightarrow> string \<Rightarrow> string \<Rightarrow> (string \<Rightarrow> 'a option) \<Rightarrow> panel \<Rightarrow> (api_result \<times> (ui_message + 'a)) \<times> panel" where
  "apiGetJSON V r token target decode p =
     (case ui_call V r token ''GET'' target [] [] p of (res, p') \<Rightarrow>
        ((res, if ar_Status res \<noteq> 200 then Inl (ProblemDetail V res)
               else case decode (ar_Body res) of None \<Rightarrow> Inl MsgDecode | Some v \<Rightarrow> Inr v), p'))"

subsection \<open>Login, logout, theme\<close>

definition securityHeaders :: http_values where
  "securityHeaders =
     [(''Content-Security-Policy'',
       ''default-src 'none'; script-src 'self'; style-src 'self' 'unsafe-inline'; img-src 'self' data:; connect-src 'self'; base-uri 'none'; form-action 'self'' @ [CHR 0x27]),
      (''X-Content-Type-Options'', ''nosniff''), (''X-Frame-Options'', ''DENY''), (''Referrer-Policy'', ''same-origin'')]"

definition themeOf :: "ui_request \<Rightarrow> string" where
  "themeOf r =
     (case map_of (uq_Cookies r) themeCookieName of
        None \<Rightarrow> ''light''
      | Some v \<Rightarrow> if v \<noteq> ''dark'' \<and> v \<noteq> ''light'' then ''light'' else v)"

definition renderLogin :: "http_values \<Rightarrow> ui_request \<Rightarrow> ui_message \<Rightarrow> ui_response" where
  "renderLogin hdr r msg =
     \<lparr>ur_Status = 200,
      ur_Header = hdr @ securityHeaders @ [(''Content-Type'', ''text/html; charset=utf-8''), (''Cache-Control'', ''no-store'')],
      ur_Cookies = [], ur_Body = LoginForm msg (Get (rq_Query r) ''next'') (themeOf r)\<rparr>"

definition handleLoginPage :: "ui_env \<Rightarrow> int \<Rightarrow> string option \<Rightarrow> ui_handler" where
  "handleLoginPage V now rnd r s =
     (case resolveSession (ue_E V) now rnd r (si_ui s, p_db (si_panel s)) of (res, ud) \<Rightarrow>
        (case res of
           None \<Rightarrow> (renderLogin [] r MsgNone, with_db s ud)
         | Some (token, cs) \<Rightarrow>
             (case ui_verifyAccess (ue_E V) now token (snd ud) of
                Inl _ \<Rightarrow> ((renderLogin [] r MsgNone)\<lparr>ur_Cookies := cs\<rparr>, with_db s ud)
              | Inr c \<Rightarrow> (redirect_to (ue_Redirect V) cs (if cl_role c = ''admin'' then ''/admin/overview'' else ''/''), with_db s ud))))"

definition form_value :: "http_values \<Rightarrow> string \<Rightarrow> string" where
  "form_value form k = Get form k"

text \<open>Where a form leads back to: its \<^verbatim>\<open>next\<close>, if that stays on the site.\<close>

definition form_target :: "http_values \<Rightarrow> string" where
  "form_target form =
     (let target = (if form_value form ''next'' = [] then ''/'' else form_value form ''next'') in
      if isSafeRedirect target then target else ''/'')"

definition login_payload :: "string \<Rightarrow> string \<Rightarrow> json" where
  "login_payload username password = JObj [(''password'', JStr password), (''username'', JStr username)]"

definition login_pair :: "ui_env \<Rightarrow> int \<Rightarrow> string \<times> string \<Rightarrow> pair" where
  "login_pair V now tokens =
     \<lparr>AccessToken = fst tokens, RefreshToken = snd tokens, AccessExpiresAt = now + ue_accessTTL V, RefreshExpiresAt = now + ue_refreshTTL V\<rparr>"

definition handleLoginSubmit :: "ui_env \<Rightarrow> string \<Rightarrow> int \<Rightarrow> ui_handler" where
  "handleLoginSubmit V e now r s =
     (if \<not> sameOriginOk (ue_E V) (ue_url_host V) r then (renderLogin [] r MsgOrigin, s)
      else let ip = (case ev_SplitHostPort (ue_E V) (rq_RemoteAddr r) of None \<Rightarrow> rq_RemoteAddr r | Some (h, _) \<Rightarrow> h) in
        (case allow (''login:'' @ ip) now (us_limiter (si_ui s)) of (ok, l) \<Rightarrow>
           let s1 = s\<lparr>si_ui := (si_ui s)\<lparr>us_limiter := l\<rparr>\<rparr> in
           if \<not> ok then (renderLogin [(''Retry-After'', ''30'')] r MsgTooOften, s1)
           else (case uq_Form r of
                   None \<Rightarrow> (renderLogin [] r MsgForm, s1)
                 | Some form \<Rightarrow>
                     let username = TrimSpace (form_value form ''username''); password = form_value form ''password'' in
                     if username = [] \<or> password = [] then (renderLogin [] r MsgEmptyFields, s1)
                     else (case apiSend V e r [] ''POST'' ''/session'' (Some (login_payload username password)) [] (si_panel s1) of (res, p) \<Rightarrow>
                       let s2 = s1\<lparr>si_panel := p\<rparr> in
                       if ar_Status res \<noteq> 201
                       then (renderLogin [] r (if ar_Status res = 401 then MsgCredentials else ProblemDetail V res), s2)
                       else (case ue_tokens V (ar_Body res) of
                               None \<Rightarrow> (renderLogin [] r MsgDecode, s2)
                             | Some tokens \<Rightarrow> (redirect_to (ue_Redirect V) (setSessionCookies r (login_pair V now tokens)) (form_target form), s2))))))"

text \<open>The token is the one of the guard in front.\<close>

definition handleLogout :: "ui_env \<Rightarrow> string \<Rightarrow> ui_handler" where
  "handleLogout V token r s =
     (let p' = (if sameOriginOk (ue_E V) (ue_url_host V) r then snd (ui_call V r token ''DELETE'' ''/session'' [] [] (si_panel s)) else si_panel s)
      in (redirect_to (ue_Redirect V) clearSessionCookies ''/login'', s\<lparr>si_panel := p'\<rparr>))"

definition theme_cookie :: "string \<Rightarrow> cookie" where
  "theme_cookie v = \<lparr>ck_Name = themeCookieName, ck_Value = v, ck_Path = ''/'', ck_HttpOnly = False, ck_SameSiteLax = True, ck_Secure = False,
     ck_Expires = None, ck_MaxAge = 365 * 24 * 3600\<rparr>"

definition handleThemeToggle :: "ui_env \<Rightarrow> ui_handler" where
  "handleThemeToggle V r s =
     (let next_theme = (if themeOf r = ''light'' then ''dark'' else ''light'');
          target = (case uq_Form r of None \<Rightarrow> ''/'' | Some form \<Rightarrow> form_target form)
      in (redirect_to (ue_Redirect V) [theme_cookie next_theme] target, s))"

text \<open>\<^verbatim>\<open>requireForm\<close>: the check in front of every form of the pages.\<close>

definition requireForm :: "ui_env \<Rightarrow> ui_request \<Rightarrow> ui_response option" where
  "requireForm V r =
     (if \<not> sameOriginOk (ue_E V) (ue_url_host V) r
      then Some \<lparr>ur_Status = 403, ur_Header = [(''Content-Type'', ''text/plain; charset=utf-8''), (''X-Content-Type-Options'', ''nosniff'')],
        ur_Cookies = [], ur_Body = PageBody (''cross-origin form submission rejected'' @ [CHR 0x0A])\<rparr>
      else None)"

definition usernameOf :: "env \<Rightarrow> int \<Rightarrow> string \<Rightarrow> db \<Rightarrow> string" where
  "usernameOf E now token d = (case ui_verifyAccess E now token d of Inl _ \<Rightarrow> [] | Inr c \<Rightarrow> cl_username c)"

end
