(* ===== verification/Webui_Safety.thy ===== *)
theory Webui_Safety
  imports Webui_Session
begin

text \<open>
  What the browser sessions guarantee: the rate of logins, one rotation for all tabs, no session behind
  a logout, and redirects that stay on the site.
\<close>

subsection \<open>The rate of logins\<close>

text \<open>The limiter over a sequence of attempts; the newest decision comes first.\<close>

fun wl_run :: "(int \<times> string) list \<Rightarrow> window_limiter \<Rightarrow> (int \<times> string \<times> bool) list \<times> window_limiter" where
  "wl_run [] l = ([], l)"
| "wl_run ((now, key) # evs) l =
     (case wl_run evs l of (ds, l1) \<Rightarrow> (case allow key now l1 of (ok, l2) \<Rightarrow> ((now, key, ok) # ds, l2)))"

definition grants :: "string \<Rightarrow> (int \<times> string \<times> bool) list \<Rightarrow> int list" where
  "grants key ds = map fst (filter (\<lambda>(t, k, ok). k = key \<and> ok) ds)"

lemma grants_Cons [simp]:
  "grants key [] = []" "grants key ((t, k, ok) # ds) = (if k = key \<and> ok then [t] else []) @ grants key ds"
  by (simp_all add: grants_def)

lemma TimeSub_less: "0 < w \<Longrightarrow> in_i64 w \<Longrightarrow> TimeSub t u < w \<longleftrightarrow> t - u < w"
  using TimeSub_ge [of w t u] by auto

text \<open>The kept times are the granted ones that a later attempt could still count.\<close>

definition hits_ok :: "int \<Rightarrow> window_limiter \<Rightarrow> (int \<times> string \<times> bool) list \<Rightarrow> bool" where
  "hits_ok now l ds \<longleftrightarrow> (\<forall>key n. now \<le> n \<longrightarrow>
     filter (\<lambda>t. n - t < wl_window l) (rev (wl_hits l key)) = filter (\<lambda>t. n - t < wl_window l) (grants key ds))"

lemma allow_window: "allow key now l = (ok, l') \<Longrightarrow> wl_window l' = wl_window l \<and> wl_capacity l' = wl_capacity l"
  by (auto simp: allow_def Let_def split: if_splits)

lemma wl_run_window: "wl_window (snd (wl_run evs l)) = wl_window l \<and> wl_capacity (snd (wl_run evs l)) = wl_capacity l"
  by (induction evs l rule: wl_run.induct) (auto split: prod.splits dest!: allow_window)

lemma allow_hits:
  assumes "allow key now l = (ok, l')" and "hits_ok now0 l ds" and "now0 \<le> now" and "0 < wl_window l" "in_i64 (wl_window l)"
  shows "hits_ok now l' ((now, key, ok) # ds)"
    and "ok \<longleftrightarrow> length (filter (\<lambda>t. now - t < wl_window l) (grants key ds)) < wl_capacity l"
proof -
  let ?W = "wl_window l" and ?recent = "filter (\<lambda>t. TimeSub now t < wl_window l) (wl_hits l key)"
  have rec: "rev ?recent = filter (\<lambda>t. now - t < ?W) (grants key ds)"
    using assms(2,3) by (simp add: rev_filter TimeSub_less [OF assms(4,5)] hits_ok_def)
  have later: "filter (\<lambda>t. n - t < ?W) (rev ?recent) = filter (\<lambda>t. n - t < ?W) (grants key ds)" if "now \<le> n" for n
    unfolding rec filter_filter by (rule filter_cong) (use that in auto)
  have "length ?recent = length (filter (\<lambda>t. now - t < ?W) (grants key ds))" using arg_cong [OF rec, of length] by simp
  then show ok: "ok \<longleftrightarrow> length (filter (\<lambda>t. now - t < ?W) (grants key ds)) < wl_capacity l"
    using assms(1) by (auto simp: allow_def Let_def split: if_splits)
  have l': "l' = l\<lparr>wl_hits := (wl_hits l)(key := if ok then ?recent @ [now] else ?recent)\<rparr>"
    using assms(1) by (auto simp: allow_def Let_def split: if_splits)
  show "hits_ok now l' ((now, key, ok) # ds)"
    unfolding hits_ok_def
  proof (intro allI impI)
    fix k n assume n: "now \<le> n"
    show "filter (\<lambda>t. n - t < wl_window l') (rev (wl_hits l' k)) = filter (\<lambda>t. n - t < wl_window l') (grants k ((now, key, ok) # ds))"
      using later [OF n] assms(2,3) n by (auto simp: l' hits_ok_def)
  qed
qed

lemma wl_run_hits:
  "0 < w \<Longrightarrow> in_i64 w \<Longrightarrow> sorted_wrt (\<lambda>a b. fst b \<le> fst a) evs \<Longrightarrow> (case evs of [] \<Rightarrow> True | e # _ \<Rightarrow> fst e \<le> now) \<Longrightarrow>
     hits_ok now (snd (wl_run evs (newLimiter n w))) (fst (wl_run evs (newLimiter n w)))"
proof (induction evs arbitrary: now)
  case Nil
  then show ?case by (simp add: hits_ok_def newLimiter_def)
next
  case (Cons e evs)
  obtain t key where e: "e = (t, key)" by (cases e)
  obtain ds l where r: "wl_run evs (newLimiter n w) = (ds, l)" by force
  obtain ok l' where a: "allow key t l = (ok, l')" by force
  have "hits_ok t l ds" using Cons r by (force simp: e split: list.splits)
  moreover have "wl_window l = w" using wl_run_window [of evs "newLimiter n w"] r by (simp add: newLimiter_def)
  ultimately have "hits_ok t l' ((t, key, ok) # ds)" using allow_hits(1) [OF a] Cons.prems(1,2) by blast
  with Cons.prems(4) show ?case by (simp add: e r a hits_ok_def)
qed

text \<open>
  C18: an address gets few logins through. Over any sequence of attempts, from any addresses and under
  a clock that does not run backwards, in no span as long as the window does a key get more
  attempts through than the capacity: the window slides, so there is no burst across its edge.
\<close>

theorem logins_bounded:
  assumes "0 < w" and "in_i64 w" and "sorted_wrt (\<lambda>a b. fst b \<le> fst a) evs"
  shows "length (filter (\<lambda>t. a \<le> t \<and> t < a + w) (grants key (fst (wl_run evs (newLimiter n w))))) \<le> n"
  using assms(3)
proof (induction evs)
  case (Cons e evs)
  obtain t k where e: "e = (t, k)" by (cases e)
  obtain ds l where r: "wl_run evs (newLimiter n w) = (ds, l)" by force
  obtain ok l' where al: "allow k t l = (ok, l')" by force
  have l: "wl_window l = w" "wl_capacity l = n" using wl_run_window [of evs "newLimiter n w"] r by (simp_all add: newLimiter_def)
  have IH: "length (filter (\<lambda>u. a \<le> u \<and> u < a + w) (grants key ds)) \<le> n" using Cons by (simp add: r)
  show ?case
  proof (cases "k = key \<and> ok \<and> a \<le> t \<and> t < a + w")
    case True
    have h: "hits_ok t l ds"
      using wl_run_hits [OF assms(1,2), of evs t n] Cons.prems r by (force simp: e split: list.splits)
    have "length (filter (\<lambda>u. t - u < w) (grants key ds)) < n"
      using allow_hits(2) [OF al h] l assms(1,2) True by simp
    moreover have "length (filter (\<lambda>u. a \<le> u \<and> u < a + w) (grants key ds)) \<le> length (filter (\<lambda>u. t - u < w) (grants key ds))"
    proof -
      have "filter (\<lambda>u. a \<le> u \<and> u < a + w) (grants key ds) = filter (\<lambda>u. a \<le> u \<and> u < a + w) (filter (\<lambda>u. t - u < w) (grants key ds))"
        unfolding filter_filter by (rule filter_cong) (use True in auto)
      then show ?thesis by (metis length_filter_le)
    qed
    moreover have "allow key t l = (ok, l')" using al True by simp
    ultimately show ?thesis using True by (simp add: e r)
  qed (use IH in \<open>auto simp: e r al\<close>)
qed simp

theorem logins_bounded_witness:
  "length (filter (\<lambda>t. 0 \<le> t \<and> t < 300) (grants ''k'' (fst (wl_run [(299, ''k''), (7, ''k''), (7, ''j''), (5, ''k'')] (newLimiter 2 300))))) \<le> 2"
  using logins_bounded [of 300 "[(299, ''k''), (7, ''k''), (7, ''j''), (5, ''k'')]" 0 "''k''" 2] by (simp add: in_i64_def)

subsection \<open>Redirects\<close>

text \<open>
  How a browser reads the target of a redirect (the URL standard): tabs and line breaks are dropped,
  control characters and spaces around it are stripped, a scheme or two slashes (or backslashes)
  name another site.
\<close>

definition url_stripped :: "string \<Rightarrow> string" where
  "url_stripped t =
     (let outer = (\<lambda>c :: char. of_char c \<le> (32 :: nat)) in
      filter (\<lambda>c. c \<notin> {CHR 0x09, CHR 0x0A, CHR 0x0D}) (rev (dropWhile outer (rev (dropWhile outer t)))))"

definition leaves_site :: "string \<Rightarrow> bool" where
  "leaves_site t =
     (let u = url_stripped t; slash = (\<lambda>c. c = CHR ''/'' \<or> c = CHR 0x5C) in
      case u of
        a # b # _ \<Rightarrow> slash a \<and> slash b \<or> \<not> slash a \<and> CHR '':'' \<in> set (takeWhile (\<lambda>c. c \<notin> set ''/?#'') u)
      | _ \<Rightarrow> False)"

lemma Contains_char: "Contains s [c] \<longleftrightarrow> c \<in> set s"
  by (induction s) (auto simp: HasPrefix_def)

lemma safe_target:
  assumes "isSafeRedirect t" and "t \<noteq> []" and "set t \<inter> {CHR 0x09, CHR 0x0A, CHR 0x0D} = {}"
  shows "\<not> leaves_site t"
proof -
  from assms(1,2) have p: "HasPrefix t ''/''" "\<not> HasPrefix t ''//''" and b: "CHR 0x5C \<notin> set t"
    by (auto simp: isSafeRedirect_def Contains_char split: if_splits)
  from p(1) obtain v where t: "t = CHR ''/'' # v" by (cases t) (auto simp: HasPrefix_def)
  have v: "v = [] \<or> hd v \<noteq> CHR ''/''" using p(2) by (cases v) (auto simp: t HasPrefix_def)
  let ?outer = "\<lambda>c :: char. of_char c \<le> (32 :: nat)"
  have keep: "\<not> ?outer (CHR ''/'')" by simp
  define w where "w = rev (dropWhile ?outer (rev v))"
  have "rev (dropWhile ?outer (rev (dropWhile ?outer t))) = CHR ''/'' # w"
    using keep by (simp add: t w_def dropWhile_append)
  moreover obtain x where "v = w @ x"
    using takeWhile_dropWhile_id [of ?outer "rev v"] unfolding w_def by (metis rev_append rev_rev_ident)
  moreover have "filter (\<lambda>c. c \<notin> {CHR 0x09, CHR 0x0A, CHR 0x0D}) (CHR ''/'' # w) = CHR ''/'' # w"
    unfolding filter_id_conv using assms(3) calculation(2) by (auto simp: t)
  ultimately have "url_stripped t = CHR ''/'' # w" "v = w @ x" by (simp_all add: url_stripped_def Let_def)
  with v b show ?thesis by (cases w) (auto simp: leaves_site_def Let_def t)
qed

text \<open>The check lets a tab or a line break through, which browsers drop.\<close>

lemma tab_leaves_site:
  "isSafeRedirect (''/'' @ [CHR 0x09] @ ''/evil.example'')" "leaves_site (''/'' @ [CHR 0x09] @ ''/evil.example'')"
  by code_simp+

text \<open>
  C19: the forms of the login and of the theme lead back to the site. Whatever \<^verbatim>\<open>next\<close> a form carries,
  short of a tab or a line break in it, the redirect behind it names a path of the site, for a
  browser that reads it by the URL standard.
\<close>

theorem redirects_stay_on_site:
  assumes "set (form_value form ''next'') \<inter> {CHR 0x09, CHR 0x0A, CHR 0x0D} = {}"
  shows "\<not> leaves_site (form_target form)"
proof (cases "form_value form ''next'' = [] \<or> \<not> isSafeRedirect (form_value form ''next'')")
  case True
  have "isSafeRedirect ''/''" "\<not> leaves_site ''/''" by code_simp+
  with True show ?thesis by (auto simp: form_target_def)
next
  case False
  with safe_target [OF _ _ assms] show ?thesis by (simp add: form_target_def)
qed

theorem redirects_stay_on_site_witness:
  "\<not> leaves_site (form_target [(''next'', ''//evil.example'')]) \<and> leaves_site ''//evil.example''"
  using redirects_stay_on_site [of "[(''next'', ''//evil.example'')]"] by (simp add: form_value_def Get_def leaves_site_def url_stripped_def)

subsection \<open>Tabs\<close>

text \<open>
  Any number of tabs renew their sessions at once. A rotation and the entry of its pair into the cache
  are two steps, as are a refused rotation and the look into the cache; everything else that
  happens to the sessions of the panel comes in between. \<open>tb_answers\<close> are the pairs handed out, by
  the session of the refresh token presented. A new session id is one not presented before.
\<close>

record tabs =
  tb_db :: db
  tb_ui :: ui_state
  tb_pending :: "(string \<times> pair) list"
  tb_answers :: "(string \<times> pair) list"

definition tabs_start :: "db \<Rightarrow> ui_state \<Rightarrow> tabs" where
  "tabs_start d u = \<lparr>tb_db = d, tb_ui = u, tb_pending = [], tb_answers = []\<rparr>"

inductive tab_step :: "env \<Rightarrow> tabs \<Rightarrow> tabs \<Rightarrow> bool" for E where
  tab_rotated:
    "VerifyRefresh (ev_parse E) (ev_auth E) token now = Inr c \<Longrightarrow>
     Rotate (ev_sign E) (ev_parse E) db_refresh_store (ev_auth E) token now rnd (tb_db s) = Inr (pr, d) \<Longrightarrow>
     session_step (tb_db s) [new] d \<Longrightarrow> new \<notin> fst ` set (tb_answers s) \<Longrightarrow> new \<noteq> cl_id c \<Longrightarrow>
     tab_step E s (s\<lparr>tb_db := d, tb_pending := (cl_id c, pr) # tb_pending s, tb_answers := (cl_id c, pr) # tb_answers s\<rparr>)"
| tab_remembered:
    "tb_pending s = ps @ (jti, pr) # ps' \<Longrightarrow>
     tab_step E s (s\<lparr>tb_ui := rememberPair now jti pr (tb_ui s), tb_pending := ps @ ps'\<rparr>)"
| tab_reused:
    "VerifyRefresh (ev_parse E) (ev_auth E) token now = Inr c \<Longrightarrow> reuse_pair E now (cl_id c) (tb_ui s) (tb_db s) = Some pr \<Longrightarrow>
     tab_step E s (s\<lparr>tb_answers := (cl_id c, pr) # tb_answers s\<rparr>)"
| tab_other:
    "session_step (tb_db s) js d \<Longrightarrow> set js \<inter> fst ` set (tb_answers s) = {} \<Longrightarrow> tab_step E s (s\<lparr>tb_db := d\<rparr>)"

definition tabs_ok :: "tabs \<Rightarrow> bool" where
  "tabs_ok s \<longleftrightarrow> db_ok (tb_db s) \<and> (\<forall>(j, pr) \<in> set (tb_answers s). session_dead j (tb_db s)) \<and>
     (\<forall>j pr pr'. (j, pr) \<in> set (tb_answers s) \<and> (j, pr') \<in> set (tb_answers s) \<longrightarrow> pr = pr') \<and>
     set (tb_pending s) \<subseteq> set (tb_answers s) \<and>
     (\<forall>j e. us_rotated (tb_ui s) j = Some e \<longrightarrow> (j, re_pair e) \<in> set (tb_answers s))"

lemma rememberPair_entries:
  "us_rotated (rememberPair now jti pr u) j = Some e \<Longrightarrow> j = jti \<and> re_pair e = pr \<or> us_rotated u j = Some e"
  by (auto simp: rememberPair_def split: if_splits option.splits)

lemma tab_step_ok: "tab_step E s s' \<Longrightarrow> tabs_ok s \<Longrightarrow> tabs_ok s'"
proof (induction rule: tab_step.induct)
  case (tab_rotated token now c rnd s pr d new)
  from tab_rotated(1) have v: "verify (ev_parse E) (ev_auth E) token ClaimTypeRefresh now = Inr c" by (simp add: VerifyRefresh_def)
  from tab_rotated(6) have ok: "db_ok (tb_db s)" by (simp add: tabs_ok_def)
  have fresh: "(cl_id c, pr') \<notin> set (tb_answers s)" for pr'
    using tab_rotated(2,6) dead_session_refused(2) [OF ok _ v refl] by (fastforce simp: tabs_ok_def)
  note con = db_sessions.rotate_consumes [OF ok v tab_rotated(2)]
  have "session_dead (cl_id c) d" using con session_dead_get by (fastforce simp: db_refresh_store_def)
  moreover have "session_dead j d" if "(j, pr') \<in> set (tb_answers s)" for j pr'
  proof (rule session_step_dead [OF tab_rotated(3)])
    show "session_dead j (tb_db s)" using tab_rotated(6) that by (auto simp: tabs_ok_def)
    show "j \<notin> set [new]" using tab_rotated(4) that by force
  qed
  ultimately show ?case using tab_rotated(6) con(1) fresh by (auto simp: tabs_ok_def)
next
  case (tab_remembered s ps jti pr ps' now)
  then show ?case by (auto simp: tabs_ok_def dest!: rememberPair_entries)
next
  case (tab_reused token now c s pr)
  then have "(cl_id c, pr) \<in> set (tb_answers s)"
    by (auto simp: reuse_pair_def recentPair_def tabs_ok_def split: option.splits if_splits sum.splits)
  with tab_reused(3) show ?case by (auto simp: tabs_ok_def)
next
  case (tab_other s js d)
  have "session_dead j d" if "(j, pr) \<in> set (tb_answers s)" for j pr
  proof (rule session_step_dead [OF tab_other(1)])
    show "session_dead j (tb_db s)" using tab_other(3) that by (auto simp: tabs_ok_def)
    show "j \<notin> set js" using tab_other(2) that by force
  qed
  then show ?case using tab_other session_step_ok [OF tab_other(1)] by (auto simp: tabs_ok_def)
qed


definition tab_server :: env where
  "tab_server = demo_server\<lparr>ev_sign := (\<lambda>_ c. Some (cl_typ c))\<rparr>"

definition tab_pair :: pair where
  "tab_pair = \<lparr>AccessToken = ''access'', RefreshToken = ''refresh'', AccessExpiresAt = 1060000000000, RefreshExpiresAt = 4600000000000\<rparr>"

definition tab_db :: db where
  "tab_db = demo_db\<lparr>refresh_tokens := [demo_token\<lparr>rt_revoked := True\<rparr>,
     \<lparr>rt_jti = RawURLEncode ''y'', rt_user_id = 1, rt_expires_at = 4600, rt_revoked = False, rt_created_at = 1000\<rparr>]\<rparr>"

lemma tab_ids: "RawURLEncode ''y'' \<noteq> RawURLEncode ''x''"
  by code_simp

lemma tab_replace: "ReplaceRefreshToken (RawURLEncode ''x'') (RawURLEncode ''y'') 1 4600 1000 demo_db = Inr (True, tab_db)"
  using tab_ids
  by (simp add: ReplaceRefreshToken_def InsertRefreshToken_def demo_db_def demo_token_def demo_user_def tab_db_def empty_db_def Let_def
      user_exists_def update_where_def affected_def)

lemma tab_rotate:
  "Rotate (ev_sign tab_server) (ev_parse tab_server) db_refresh_store (ev_auth tab_server) ''R'' 1000000000000 (Some ''y'') demo_db = Inr (tab_pair, tab_db)"
  using demo_verify(2) tab_replace
  by (simp add: Rotate_def tab_server_def newPair_def newJTI_def signKeyed_def demo_manager_def db_refresh_store_def demo_UserID demo_id
      tab_pair_def Unix_def ClaimTypeAccess_def ClaimTypeRefresh_def)


subsection \<open>After a logout\<close>

text \<open>All rows of a session belong to the account.\<close>

definition owned_by :: "int \<Rightarrow> db \<Rightarrow> string \<Rightarrow> bool" where
  "owned_by uid d j \<longleftrightarrow> (\<forall>t \<in> set (refresh_tokens d). rt_jti t = j \<longrightarrow> rt_user_id t = uid)"

definition token_owned :: "env \<Rightarrow> int \<Rightarrow> int \<Rightarrow> db \<Rightarrow> string \<Rightarrow> string \<Rightarrow> bool" where
  "token_owned E now uid d typ token \<longleftrightarrow> (\<forall>c. verify (ev_parse E) (ev_auth E) token typ now = Inr c \<longrightarrow> owned_by uid d (cl_id c))"

lemma revoked_dead: "owned_by uid d j \<Longrightarrow> session_dead j (RevokeAllRefreshTokens uid d)"
  by (auto simp: session_dead_def RevokeAllRefreshTokens_def set_update_where owned_by_def)

lemma revoked_access:
  assumes "db_ok d" and "token_owned E now uid d ClaimTypeAccess token"
  shows "\<exists>e. ui_verifyAccess E now token (RevokeAllRefreshTokens uid d) = Inl e"
proof (cases "verify (ev_parse E) (ev_auth E) token ClaimTypeAccess now")
  case (Inl e)
  then show ?thesis by (simp add: ui_verifyAccess_def VerifyAccess_def)
next
  case (Inr c)
  with assms(2) have "session_dead (cl_id c) (RevokeAllRefreshTokens uid d)" by (simp add: token_owned_def revoked_dead)
  from dead_session_refused(1) [OF RevokeAllRefreshTokens_ok [OF assms(1)] this Inr refl] show ?thesis by (simp add: ui_verifyAccess_def)
qed

lemma revoked_rotation:
  assumes "db_ok d" and "token_owned E now uid d ClaimTypeRefresh token"
    and "\<forall>j e. us_rotated u j = Some e \<longrightarrow> token_owned E now uid d ClaimTypeAccess (AccessToken (re_pair e))"
  shows "\<exists>e. rotate_session E now rnd token (u, RevokeAllRefreshTokens uid d) = (Inl e, u, RevokeAllRefreshTokens uid d)"
proof (cases "verify (ev_parse E) (ev_auth E) token ClaimTypeRefresh now")
  case (Inl e)
  then show ?thesis by (simp add: rotate_session_def VerifyRefresh_def)
next
  case (Inr c)
  let ?d = "RevokeAllRefreshTokens uid d"
  from Inr assms(2) have "session_dead (cl_id c) ?d" by (simp add: token_owned_def revoked_dead)
  from dead_session_refused(2) [OF RevokeAllRefreshTokens_ok [OF assms(1)] this Inr refl]
  obtain e where e: "Rotate (ev_sign E) (ev_parse E) db_refresh_store (ev_auth E) token now rnd ?d = Inl e"
    by (cases "Rotate (ev_sign E) (ev_parse E) db_refresh_store (ev_auth E) token now rnd ?d") auto
  have "reuse_pair E now (cl_id c) u ?d = None"
  proof (cases "us_rotated u (cl_id c)")
    case (Some en)
    with assms(3) revoked_access [OF assms(1), of E now uid "AccessToken (re_pair en)"] show ?thesis
      by (auto simp: reuse_pair_def recentPair_def)
  qed (simp add: reuse_pair_def recentPair_def)
  with Inr e show ?thesis by (simp add: rotate_session_def VerifyRefresh_def)
qed


definition demo_browser :: ui_request where
  "demo_browser = request.extend demo_request
     \<lparr>uq_Cookies = [(''singhub_at'', ''A''), (''singhub_rt'', ''R'')], uq_TLS = True, uq_Form = None\<rparr>"


end
