(* ===== verification/Go_Text.thy ===== *)
theory Go_Text
  imports Go_Strings
begin

text \<open>
  More of Go's \<^verbatim>\<open>strings\<close> and \<^verbatim>\<open>path/filepath\<close> packages, for the start of the program and the web
  pages: searching, fields, replacing, and file paths (on Unix).
\<close>

subsection \<open>Searching\<close>

text \<open>\<^verbatim>\<open>strings.Index\<close>: \<open>None\<close> stands for -1. The separator is not empty where the program searches.\<close>

fun Index :: "string \<Rightarrow> string \<Rightarrow> nat option" where
  "Index [] p = (if p = [] then Some 0 else None)"
| "Index (c # s) p = (if HasPrefix (c # s) p then Some 0 else map_option Suc (Index s p))"

definition LastIndexByte :: "string \<Rightarrow> char \<Rightarrow> nat option" where
  "LastIndexByte s c = (if c \<in> set s then Some (length s - 1 - length (takeWhile (\<lambda>x. x \<noteq> c) (rev s))) else None)"

text \<open>\<^verbatim>\<open>strings.Fields\<close>: the parts between runs of white space.\<close>

definition space_width :: "string \<Rightarrow> nat" where
  "space_width s = (case find (HasPrefix s) space_encodings of None \<Rightarrow> 0 | Some e \<Rightarrow> length e)"

function fields_from :: "string \<Rightarrow> string \<Rightarrow> string list" where
  "fields_from acc [] = (if acc = [] then [] else [rev acc])"
| "fields_from acc (c # s) =
     (if space_width (c # s) = 0 then fields_from (c # acc) s
      else (if acc = [] then [] else [rev acc]) @ fields_from [] (drop (space_width (c # s) - 1) s))"
  by pat_completeness auto

termination fields_from
  by (relation "measure (\<lambda>(acc, s). length s)") auto

definition Fields :: "string \<Rightarrow> string list" where
  "Fields s = fields_from [] s"

text \<open>\<^verbatim>\<open>strings.ReplaceAll\<close> for a text that is not empty.\<close>

function ReplaceAll :: "string \<Rightarrow> string \<Rightarrow> string \<Rightarrow> string" where
  "ReplaceAll [] old new = []"
| "ReplaceAll (c # s) old new =
     (if old \<noteq> [] \<and> HasPrefix (c # s) old then new @ ReplaceAll (drop (length old - 1) s) old new
      else c # ReplaceAll s old new)"
  by pat_completeness auto

termination ReplaceAll
  by (relation "measure (\<lambda>(s, old, new). length s)") auto

subsection \<open>File paths\<close>

text \<open>\<^verbatim>\<open>filepath.Clean\<close>: the parts are kept in reverse; \<^verbatim>\<open>..\<close> removes the part before it unless that
  is itself a leading \<^verbatim>\<open>..\<close>.\<close>

definition file_step :: "bool \<Rightarrow> string list \<Rightarrow> string \<Rightarrow> string list" where
  "file_step rooted done part =
     (if part = [] \<or> part = ''.'' then done
      else if part = ''..'' then
        (case done of [] \<Rightarrow> if rooted then [] else [''..''] | q # qs \<Rightarrow> if q = ''..'' then ''..'' # done else qs)
      else part # done)"

definition file_Clean :: "string \<Rightarrow> string" where
  "file_Clean path =
     (let rooted = HasPrefix path ''/'';
          parts = rev (fold (\<lambda>part done. file_step rooted done part) (Split path (CHR ''/'')) []);
          body = Join parts ''/''
      in if rooted then ''/'' @ body else if parts = [] then ''.'' else body)"

text \<open>\<^verbatim>\<open>filepath.Join\<close> of two elements.\<close>

definition file_Join :: "string \<Rightarrow> string \<Rightarrow> string" where
  "file_Join dir name =
     (if dir = [] then (if name = [] then [] else file_Clean name)
      else file_Clean (if name = [] then dir else dir @ ''/'' @ name))"

definition file_Dir :: "string \<Rightarrow> string" where
  "file_Dir path = file_Clean (case LastIndexByte path (CHR ''/'') of None \<Rightarrow> [] | Some i \<Rightarrow> take (Suc i) path)"

lemma file_step_parts:
  "\<forall>p \<in> set ps. p \<noteq> [] \<Longrightarrow> \<forall>p \<in> set (file_step rooted ps part). p \<noteq> []"
  by (auto simp: file_step_def split: list.splits)

lemma fold_parts:
  "\<forall>p \<in> set ps. p \<noteq> [] \<Longrightarrow> \<forall>p \<in> set (fold (\<lambda>part done. file_step rooted done part) parts ps). p \<noteq> []"
proof (induction parts arbitrary: ps)
  case (Cons part parts)
  from Cons.IH [OF file_step_parts [OF Cons.prems]] show ?case by simp
qed simp

lemma Join_nonempty: "ps \<noteq> [] \<Longrightarrow> \<forall>p \<in> set ps. p \<noteq> [] \<Longrightarrow> Join ps sep \<noteq> []"
  by (cases "(ps, sep)" rule: Join.cases) auto

lemma file_Clean_nonempty [simp]: "file_Clean path \<noteq> []"
proof -
  let ?ps = "rev (fold (\<lambda>part done. file_step (HasPrefix path ''/'') done part) (Split path (CHR ''/'')) [])"
  have "\<forall>p \<in> set ?ps. p \<noteq> []" using fold_parts [of "[]"] by simp
  then have "?ps \<noteq> [] \<Longrightarrow> Join ?ps ''/'' \<noteq> []" using Join_nonempty by blast
  then show ?thesis unfolding file_Clean_def Let_def by (cases "HasPrefix path ''/''") simp_all
qed

subsection \<open>Replacing hides the text\<close>

lemma HasPrefix_iff: "HasPrefix s p \<longleftrightarrow> (\<exists>t. s = p @ t)"
  by (metis HasPrefixD HasPrefix_append)

lemma Contains_iff: "Contains s p \<longleftrightarrow> (\<exists>u v. s = u @ p @ v)"
proof (induction s)
  case (Cons c s)
  have "(\<exists>u v. c # s = u @ p @ v) \<longleftrightarrow> (\<exists>v. c # s = p @ v) \<or> (\<exists>u v. s = u @ p @ v)"
    by (metis append_Cons append_Nil neq_Nil_conv list.inject)
  with Cons show ?case by (simp add: HasPrefix_iff)
qed auto

text \<open>An occurrence in the result cannot reach over a replacement that shares no character with it.\<close>

lemma prefix_of_replaced:
  assumes "ReplaceAll s old new = p @ t" and "p \<noteq> []" and "set p \<inter> set new = {}" and "new \<noteq> []"
  shows "\<exists>t'. s = p @ t'"
  using assms
proof (induction s old new arbitrary: p rule: ReplaceAll.induct)
  case (2 c s old new)
  show ?case
  proof (cases "old \<noteq> [] \<and> HasPrefix (c # s) old")
    case True
    moreover obtain x xs where "new = x # xs" using 2(6) by (cases new) auto
    moreover obtain y ys where "p = y # ys" using 2(4) by (cases p) auto
    ultimately have "y \<in> set new" "y \<in> set p" using 2(3) by auto
    with 2(5) show ?thesis by blast
  next
    case False
    with 2(3) have c: "c # ReplaceAll s old new = p @ t" by simp
    with 2(4) obtain p' where p: "p = c # p'" "ReplaceAll s old new = p' @ t" by (cases p) auto
    show ?thesis
    proof (cases "p' = []")
      case False
      with 2(2) [OF \<open>\<not> (old \<noteq> [] \<and> HasPrefix (c # s) old)\<close> p(2) False] 2(5,6) p show ?thesis by auto
    qed (simp add: p)
  qed
qed simp

theorem ReplaceAll_removes:
  assumes "old \<noteq> []" and "new \<noteq> []" and "set old \<inter> set new = {}"
  shows "\<not> Contains (ReplaceAll s old new) old"
  using assms
proof (induction s old new rule: ReplaceAll.induct)
  case (2 c s old new)
  have cross: "\<not> Contains (new' @ w) old" if "\<not> Contains w old" "set new' \<inter> set old = {}" for new' w
    using that(2)
  proof (induction new')
    case (Cons x xs)
    then have "\<not> HasPrefix (x # xs @ w) old" using \<open>old \<noteq> []\<close> by (cases old) (auto simp: HasPrefix_iff)
    with Cons show ?case by simp
  qed (use that(1) in simp)
  show ?case
  proof (cases "old \<noteq> [] \<and> HasPrefix (c # s) old")
    case True
    with 2(1) [OF True] 2(3-) cross show ?thesis by auto
  next
    case False
    have "\<not> HasPrefix (c # ReplaceAll s old new) old"
    proof
      assume "HasPrefix (c # ReplaceAll s old new) old"
      then obtain t where "ReplaceAll (c # s) old new = old @ t" using False by (auto simp: HasPrefix_iff)
      from prefix_of_replaced [OF this 2(3)] 2(4,5) have "HasPrefix (c # s) old" by (auto simp: HasPrefix_iff)
      with False 2(3) show False by simp
    qed
    with 2(2) [OF False] 2(3-) False show ?thesis by simp
  qed
qed simp

subsection \<open>Trimming what has no white space at its ends\<close>

lemma trim_front_id: "\<forall>e \<in> set encs. e \<noteq> [] \<longrightarrow> \<not> HasPrefix s e \<Longrightarrow> trim_front encs s = s"
proof (cases s)
  case (Cons c t)
  assume "\<forall>e \<in> set encs. e \<noteq> [] \<longrightarrow> \<not> HasPrefix s e"
  then have "find (\<lambda>e. e \<noteq> [] \<and> HasPrefix (c # t) e) encs = None" by (auto simp: find_None_iff Cons)
  then show ?thesis by (simp add: Cons)
qed simp

definition printable :: "char \<Rightarrow> bool" where
  "printable c \<longleftrightarrow> 0x20 < (of_char c :: nat) \<and> (of_char c :: nat) < 0x7F"

lemma TrimSpace_edges:
  assumes "s \<noteq> [] \<Longrightarrow> printable (hd s) \<and> printable (last s)"
  shows "TrimSpace s = s"
proof -
  have "list_all (\<lambda>e. e \<noteq> [] \<and> \<not> printable (hd e)) space_encodings"
    "list_all (\<lambda>e. e \<noteq> [] \<and> \<not> printable (hd e)) (map rev space_encodings)"
    by code_simp+
  then have enc: "\<forall>e \<in> set space_encodings. e \<noteq> [] \<and> \<not> printable (hd e)"
    "\<forall>e \<in> set (map rev space_encodings). e \<noteq> [] \<and> \<not> printable (hd e)"
    unfolding list_all_iff by blast+
  have edge: "\<not> HasPrefix t e" if "t \<noteq> [] \<Longrightarrow> printable (hd t)" "e \<noteq> []" "\<not> printable (hd e)" for t e
    using that by (cases t; cases e) (auto simp: HasPrefix_def)
  have "trim_front space_encodings s = s" using enc(1) edge [of s] assms by (intro trim_front_id) blast
  moreover have "trim_front (map rev space_encodings) (rev s) = rev s"
    using enc(2) edge [of "rev s"] assms by (intro trim_front_id) (auto simp: hd_rev)
  ultimately show ?thesis by (simp add: TrimSpace_def)
qed

lemma TrimSpace_printable: "list_all printable s \<Longrightarrow> TrimSpace s = s"
  by (rule TrimSpace_edges) (auto simp: list_all_iff)

end
