(* ===== verification/Config_Load.thy ===== *)
theory Config_Load
  imports Go_Text
begin

text \<open>
  The configuration (\<^verbatim>\<open>config/config.go\<close>): defaults, file, environment and flags, in the order of
  their precedence, and the choice of the database that the first start keeps in a file. Files,
  the environment and the decoders are parameters. The lemmas show what each setting of a loaded
  configuration is, that it is valid, and that the kept choice is never lost by a crash.
\<close>

subsection \<open>The settings\<close>

record session_settings =
  cs_AccessTokenTTL :: int
  cs_RefreshTokenTTL :: int

record probe_settings =
  cp_SingboxBinPath :: string
  cp_IPProviderURL :: string
  cp_ProbeTimeoutSeconds :: int

record sampler_settings =
  cm_TrafficInterval :: int
  cm_ConnInterval :: int
  cm_PersistInterval :: int
  cm_RetentionDays :: int

record config =
  cf_ListenAddr :: string
  cf_DataDir :: string
  cf_DBPath :: string
  cf_DBDriver :: string
  cf_DBDSN :: string
  cf_LogLevel :: string
  cf_Session :: session_settings
  cf_Probe :: probe_settings
  cf_Sampler :: sampler_settings

text \<open>Durations are nanoseconds.\<close>

definition config_defaults :: config where
  "config_defaults =
     \<lparr>cf_ListenAddr = '':42501'', cf_DataDir = ''data'', cf_DBPath = [], cf_DBDriver = [], cf_DBDSN = [], cf_LogLevel = ''info'',
      cf_Session = \<lparr>cs_AccessTokenTTL = 1800 * 1000000000, cs_RefreshTokenTTL = 30 * 24 * 3600 * 1000000000\<rparr>,
      cf_Probe = \<lparr>cp_SingboxBinPath = [], cp_IPProviderURL = ''http://ip-api.com/json/?fields=query,country,city,as'', cp_ProbeTimeoutSeconds = 15\<rparr>,
      cf_Sampler = \<lparr>cm_TrafficInterval = 1000000000, cm_ConnInterval = 2000000000, cm_PersistInterval = 10000000000, cm_RetentionDays = 30\<rparr>\<rparr>"

datatype config_error = ConfigUnreadable | ConfigSyntax | ListenRequired | TTLsNotPositive | IntervalsNotPositive | RetentionNotPositive
  | BadDriver | BadDSN | SelectionUnreadable | SelectionSyntax | SelectionIO string

definition getenv_or :: "string \<Rightarrow> string \<Rightarrow> string" where
  "getenv_or v dst = (if v = [] then dst else v)"

definition applyEnv :: "(string \<Rightarrow> string) \<Rightarrow> config \<Rightarrow> config" where
  "applyEnv Getenv cfg =
     cfg\<lparr>cf_ListenAddr := getenv_or (Getenv ''SINGHUB_LISTEN'') (cf_ListenAddr cfg),
         cf_DataDir := getenv_or (Getenv ''SINGHUB_DATA_DIR'') (cf_DataDir cfg),
         cf_DBPath := getenv_or (Getenv ''SINGHUB_DB_PATH'') (cf_DBPath cfg),
         cf_DBDriver := getenv_or (Getenv ''SINGHUB_DB_DRIVER'') (cf_DBDriver cfg),
         cf_DBDSN := getenv_or (Getenv ''SINGHUB_DB_DSN'') (cf_DBDSN cfg),
         cf_LogLevel := getenv_or (Getenv ''SINGHUB_LOG_LEVEL'') (cf_LogLevel cfg),
         cf_Probe := (cf_Probe cfg)\<lparr>cp_SingboxBinPath := getenv_or (Getenv ''SINGHUB_SINGBOX_BIN'') (cp_SingboxBinPath (cf_Probe cfg)),
                                    cp_IPProviderURL := getenv_or (Getenv ''SINGHUB_IP_PROVIDER_URL'') (cp_IPProviderURL (cf_Probe cfg))\<rparr>\<rparr>"

definition validate_config :: "config \<Rightarrow> config_error option" where
  "validate_config c =
     (if cf_ListenAddr c = [] then Some ListenRequired
      else if cs_AccessTokenTTL (cf_Session c) \<le> 0 \<or> cs_RefreshTokenTTL (cf_Session c) \<le> 0 then Some TTLsNotPositive
      else if cm_TrafficInterval (cf_Sampler c) \<le> 0 \<or> cm_ConnInterval (cf_Sampler c) \<le> 0 \<or> cm_PersistInterval (cf_Sampler c) \<le> 0
      then Some IntervalsNotPositive
      else if cm_RetentionDays (cf_Sampler c) \<le> 0 then Some RetentionNotPositive
      else None)"

text \<open>The parsed flags; an empty text is one that was not given.\<close>

record flags =
  fl_config :: string
  fl_listen :: string
  fl_data_dir :: string
  fl_log_level :: string

definition config_file :: "(string \<Rightarrow> string option) \<Rightarrow> (string \<Rightarrow> config \<Rightarrow> config option) \<Rightarrow> string \<Rightarrow> config_error + config" where
  "config_file ReadFile yaml_Unmarshal path =
     (if path = [] then Inr config_defaults
      else case ReadFile path of
             None \<Rightarrow> Inl ConfigUnreadable
           | Some raw \<Rightarrow> (case yaml_Unmarshal raw config_defaults of None \<Rightarrow> Inl ConfigSyntax | Some cfg \<Rightarrow> Inr cfg))"

definition apply_flags :: "flags \<Rightarrow> config \<Rightarrow> config" where
  "apply_flags fl cfg =
     cfg\<lparr>cf_ListenAddr := getenv_or (fl_listen fl) (cf_ListenAddr cfg), cf_DataDir := getenv_or (fl_data_dir fl) (cf_DataDir cfg),
         cf_LogLevel := getenv_or (fl_log_level fl) (cf_LogLevel cfg)\<rparr>"

definition Load ::
  "(string \<Rightarrow> string option) \<Rightarrow> (string \<Rightarrow> config \<Rightarrow> config option) \<Rightarrow> (string \<Rightarrow> string) \<Rightarrow> flags \<Rightarrow> config_error + config" where
  "Load ReadFile yaml_Unmarshal Getenv fl =
     (case config_file ReadFile yaml_Unmarshal (fl_config fl) of
        Inl e \<Rightarrow> Inl e
      | Inr cfg0 \<Rightarrow>
          let cfg = apply_flags fl (applyEnv Getenv cfg0) in
          (case validate_config cfg of
             Some e \<Rightarrow> Inl e
           | None \<Rightarrow> Inr (if cf_DBPath cfg = [] then cfg\<lparr>cf_DBPath := file_Join (cf_DataDir cfg) ''panel.db''\<rparr> else cfg)))"

subsection \<open>The choice of the database\<close>

record db_selection =
  ds_Driver :: string
  ds_DSN :: string

definition DatabaseSelectionPath :: "string \<Rightarrow> string" where
  "DatabaseSelectionPath dataDir = file_Join dataDir ''database.json''"

definition ValidateDatabaseSelection :: "db_selection \<Rightarrow> config_error option" where
  "ValidateDatabaseSelection sel =
     (let driver = ToLower (TrimSpace (ds_Driver sel)); dsn = TrimSpace (ds_DSN sel) in
      if driver \<noteq> ''sqlite'' \<and> driver \<noteq> ''postgres'' then Some BadDriver
      else if dsn = [] \<or> ContainsAny dsn [CHR 0x0D, CHR 0x0A] then Some BadDSN
      else None)"

text \<open>A file is absent, there, or cannot be read.\<close>

datatype file_read = Missing | Unreadable | Content string

definition LoadDatabaseSelection :: "(string \<Rightarrow> db_selection option) \<Rightarrow> (string \<Rightarrow> file_read) \<Rightarrow> string \<Rightarrow> config_error + db_selection option" where
  "LoadDatabaseSelection json_Unmarshal ReadFile dataDir =
     (case ReadFile (DatabaseSelectionPath dataDir) of
        Missing \<Rightarrow> Inr None
      | Unreadable \<Rightarrow> Inl SelectionUnreadable
      | Content raw \<Rightarrow>
          (case json_Unmarshal raw of
             None \<Rightarrow> Inl SelectionSyntax
           | Some sel \<Rightarrow> (case ValidateDatabaseSelection sel of Some e \<Rightarrow> Inl e | None \<Rightarrow> Inr (Some sel))))"

text \<open>
  Where saving can fail, with the text of the failure; a failed write leaves a part in the temporary file. The
  result lists the contents of the files after each system call, so also what a crash leaves.
\<close>

datatype save_fault = NoFault | AtMkdir string | AtMarshal string | AtCreate string | AtChmod string | AtWrite string string
  | AtClose string | AtRename string

type_synonym files = "string \<rightharpoonup> string"

definition SaveDatabaseSelection ::
  "(db_selection \<Rightarrow> string) \<Rightarrow> string \<Rightarrow> string \<Rightarrow> save_fault \<Rightarrow> db_selection \<Rightarrow> files \<Rightarrow> config_error option \<times> files list" where
  "SaveDatabaseSelection json_MarshalIndent dataDir tmpName fault sel fs =
     (case ValidateDatabaseSelection sel of
        Some e \<Rightarrow> (Some e, [fs])
      | None \<Rightarrow>
          let path = DatabaseSelectionPath dataDir;
              raw = json_MarshalIndent sel @ [CHR 0x0A];
              created = fs(tmpName \<mapsto> []);
              written = fs(tmpName \<mapsto> raw);
              removed = fs(tmpName := None);
              renamed = (fs(tmpName := None))(path \<mapsto> raw)
          in case fault of
               AtMkdir e \<Rightarrow> (Some (SelectionIO e), [fs])
             | AtMarshal e \<Rightarrow> (Some (SelectionIO e), [fs])
             | AtCreate e \<Rightarrow> (Some (SelectionIO e), [fs])
             | AtChmod e \<Rightarrow> (Some (SelectionIO e), [fs, created, removed])
             | AtWrite part e \<Rightarrow> (Some (SelectionIO e), [fs, created, fs(tmpName \<mapsto> part), removed])
             | AtClose e \<Rightarrow> (Some (SelectionIO e), [fs, created, written, removed])
             | AtRename e \<Rightarrow> (Some (SelectionIO e), [fs, created, written, removed])
             | NoFault \<Rightarrow> (None, [fs, created, written, renamed]))"

subsection \<open>What is loaded\<close>

lemma file_Join_nonempty: "file_Join dir ''panel.db'' \<noteq> []"
  by (simp add: file_Join_def file_Clean_nonempty)

text \<open>
  A loaded configuration follows the precedence and is valid. Every setting of it is the flag if one was given,
  else the variable if it is set, else what the file says, else the default; the listen
  address is there, every duration and the retention are positive, and the database has a path.
\<close>

lemma validate_DBPath [simp]: "validate_config (c\<lparr>cf_DBPath := path\<rparr>) = validate_config c"
  by (simp add: validate_config_def)

theorem load_precedence:
  assumes "Load ReadFile yaml_Unmarshal Getenv fl = Inr cfg"
  shows "\<exists>cfg0. config_file ReadFile yaml_Unmarshal (fl_config fl) = Inr cfg0 \<and>
    cf_ListenAddr cfg = getenv_or (fl_listen fl) (getenv_or (Getenv ''SINGHUB_LISTEN'') (cf_ListenAddr cfg0)) \<and> cf_ListenAddr cfg \<noteq> [] \<and>
    cf_DataDir cfg = getenv_or (fl_data_dir fl) (getenv_or (Getenv ''SINGHUB_DATA_DIR'') (cf_DataDir cfg0)) \<and>
    cf_LogLevel cfg = getenv_or (fl_log_level fl) (getenv_or (Getenv ''SINGHUB_LOG_LEVEL'') (cf_LogLevel cfg0)) \<and>
    cf_DBDriver cfg = getenv_or (Getenv ''SINGHUB_DB_DRIVER'') (cf_DBDriver cfg0) \<and>
    cf_DBDSN cfg = getenv_or (Getenv ''SINGHUB_DB_DSN'') (cf_DBDSN cfg0) \<and>
    cf_DBPath cfg = getenv_or (Getenv ''SINGHUB_DB_PATH'') (getenv_or (cf_DBPath cfg0) (file_Join (cf_DataDir cfg) ''panel.db'')) \<and>
    cf_DBPath cfg \<noteq> [] \<and>
    cf_Session cfg = cf_Session cfg0 \<and> cf_Sampler cfg = cf_Sampler cfg0 \<and>
    0 < cs_AccessTokenTTL (cf_Session cfg) \<and> 0 < cs_RefreshTokenTTL (cf_Session cfg) \<and> 0 < cm_TrafficInterval (cf_Sampler cfg) \<and>
    0 < cm_ConnInterval (cf_Sampler cfg) \<and> 0 < cm_PersistInterval (cf_Sampler cfg) \<and> 0 < cm_RetentionDays (cf_Sampler cfg)"
proof -
  from assms obtain cfg0 where c: "config_file ReadFile yaml_Unmarshal (fl_config fl) = Inr cfg0"
    and v: "validate_config (apply_flags fl (applyEnv Getenv cfg0)) = None"
    and cfg: "cfg = (let c = apply_flags fl (applyEnv Getenv cfg0) in
      if cf_DBPath c = [] then c\<lparr>cf_DBPath := file_Join (cf_DataDir c) ''panel.db''\<rparr> else c)"
    by (auto simp: Load_def Let_def split: sum.splits option.splits)
  let ?c = "apply_flags fl (applyEnv Getenv cfg0)"
  have fields: "cf_ListenAddr ?c = getenv_or (fl_listen fl) (getenv_or (Getenv ''SINGHUB_LISTEN'') (cf_ListenAddr cfg0))"
    "cf_DataDir ?c = getenv_or (fl_data_dir fl) (getenv_or (Getenv ''SINGHUB_DATA_DIR'') (cf_DataDir cfg0))"
    "cf_LogLevel ?c = getenv_or (fl_log_level fl) (getenv_or (Getenv ''SINGHUB_LOG_LEVEL'') (cf_LogLevel cfg0))"
    "cf_DBDriver ?c = getenv_or (Getenv ''SINGHUB_DB_DRIVER'') (cf_DBDriver cfg0)"
    "cf_DBDSN ?c = getenv_or (Getenv ''SINGHUB_DB_DSN'') (cf_DBDSN cfg0)"
    "cf_DBPath ?c = getenv_or (Getenv ''SINGHUB_DB_PATH'') (cf_DBPath cfg0)"
    "cf_Session ?c = cf_Session cfg0" "cf_Sampler ?c = cf_Sampler cfg0"
    by (simp_all add: apply_flags_def applyEnv_def)
  have same: "cf_ListenAddr cfg = cf_ListenAddr ?c" "cf_DataDir cfg = cf_DataDir ?c" "cf_LogLevel cfg = cf_LogLevel ?c"
    "cf_DBDriver cfg = cf_DBDriver ?c" "cf_DBDSN cfg = cf_DBDSN ?c" "cf_Session cfg = cf_Session ?c" "cf_Sampler cfg = cf_Sampler ?c"
    by (simp_all add: cfg Let_def)
  have path: "cf_DBPath cfg = (if cf_DBPath ?c = [] then file_Join (cf_DataDir cfg) ''panel.db'' else cf_DBPath ?c)"
    by (simp add: cfg Let_def)
  have "cf_DBPath cfg = getenv_or (Getenv ''SINGHUB_DB_PATH'') (getenv_or (cf_DBPath cfg0) (file_Join (cf_DataDir cfg) ''panel.db''))"
    "cf_DBPath cfg \<noteq> []"
    unfolding path fields(6) by (auto simp: getenv_or_def file_Join_nonempty)
  moreover have "validate_config ?c = None \<Longrightarrow> cf_ListenAddr ?c \<noteq> [] \<and> 0 < cs_AccessTokenTTL (cf_Session ?c) \<and>
    0 < cs_RefreshTokenTTL (cf_Session ?c) \<and> 0 < cm_TrafficInterval (cf_Sampler ?c) \<and>
    0 < cm_ConnInterval (cf_Sampler ?c) \<and> 0 < cm_PersistInterval (cf_Sampler ?c) \<and> 0 < cm_RetentionDays (cf_Sampler ?c)"
    unfolding validate_config_def by (simp split: if_splits)
  ultimately show ?thesis using c v unfolding same fields by (intro exI [of _ cfg0]) simp
qed

subsection \<open>The choice survives crashes\<close>

definition reads :: "files \<Rightarrow> string \<Rightarrow> file_read" where
  "reads fs path = (case fs path of None \<Rightarrow> Missing | Some raw \<Rightarrow> Content raw)"

lemma save_states:
  assumes "SaveDatabaseSelection enc dir tmp fault sel fs = (r, states)" and "s \<in> set states" and "tmp \<noteq> DatabaseSelectionPath dir"
  shows "s (DatabaseSelectionPath dir) = fs (DatabaseSelectionPath dir) \<or>
    s (DatabaseSelectionPath dir) = Some (enc sel @ [CHR 0x0A]) \<and> s = last states \<and> r = None \<and> ValidateDatabaseSelection sel = None"
  using assms by (auto simp: SaveDatabaseSelection_def Let_def split: option.splits save_fault.splits)

text \<open>
  C24: the kept choice of the database survives crashes. Wherever saving a new choice fails or is cut short, the
  next start reads either the choice that was kept before or the new one, complete; after a
  success it reads the new one, after a failure the old one, and no other file has changed.
\<close>

theorem database_choice_kept:
  assumes "SaveDatabaseSelection enc dir tmp fault sel fs = (r, states)" and "tmp \<noteq> DatabaseSelectionPath dir" and "fs tmp = None"
    and "\<forall>c. dec (enc c @ [CHR 0x0A]) = Some c" and "LoadDatabaseSelection dec (reads fs) dir = Inr old"
  shows "(\<forall>s \<in> set states. LoadDatabaseSelection dec (reads s) dir \<in> {Inr old, Inr (Some sel)}) \<and>
    LoadDatabaseSelection dec (reads (last states)) dir = (if r = None then Inr (Some sel) else Inr old) \<and>
    (\<forall>path. path \<noteq> DatabaseSelectionPath dir \<longrightarrow> last states path = fs path)"
proof -
  have new: "LoadDatabaseSelection dec (reads s) dir = Inr (Some sel)"
    if "s (DatabaseSelectionPath dir) = Some (enc sel @ [CHR 0x0A])" "ValidateDatabaseSelection sel = None" for s
    using that assms(4) by (simp add: LoadDatabaseSelection_def reads_def)
  have same: "LoadDatabaseSelection dec (reads s) dir = Inr old"
    if "s (DatabaseSelectionPath dir) = fs (DatabaseSelectionPath dir)" for s
    using that assms(5) by (simp add: LoadDatabaseSelection_def reads_def)
  have "LoadDatabaseSelection dec (reads s) dir \<in> {Inr old, Inr (Some sel)}" if "s \<in> set states" for s
    using save_states [OF assms(1) that assms(2)] new same by auto
  moreover have "r \<noteq> None \<Longrightarrow> last states = fs" "\<forall>path. path \<noteq> DatabaseSelectionPath dir \<longrightarrow> last states path = fs path"
    "r = None \<Longrightarrow> last states (DatabaseSelectionPath dir) = Some (enc sel @ [CHR 0x0A]) \<and> ValidateDatabaseSelection sel = None"
    using assms(1,2,3) by (auto simp: SaveDatabaseSelection_def Let_def split: option.splits save_fault.splits)
  ultimately show ?thesis using new same by auto
qed

text \<open>A codec for the example: the length of the driver in strokes, then both texts.\<close>

definition stroke_encode :: "db_selection \<Rightarrow> string" where
  "stroke_encode sel = replicate (length (ds_Driver sel)) (CHR ''|'') @ CHR '':'' # ds_Driver sel @ ds_DSN sel"

definition stroke_decode :: "string \<Rightarrow> db_selection option" where
  "stroke_decode raw =
     (let n = length (takeWhile (\<lambda>c. c = CHR ''|'') raw); text = drop (Suc n) (butlast raw)
      in Some \<lparr>ds_Driver = take n text, ds_DSN = drop n text\<rparr>)"

lemma stroke_roundtrip: "stroke_decode (stroke_encode c @ [x]) = Some c"
proof -
  have "takeWhile (\<lambda>c. c = CHR ''|'') (replicate n (CHR ''|'') @ CHR '':'' # t) = replicate n (CHR ''|'')" for n t
    by (induction n) auto
  then show ?thesis by (simp add: stroke_decode_def stroke_encode_def Let_def butlast_append)
qed

theorem database_choice_kept_witness:
  "LoadDatabaseSelection stroke_decode
     (reads (last (snd (SaveDatabaseSelection stroke_encode ''data'' ''data/.database-1.json'' (AtRename ''read-only'')
        \<lparr>ds_Driver = ''postgres'', ds_DSN = ''host=db''\<rparr>
        [''data/database.json'' \<mapsto> stroke_encode \<lparr>ds_Driver = ''sqlite'', ds_DSN = ''data/panel.db''\<rparr> @ [CHR 0x0A]]))))
     ''data'' = Inr (Some \<lparr>ds_Driver = ''sqlite'', ds_DSN = ''data/panel.db''\<rparr>)"
proof -
  let ?old = "\<lparr>ds_Driver = ''sqlite'', ds_DSN = ''data/panel.db''\<rparr>" and ?new = "\<lparr>ds_Driver = ''postgres'', ds_DSN = ''host=db''\<rparr>"
  let ?fs = "[''data/database.json'' \<mapsto> stroke_encode ?old @ [CHR 0x0A]]"
  let ?save = "SaveDatabaseSelection stroke_encode ''data'' ''data/.database-1.json'' (AtRename ''read-only'') ?new ?fs"
  have path: "DatabaseSelectionPath ''data'' = ''data/database.json''" by code_simp
  have valid: "ValidateDatabaseSelection ?old = None" "ValidateDatabaseSelection ?new = None" by code_simp+
  have "LoadDatabaseSelection stroke_decode (reads ?fs) ''data'' = Inr (Some ?old)"
    by (simp add: LoadDatabaseSelection_def path reads_def stroke_roundtrip valid)
  moreover have "fst ?save \<noteq> None" by (simp add: SaveDatabaseSelection_def valid Let_def)
  ultimately show ?thesis
    using database_choice_kept [of stroke_encode "''data''" "''data/.database-1.json''" "AtRename ''read-only''" ?new ?fs "fst ?save" "snd ?save"
        stroke_decode "Some ?old"]
    by (simp add: path stroke_roundtrip)
qed

end
