(* ===== verification/Store_Open.thy ===== *)
theory Store_Open
  imports Go_Text "HOL-Library.AList"
begin

text \<open>
  Opening the database (\<^verbatim>\<open>store/store.go\<close>): the data source name handed to the driver, the
  placeholders of the queries, and the migrations. The engine is a parameter: it runs the
  statements of one migration on a schema, or refuses with a text. The lemmas show that a query
  means the same with either kind of placeholder, and that migrations that were interrupted
  are resumed where they stopped.
\<close>

subsection \<open>Data source names\<close>

datatype open_error = UnsupportedDriver string | DsnRequired | EngineError string | MigrateError string

text \<open>A parsed URL: its scheme, its query, and the text of the URL with another query.\<close>

record parsed_url =
  pu_Scheme :: string
  pu_Query :: "(string \<times> string) list"
  pu_with_query :: "(string \<times> string) list \<Rightarrow> string"

definition sqlite_pragmas :: string where
  "sqlite_pragmas = ''?_pragma=journal_mode(WAL)&_pragma=busy_timeout(5000)&_pragma=foreign_keys(1)''"

definition normalizeDSN :: "(string \<Rightarrow> parsed_url option) \<Rightarrow> string \<Rightarrow> string \<Rightarrow> string" where
  "normalizeDSN url_Parse driver dsn =
     (if driver = ''sqlite'' then TrimPrefix dsn ''file:''
      else if driver = ''postgres'' then
        (case url_Parse dsn of
           Some u \<Rightarrow>
             if pu_Scheme u = ''postgres'' \<or> pu_Scheme u = ''postgresql'' then
               (if map_of (pu_Query u) ''sslmode'' \<noteq> None then dsn
                else pu_with_query u (AList.update ''sslmode'' ''prefer'' (pu_Query u)))
             else if list_ex (\<lambda>tok. HasPrefix tok ''sslmode='') (Fields dsn) then dsn else dsn @ '' sslmode=prefer''
         | None \<Rightarrow> if list_ex (\<lambda>tok. HasPrefix tok ''sslmode='') (Fields dsn) then dsn else dsn @ '' sslmode=prefer'')
      else dsn)"

text \<open>What \<^verbatim>\<open>OpenWithConfig\<close> hands to \<^verbatim>\<open>sql.Open\<close>: the driver and the name.\<close>

definition open_target :: "(string \<Rightarrow> parsed_url option) \<Rightarrow> string \<Rightarrow> string \<Rightarrow> open_error + string \<times> string" where
  "open_target url_Parse driver dsn =
     (let driver = ToLower (TrimSpace driver) in
      if driver \<noteq> ''sqlite'' \<and> driver \<noteq> ''postgres'' then Inl (UnsupportedDriver driver)
      else if TrimSpace dsn = [] then Inl DsnRequired
      else Inr (driver, if driver = ''sqlite'' then ''file:'' @ normalizeDSN url_Parse driver dsn @ sqlite_pragmas
                        else normalizeDSN url_Parse driver dsn))"

subsection \<open>Placeholders\<close>

fun rebind_from :: "nat \<Rightarrow> string \<Rightarrow> string" where
  "rebind_from arg [] = []"
| "rebind_from arg (c # q) =
     (if c = CHR 0x3F then CHR 0x24 # itoa_nat arg @ rebind_from (Suc arg) q else c # rebind_from arg q)"

definition rebind :: "string \<Rightarrow> string \<Rightarrow> string" where
  "rebind driver q = (if driver \<noteq> ''postgres'' then q else rebind_from 1 q)"

text \<open>
  The meaning of a query for the two engines: what stands where the arguments go. SQLite takes
  them in order, PostgreSQL by the number behind the dollar sign.
\<close>

datatype 'a query_part = Text char | Arg 'a

fun by_order :: "string \<Rightarrow> 'a list \<Rightarrow> 'a query_part list option" where
  "by_order [] args = Some []"
| "by_order (c # q) args =
     (if c = CHR 0x3F then (case args of [] \<Rightarrow> None | a # as \<Rightarrow> map_option ((#) (Arg a)) (by_order q as))
      else map_option ((#) (Text c)) (by_order q args))"

function by_number :: "string \<Rightarrow> 'a list \<Rightarrow> 'a query_part list option" where
  "by_number [] args = Some []"
| "by_number (c # q) args =
     (if c = CHR 0x24 then
        (case digits_value 0 (takeWhile is_digit q) of
           None \<Rightarrow> None
         | Some n \<Rightarrow> if n = 0 \<or> length args < n then None
                    else map_option ((#) (Arg (args ! (n - 1)))) (by_number (dropWhile is_digit q) args))
      else map_option ((#) (Text c)) (by_number q args))"
  by pat_completeness auto

termination by_number
  by (relation "measure (\<lambda>(q, args). length q)") (auto simp: le_imp_less_Suc length_dropWhile_le)

text \<open>The queries of the store: no dollar sign, and no digit right behind a placeholder.\<close>

fun plain_query :: "string \<Rightarrow> bool" where
  "plain_query [] = True"
| "plain_query (c # q) = (c \<noteq> CHR 0x24 \<and> (c = CHR 0x3F \<longrightarrow> (case q of [] \<Rightarrow> True | d # _ \<Rightarrow> \<not> is_digit d)) \<and> plain_query q)"

subsection \<open>Migrations\<close>

text \<open>
  \<open>sc_versions\<close> are the rows of \<^verbatim>\<open>schema_version\<close>, \<open>sc_tables\<close> the schema and its data. What
  the engine does in a run is the record \<open>engine\<close>: \<open>en_exec v\<close> runs the statements of migration \<open>v\<close>
  in a transaction; the other fields are the error texts of the statements around it, if they fail.
\<close>

record 'd schema =
  sc_versions :: "int list"
  sc_tables :: 'd

record 'd engine =
  en_exec :: "nat \<Rightarrow> 'd \<Rightarrow> string + 'd"
  en_begin :: "nat \<Rightarrow> string option"
  en_insert :: "nat \<Rightarrow> string option"
  en_commit :: "nat \<Rightarrow> string option"

text \<open>\<^verbatim>\<open>SELECT COALESCE(MAX(version), 0)\<close>.\<close>

definition current_version :: "int list \<Rightarrow> int" where
  "current_version vs = (if vs = [] then 0 else Max (set vs))"

text \<open>One turn of the loop: the error that stops it, or none, and the schema after it.\<close>

definition migrate_step :: "(string \<Rightarrow> bool) \<Rightarrow> 'd engine \<Rightarrow> nat \<Rightarrow> 'd schema \<Rightarrow> string option \<times> 'd schema" where
  "migrate_step known N v s =
     (case en_begin N v of
        Some e \<Rightarrow> (Some e, s)
      | None \<Rightarrow>
          (case en_exec N v (sc_tables s) of
             Inl e \<Rightarrow>
               if known e then
                 (case en_insert N v of
                    Some e' \<Rightarrow> (Some e', s)
                  | None \<Rightarrow> (None, s\<lparr>sc_versions := sc_versions s @ [int v + 1]\<rparr>))
               else (Some (''migration '' @ Itoa (int v + 1) @ '': '' @ e), s)
           | Inr d \<Rightarrow>
               (case en_insert N v of
                  Some e' \<Rightarrow> (Some e', s)
                | None \<Rightarrow>
                    (case en_commit N v of
                       Some e' \<Rightarrow> (Some e', s)
                     | None \<Rightarrow> (None, s\<lparr>sc_versions := sc_versions s @ [int v + 1], sc_tables := d\<rparr>)))))"

fun migrate_from :: "(string \<Rightarrow> bool) \<Rightarrow> 'd engine \<Rightarrow> nat list \<Rightarrow> 'd schema \<Rightarrow> string option \<times> 'd schema" where
  "migrate_from known N [] s = (None, s)"
| "migrate_from known N (v # vs) s =
     (case migrate_step known N v s of (Some e, s') \<Rightarrow> (Some e, s') | (None, s') \<Rightarrow> migrate_from known N vs s')"

text \<open>\<open>count\<close> is the number of migrations; the table of versions is there.\<close>

definition migrate :: "nat \<Rightarrow> 'd engine \<Rightarrow> 'd schema \<Rightarrow> string option \<times> 'd schema" where
  "migrate count N s =
     migrate_from (\<lambda>e. Contains e ''duplicate column'') N [nat (current_version (sc_versions s))..<count] s"

text \<open>On PostgreSQL an empty database gets the whole schema (\<open>full\<close>) and the last version at once.\<close>

definition migratePostgres :: "nat \<Rightarrow> ('d \<Rightarrow> string + 'd) \<Rightarrow> 'd engine \<Rightarrow> 'd schema \<Rightarrow> string option \<times> 'd schema" where
  "migratePostgres count full N s =
     (case full (sc_tables s) of
        Inl e \<Rightarrow> (Some e, s)
      | Inr d \<Rightarrow>
          let s1 = s\<lparr>sc_tables := d\<rparr> in
          if current_version (sc_versions s1) = 0 then
            (case en_insert N (count - 1) of Some e \<Rightarrow> (Some e, s1) | None \<Rightarrow> (None, s1\<lparr>sc_versions := sc_versions s1 @ [int count]\<rparr>))
          else migrate_from (\<lambda>e. Contains e ''already exists'' \<or> Contains e ''duplicate'') N
                 [nat (current_version (sc_versions s1))..<count] s1)"

text \<open>\<open>connect\<close> is \<^verbatim>\<open>sql.Open\<close> and \<^verbatim>\<open>Ping\<close>: the schema that is there, or an error text.\<close>

definition OpenWithConfig ::
  "(string \<Rightarrow> parsed_url option) \<Rightarrow> (string \<Rightarrow> string \<Rightarrow> string + 'd schema) \<Rightarrow> nat \<Rightarrow> ('d \<Rightarrow> string + 'd) \<Rightarrow> 'd engine \<Rightarrow>
   string \<Rightarrow> string \<Rightarrow> open_error + string \<times> 'd schema" where
  "OpenWithConfig url_Parse connect count full N driver dsn =
     (case open_target url_Parse driver dsn of
        Inl e \<Rightarrow> Inl e
      | Inr (driverName, target) \<Rightarrow>
          (case connect driverName target of
             Inl e \<Rightarrow> Inl (EngineError e)
           | Inr s \<Rightarrow>
               (case (if driverName = ''postgres'' then migratePostgres count full N s else migrate count N s) of
                  (Some e, _) \<Rightarrow> Inl (MigrateError (''migrate: '' @ e))
                | (None, s') \<Rightarrow> Inr (driverName, s'))))"

subsection \<open>Both kinds of placeholder mean the same\<close>

lemma takeWhile_digits:
  assumes "list_all is_digit ds" and "case q of [] \<Rightarrow> True | d # _ \<Rightarrow> \<not> is_digit d"
  shows "takeWhile is_digit (ds @ q) = ds" "dropWhile is_digit (ds @ q) = q"
  using assms by (induction ds) (auto split: list.splits)

lemma rebind_from_hd: "(case q of [] \<Rightarrow> True | d # _ \<Rightarrow> \<not> is_digit d) \<Longrightarrow> (case rebind_from k q of [] \<Rightarrow> True | d # _ \<Rightarrow> \<not> is_digit d)"
  by (cases q) (auto simp: is_digit_def)

lemma rebind_from_means:
  assumes "plain_query q" and "k \<le> length args"
  shows "by_number (rebind_from (Suc k) q) args = by_order q (drop k args)"
  using assms
proof (induction q arbitrary: k)
  case (Cons c q)
  show ?case
  proof (cases "c = CHR 0x3F")
    case True
    have r: "case rebind_from (Suc (Suc k)) q of [] \<Rightarrow> True | d # _ \<Rightarrow> \<not> is_digit d"
      using Cons.prems(1) True by (intro rebind_from_hd) simp
    have d: "list_all is_digit (itoa_nat (Suc k))" using itoa_nat_digits by (simp add: list_all_iff)
    show ?thesis
    proof (cases "k < length args")
      case True
      with Cons Cons.IH [of "Suc k"] show ?thesis
        by (simp add: \<open>c = CHR 0x3F\<close> takeWhile_digits [OF d r] digits_value_itoa Cons_nth_drop_Suc [symmetric])
    next
      case False
      then have "length args < Suc k" "drop k args = []" by simp_all
      then show ?thesis
        by (simp add: \<open>c = CHR 0x3F\<close> takeWhile_digits [OF d r] digits_value_itoa)
    qed
  qed (use Cons in auto)
qed simp

text \<open>
  A query of the store means the same to both engines: with the numbers \<^verbatim>\<open>rebind\<close> writes,
  PostgreSQL puts the arguments where SQLite puts them in order, and one refuses too few of
  them exactly when the other does.
\<close>

theorem rebind_means_same:
  assumes "plain_query q"
  shows "by_number (rebind ''postgres'' q) args = by_order q args \<and> rebind ''sqlite'' q = q"
  using rebind_from_means [OF assms, of 0 args] by (simp add: rebind_def)

theorem rebind_means_same_witness:
  "rebind ''postgres'' ''SET a = ?, b = ? WHERE c = ?'' = ''SET a = $1, b = $2 WHERE c = $3'' \<and>
   by_number ''SET a = $1, b = $2 WHERE c = $3'' [True, False, True] = by_order ''SET a = ?, b = ? WHERE c = ?'' [True, False, True]"
proof -
  have "rebind ''postgres'' ''SET a = ?, b = ? WHERE c = ?'' = ''SET a = $1, b = $2 WHERE c = $3''" by code_simp
  moreover have "plain_query ''SET a = ?, b = ? WHERE c = ?''" by code_simp
  ultimately show ?thesis using rebind_means_same [of "''SET a = ?, b = ? WHERE c = ?''" "[True, False, True]"] by simp
qed

subsection \<open>Interrupted migrations\<close>

text \<open>
  \<open>steady N\<close> is the engine without passing failures. In a run that meets them (\<open>passing N M\<close>),
  statements may fail although they would not otherwise, but never with a text the loop takes
  for a migration that was already there.
\<close>

definition steady :: "'d engine \<Rightarrow> bool" where
  "steady N \<longleftrightarrow> (\<forall>v. en_begin N v = None \<and> en_insert N v = None \<and> en_commit N v = None)"

definition passing :: "(string \<Rightarrow> bool) \<Rightarrow> 'd engine \<Rightarrow> 'd engine \<Rightarrow> bool" where
  "passing known N M \<longleftrightarrow> (\<forall>v d. en_exec M v d = en_exec N v d \<or> (\<exists>e. en_exec M v d = Inl e \<and> \<not> known e))"

lemma migrate_step_passing:
  assumes "steady N" and "passing known N M" and "migrate_step known M v s = (r, s')"
  shows "(r \<noteq> None \<longrightarrow> s' = s) \<and> (r = None \<longrightarrow> migrate_step known N v s = (None, s'))"
proof -
  from assms(2) consider "en_exec M v (sc_tables s) = en_exec N v (sc_tables s)"
    | e where "en_exec M v (sc_tables s) = Inl e" "\<not> known e" unfolding passing_def by blast
  then show ?thesis
    using assms(1,3)
    by cases (auto simp: migrate_step_def steady_def split: option.splits sum.splits if_splits dest!: sym [of "Some x" for x])
qed

lemma migrate_step_version: "migrate_step known M v s = (None, s') \<Longrightarrow> sc_versions s' = sc_versions s @ [int v + 1]"
  by (auto simp: migrate_step_def split: option.splits sum.splits if_splits)

lemma current_version_snoc: "current_version vs = int v \<Longrightarrow> current_version (vs @ [int v + 1]) = int v + 1"
  by (auto simp: current_version_def max_def split: if_splits)

text \<open>A run stops with the version it has reached, and the steady engine takes the same steps up to there.\<close>

lemma migrate_from_passing:
  assumes "steady N" and "passing known N M"
    and "migrate_from known M [v..<count] s = (r, s')" and "current_version (sc_versions s) = int v"
  shows "migrate_from known N [v..<count] s = migrate_from known N [nat (current_version (sc_versions s'))..<count] s'"
  using assms(3,4)
proof (induction "count - v" arbitrary: v s)
  case 0
  then show ?case by simp
next
  case (Suc k)
  then have v: "[v..<count] = v # [Suc v..<count]" by (simp add: upt_conv_Cons)
  obtain r1 s1 where m: "migrate_step known M v s = (r1, s1)" by force
  note step = migrate_step_passing [OF assms(1,2) m]
  show ?case
  proof (cases r1)
    case (Some e)
    with step m Suc.prems v have "s' = s" by simp
    with Suc.prems(2) show ?thesis by simp
  next
    case None
    then have n: "migrate_step known N v s = (None, s1)" using step by simp
    have "current_version (sc_versions s1) = int (Suc v)"
      using migrate_step_version [of known M v s s1] m None current_version_snoc [OF Suc.prems(2)] by simp
    with Suc.hyps(1) [of "Suc v" s1] Suc.hyps(2) Suc.prems(1) v m None
    have "migrate_from known N [Suc v..<count] s1 = migrate_from known N [nat (current_version (sc_versions s'))..<count] s'" by simp
    with v n show ?thesis by simp
  qed
qed

lemma migrate_from_versions:
  "\<forall>v \<in> set (sc_versions s). 0 \<le> v \<Longrightarrow> \<forall>v \<in> set (sc_versions (snd (migrate_from known M vs s))). 0 \<le> v"
proof (induction vs arbitrary: s)
  case (Cons v vs)
  obtain r s1 where m: "migrate_step known M v s = (r, s1)" by force
  have "sc_versions s1 = sc_versions s \<or> sc_versions s1 = sc_versions s @ [int v + 1]"
    using m by (auto simp: migrate_step_def split: option.splits sum.splits if_splits)
  with Cons.prems have "\<forall>v \<in> set (sc_versions s1). 0 \<le> v" by auto
  from this Cons.IH [OF this] show ?case by (cases r) (simp_all add: m)
qed simp

text \<open>
  Migrations survive interruptions. However often opening the database was cut short by
  failures that pass, in the statements of a migration, in the row of its version or in a
  commit, the next start without them ends as if there had been none: with the same error or with
  every migration applied once and in order.
\<close>

theorem migrations_resume:
  assumes "steady N" and "\<forall>M \<in> set runs. passing (\<lambda>e. Contains e ''duplicate column'') N M"
    and "\<forall>v \<in> set (sc_versions s). 0 \<le> v"
  shows "migrate count N (fold (\<lambda>M s. snd (migrate count M s)) runs s) = migrate count N s"
  using assms(2,3)
proof (induction runs arbitrary: s)
  case (Cons M runs)
  let ?known = "\<lambda>e. Contains e ''duplicate column''"
  have nat_current: "int (nat (current_version (sc_versions s))) = current_version (sc_versions s)"
    using Cons.prems(2) by (auto simp: current_version_def)
  obtain r s' where m: "migrate count M s = (r, s')" by force
  have "migrate count N s = migrate count N s'"
    using migrate_from_passing [OF assms(1), of ?known M "nat (current_version (sc_versions s))" count s r s'] Cons.prems(1) m nat_current
    by (simp add: migrate_def)
  moreover have "\<forall>v \<in> set (sc_versions s'). 0 \<le> v"
    using m Cons.prems(2) migrate_from_versions unfolding migrate_def by (metis snd_conv)
  ultimately show ?case using Cons.IH [of s'] Cons.prems(1) m by simp
qed simp

definition demo_engine :: "nat list engine" where
  "demo_engine = \<lparr>en_exec = (\<lambda>v d. Inr (d @ [v])), en_begin = (\<lambda>_. None), en_insert = (\<lambda>_. None), en_commit = (\<lambda>_. None)\<rparr>"

theorem migrations_resume_witness:
  "migrate 3 demo_engine (snd (migrate 3 (demo_engine\<lparr>en_commit := (\<lambda>v. if v = 1 then Some ''disk full'' else None)\<rparr>)
       \<lparr>sc_versions = [], sc_tables = []\<rparr>)) =
     (None, \<lparr>sc_versions = [1, 2, 3], sc_tables = [0, 1, 2]\<rparr>)"
proof -
  let ?M = "demo_engine\<lparr>en_commit := (\<lambda>v. if v = 1 then Some ''disk full'' else None)\<rparr>"
  have "steady demo_engine" by (simp add: steady_def demo_engine_def)
  moreover have "passing (\<lambda>e. Contains e ''duplicate column'') demo_engine ?M" by (simp add: passing_def)
  ultimately have "migrate 3 demo_engine (snd (migrate 3 ?M \<lparr>sc_versions = [], sc_tables = []\<rparr>)) =
      migrate 3 demo_engine \<lparr>sc_versions = [], sc_tables = []\<rparr>"
    using migrations_resume [of demo_engine "[?M]" "\<lparr>sc_versions = [], sc_tables = []\<rparr>" 3] by simp
  moreover have "migrate 3 demo_engine \<lparr>sc_versions = [], sc_tables = []\<rparr> = (None, \<lparr>sc_versions = [1, 2, 3], sc_tables = [0, 1, 2]\<rparr>)"
    by (simp add: migrate_def demo_engine_def migrate_step_def current_version_def upt_rec)
  ultimately show ?thesis by simp
qed

end
