(* ===== verification/Startup.thy ===== *)
theory Startup
  imports Config_Load Store_Open Cryptox Api_Accounts
begin

text \<open>
  The start of the program (\<^verbatim>\<open>cmd/panel/main.go\<close>, \<^verbatim>\<open>bootstrap.go\<close>) and the setup page of the first start
  (\<^verbatim>\<open>webui/setup.go\<close>): which database is opened, which account exists on it and with which password.
  Files, the engine and random bytes are parameters. The lemmas show that a restart changes
  no account, when the first account can log in and when nobody can, and that the setup page
  does not show the connection string.
\<close>

subsection \<open>The setup page\<close>

text \<open>The texts of the page are named; those that carry the text of an error have it as an argument.\<close>

datatype setup_message = SetupForm | SetupUsername | SetupPassword | SetupConfirm | SetupDatabase
  | SetupOpen string | SetupClose string | SetupSave string

text \<open>The mark that stands for the connection string, in UTF-8.\<close>

definition dsn_mark :: string where
  "dsn_mark = [CHR 0xC2, CHR 0xAB, CHR 0xE8, CHR 0xBF, CHR 0x9E, CHR 0xE6, CHR 0x8E, CHR 0xA5, CHR 0xE4, CHR 0xBF, CHR 0xA1, CHR 0xE6,
     CHR 0x81, CHR 0xAF, CHR 0xE5, CHR 0xB7, CHR 0xB2, CHR 0xE9, CHR 0x9A, CHR 0x90, CHR 0xE8, CHR 0x97, CHR 0x8F, CHR 0xC2, CHR 0xBB]"

definition redactDSN :: "string \<Rightarrow> string \<Rightarrow> string" where
  "redactDSN dsn message = (if dsn = [] then message else ReplaceAll message dsn dsn_mark)"

record setup_credentials =
  su_Username :: string
  su_Password :: string

text \<open>\<open>open_db\<close>, \<open>close_db\<close> and \<open>save\<close> give the text of their error, if they fail.\<close>

definition setup_submit ::
  "(string \<Rightarrow> string \<Rightarrow> string option) \<Rightarrow> string option \<Rightarrow> (db_selection \<Rightarrow> string option) \<Rightarrow> string \<Rightarrow> http_values option \<Rightarrow>
   setup_message + db_selection \<times> setup_credentials" where
  "setup_submit open_db close_db save defaultSQLite form =
     (case form of
        None \<Rightarrow> Inl SetupForm
      | Some f \<Rightarrow>
          let driver = ToLower (TrimSpace (Get f ''driver''));
              dsn0 = TrimSpace (Get f ''dsn'');
              username = TrimSpace (Get f ''username'');
              password = Get f ''password''
          in if username = [] \<or> RuneCountInString username > 64 then Inl SetupUsername
             else if RuneCountInString password < 6 \<or> length password > 72 then Inl SetupPassword
             else if password \<noteq> Get f ''confirm_password'' then Inl SetupConfirm
             else let sel = \<lparr>ds_Driver = driver, ds_DSN = (if driver = ''sqlite'' \<and> dsn0 = [] then defaultSQLite else dsn0)\<rparr> in
                  (case ValidateDatabaseSelection sel of
                     Some _ \<Rightarrow> Inl SetupDatabase
                   | None \<Rightarrow>
                       (case open_db (ds_Driver sel) (ds_DSN sel) of
                          Some e \<Rightarrow> Inl (SetupOpen (redactDSN (ds_DSN sel) e))
                        | None \<Rightarrow>
                            (case close_db of
                               Some e \<Rightarrow> Inl (SetupClose (redactDSN (ds_DSN sel) e))
                             | None \<Rightarrow>
                                 (case save sel of
                                    Some e \<Rightarrow> Inl (SetupSave (redactDSN (ds_DSN sel) e))
                                  | None \<Rightarrow> Inr (sel, \<lparr>su_Username = username, su_Password = password\<rparr>))))))"

text \<open>
  The submissions until the server is shut down: the first that succeeds is the one the program starts with
  (\<^verbatim>\<open>once\<close>), each that succeeds replaces the kept choice.
\<close>

fun setup_run ::
  "(http_values option \<Rightarrow> setup_message + db_selection \<times> setup_credentials) \<Rightarrow> http_values option list \<Rightarrow>
   (db_selection \<times> setup_credentials) option \<times> db_selection option \<Rightarrow> (db_selection \<times> setup_credentials) option \<times> db_selection option" where
  "setup_run submit [] st = st"
| "setup_run submit (f # fs) (used, kept) =
     (case submit f of
        Inl _ \<Rightarrow> setup_run submit fs (used, kept)
      | Inr (sel, cred) \<Rightarrow> setup_run submit fs (case used of None \<Rightarrow> Some (sel, cred) | Some u \<Rightarrow> Some u, Some sel))"

subsection \<open>Which database\<close>

datatype startup_error = ConfigError config_error | DsnWithoutDriver | StatFailed | SetupFailed | MkdirFailed
  | PasswordFile | PasswordRandom | PasswordLength | HashFailed | AdminError db_error | OpenError open_error | KeyError crypto_error

datatype store_choice = ByDriver string string | ByPath string

datatype stat_result = StatThere | StatMissing | StatError

definition no_credentials :: setup_credentials where
  "no_credentials = \<lparr>su_Username = [], su_Password = []\<rparr>"

text \<open>\<open>setup\<close> is the outcome of the setup page, when it comes to that.\<close>

definition openStore ::
  "config \<Rightarrow> config_error + db_selection option \<Rightarrow> stat_result \<Rightarrow> (db_selection \<times> setup_credentials) option \<Rightarrow>
   startup_error + store_choice \<times> setup_credentials" where
  "openStore cfg selection stat setup =
     (if cf_DBDriver cfg \<noteq> [] then
        Inr (ByDriver (cf_DBDriver cfg) (if cf_DBDriver cfg = ''sqlite'' \<and> cf_DBDSN cfg = [] then cf_DBPath cfg else cf_DBDSN cfg), no_credentials)
      else if cf_DBDSN cfg \<noteq> [] then Inl DsnWithoutDriver
      else (case selection of
              Inl e \<Rightarrow> Inl (ConfigError e)
            | Inr (Some sel) \<Rightarrow> Inr (ByDriver (ds_Driver sel) (ds_DSN sel), no_credentials)
            | Inr None \<Rightarrow>
                let defaultPath = file_Clean (file_Join (cf_DataDir cfg) ''panel.db'') in
                if file_Clean (cf_DBPath cfg) \<noteq> defaultPath then Inr (ByPath (cf_DBPath cfg), no_credentials)
                else (case stat of
                        StatThere \<Rightarrow> Inr (ByPath defaultPath, no_credentials)
                      | StatError \<Rightarrow> Inl StatFailed
                      | StatMissing \<Rightarrow>
                          (case setup of
                             None \<Rightarrow> Inl SetupFailed
                           | Some (sel, cred) \<Rightarrow> Inr (ByDriver (ds_Driver sel) (ds_DSN sel), cred)))))"

text \<open>The directories to make before; the first that fails ends the start.\<close>

definition prepareDataDirs :: "(string \<Rightarrow> bool) \<Rightarrow> config \<Rightarrow> startup_error option" where
  "prepareDataDirs mkdir cfg = (if list_all mkdir [cf_DataDir cfg, file_Dir (cf_DBPath cfg)] then None else Some MkdirFailed)"

subsection \<open>The first account\<close>

fun first_password_line :: "string list \<Rightarrow> string option" where
  "first_password_line [] = None"
| "first_password_line (l # ls) =
     (let line = TrimSpace l in
      if line \<noteq> [] \<and> \<not> HasPrefix line ''#'' \<and> \<not> HasPrefix line ''Initial'' then Some line else first_password_line ls)"

definition extractPassword :: "string \<Rightarrow> string" where
  "extractPassword raw = (case first_password_line (Split raw (CHR 0x0A)) of Some line \<Rightarrow> line | None \<Rightarrow> TrimSpace raw)"

text \<open>
  The password file is read, or made with a random password. When another process makes it in between,
  the function starts again; each turn meets what the file system and the generator give then.
  The result is the password with the content of the file the function made, if it made one;
  \<open>None\<close> says that the turns are used up.
\<close>

datatype create_result = FileCreated | FileExists | FileFailed

fun initialPassword :: "(file_read \<times> string option \<times> create_result) list \<Rightarrow> (startup_error + string \<times> string option) option" where
  "initialPassword [] = None"
| "initialPassword ((Content raw, rnd, made) # turns) = Some (Inr (extractPassword raw, None))"
| "initialPassword ((Unreadable, rnd, made) # turns) = Some (Inl PasswordFile)"
| "initialPassword ((Missing, rnd, made) # turns) =
     (case rnd of
        None \<Rightarrow> Some (Inl PasswordRandom)
      | Some raw \<Rightarrow>
          (case made of
             FileExists \<Rightarrow> initialPassword turns
           | FileFailed \<Rightarrow> Some (Inl PasswordFile)
           | FileCreated \<Rightarrow> Some (Inr (RawURLEncode raw, Some (RawURLEncode raw @ [CHR 0x0A])))))"

text \<open>\<open>setup\<close> are the credentials of the call, if it has any; \<open>file\<close> is the outcome of \<^verbatim>\<open>initialPassword\<close>.\<close>

definition initializeAdmin ::
  "(string \<Rightarrow> string option) \<Rightarrow> (user list \<Rightarrow> int) \<Rightarrow> int \<Rightarrow> (startup_error + string) \<Rightarrow> setup_credentials option \<Rightarrow> db \<Rightarrow>
   (startup_error + bool) \<times> db" where
  "initializeAdmin HashPassword alloc now file setup d =
     (if CountUsers d > 0 then (Inr False, d)
      else let username = (case setup of None \<Rightarrow> ''admin'' | Some c \<Rightarrow> su_Username c);
               given = (case setup of None \<Rightarrow> [] | Some c \<Rightarrow> su_Password c)
           in case (if given = [] then file else Inr given) of
                Inl e \<Rightarrow> (Inl e, d)
              | Inr password \<Rightarrow>
                  if length password < 6 \<or> length password > 72 then (Inl PasswordLength, d)
                  else (case HashPassword password of
                          None \<Rightarrow> (Inl HashFailed, d)
                        | Some h \<Rightarrow>
                            (case CreateUser alloc username h now d of
                               Inl e \<Rightarrow> (Inl (AdminError e), d)
                             | Inr (i, d') \<Rightarrow> (Inr True, d'))))"

text \<open>
  What \<^verbatim>\<open>main\<close> does between the configuration and the services: the directories, the database, the two
  key files (\<open>secret\<close> and \<open>jwt\<close> are the outcomes of \<open>LoadOrCreateKey\<close>), the account, made with the
  credentials of the setup page, which are there in every call and empty when the page was not shown, and
  the settings. A fraction of a second in the interval is dropped.
\<close>

definition start_defaults :: "config \<Rightarrow> sampler_defaults" where
  "start_defaults cfg = \<lparr>sd_SamplerIntervalSeconds = cm_ConnInterval (cf_Sampler cfg) div 1000000000,
     sd_RetentionDays = cm_RetentionDays (cf_Sampler cfg), sd_IPLookupProviderURL = cp_IPProviderURL (cf_Probe cfg)\<rparr>"

record start_world =
  sw_mkdir :: "string \<Rightarrow> bool"
  sw_selection :: "config_error + db_selection option"
  sw_stat :: stat_result
  sw_setup :: "(db_selection \<times> setup_credentials) option"
  sw_open :: "store_choice \<Rightarrow> open_error + db"
  sw_secret :: "crypto_error + string"
  sw_jwt :: "crypto_error + string"
  sw_password :: "startup_error + string"

definition start_panel :: "(string \<Rightarrow> string option) \<Rightarrow> (user list \<Rightarrow> int) \<Rightarrow> int \<Rightarrow> config \<Rightarrow> start_world \<Rightarrow> startup_error + db \<times> string \<times> string" where
  "start_panel HashPassword alloc now cfg W =
     (case prepareDataDirs (sw_mkdir W) cfg of Some e \<Rightarrow> Inl e
      | None \<Rightarrow>
     (case openStore cfg (sw_selection W) (sw_stat W) (sw_setup W) of Inl e \<Rightarrow> Inl e
      | Inr (choice, cred) \<Rightarrow>
     (case sw_open W choice of Inl e \<Rightarrow> Inl (OpenError e)
      | Inr d \<Rightarrow>
     (case sw_secret W of Inl e \<Rightarrow> Inl (KeyError e)
      | Inr secret \<Rightarrow>
     (case sw_jwt W of Inl e \<Rightarrow> Inl (KeyError e)
      | Inr jwt \<Rightarrow>
     (case initializeAdmin HashPassword alloc now (sw_password W) (Some cred) d of
        (Inl e, _) \<Rightarrow> Inl e
      | (Inr _, d') \<Rightarrow> Inr (snd (GetSettings now (start_defaults cfg) d'), secret, jwt)))))))"

subsection \<open>The initial password is read back\<close>

lemma no_prefix_char: "x \<notin> set s \<Longrightarrow> \<not> HasPrefix s [x]"
  by (cases s) (auto simp: HasPrefix_def)

lemma url_alphabet_printable: "list_all (\<lambda>c. printable c \<and> c \<noteq> CHR ''#'') url_alphabet"
  by code_simp

lemma RawURLEncode_line:
  "TrimSpace (RawURLEncode raw) = RawURLEncode raw" "\<not> HasPrefix (RawURLEncode raw) ''#''" "CHR 0x0A \<notin> set (RawURLEncode raw)"
proof -
  have c: "\<forall>c \<in> set (RawURLEncode raw). printable c \<and> c \<noteq> CHR ''#''"
    using RawURLEncode_chars url_alphabet_printable unfolding list_all_iff by blast
  then show "TrimSpace (RawURLEncode raw) = RawURLEncode raw" by (intro TrimSpace_printable) (simp add: list_all_iff)
  show "\<not> HasPrefix (RawURLEncode raw) ''#''" using c by (intro no_prefix_char) blast
  have "\<not> printable (CHR 0x0A)" by code_simp
  then show "CHR 0x0A \<notin> set (RawURLEncode raw)" using c by blast
qed

text \<open>
  The random password of the first start is the one every later reading of its file gives, short of one that
  begins with the word the reader takes for a heading.
\<close>

theorem initial_password_kept:
  assumes "initialPassword turns = Some (Inr (pw, Some content))" and "pw \<noteq> []" and "\<not> HasPrefix pw ''Initial''"
  shows "initialPassword ((Content content, rnd, made) # turns') = Some (Inr (pw, None))"
proof -
  have "\<exists>raw. pw = RawURLEncode raw \<and> content = pw @ [CHR 0x0A]"
    using assms(1) by (induction turns rule: initialPassword.induct) (auto split: option.splits create_result.splits)
  then obtain raw where pw: "pw = RawURLEncode raw" "content = pw @ [CHR 0x0A]" by blast
  have "Split content (CHR 0x0A) = [pw, []]" using Split_append_sep [OF RawURLEncode_line(3)] by (simp add: pw)
  with assms(2,3) RawURLEncode_line(1,2) [of raw] show ?thesis by (simp add: extractPassword_def pw(1))
qed

subsection \<open>Who can log in\<close>

lemma throttle_status: "throttle E now kind dt r p = (Some resp, p1) \<Longrightarrow> rp_Status resp = 429"
  unfolding throttle_def Let_def by (auto split: prod.splits if_splits)

lemma decode_not_created: "DecodeJSON P dec r = Inl resp \<Longrightarrow> rp_Status resp \<noteq> 201"
  by (auto simp: DecodeJSON_def Validation_def WriteProblem_def split: option.splits if_splits decoded.splits)

lemma no_login:
  assumes "\<forall>n. n \<noteq> [] \<longrightarrow> GetUserByUsername n (p_db p) = Inl ErrNotFound"
  shows "rp_Status (fst (handleCreateSession E dec rnd now r p)) \<noteq> 201 \<and> p_db (snd (handleCreateSession E dec rnd now r p)) = p_db p"
proof -
  obtain x p1 where t: "throttle E now ''login:'' ''too many login attempts, retry later'' r p = (x, p1)" by force
  then have d: "p_db p1 = p_db p" by simp
  show ?thesis
  proof (cases "x = None \<and> (\<exists>inp. DecodeJSON (ev_ParseMediaType E) dec r = Inr inp)")
    case True
    then obtain inp where i: "x = None" "DecodeJSON (ev_ParseMediaType E) dec r = Inr inp" by blast
    have "cr_Username inp \<noteq> [] \<Longrightarrow> GetUserByUsername (cr_Username inp) (p_db p1) = Inl ErrNotFound" using assms d by simp
    with i t d show ?thesis
      by (auto simp: handleCreateSession_def check_password_def Let_def Validation_def Unauthorized_def WriteProblem_def Internal_def setHeader_def)
  next
    case False
    then consider resp where "x = Some resp" | resp where "x = None" "DecodeJSON (ev_ParseMediaType E) dec r = Inl resp"
      by (cases x; cases "DecodeJSON (ev_ParseMediaType E) dec r") auto
    then show ?thesis
    proof cases
      case 1
      with t d throttle_status [OF t [unfolded 1]] show ?thesis by (simp add: handleCreateSession_def)
    next
      case 2
      with t d decode_not_created [OF 2(2)] show ?thesis by (simp add: handleCreateSession_def)
    qed
  qed
qed

lemma initializeAdmin_first:
  assumes "users d = []" and "initializeAdmin H alloc now file (Some cred) d = (Inr ok, d')"
  shows "\<exists>pw h. H pw = Some h \<and> (su_Password cred \<noteq> [] \<longrightarrow> pw = su_Password cred) \<and> users d' =
    [\<lparr>u_id = alloc [], u_username = su_Username cred, u_password_hash = h, u_role = ''admin'', u_created_at = now\<rparr>] \<and> d'\<lparr>users := []\<rparr> = d"
  using assms
  by (auto simp: initializeAdmin_def CountUsers_def CreateUser_def createUser_def user_exists_def Let_def
      split: sum.splits if_splits option.splits)

lemma openStore_credentials:
  "openStore cfg selection stat setup = Inr (choice, cred) \<Longrightarrow> cred \<noteq> no_credentials \<Longrightarrow>
     cf_DBDriver cfg = [] \<and> selection = Inr None \<and> stat = StatMissing \<and> (\<exists>sel. setup = Some (sel, cred))"
  by (auto simp: openStore_def Let_def split: if_splits sum.splits option.splits stat_result.splits)

lemma start_panel_steps:
  assumes "start_panel H alloc now cfg W = Inr (d, secret, jwt)"
    and "openStore cfg (sw_selection W) (sw_stat W) (sw_setup W) = Inr (choice, cred)" and "sw_open W choice = Inr d0"
  obtains ok d1 where "initializeAdmin H alloc now (sw_password W) (Some cred) d0 = (Inr ok, d1)"
    and "d = snd (GetSettings now (start_defaults cfg) d1)" and "sw_secret W = Inr secret" and "sw_jwt W = Inr jwt"
  using assms by (auto simp: start_panel_def split: option.splits sum.splits prod.splits)

lemma GetSettings_users [simp]: "users (snd (GetSettings now df d)) = users d"
  by (simp add: GetSettings_def Let_def split: option.splits)

text \<open>
  C23: who can log in after a start. A start on a database with accounts changes none of them. On a database without
  accounts, the first account is the administrator of the setup page, with the name and the password given
  there, if the page was shown, that is, if neither a driver is configured nor a choice kept nor a file there.
  If it was not shown, the account has the empty name, which no login accepts: no request for a session succeeds.
\<close>

theorem first_start_account:
  assumes "start_panel H alloc now cfg W = Inr (d, secret, jwt)"
    and "openStore cfg (sw_selection W) (sw_stat W) (sw_setup W) = Inr (choice, cred)" and "sw_open W choice = Inr d0"
  shows "(users d0 \<noteq> [] \<longrightarrow> users d = users d0) \<and>
    (users d0 = [] \<and> su_Username cred \<noteq> [] \<and> su_Password cred \<noteq> [] \<longrightarrow>
       (\<exists>u. users d = [u] \<and> GetUserByUsername (su_Username cred) d = Inr u \<and> H (su_Password cred) = Some (u_password_hash u) \<and>
          u_role u = ''admin'')) \<and>
    (users d0 = [] \<and> su_Username cred = [] \<longrightarrow>
       (\<forall>E dec rnd t r p. p_db p = d \<longrightarrow> rp_Status (fst (handleCreateSession E dec rnd t r p)) \<noteq> 201)) \<and>
    (cred \<noteq> no_credentials \<longrightarrow> cf_DBDriver cfg = [] \<and> sw_selection W = Inr None \<and> sw_stat W = StatMissing)"
proof -
  from start_panel_steps [OF assms] obtain ok d1
    where i: "initializeAdmin H alloc now (sw_password W) (Some cred) d0 = (Inr ok, d1)" and d: "d = snd (GetSettings now (start_defaults cfg) d1)"
    by blast
  have "users d0 \<noteq> [] \<longrightarrow> users d = users d0" using i by (auto simp: d initializeAdmin_def CountUsers_def)
  moreover have "\<exists>u. users d = [u] \<and> u_username u = su_Username cred \<and> u_role u = ''admin'' \<and>
      (su_Password cred \<noteq> [] \<longrightarrow> H (su_Password cred) = Some (u_password_hash u))" if "users d0 = []"
    using initializeAdmin_first [OF that i] by (auto simp: d)
  moreover have "rp_Status (fst (handleCreateSession E dec rnd t r p)) \<noteq> 201"
    if "users d = [u]" "u_username u = []" "p_db p = d" for u E dec rnd t r p
    using no_login [of p E dec rnd t r] that by (simp add: GetUserByUsername_def row_with_def)
  moreover note openStore_credentials [OF assms(2)]
  ultimately show ?thesis by (auto simp: GetUserByUsername_def row_with_def)
qed

definition demo_start :: start_world where
  "demo_start = \<lparr>sw_mkdir = (\<lambda>_. True), sw_selection = Inr None, sw_stat = StatMissing, sw_setup = None, sw_open = (\<lambda>_. Inr empty_db),
     sw_secret = Inr ''k'', sw_jwt = Inr ''j'', sw_password = Inr ''initial-password''\<rparr>"

theorem first_start_account_witness:
  "\<exists>d. start_panel (\<lambda>pw. Some (rev pw)) (\<lambda>us. 1) 1000 (config_defaults\<lparr>cf_DBDriver := ''sqlite'', cf_DBPath := ''data/panel.db''\<rparr>) demo_start =
       Inr (d, ''k'', ''j'') \<and> map u_username (users d) = [[]] \<and>
     (\<forall>E dec rnd t r p. p_db p = d \<longrightarrow> rp_Status (fst (handleCreateSession E dec rnd t r p)) \<noteq> 201)"
proof -
  let ?cfg = "config_defaults\<lparr>cf_DBDriver := ''sqlite'', cf_DBPath := ''data/panel.db''\<rparr>"
  have o: "openStore ?cfg (sw_selection demo_start) (sw_stat demo_start) (sw_setup demo_start) =
      Inr (ByDriver ''sqlite'' ''data/panel.db'', no_credentials)"
    by (simp add: openStore_def config_defaults_def)
  have open_empty: "sw_open demo_start (ByDriver ''sqlite'' ''data/panel.db'') = Inr empty_db" by (simp add: demo_start_def)
  let ?u = "\<lparr>u_id = 1, u_username = [], u_password_hash = rev ''initial-password'', u_role = ''admin'', u_created_at = 1000\<rparr>"
  let ?d = "snd (GetSettings 1000 (start_defaults ?cfg) (empty_db\<lparr>users := [?u]\<rparr>))"
  have "initializeAdmin (\<lambda>pw. Some (rev pw)) (\<lambda>us. 1) 1000 (sw_password demo_start) (Some no_credentials) empty_db = (Inr True, empty_db\<lparr>users := [?u]\<rparr>)"
    by (simp add: initializeAdmin_def demo_start_def no_credentials_def CountUsers_def CreateUser_def createUser_def user_exists_def empty_db_def)
  then have s: "start_panel (\<lambda>pw. Some (rev pw)) (\<lambda>us. 1) 1000 ?cfg demo_start = Inr (?d, ''k'', ''j'')"
    using o open_empty by (simp add: start_panel_def prepareDataDirs_def demo_start_def)
  from first_start_account [OF s o open_empty] s show ?thesis
    by (intro exI [of _ ?d]) (simp add: no_credentials_def empty_db_def)
qed

subsection \<open>The setup page\<close>

lemma setup_accepts:
  assumes "setup_submit open_db close_db save defaultSQLite form = Inr (sel, cred)"
  shows "validUsername (su_Username cred) \<and> validPassword (su_Password cred) \<and> ValidateDatabaseSelection sel = None \<and>
    open_db (ds_Driver sel) (ds_DSN sel) = None \<and> save sel = None"
  using assms by (auto simp: setup_submit_def Let_def validUsername_def validPassword_def split: option.splits if_splits)

text \<open>
  The setup page and the start agree. What the page accepts is a valid choice, and on an empty database the
  start makes the account with it: no check of the start refuses a password the page has let through.
\<close>

theorem setup_then_start:
  assumes "setup_submit open_db close_db save defaultSQLite form = Inr (sel, cred)"
    and "H (su_Password cred) = Some h" and "users d = []"
  shows "ValidateDatabaseSelection sel = None \<and> initializeAdmin H alloc now file (Some cred) d =
    (Inr True, d\<lparr>users := [\<lparr>u_id = alloc [], u_username = su_Username cred, u_password_hash = h, u_role = ''admin'', u_created_at = now\<rparr>]\<rparr>)"
proof -
  note a = setup_accepts [OF assms(1)]
  have "RuneCountInString s \<le> length s" for s by (induction s rule: RuneCountInString.induct) auto
  then have "6 \<le> length (su_Password cred)" "su_Password cred \<noteq> []" using a le_trans by (fastforce simp: validPassword_def)+
  with a assms(2,3) show ?thesis
    by (simp add: initializeAdmin_def CountUsers_def CreateUser_def createUser_def user_exists_def validPassword_def Let_def)
qed

text \<open>
  The setup page keeps the connection string to itself. Whatever the engine and the file system report, the text the
  page shows does not contain the name of the database as it was given, which may carry a password, as long as
  it shares no byte with the mark that replaces it, as no ASCII text does.
\<close>

theorem setup_hides_dsn:
  assumes "setup_submit open_db close_db save defaultSQLite (Some f) = Inl m" and "m \<in> {SetupOpen t, SetupClose t, SetupSave t}"
    and "dsn = TrimSpace (Get f ''dsn'')" and "dsn \<noteq> []" and "set dsn \<inter> set dsn_mark = {}"
  shows "\<not> Contains t dsn"
proof -
  have "\<exists>e. t = redactDSN dsn e"
    using assms(1-4) by (auto simp: setup_submit_def Let_def split: option.splits if_splits)
  with ReplaceAll_removes [OF assms(4) _ assms(5)] show ?thesis
    using assms(4) by (auto simp: redactDSN_def dsn_mark_def)
qed

text \<open>
  Two submissions can part the running program from the kept choice: the first is the one that is used, the
  last is the one a restart reads.
\<close>

lemma setup_parts:
  assumes "submit a = Inr (s1, c1)" and "submit b = Inr (s2, c2)"
  shows "setup_run submit [a, b] (None, None) = (Some (s1, c1), Some s2)"
  by (simp add: assms)

theorem setup_hides_dsn_witness:
  "\<exists>t. setup_submit (\<lambda>drv dsn. Some (''cannot connect to '' @ dsn)) None (\<lambda>_. None) ''data/panel.db''
       (Some [(''driver'', ''postgres''), (''dsn'', ''host=db password=s3cret''), (''username'', ''root''), (''password'', ''s3cret66''),
              (''confirm_password'', ''s3cret66'')]) = Inl (SetupOpen t) \<and>
     \<not> Contains t ''host=db password=s3cret''"
proof -
  let ?f = "[(''driver'', ''postgres''), (''dsn'', ''host=db password=s3cret''), (''username'', ''root''), (''password'', ''s3cret66''),
    (''confirm_password'', ''s3cret66'')]"
  let ?submit = "setup_submit (\<lambda>drv dsn. Some (''cannot connect to '' @ dsn)) None (\<lambda>_. None) ''data/panel.db'' (Some ?f)"
  have s: "?submit = Inl (SetupOpen (redactDSN ''host=db password=s3cret'' ''cannot connect to host=db password=s3cret''))" by code_simp
  have "TrimSpace (Get ?f ''dsn'') = ''host=db password=s3cret''" "set ''host=db password=s3cret'' \<inter> set dsn_mark = {}" by code_simp+
  then show ?thesis
    using setup_hides_dsn [OF s, of "redactDSN ''host=db password=s3cret'' ''cannot connect to host=db password=s3cret''" "''host=db password=s3cret''"] s
    by (intro exI [of _ "redactDSN ''host=db password=s3cret'' ''cannot connect to host=db password=s3cret''"]) simp
qed

end
