(* ===== verification/Webui_Parse.thy ===== *)
theory Webui_Parse
  imports Go_Text Subscribe_Outbound
begin

text \<open>
  What the web interface makes of a downloaded subscription (\<^verbatim>\<open>parseSubscriptionContent\<close> in
  \<^verbatim>\<open>webui/pages2.go\<close>): the format is guessed, and each entry becomes a row with its name, type and
  address. The JSON decoders are parameters. The theorem shows that the panel reads its own
  base64 subscription back.
\<close>

record parsed_node =
  pn_Name :: string
  pn_Type :: string
  pn_Server :: string
  pn_Port :: int
  pn_Remark :: string

subsection \<open>Numbers and encodings\<close>

text \<open>\<^verbatim>\<open>fmt.Sscanf(s, "%d", &n)\<close> on a text of one line, for an \<open>n\<close> that was 0: the number at the front, or 0.\<close>

definition Sscanf_d :: "string \<Rightarrow> int" where
  "Sscanf_d s =
     (let t = trim_front space_encodings s;
          sgn = (case t of c # _ \<Rightarrow> if c = CHR ''-'' \<or> c = CHR ''+'' then [c] else [] | [] \<Rightarrow> []);
          digits = takeWhile is_digit (drop (length sgn) t)
      in case ParseInt (sgn @ digits) of None \<Rightarrow> 0 | Some n \<Rightarrow> n)"

definition RawStdDecode :: "string \<Rightarrow> string option" where
  "RawStdDecode s = raw_decode std_alphabet (drop_newlines s)"

text \<open>Padded base64, else base64 without padding.\<close>

definition any_base64 :: "string \<Rightarrow> string option" where
  "any_base64 s = (case StdDecode s of Some raw \<Rightarrow> Some raw | None \<Rightarrow> RawStdDecode s)"

subsection \<open>Documents\<close>

text \<open>An outbound of a sing-box document: type, tag, server, port.\<close>

definition skipped_types :: "string list" where
  "skipped_types = [''direct'', ''block'', ''dns'', ''selector'', ''urltest'', ''loopback'']"

definition parseSingboxJSON :: "(string \<Rightarrow> (string \<times> string \<times> string \<times> int) list option) \<Rightarrow> string \<Rightarrow> parsed_node list" where
  "parseSingboxJSON json_outbounds content =
     (case json_outbounds content of
        None \<Rightarrow> []
      | Some obs \<Rightarrow>
          map (\<lambda>(ty, tag', server, port). \<lparr>pn_Name = tag', pn_Type = ty, pn_Server = server, pn_Port = port, pn_Remark = []\<rparr>)
            (filter (\<lambda>(ty, _). ty \<notin> set skipped_types) obs))"

definition extractYAMLValue :: "string \<Rightarrow> string \<Rightarrow> string" where
  "extractYAMLValue line key =
     (case Index line (key @ '':'') of
        None \<Rightarrow> []
      | Some idx \<Rightarrow>
          let rest = TrimSpace (drop (idx + length key + 1) line) in
          if length rest > 1 \<and> (hd rest = CHR 0x22 \<or> hd rest = CHR 0x27) then
            (case Index (tl rest) [hd rest] of Some e \<Rightarrow> take e (tl rest) | None \<Rightarrow> tl rest)
          else if rest = ''{'' then []
          else (case Fields rest of [] \<Rightarrow> [] | f # _ \<Rightarrow> Trim f '',''))"

definition extractYAMLInt :: "string \<Rightarrow> string \<Rightarrow> int" where
  "extractYAMLInt line key = ParseIntValue (extractYAMLValue line key)"

fun clash_lines :: "bool \<Rightarrow> string list \<Rightarrow> parsed_node list" where
  "clash_lines inProxies [] = []"
| "clash_lines inProxies (line # lines) =
     (let trimmed = TrimSpace line in
      if trimmed = ''proxies:'' then clash_lines True lines
      else if inProxies then
        (if line \<noteq> [] \<and> hd line \<noteq> CHR '' '' \<and> hd line \<noteq> CHR 0x09 \<and> \<not> HasPrefix trimmed ''-'' then []
         else if HasPrefix trimmed ''- name:'' \<or> HasPrefix trimmed ''- {'' then
           (let name = extractYAMLValue trimmed ''name'' in
            if name \<noteq> [] then
              \<lparr>pn_Name = name, pn_Type = extractYAMLValue trimmed ''type'', pn_Server = extractYAMLValue trimmed ''server'',
               pn_Port = extractYAMLInt trimmed ''port'', pn_Remark = []\<rparr> # clash_lines True lines
            else clash_lines True lines)
         else clash_lines True lines)
      else clash_lines False lines)"

definition parseClashYAML :: "string \<Rightarrow> parsed_node list" where
  "parseClashYAML content = clash_lines False (Split content (CHR 0x0A))"

subsection \<open>Links\<close>

definition cut_query :: "char \<Rightarrow> string \<Rightarrow> string" where
  "cut_query c s = takeWhile (\<lambda>x. x \<noteq> c) s"

definition parseGenericURI :: "string \<Rightarrow> string \<Rightarrow> string \<Rightarrow> parsed_node" where
  "parseGenericURI line pType remark =
     (let hostPort0 = (case LastIndexByte line (CHR ''@'') of Some i \<Rightarrow> drop (Suc i) line | None \<Rightarrow> line);
          hostPort = cut_query (CHR ''#'') (cut_query (CHR 0x3F) hostPort0);
          parts = Split hostPort (CHR '':'');
          server = hd parts;
          port = (if length parts \<ge> 2 then Sscanf_d (last parts) else 0)
      in \<lparr>pn_Name = (if remark = [] then server else remark), pn_Type = pType, pn_Server = server, pn_Port = port, pn_Remark = remark\<rparr>)"

definition parseTrojanURI :: "string \<Rightarrow> string \<Rightarrow> parsed_node" where
  "parseTrojanURI line remark = parseGenericURI (TrimPrefix line ''trojan://'') ''trojan'' remark"

definition parseShadowsocksURI :: "string \<Rightarrow> string \<Rightarrow> parsed_node" where
  "parseShadowsocksURI line remark = parseGenericURI (TrimPrefix line ''ss://'') ''ss'' remark"

definition parseVlessURI :: "string \<Rightarrow> string \<Rightarrow> parsed_node" where
  "parseVlessURI line remark = parseGenericURI (TrimPrefix line ''vless://'') ''vless'' remark"

definition parseTUICURI :: "string \<Rightarrow> string \<Rightarrow> parsed_node" where
  "parseTUICURI line remark = parseGenericURI (TrimPrefix line ''tuic://'') ''tuic'' remark"

text \<open>\<open>json_vmess\<close> gives the fields \<^verbatim>\<open>ps\<close>, \<^verbatim>\<open>add\<close>, \<^verbatim>\<open>port\<close> and \<^verbatim>\<open>net\<close> as far as the text could be decoded.\<close>

record vmess_fields =
  vm_Ps :: string
  vm_Add :: string
  vm_Port :: int
  vm_Net :: string

definition parseVmessURI :: "(string \<Rightarrow> vmess_fields) \<Rightarrow> string \<Rightarrow> string \<Rightarrow> parsed_node" where
  "parseVmessURI json_vmess line remark =
     (case any_base64 (TrimPrefix line ''vmess://'') of
        None \<Rightarrow> \<lparr>pn_Name = remark, pn_Type = ''vmess'', pn_Server = [], pn_Port = 0, pn_Remark = []\<rparr>
      | Some raw \<Rightarrow>
          let v = json_vmess raw
          in \<lparr>pn_Name = (if vm_Ps v = [] then remark else vm_Ps v), pn_Type = ''vmess/'' @ vm_Net v, pn_Server = vm_Add v,
              pn_Port = vm_Port v, pn_Remark = remark\<rparr>)"

definition parseShadowsocksRURI :: "string \<Rightarrow> string \<Rightarrow> parsed_node" where
  "parseShadowsocksRURI line remark =
     (let none = \<lparr>pn_Name = remark, pn_Type = ''ssr'', pn_Server = [], pn_Port = 0, pn_Remark = []\<rparr> in
      case RawStdDecode (TrimPrefix line ''ssr://'') of
        None \<Rightarrow> none
      | Some raw \<Rightarrow>
          (case Split raw (CHR '':'') of
             server # port # _ \<Rightarrow> none\<lparr>pn_Server := server, pn_Port := Sscanf_d port\<rparr>
           | _ \<Rightarrow> none))"

definition parseHysteriaURI :: "string \<Rightarrow> string \<Rightarrow> parsed_node" where
  "parseHysteriaURI line remark =
     parseGenericURI (TrimPrefix (TrimPrefix (TrimPrefix line ''hysteria2://'') ''hy2://'') ''hysteria://'')
       (if HasPrefix line ''hysteria2://'' \<or> HasPrefix line ''hy2://'' then ''hysteria2'' else ''hysteria'') remark"

definition parseWireGuardURI :: "string \<Rightarrow> string \<Rightarrow> parsed_node" where
  "parseWireGuardURI line remark = parseGenericURI (TrimPrefix (TrimPrefix line ''wg://'') ''wireguard://'') ''wireguard'' remark"

definition split_remark :: "string \<Rightarrow> string \<times> string" where
  "split_remark line =
     (let (body, raw) = (case LastIndexByte line (CHR ''#'') of Some i \<Rightarrow> (take i line, drop (Suc i) line) | None \<Rightarrow> (line, []))
      in (body, case QueryUnescape raw of Some r \<Rightarrow> r | None \<Rightarrow> raw))"

definition parseSingleURI :: "(string \<Rightarrow> vmess_fields) \<Rightarrow> string \<Rightarrow> parsed_node" where
  "parseSingleURI json_vmess uri =
     (let (line, remark) = split_remark uri in
      if HasPrefix line ''vmess://'' then parseVmessURI json_vmess line remark
      else if HasPrefix line ''trojan://'' then parseTrojanURI line remark
      else if HasPrefix line ''ss://'' then parseShadowsocksURI line remark
      else if HasPrefix line ''ssr://'' then parseShadowsocksRURI line remark
      else if HasPrefix line ''vless://'' then parseVlessURI line remark
      else if HasPrefix line ''hysteria://'' \<or> HasPrefix line ''hysteria2://'' \<or> HasPrefix line ''hy2://'' then parseHysteriaURI line remark
      else if HasPrefix line ''tuic://'' then parseTUICURI line remark
      else if HasPrefix line ''wg://'' \<or> HasPrefix line ''wireguard://'' then parseWireGuardURI line remark
      else \<lparr>pn_Name = remark, pn_Type = ''unknown'', pn_Server = [], pn_Port = 0, pn_Remark = []\<rparr>)"

definition parsePlainURIs :: "(string \<Rightarrow> vmess_fields) \<Rightarrow> string \<Rightarrow> parsed_node list" where
  "parsePlainURIs json_vmess content =
     filter (\<lambda>n. pn_Name n \<noteq> [])
       (map (parseSingleURI json_vmess) (filter (\<lambda>l. l \<noteq> []) (map TrimSpace (Split content (CHR 0x0A)))))"

definition parseBase64URIs :: "(string \<Rightarrow> vmess_fields) \<Rightarrow> string \<Rightarrow> parsed_node list" where
  "parseBase64URIs json_vmess content =
     (case any_base64 content of None \<Rightarrow> [] | Some text \<Rightarrow> parsePlainURIs json_vmess text)"

definition parseSubscriptionContent ::
  "(string \<Rightarrow> (string \<times> string \<times> string \<times> int) list option) \<Rightarrow> (string \<Rightarrow> vmess_fields) \<Rightarrow> string \<Rightarrow> parsed_node list" where
  "parseSubscriptionContent json_outbounds json_vmess raw =
     (let content = TrimSpace raw in
      if HasPrefix content ''{'' then parseSingboxJSON json_outbounds content
      else if Contains content ''proxies:'' then parseClashYAML content
      else let nodes = parseBase64URIs json_vmess content in
           if nodes \<noteq> [] then nodes else parsePlainURIs json_vmess content)"

subsection \<open>The panel reads its own subscription\<close>

lemma LastIndexByte_last: "c \<notin> set b \<Longrightarrow> LastIndexByte (a @ c # b) c = Some (length a)"
proof -
  assume "c \<notin> set b"
  then have "takeWhile (\<lambda>x. x \<noteq> c) (rev b @ c # rev a) = rev b" by (simp add: takeWhile_append takeWhile_eq_all_conv [THEN iffD2])
  then show ?thesis by (simp add: LastIndexByte_def)
qed

lemma LastIndexByte_none: "c \<notin> set s \<Longrightarrow> LastIndexByte s c = None"
  by (simp add: LastIndexByte_def)

lemma is_digit_printable: "is_digit c \<Longrightarrow> printable c"
  by (simp add: is_digit_def printable_def)

lemma printable_no_space: "printable c \<Longrightarrow> trim_front space_encodings (c # s) = c # s"
proof (rule trim_front_id)
  have "list_all (\<lambda>e. e \<noteq> [] \<and> \<not> printable (hd e)) space_encodings" by code_simp
  then show "printable c \<Longrightarrow> \<forall>e \<in> set space_encodings. e \<noteq> [] \<longrightarrow> \<not> HasPrefix (c # s) e"
    by (fastforce simp: list_all_iff HasPrefix_def neq_Nil_conv)
qed

lemma Sscanf_Itoa: "in_i64 n \<Longrightarrow> Sscanf_d (Itoa n) = n"
proof -
  assume n: "in_i64 n"
  obtain c t where i: "Itoa n = c # t" by (cases "Itoa n") auto
  have "printable c" using Itoa_chars [of c n] i is_digit_printable by (auto simp: printable_def)
  then have f: "trim_front space_encodings (Itoa n) = Itoa n" unfolding i by (rule printable_no_space)
  have d: "takeWhile is_digit (itoa_nat k) = itoa_nat k" for k
    using itoa_nat_digits by (simp add: takeWhile_eq_all_conv)
  obtain x y where m: "itoa_nat (nat n) = x # y" by (cases "itoa_nat (nat n)") auto
  have "Sscanf_d (Itoa n) = (case ParseInt (Itoa n) of None \<Rightarrow> 0 | Some n \<Rightarrow> n)"
  proof (cases "n < 0")
    case True
    then show ?thesis using f by (simp add: Sscanf_d_def Itoa_def d Let_def)
  next
    case False
    with m itoa_nat_hd [OF m] f d [of "nat n"] show ?thesis by (simp add: Sscanf_d_def Itoa_def Let_def)
  qed
  with ParseInt_Itoa [OF n] show ?thesis by simp
qed

text \<open>The row of a node: its name, or its address if it has none, and where it is.\<close>

definition row_of :: "string \<Rightarrow> outbound \<Rightarrow> string \<Rightarrow> parsed_node" where
  "row_of ty ob name = \<lparr>pn_Name = (if name = [] then ob_Server ob else name), pn_Type = ty, pn_Server = ob_Server ob,
     pn_Port = ob_ServerPort ob, pn_Remark = name\<rparr>"

lemma cut_query_stop: "c \<notin> set a \<Longrightarrow> cut_query c (a @ c # b) = a" "c \<notin> set a \<Longrightarrow> cut_query c a = a"
  unfolding cut_query_def by (induction a) auto

lemma generic_row:
  assumes "link_safe (ob_Server ob)" and "in_i64 (ob_ServerPort ob)" and "query = [] \<or> query = CHR 0x3F # Encode q"
  shows "parseGenericURI (auth @ ''@'' @ ob_Server ob @ '':'' @ Itoa (ob_ServerPort ob) @ query) ty name = row_of ty ob name"
proof -
  have parts: "CHR ''#'' \<notin> set t \<and> CHR 0x3F \<notin> set t \<and> CHR ''@'' \<notin> set t \<and> CHR '':'' \<notin> set t" if "link_safe t" for t
    using that link_safe_free by blast
  note free = parts [OF assms(1)] parts [OF link_safe_Itoa]
  have "CHR ''@'' \<notin> set (Encode q)" by (rule Encode_free) simp
  then have "CHR ''@'' \<notin> set (ob_Server ob @ '':'' @ Itoa (ob_ServerPort ob) @ query)" using free assms(3) by auto
  then have i: "LastIndexByte (auth @ CHR ''@'' # ob_Server ob @ '':'' @ Itoa (ob_ServerPort ob) @ query) (CHR ''@'') = Some (length auth)"
    by (rule LastIndexByte_last)
  have q: "cut_query (CHR 0x3F) (ob_Server ob @ CHR '':'' # Itoa (ob_ServerPort ob) @ query) = ob_Server ob @ CHR '':'' # Itoa (ob_ServerPort ob)"
    using assms(3)
  proof
    assume "query = CHR 0x3F # Encode q"
    with cut_query_stop(1) [of "CHR 0x3F" "ob_Server ob @ CHR '':'' # Itoa (ob_ServerPort ob)" "Encode q"] free show ?thesis by simp
  qed (use cut_query_stop(2) free in simp)
  have h: "cut_query (CHR ''#'') (ob_Server ob @ CHR '':'' # Itoa (ob_ServerPort ob)) = ob_Server ob @ CHR '':'' # Itoa (ob_ServerPort ob)"
    using free by (intro cut_query_stop(2)) simp
  have "Split (ob_Server ob @ CHR '':'' # Itoa (ob_ServerPort ob)) (CHR '':'') = [ob_Server ob, Itoa (ob_ServerPort ob)]"
    using free by (simp add: Split_append_sep Split_no_sep)
  with i q h Sscanf_Itoa [OF assms(2)] show ?thesis by (simp add: parseGenericURI_def row_of_def Let_def)
qed

lemma split_remark_link: "split_remark (body @ CHR ''#'' # QueryEscape name) = (body, name)"
  by (simp add: split_remark_def LastIndexByte_last QueryEscape_free Query_roundtrip)

lemma other_scheme:
  assumes "link_safe auth" and "CHR '':'' \<in> set pre" and "CHR ''@'' \<notin> set pre"
  shows "TrimPrefix (auth @ CHR ''@'' # t) pre = auth @ CHR ''@'' # t"
proof -
  have "\<not> HasPrefix (auth @ CHR ''@'' # t) pre"
  proof
    assume "HasPrefix (auth @ CHR ''@'' # t) pre"
    then obtain u where u: "auth @ CHR ''@'' # t = pre @ u" by (auto simp: HasPrefix_iff)
    have "CHR '':'' \<notin> set auth" using assms(1) link_safe_free by blast
    with u assms(2,3) show False by (auto simp: append_eq_append_conv2 append_eq_Cons_conv Cons_eq_append_conv)
  qed
  then show ?thesis by (simp add: TrimPrefix_def)
qed

lemma share_link_row:
  assumes "link_safe (ob_Server ob)" and "in_i64 (ob_ServerPort ob)" and "query = [] \<or> query = CHR 0x3F # Encode q"
    and "scheme \<in> {''ss'', ''trojan'', ''vless'', ''tuic''} \<or> scheme = ''hysteria2'' \<and> link_safe auth"
  shows "parseSingleURI V (share_link scheme auth ob query name) = row_of scheme ob name"
proof -
  define rest where "rest = auth @ ''@'' @ ob_Server ob @ '':'' @ Itoa (ob_ServerPort ob) @ query"
  have row: "parseGenericURI rest ty name = row_of ty ob name" for ty using generic_row [OF assms(1-3)] by (simp add: rest_def)
  have r: "split_remark (share_link scheme auth ob query name) = (scheme @ ''://'' @ rest, name)"
    using split_remark_link [of "scheme @ ''://'' @ rest" name] by (simp add: share_link_def rest_def)
  from assms(4) consider "scheme = ''ss''" | "scheme = ''trojan''" | "scheme = ''vless''" | "scheme = ''tuic''"
    | "scheme = ''hysteria2''" "link_safe auth" by blast
  then show ?thesis
  proof cases
    case 5
    have "TrimPrefix rest ''hy2://'' = rest" "TrimPrefix rest ''hysteria://'' = rest"
      using other_scheme [OF 5(2)] by (simp_all add: rest_def)
    then have "parseHysteriaURI (''hysteria2://'' @ rest) name = row_of ''hysteria2'' ob name"
      unfolding parseHysteriaURI_def TrimPrefix_append by (simp add: row HasPrefix_def)
    then show ?thesis unfolding 5(1) parseSingleURI_def r [unfolded 5(1)] by (simp add: HasPrefix_def)
  qed (unfold parseSingleURI_def r, simp_all add: HasPrefix_def TrimPrefix_def row
      parseTrojanURI_def parseShadowsocksURI_def parseVlessURI_def parseTUICURI_def)
qed

text \<open>A link is one line without white space at its ends.\<close>

lemma plain_printable: "plain c \<Longrightarrow> printable c"
  by (auto simp: plain_def unreserved_def printable_def is_digit_def)

lemma share_link_trim:
  assumes "scheme \<in> {''ss'', ''trojan'', ''vless'', ''hysteria2'', ''tuic''}"
  shows "TrimSpace (share_link scheme auth ob query name) = share_link scheme auth ob query name"
proof (rule TrimSpace_edges)
  have "printable (last (CHR ''#'' # QueryEscape name))"
  proof (cases "QueryEscape name = []")
    case True
    then show ?thesis by (simp add: printable_def)
  next
    case False
    then show ?thesis using plain_printable [OF QueryEscape_plain [OF last_in_set]] by simp
  qed
  then have "printable (last (share_link scheme auth ob query name))" by (simp add: share_link_def)
  moreover have "printable (hd (share_link scheme auth ob query name))" using assms by (auto simp: share_link_def printable_def)
  ultimately show "printable (hd (share_link scheme auth ob query name)) \<and> printable (last (share_link scheme auth ob query name))" by simp
qed

lemma StdEncode_text:
  "TrimSpace (StdEncode s) = StdEncode s" "CHR '':'' \<notin> set (StdEncode s)" "\<not> HasPrefix (StdEncode s) ''{''"
proof -
  have "list_all (\<lambda>c. printable c \<and> c \<noteq> CHR '':'' \<and> c \<noteq> CHR ''{'') (CHR ''='' # std_alphabet)" by code_simp
  then have c: "\<forall>c \<in> set (StdEncode s). printable c \<and> c \<noteq> CHR '':'' \<and> c \<noteq> CHR ''{''"
    using StdEncode_chars by (fastforce simp: list_all_iff)
  then show "TrimSpace (StdEncode s) = StdEncode s" by (intro TrimSpace_printable) (simp add: list_all_iff)
  show "CHR '':'' \<notin> set (StdEncode s)" using c by blast
  show "\<not> HasPrefix (StdEncode s) ''{''" using c by (cases "StdEncode s") (auto simp: HasPrefix_def)
qed

text \<open>What the parser makes of a link the panel writes; \<open>dec\<close> must read what \<open>marshal\<close> writes.\<close>

definition reads_vmess :: "json_marshal \<Rightarrow> (string \<Rightarrow> vmess_fields) \<Rightarrow> bool" where
  "reads_vmess marshal dec \<longleftrightarrow> (\<forall>m raw. marshal (JObj m) = Some raw \<longrightarrow>
     dec raw = \<lparr>vm_Ps = getStr m ''ps'', vm_Add = getStr m ''add'', vm_Port = getInt m ''port'', vm_Net = getStr m ''net''\<rparr>)"

definition shown :: "outbound \<Rightarrow> string \<Rightarrow> parsed_node" where
  "shown ob name =
     (if ob_Type ob = ''vmess'' then
        \<lparr>pn_Name = name, pn_Type = ''vmess/'' @ transportName (ob_Transport ob), pn_Server = ob_Server ob, pn_Port = ob_ServerPort ob, pn_Remark = []\<rparr>
      else row_of (if ob_Type ob = ''shadowsocks'' then ''ss'' else ob_Type ob) ob name)"

lemma any_base64_Std [simp]: "any_base64 (StdEncode s) = Some s"
  by (simp add: any_base64_def Std_roundtrip)

lemma vmess_row:
  assumes "reads_vmess marshal dec" and "vmessURI marshal ob name = Inr link" and "ob_Type ob = ''vmess''" and "name \<noteq> []"
  shows "parseSingleURI dec link = shown ob name \<and> TrimSpace link = link \<and> link \<noteq> []"
proof -
  from assms(2) obtain m raw where m: "marshal (JObj m) = Some raw" "link = ''vmess://'' @ StdEncode raw"
    "getStr m ''ps'' = name" "getStr m ''add'' = ob_Server ob" "getInt m ''port'' = ob_ServerPort ob" "getStr m ''net'' = transportName (ob_Transport ob)"
    by (auto simp: vmessURI_def Let_def getStr_def getInt_def split: if_splits option.splits)
  have "list_all (\<lambda>c. printable c \<and> c \<noteq> CHR ''#'') (CHR ''='' # std_alphabet)" by code_simp
  then have c: "\<forall>c \<in> set (StdEncode raw). printable c \<and> c \<noteq> CHR ''#''"
    using StdEncode_chars by (fastforce simp: list_all_iff)
  then have "list_all printable (''vmess://'' @ StdEncode raw)" by (simp add: list_all_iff printable_def)
  then have t: "TrimSpace link = link" unfolding m(2) by (rule TrimSpace_printable)
  have "LastIndexByte link (CHR ''#'') = None" using c by (intro LastIndexByte_none) (auto simp: m(2))
  then have "split_remark link = (link, [])" by (simp add: split_remark_def)
  then have "parseSingleURI dec link = parseVmessURI dec link []" unfolding parseSingleURI_def by (simp add: m(2) HasPrefix_def)
  moreover have "dec raw = \<lparr>vm_Ps = name, vm_Add = ob_Server ob, vm_Port = ob_ServerPort ob, vm_Net = transportName (ob_Transport ob)\<rparr>"
    using assms(1) m unfolding reads_vmess_def by metis
  moreover have "any_base64 (TrimPrefix link ''vmess://'') = Some raw" unfolding m(2) TrimPrefix_append by simp
  ultimately show ?thesis using t assms(3,4) by (simp add: parseVmessURI_def shown_def m(2))
qed

text \<open>An outbound whose fields the links carry, with an address that needs no escaping.\<close>

definition link_fit :: "outbound \<Rightarrow> bool" where
  "link_fit ob \<longleftrightarrow> link_safe (ob_Server ob) \<and> in_i64 (ob_ServerPort ob)"

lemma ShareURI_row:
  assumes "reads_vmess marshal dec" and "ShareURI unmarshal marshal n = Inr link" and "parseOutbound unmarshal (x_Outbound n) = Inr ob"
    and "link_fit ob" and "x_Name n \<noteq> []"
  shows "parseSingleURI dec link = shown ob (x_Name n) \<and> TrimSpace link = link \<and> link \<noteq> []"
proof -
  have fit: "link_safe (ob_Server ob)" "in_i64 (ob_ServerPort ob)" using assms(4) by (simp_all add: link_fit_def)
  from assms(2,3) consider (vmess) "ob_Type ob = ''vmess''" "vmessURI marshal ob (x_Name n) = Inr link"
    | (other) scheme auth query q where "link = share_link scheme auth ob query (x_Name n)" "query = [] \<or> query = CHR 0x3F # Encode q"
      "scheme \<in> {''ss'', ''trojan'', ''vless'', ''tuic''} \<or> scheme = ''hysteria2'' \<and> link_safe auth"
      "ob_Type ob \<noteq> ''vmess''" "scheme = (if ob_Type ob = ''shadowsocks'' then ''ss'' else ob_Type ob)"
    by (auto simp: ShareURI_def ssURI_def vlessURI_def trojanURI_def hysteria2URI_def tuicURI_def Let_def link_safe_escaped
        split: if_splits)
  then show ?thesis
  proof cases
    case vmess
    from vmess_row [OF assms(1) vmess(2,1) assms(5)] show ?thesis .
  next
    case other
    with share_link_row [OF fit other(2,3), of dec "x_Name n"] share_link_trim [of scheme auth ob query "x_Name n"]
    show ?thesis by (auto simp: shown_def share_link_def)
  qed
qed

text \<open>
  C32: the panel reads its own base64 subscription back. When the subscription the panel exports is put
  into the form of the subscription page, the rows it shows are those of the nodes that have a share link, in
  their order, each with its name, type, address and port, as long as addresses need no escaping, the fields
  without escaping are single lines, and no name is empty.
\<close>

theorem own_subscription_reads_back:
  assumes "reads_vmess marshal dec" and "GenerateBase64 unmarshal marshal nodes = Inr content"
    and "\<forall>n \<in> set nodes. x_Name n \<noteq> [] \<and> (\<forall>ob. parseOutbound unmarshal (x_Outbound n) = Inr ob \<longrightarrow> link_fit ob \<and> one_line_outbound ob)"
  shows "parseSubscriptionContent outbounds dec content =
    [shown ob (x_Name n). n \<leftarrow> nodes, Inr ob \<leftarrow> [parseOutbound unmarshal (x_Outbound n)], Inr link \<leftarrow> [ShareURI unmarshal marshal n]]"
proof -
  let ?links = "[link. Inr link \<leftarrow> map (ShareURI unmarshal marshal) nodes, link \<noteq> []]"
  let ?rows = "\<lambda>ns. [shown ob (x_Name n). n \<leftarrow> ns, Inr ob \<leftarrow> [parseOutbound unmarshal (x_Outbound n)], Inr link \<leftarrow> [ShareURI unmarshal marshal n]]"
  have row: "TrimSpace link = link \<and> link \<noteq> [] \<and> (\<exists>ob. parseOutbound unmarshal (x_Outbound n) = Inr ob \<and>
      parseSingleURI dec link = shown ob (x_Name n) \<and> pn_Name (shown ob (x_Name n)) \<noteq> [])"
    if n: "n \<in> set nodes" and s: "ShareURI unmarshal marshal n = Inr link" for n link
  proof -
    obtain ob where ob: "parseOutbound unmarshal (x_Outbound n) = Inr ob" using s by (auto simp: ShareURI_def split: sum.splits)
    have fit: "link_fit ob" "x_Name n \<noteq> []" using assms(3) n ob by blast+
    have "pn_Name (shown ob (x_Name n)) \<noteq> []" using fit(2) by (simp add: shown_def row_of_def)
    with ob ShareURI_row [OF assms(1) s ob fit] show ?thesis by blast
  qed
  obtain doc where doc: "StdDecode content = Some doc" "Split doc (CHR 0x0A) = ?links" and c: "content = StdEncode doc" "doc \<noteq> []"
  proof -
    have "case GenerateBase64 unmarshal marshal nodes of
        Inl e \<Rightarrow> e = NoExportableNodes \<and> (\<forall>n \<in> set nodes. \<forall>link. ShareURI unmarshal marshal n \<noteq> Inr link \<or> link = [])
      | Inr body \<Rightarrow> (\<exists>doc. StdDecode body = Some doc \<and> Split doc (CHR 0x0A) = ?links)"
      using assms(3) by (intro base64_subscription_lossless) blast
    then obtain doc where t: "StdDecode content = Some doc" "Split doc (CHR 0x0A) = ?links" by (auto simp: assms(2))
    have "content = StdEncode doc" using assms(2) t(1) by (auto simp: GenerateBase64_def Let_def Std_roundtrip split: if_splits)
    moreover have "doc \<noteq> []"
    proof
      assume "doc = []"
      then have "?links = [[]]" using t(2) by (metis Split.simps(1))
      then have "[] \<in> set ?links" by (metis list.set_intros(1))
      moreover have "[] \<notin> set ?links" by (auto split: sum.splits if_splits)
      ultimately show False by blast
    qed
    ultimately show ?thesis using that t by blast
  qed
  have lines: "parsePlainURIs dec doc = ?rows nodes"
  proof -
    have "filter (\<lambda>n. pn_Name n \<noteq> []) (map (parseSingleURI dec) (filter (\<lambda>l. l \<noteq> [])
        (map TrimSpace [link. Inr link \<leftarrow> map (ShareURI unmarshal marshal) ns, link \<noteq> []]))) = ?rows ns"
      if "set ns \<subseteq> set nodes" for ns
      using that
    proof (induction ns)
      case (Cons n ns)
      then have n: "n \<in> set nodes" by simp
      show ?case
      proof (cases "ShareURI unmarshal marshal n")
        case (Inr link)
        from row [OF n Inr] Cons Inr show ?thesis by auto
      qed (use Cons in \<open>auto split: sum.splits\<close>)
    qed simp
    then show ?thesis unfolding parsePlainURIs_def doc(2) by blast
  qed
  have nonempty: "?rows nodes \<noteq> []"
  proof -
    have "?links \<noteq> []" using doc(2) Split_nonempty by metis
    moreover have "?links = []" if "\<forall>n \<in> set nodes. \<forall>link. ShareURI unmarshal marshal n \<noteq> Inr link"
      using that by (auto split: sum.splits)
    ultimately obtain n link where "n \<in> set nodes" "ShareURI unmarshal marshal n = Inr link" by blast
    with row show ?thesis by (fastforce split: sum.splits)
  qed
  have "\<not> Contains content ''proxies:''" using StdEncode_text(2) [of doc] by (auto simp: c(1) Contains_iff)
  then show ?thesis
    using lines nonempty StdEncode_text(1,3) [of doc]
    unfolding parseSubscriptionContent_def c(1) Let_def by (simp add: parseBase64URIs_def)
qed

theorem own_subscription_reads_back_witness:
  "\<exists>content. GenerateBase64 (\<lambda>_. Some (JObj demo_outbound)) (\<lambda>_. None) [\<lparr>x_Name = ''one'', x_Outbound = []\<rparr>] = Inr content \<and>
     parseSubscriptionContent (\<lambda>_. None) (\<lambda>_. \<lparr>vm_Ps = [], vm_Add = [], vm_Port = 0, vm_Net = []\<rparr>) content =
       [\<lparr>pn_Name = ''one'', pn_Type = ''trojan'', pn_Server = ''a.example'', pn_Port = 443, pn_Remark = ''one''\<rparr>]"
proof -
  let ?n = "\<lparr>x_Name = ''one'', x_Outbound = []\<rparr>" and ?u = "\<lambda>_ :: string. Some (JObj demo_outbound)" and ?m = "\<lambda>_ :: json. None"
  let ?dec = "\<lambda>_ :: string. \<lparr>vm_Ps = [], vm_Add = [], vm_Port = 0, vm_Net = []\<rparr>"
  define ob where "ob = outbound_of demo_outbound"
  have f: "ob_Type ob = ''trojan''" "ob_Server ob = ''a.example''" "ob_ServerPort ob = 443" "ob_Password ob = ''p@ss #1''" "ob_UUID ob = []"
    by (simp_all add: ob_def outbound_of_def demo_outbound_def getStr_def getInt_def getMap_def)
  have "getStr demo_outbound ''type'' = ''trojan''" by (simp add: getStr_def demo_outbound_def)
  then have p: "parseOutbound ?u [] = Inr ob" by (simp add: parseOutbound_def ob_def)
  then obtain link where s: "ShareURI ?u ?m ?n = Inr link" "link \<noteq> []"
    using f by (auto simp: ShareURI_def trojanURI_def share_link_def Let_def)
  then obtain content where g: "GenerateBase64 ?u ?m [?n] = Inr content"
    by (simp add: GenerateBase64_def share_uris_def List.map_filter_simps)
  have "link_fit ob" "one_line_outbound ob" using f by (simp_all add: link_fit_def link_safe_def in_i64_def one_line_outbound_def)
  moreover have "reads_vmess ?m ?dec" by (simp add: reads_vmess_def)
  ultimately have "parseSubscriptionContent (\<lambda>_. None) ?dec content = [shown ob ''one'']"
    using own_subscription_reads_back [of ?m ?dec ?u "[?n]" content "\<lambda>_. None"] g p s by simp
  with g f show ?thesis by (simp add: shown_def row_of_def)
qed

end
