(* ===== verification/Spec2Isabelle.thy ===== *)
theory Spec2Isabelle
  imports Auth_Session Auth_Limiter Store_Reach Sampler_Hub Subscribe_Roundtrip Monitor_Icmp Api_Routes Webui_Safety Startup Webui_Parse
begin

text \<open>
  A verification development for singboxhub, a panel that manages sing-box nodes
  (\<^verbatim>\<open>src/backend/internal\<close>, Go).

  The program. The panel keeps accounts, nodes, settings, subscriptions and traffic records in
  a SQL database (\<^verbatim>\<open>store/\<close>). Clients log in and receive signed access and refresh tokens bound
  to rows of the database (\<^verbatim>\<open>auth/\<close>); the JSON routes (\<^verbatim>\<open>api/\<close>) check them and work on the
  store. For every enabled node a worker reads the node's Clash API streams and accumulates
  bytes and addresses, which the hub flushes into the store (\<^verbatim>\<open>sampler/\<close>); a monitor pings the
  nodes and switches bad ones off (\<^verbatim>\<open>monitor/\<close>). Node profiles are downloaded through a guarded
  HTTP client (\<^verbatim>\<open>httpx/ssrf.go\<close>), opened when they are KCE1 envelopes (\<^verbatim>\<open>kce/\<close>), and parsed into
  outbounds; subscriptions export the enabled nodes again (\<^verbatim>\<open>subscribe/\<close>). Secrets rest sealed
  (\<^verbatim>\<open>cryptox/\<close>).

  Theories, from the bottom:
  \<^item> \<open>Hub_Prelude\<close>, \<open>Go_Strings\<close>, \<open>Base64\<close>: 64-bit integers with their wrap-around, saturating
    time differences, string and number functions of Go's library, base64 in both alphabets.
  \<^item> \<open>Store_Schema\<close>, \<open>Store_Accounts\<close>, \<open>Store_Nodes\<close>, \<open>Store_Traffic\<close>, \<open>Store_IPs\<close>,
    \<open>Store_Misc\<close>: the tables as lists of records in one record \<open>db\<close>, and every operation of
    \<^verbatim>\<open>store/*.go\<close> as a function on it, with the errors of the driver as values. \<open>Store_Reach\<close>
    closes the operations to a step relation whose reachable states keep unique keys and sound
    references. The locale \<open>keyset_order\<close> holds what all keyset listings share.
  \<^item> \<open>Auth_Session\<close>, \<open>Auth_Limiter\<close>: \<^verbatim>\<open>auth/*.go\<close>. The token manager is written against the
    interface \<open>refresh_store\<close>; the store provides it.
  \<^item> \<open>Cryptox\<close>, \<open>Kce_Envelope\<close>: \<^verbatim>\<open>cryptox/*.go\<close>, \<^verbatim>\<open>kce/*.go\<close>. The block cipher mode and SHAKE are
    parameters with the laws \<open>aead_ok\<close> and \<open>xof_ok\<close>.
  \<^item> \<open>Sampler_Worker\<close>, \<open>Sampler_Hub\<close>: \<^verbatim>\<open>sampler/*.go\<close>: accumulation, draining, reconnecting, and
    the hub's reload and shutdown; a step relation interleaves frames, reconnects and flushes.
  \<^item> \<open>Httpx_Ssrf\<close>: the outbound request policy of \<^verbatim>\<open>httpx/ssrf.go\<close>, with DNS as a parameter.
  \<^item> \<open>Subscribe_Outbound\<close>, \<open>Subscribe_Import\<close>, \<open>Subscribe_Roundtrip\<close>: share links, Clash and
    sing-box exports, the Clash importer, and the round trip between them.
  \<^item> \<open>Monitor_Icmp\<close>: the rounds of \<^verbatim>\<open>monitor/icmp.go\<close> and their refinement of a specification by
    row.
  \<^item> \<open>Api_Http\<close>: requests, responses and problem documents (\<^verbatim>\<open>httpx/httpx.go\<close>), the helpers of
    \<^verbatim>\<open>api/helpers.go\<close>, the server's state \<open>panel\<close> and its guard (\<^verbatim>\<open>api/server.go\<close>). A handler maps
    a request and the panel to a response and the panel after it. The record \<open>env\<close> collects what
    lies outside the repository. The locales \<open>store_client\<close> (a service whose every effect is a
    run of store operations) and \<open>paged_listing\<close> (a listing that is followed by cursor) carry
    what the routes share.
  \<^item> \<open>Api_Accounts\<close>, \<open>Api_Settings\<close>, \<open>Api_Subscription\<close>, \<open>Api_Nodes\<close>: the routes of
    \<^verbatim>\<open>api/session.go\<close>, \<^verbatim>\<open>users.go\<close>, \<^verbatim>\<open>settings.go\<close>, \<^verbatim>\<open>images.go\<close>, \<^verbatim>\<open>subscription.go\<close>, \<^verbatim>\<open>nodes.go\<close>,
    \<^verbatim>\<open>nodes_util.go\<close>. \<open>Api_Import\<close> proves the profile import, \<open>Api_Node_Routes\<close> the node routes,
    \<open>Api_Panel\<close> the composition of all of them. \<open>Json_Codec\<close> is a concrete JSON codec that shows
    the hypotheses on the codec can hold.
  \<^item> \<open>Clash_Client\<close>: the requests of \<^verbatim>\<open>clash/client.go\<close> and \<^verbatim>\<open>monitor.go\<close> and what the client makes of
    the answers; the network and the JSON decoders are the record \<open>node_net\<close>. \<open>Api_Control\<close>: the
    control, check and latency routes (\<^verbatim>\<open>api/control.go\<close>, \<^verbatim>\<open>latency.go\<close>) over it.
  \<^item> \<open>Geo_Service\<close>: \<^verbatim>\<open>geo/geo.go\<close>. Its sections under the mutex are the steps of a machine that
    interleaves callers, \<open>geo_step\<close>.
  \<^item> \<open>Api_Stats\<close>, \<open>Api_Stats_Routes\<close>: status, traffic, addresses, statistics, charts and the public
    routes (\<^verbatim>\<open>api/monitoring.go\<close>, \<^verbatim>\<open>series.go\<close>), and their theorems.
  \<^item> \<open>Probe_Run\<close>: \<^verbatim>\<open>probe/probe.go\<close> and the background runs of \<^verbatim>\<open>api/monitoring.go\<close>, as the machine
    \<open>probe_step\<close>: requests, the two halves of a run and deletions interleave.
  \<^item> \<open>Http_Mux\<close>: the pattern rules of Go's router as the program uses them. \<open>Api_Routes\<close>: the table
    of \<^verbatim>\<open>api/server.go\<close> with the patterns of \<^verbatim>\<open>webui/server.go\<close>, the error writer of
    \<^verbatim>\<open>api/routing.go\<close> and the middleware of \<^verbatim>\<open>httpx/middleware.go\<close>; its theorems are about the server
    as a whole.
  \<^item> \<open>Go_Text\<close>, \<open>Config_Load\<close>, \<open>Store_Open\<close>, \<open>Startup\<close>: the configuration (\<^verbatim>\<open>config/config.go\<close>), opening and
    migrating the database (\<^verbatim>\<open>store/store.go\<close>), and the start up to the services with the setup page
    of the first start (\<^verbatim>\<open>cmd/panel/*.go\<close>, \<^verbatim>\<open>webui/setup.go\<close>).
  \<^item> \<open>Webui_Session\<close>: cookies, guard, rotation, login and logout of \<^verbatim>\<open>webui/auth.go\<close> and the
    in-process client of \<^verbatim>\<open>webui/client.go\<close>, over the state \<open>site\<close>, the panel with the memory of
    the web interface. \<open>Webui_Safety\<close>: their theorems; tabs interleave as the machine \<open>tab_step\<close>.
  \<^item> \<open>Webui_Parse\<close>: the reader of subscriptions of \<^verbatim>\<open>webui/pages2.go\<close>.

  Conventions. A handler reads the clock once, in nanoseconds; store operations receive it in
  seconds. Random bytes (nonces, token material, UUIDs) are arguments, indexed by the place
  where they are drawn, and \<open>None\<close> is a failing generator. Go's maps are association lists or
  HOL maps; where Go's iteration order is random the result does not depend on it. Integers of
  64 bits are \<open>int\<close> with \<open>i64\<close>, \<open>add64\<close> and \<open>sub64\<close> where the code can overflow; elsewhere a
  bound is a hypothesis.

  Loops are structural recursions, except the search for a free name, which has a termination
  proof and a bound on its tries, and the endless loops of the worker and the monitor, which
  run over a finite list of the events of their environment. \<open>follow_pages\<close>, the client of a
  listing, has fuel; more fuel than rows is enough, as the theorems about listings say. The wait
  for a probe's inbound runs over the turns of its loop and gives \<open>None\<close> when they do not suffice;
  it returns once one of its ends comes about. Bounds of the code: forty lookups a window, so at
  most eighty in any minute; five probes at a time.

  Not modelled: the templates, charts and number formats of the web pages (HTML and SVG text,
  floating point), and the statements of the migrations, which the engine runs. Failures of the database
  engine other than the constraint violations and missing rows the code tells apart are not
  modelled either, nor are two handlers inside one another: requests interleave as whole handlers.
\<close>

end
